(* ===== verification/Prelude.thy ===== *)
theory Prelude
  imports Main "HOL-Library.Word"
begin

text \<open>
  Shared vocabulary of the development.

  \<^item> \<open>goerr\<close>: the values a Go \<open>error\<close> takes in the program (a fresh error, an
    error wrapped by \<open>fmt.Errorf("...: %w", err)\<close>, the operating-system errors the
    code tells apart, a cancelled context, a program that exits with a status or is not found,
    an error of a library outside the repository), and
    \<open>Panicked\<close>, a panic that unwinds the goroutine: the code never recovers, and no step that
    can panic is wrapped without a case for it.
    A fresh error keeps the fixed part of its message and drops interpolated values.
  \<^item> \<open>'a res\<close>: the pair \<open>(value, error)\<close> a Go function returns, as a sum;
    \<open>Inl\<close> is the error.
  \<^item> \<open>andThen\<close>: \<open>if err := m; err != nil { return err }; f\<close> over an explicit state.
    The state of the failing step is kept, because Go does not roll back.
  \<^item> collections of rewrite rules and list lemmas used by several components.
\<close>

named_theorems os_simps "what the modelled system calls read and write"
named_theorems path_simps "lexical path rules"
named_theorems frame_simps "what an operation leaves unchanged"

type_synonym u8 = "8 word"
type_synonym u16 = "16 word"
type_synonym u32 = "32 word"
type_synonym u64 = "64 word"

datatype goerr =
    Errorf string
  | Wrap string goerr
  | ErrNotExist string
  | ErrSyscall string
  | ErrCanceled
  | Panicked string
  | ErrExit int
  | ErrExecNotFound string
  | ErrLib string

type_synonym 'a res = "goerr + 'a"

text \<open>\<open>errors.Is(err, os.ErrNotExist)\<close> and \<open>os.IsNotExist\<close>: the first looks
  through wrapped errors, the second does not.\<close>

fun errIs_NotExist :: "goerr \<Rightarrow> bool" where
  "errIs_NotExist (ErrNotExist p) = True"
| "errIs_NotExist (Wrap m e) = errIs_NotExist e"
| "errIs_NotExist _ = False"

fun os_IsNotExist :: "goerr \<Rightarrow> bool" where
  "os_IsNotExist (ErrNotExist p) = True"
| "os_IsNotExist _ = False"

text \<open>The error at the end of a chain of wrapped errors, which \<open>errors.As\<close> comes to.\<close>

fun errCause :: "goerr \<Rightarrow> goerr" where
  "errCause (Wrap msg e) = errCause e"
| "errCause e = e"

text \<open>\<open>return fmt.Errorf("msg: %w", err)\<close> on the error of a step.\<close>

definition wrapErr :: "string \<Rightarrow> 'a res \<Rightarrow> 'a res" where
  "wrapErr msg r = (case r of Inl e \<Rightarrow> Inl (Wrap msg e) | Inr a \<Rightarrow> Inr a)"

definition ok :: "'a res \<Rightarrow> bool" where
  "ok r = (case r of Inl _ \<Rightarrow> False | Inr _ \<Rightarrow> True)"

lemma ok_simps [simp]: "ok (Inr a)" "\<not> ok (Inl e)"
  by (simp_all add: ok_def)

lemma ok_iff: "ok r \<longleftrightarrow> (\<exists>a. r = Inr a)"
  by (cases r) auto

lemma wrapErr_simps [simp]:
  "wrapErr m (Inl e) = Inl (Wrap m e)"
  "wrapErr m (Inr a) = Inr a"
  by (simp_all add: wrapErr_def)

lemma wrapErr_eq_Inr [simp]: "wrapErr m r = Inr a \<longleftrightarrow> r = Inr a"
  by (cases r) auto

lemma ok_wrapErr [simp]: "ok (wrapErr m r) \<longleftrightarrow> ok r"
  by (cases r) auto

text \<open>Sequencing of steps that read and write a state and may fail.\<close>

type_synonym ('s, 'a) proc = "'s \<Rightarrow> 'a res \<times> 's"

definition andThen :: "('s, 'a) proc \<Rightarrow> ('a \<Rightarrow> ('s, 'b) proc) \<Rightarrow> ('s, 'b) proc" where
  "andThen m f s = (case m s of (Inl e, s') \<Rightarrow> (Inl e, s') | (Inr a, s') \<Rightarrow> f a s')"

definition succeed :: "'a \<Rightarrow> ('s, 'a) proc" where
  "succeed a s = (Inr a, s)"

definition failWith :: "goerr \<Rightarrow> ('s, 'a) proc" where
  "failWith e s = (Inl e, s)"

definition wrapping :: "string \<Rightarrow> ('s, 'a) proc \<Rightarrow> ('s, 'a) proc" where
  "wrapping msg m s = (case m s of (r, s') \<Rightarrow> (wrapErr msg r, s'))"

definition modifyState :: "('s \<Rightarrow> 's) \<Rightarrow> ('s, unit) proc" where
  "modifyState f s = (Inr (), f s)"

definition lift :: "'a res \<Rightarrow> ('s, 'a) proc" where
  "lift r s = (r, s)"

lemmas proc_defs = andThen_def succeed_def failWith_def wrapping_def modifyState_def lift_def

lemma andThen_Inr_iff:
  "andThen m f s = (Inr b, t) \<longleftrightarrow> (\<exists>a u. m s = (Inr a, u) \<and> f a u = (Inr b, t))"
  by (auto simp: andThen_def split: prod.splits sum.splits)

lemma andThen_InlI: "m s = (Inl e, t) \<Longrightarrow> andThen m f s = (Inl e, t)"
  by (simp add: andThen_def)

lemma andThen_InrI: "m s = (Inr a, u) \<Longrightarrow> andThen m f s = f a u"
  by (simp add: andThen_def)

lemma andThen_succeed [simp]: "andThen (succeed a) f = f a"
  by (rule ext) (simp add: proc_defs)

lemma andThen_modify [simp]: "andThen (modifyState g) f s = f () (g s)"
  by (simp add: proc_defs)

lemma andThen_failWith [simp]: "andThen (failWith e) f = failWith e"
  by (rule ext) (simp add: proc_defs)

lemma wrapping_Inr_iff [simp]: "wrapping msg m s = (Inr a, t) \<longleftrightarrow> m s = (Inr a, t)"
  by (auto simp: wrapping_def split: prod.splits)

lemma succeed_iff [simp]: "succeed a s = (r, t) \<longleftrightarrow> r = Inr a \<and> t = s"
  by (auto simp: succeed_def)

lemma failWith_iff [simp]: "failWith e s = (r, t) \<longleftrightarrow> r = Inl e \<and> t = s"
  by (auto simp: failWith_def)

lemma lift_iff [simp]: "lift r s = (r', t) \<longleftrightarrow> r = r' \<and> t = s"
  by (auto simp: lift_def)

lemma modifyState_iff [simp]: "modifyState f s = (r, t) \<longleftrightarrow> r = Inr () \<and> t = f s"
  by (auto simp: modifyState_def)

text \<open>A property of the state that every step keeps is kept by the whole sequence, on the
  error paths too.\<close>

definition preserves :: "('s \<Rightarrow> bool) \<Rightarrow> ('s, 'a) proc \<Rightarrow> bool" where
  "preserves P m \<longleftrightarrow> (\<forall>s. P s \<longrightarrow> P (snd (m s)))"

lemma preservesI: "(\<And>s. P s \<Longrightarrow> P (snd (m s))) \<Longrightarrow> preserves P m"
  by (simp add: preserves_def)

lemma preservesD: "preserves P m \<Longrightarrow> P s \<Longrightarrow> m s = (r, t) \<Longrightarrow> P t"
  by (metis preserves_def snd_conv)

lemma preserves_andThen [intro]:
  assumes "preserves P m" and "\<And>a. preserves P (f a)"
  shows "preserves P (andThen m f)"
  using assms by (force simp: preserves_def andThen_def split: prod.splits sum.splits)

lemma preserves_wrapping [intro]: "preserves P m \<Longrightarrow> preserves P (wrapping msg m)"
  by (force simp: preserves_def wrapping_def split: prod.splits)

lemma preserves_pure [intro, simp]:
  "preserves P (succeed a)" "preserves P (failWith e)" "preserves P (lift r)"
  by (auto simp: preserves_def proc_defs)

lemma preserves_modify: "(\<And>s. P s \<Longrightarrow> P (f s)) \<Longrightarrow> preserves P (modifyState f)"
  by (simp add: preserves_def modifyState_def)

subsection \<open>Lists\<close>

lemma takeWhile_neq_append:
  "x \<notin> set xs \<Longrightarrow> takeWhile (\<lambda>y. y \<noteq> x) (xs @ x # ys) = xs"
  by (induction xs) auto

lemma dropWhile_neq_append:
  "x \<notin> set xs \<Longrightarrow> dropWhile (\<lambda>y. y \<noteq> x) (xs @ x # ys) = x # ys"
  by (induction xs) auto

lemma takeWhile_neq_all: "x \<notin> set xs \<Longrightarrow> takeWhile (\<lambda>y. y \<noteq> x) xs = xs"
  by (induction xs) auto

lemma dropWhile_neq_all: "x \<notin> set xs \<Longrightarrow> dropWhile (\<lambda>y. y \<noteq> x) xs = []"
  by (induction xs) auto

lemma distinct_map_add_index: "inj f \<Longrightarrow> distinct (map f [0..<n])"
  by (simp add: distinct_map inj_on_def inj_def)

text \<open>\<open>m\<close> as a finite Go map: an association list whose keys are distinct.\<close>

definition keys :: "('k \<times> 'v) list \<Rightarrow> 'k list" where
  "keys m = map fst m"

lemma map_of_distinct_mem:
  "distinct (keys m) \<Longrightarrow> (k, v) \<in> set m \<longleftrightarrow> map_of m k = Some v"
  unfolding keys_def by (rule map_of_eq_Some_iff [symmetric])

lemma keys_simps [simp]: "keys [] = []" "keys (p # m) = fst p # keys m"
  "keys (m @ m') = keys m @ keys m'"
  by (simp_all add: keys_def)

lemma map_of_None_keys: "map_of m k = None \<longleftrightarrow> k \<notin> set (keys m)"
  by (induction m) auto

subsection \<open>Loops over lists\<close>

fun forEach :: "('a \<Rightarrow> ('s, unit) proc) \<Rightarrow> 'a list \<Rightarrow> ('s, unit) proc" where
  "forEach f [] = succeed ()"
| "forEach f (x # xs) = andThen (f x) (\<lambda>_. forEach f xs)"

end
