(* ===== verification/Go_Strings.thy ===== *)
theory Go_Strings
  imports Prelude
begin

text \<open>
  The functions of Go's \<open>strings\<close> and \<open>strconv\<close> packages the program calls, over
  byte strings (\<open>string\<close>, a list of bytes). White space is the ASCII white space of
  \<open>unicode.IsSpace\<close> and case folding is ASCII folding: the multi-byte spaces and
  letters that Go also recognises are outside the model.
\<close>

definition isSpace :: "char \<Rightarrow> bool" where
  "isSpace c \<longleftrightarrow> c \<in> {CHR '' '', CHR 0x09, CHR 0x0A, CHR 0x0B, CHR 0x0C, CHR 0x0D}"

definition TrimSpace :: "string \<Rightarrow> string" where
  "TrimSpace s = rev (dropWhile isSpace (rev (dropWhile isSpace s)))"

definition HasPrefix :: "string \<Rightarrow> string \<Rightarrow> bool" where
  "HasPrefix s p \<longleftrightarrow> take (length p) s = p"

definition TrimPrefix :: "string \<Rightarrow> string \<Rightarrow> string" where
  "TrimPrefix s p = (if HasPrefix s p then drop (length p) s else s)"

fun Contains :: "string \<Rightarrow> string \<Rightarrow> bool" where
  "Contains [] p = (p = [])"
| "Contains (c # s) p = (HasPrefix (c # s) p \<or> Contains s p)"

text \<open>\<open>strings.Cut(s, sep)\<close> for a one-byte separator: text before, text after, found.\<close>

definition Cut :: "string \<Rightarrow> char \<Rightarrow> string \<times> string \<times> bool" where
  "Cut s c =
     (if c \<in> set s
      then (takeWhile (\<lambda>x. x \<noteq> c) s, tl (dropWhile (\<lambda>x. x \<noteq> c) s), True)
      else (s, [], False))"

text \<open>\<open>strings.Split(s, sep)\<close> for a one-byte separator.\<close>

fun Split :: "string \<Rightarrow> char \<Rightarrow> string list" where
  "Split [] c = [[]]"
| "Split (x # s) c =
     (if x = c then [] # Split s c
      else case Split s c of [] \<Rightarrow> [[x]] | p # ps \<Rightarrow> (x # p) # ps)"

text \<open>\<open>strings.SplitN(s, sep, 2)\<close>.\<close>

definition SplitN2 :: "string \<Rightarrow> char \<Rightarrow> string list" where
  "SplitN2 s c = (case Cut s c of (a, b, found) \<Rightarrow> if found then [a, b] else [a])"

text \<open>\<open>strings.Join(parts, sep)\<close> for a one-byte separator.\<close>

fun JoinWith :: "char \<Rightarrow> string list \<Rightarrow> string" where
  "JoinWith c [] = []"
| "JoinWith c [p] = p"
| "JoinWith c (p # q # ps) = p @ c # JoinWith c (q # ps)"

definition lowerChar :: "char \<Rightarrow> char" where
  "lowerChar c =
     (if 65 \<le> (of_char c :: nat) \<and> (of_char c :: nat) \<le> 90
      then char_of ((of_char c :: nat) + 32) else c)"

definition ToLower :: "string \<Rightarrow> string" where
  "ToLower s = map lowerChar s"

definition EqualFold :: "string \<Rightarrow> string \<Rightarrow> bool" where
  "EqualFold s t \<longleftrightarrow> ToLower s = ToLower t"

text \<open>\<open>strconv.FormatUint(n, 10)\<close> and \<open>%d\<close>.\<close>

definition digitChar :: "nat \<Rightarrow> char" where
  "digitChar d = char_of (48 + d)"

fun Itoa :: "nat \<Rightarrow> string" where
  "Itoa n = (if n < 10 then [digitChar n] else Itoa (n div 10) @ [digitChar (n mod 10)])"

declare Itoa.simps [simp del]

text \<open>\<open>strconv.ParseUint(s, 10, bits)\<close>: digits only, not empty, in range.\<close>

definition isDigit :: "char \<Rightarrow> bool" where
  "isDigit c \<longleftrightarrow> 48 \<le> (of_char c :: nat) \<and> (of_char c :: nat) \<le> 57"

definition digitsVal :: "string \<Rightarrow> nat" where
  "digitsVal s = foldl (\<lambda>n c. 10 * n + (of_char c - 48)) 0 s"

definition ParseUint :: "nat \<Rightarrow> string \<Rightarrow> nat res" where
  "ParseUint bits s =
     (if s = [] \<or> \<not> list_all isDigit s then Inl (Errorf ''invalid syntax'')
      else if digitsVal s < 2 ^ bits then Inr (digitsVal s)
      else Inl (Errorf ''value out of range''))"

subsection \<open>Evaluation\<close>

text \<open>Code equations over binary integers, which evaluate much faster than unary naturals.\<close>

lemmas of_char_int = of_nat_of_char [where 'a = int, symmetric]

lemma isDigit_code [code]:
  "isDigit c \<longleftrightarrow> (let n = (of_char c :: int) in 48 \<le> n \<and> n \<le> 57)"
  unfolding isDigit_def Let_def of_char_int by simp

lemma lowerChar_code [code]:
  "lowerChar c = (let n = (of_char c :: int) in if 65 \<le> n \<and> n \<le> 90 then char_of (n + 32) else c)"
proof -
  have "char_of (int (of_char c) + 32) = char_of ((of_char c :: nat) + 32)"
    using char_of_nat [where 'a = int, of "of_char c + 32"] by simp
  then show ?thesis unfolding lowerChar_def Let_def of_char_int by simp
qed

subsection \<open>White space\<close>

lemma TrimSpace_Nil [simp]: "TrimSpace [] = []"
  by (simp add: TrimSpace_def)

lemma dropWhile_last_keeps:
  "s \<noteq> [] \<Longrightarrow> \<not> P (last s) \<Longrightarrow> dropWhile P (rev s) = rev s"
  by (cases s rule: rev_cases) auto

lemma TrimSpace_id:
  assumes "s \<noteq> []" and "\<not> isSpace (hd s)" and "\<not> isSpace (last s)"
  shows "TrimSpace s = s"
proof -
  have "dropWhile isSpace s = s"
    using assms(1,2) by (cases s) auto
  then show ?thesis
    using dropWhile_last_keeps [of s isSpace] assms by (simp add: TrimSpace_def)
qed

lemma hd_dropWhile_not: "dropWhile P s \<noteq> [] \<Longrightarrow> \<not> P (hd (dropWhile P s))"
  by (induction s) (auto split: if_splits)

text \<open>A trimmed string is empty or starts and ends with a byte that is no space.\<close>

lemma TrimSpace_ends:
  assumes "TrimSpace s \<noteq> []"
  shows "\<not> isSpace (hd (TrimSpace s)) \<and> \<not> isSpace (last (TrimSpace s))"
proof -
  let ?l = "dropWhile isSpace s"
  let ?t = "dropWhile isSpace (rev ?l)"
  have ne: "?t \<noteq> []" using assms by (simp add: TrimSpace_def)
  have last: "\<not> isSpace (last (TrimSpace s))"
    using hd_dropWhile_not [OF ne] ne by (simp add: TrimSpace_def last_rev)
  obtain u where u: "rev ?l = u @ ?t"
    using takeWhile_dropWhile_id [of isSpace "rev ?l"] by metis
  have l: "?l = rev ?t @ rev u"
    using u by (metis rev_append rev_rev_ident)
  have "?l \<noteq> []" using ne by (metis dropWhile.simps(1) rev.simps(1))
  then have "\<not> isSpace (hd ?l)" by (rule hd_dropWhile_not)
  moreover have "hd ?l = hd (TrimSpace s)"
    unfolding TrimSpace_def using l ne by (metis hd_append2 rev_is_Nil_conv)
  ultimately show ?thesis using last by simp
qed

lemma TrimSpace_idem [simp]: "TrimSpace (TrimSpace s) = TrimSpace s"
  using TrimSpace_ends [of s] TrimSpace_id [of "TrimSpace s"]
  by (cases "TrimSpace s = []") auto

lemma TrimSpace_subset: "set (TrimSpace s) \<subseteq> set s"
  by (auto simp: TrimSpace_def dest!: set_dropWhileD)

subsection \<open>Prefixes\<close>

lemma HasPrefix_append [simp]: "HasPrefix (p @ s) p"
  by (simp add: HasPrefix_def)

lemma HasPrefix_iff: "HasPrefix s p \<longleftrightarrow> (\<exists>t. s = p @ t)"
  by (metis HasPrefix_append HasPrefix_def append_take_drop_id)

lemma HasPrefix_Nil [simp]: "HasPrefix s []"
  by (simp add: HasPrefix_def)

lemma HasPrefix_Cons [simp]:
  "HasPrefix (a # s) (b # p) \<longleftrightarrow> a = b \<and> HasPrefix s p"
  "\<not> HasPrefix [] (b # p)"
  by (auto simp: HasPrefix_def)

lemma Contains_HasPrefix: "HasPrefix s p \<Longrightarrow> Contains s p"
  by (cases s) (auto simp: HasPrefix_def)

lemma Contains_append [simp]: "Contains (p @ s) p"
  by (rule Contains_HasPrefix) simp

lemma Contains_iff: "Contains s p \<longleftrightarrow> (\<exists>u v. s = u @ p @ v)"
proof (induction s)
  case Nil
  then show ?case by auto
next
  case (Cons c s)
  show ?case
  proof
    assume "Contains (c # s) p"
    then consider "HasPrefix (c # s) p" | "Contains s p" by auto
    then show "\<exists>u v. c # s = u @ p @ v"
    proof cases
      case 1
      then obtain t where "c # s = p @ t" by (auto simp: HasPrefix_iff)
      then have "c # s = [] @ p @ t" by simp
      then show ?thesis by blast
    next
      case 2
      then obtain u v where "s = u @ p @ v" using Cons.IH by blast
      then have "c # s = (c # u) @ p @ v" by simp
      then show ?thesis by blast
    qed
  next
    assume "\<exists>u v. c # s = u @ p @ v"
    then obtain u v where e: "c # s = u @ p @ v" by blast
    show "Contains (c # s) p"
    proof (cases u)
      case Nil
      then show ?thesis using e by (auto simp: HasPrefix_iff)
    next
      case (Cons a u')
      then have "s = u' @ p @ v" using e by simp
      then show ?thesis using Cons.IH by auto
    qed
  qed
qed

subsection \<open>Cutting, splitting and joining\<close>

lemma Cut_append [simp]: "c \<notin> set a \<Longrightarrow> Cut (a @ c # b) c = (a, b, True)"
  by (simp add: Cut_def takeWhile_neq_append dropWhile_neq_append)

lemma Cut_none [simp]: "c \<notin> set s \<Longrightarrow> Cut s c = (s, [], False)"
  by (simp add: Cut_def)

lemma Cut_found: "Cut s c = (a, b, True) \<longleftrightarrow> c \<notin> set a \<and> s = a @ c # b"
proof
  assume h: "Cut s c = (a, b, True)"
  then have c: "c \<in> set s" by (auto simp: Cut_def split: if_splits)
  then obtain u v where "s = u @ c # v" and "c \<notin> set u"
    by (meson split_list_first)
  then show "c \<notin> set a \<and> s = a @ c # b" using h by simp
qed simp

lemma Split_not_Nil [simp]: "Split s c \<noteq> []"
  by (cases s) (auto split: list.splits)

lemma Split_no_sep [simp]: "c \<notin> set s \<Longrightarrow> Split s c = [s]"
  by (induction s) auto

lemma Split_append: "c \<notin> set a \<Longrightarrow> Split (a @ c # s) c = a # Split s c"
  by (induction a) auto

lemma Split_no_sep_in_parts: "p \<in> set (Split s c) \<Longrightarrow> c \<notin> set p"
  by (induction s c arbitrary: p rule: Split.induct) (auto split: list.splits if_splits)

lemma JoinWith_Cons: "ps \<noteq> [] \<Longrightarrow> JoinWith c (p # ps) = p @ c # JoinWith c ps"
  by (cases ps) auto

lemma JoinWith_Split [simp]: "JoinWith c (Split s c) = s"
proof (induction s c rule: Split.induct)
  case (2 x s c)
  show ?case
  proof (cases "x = c")
    case True
    with 2 show ?thesis by (simp add: JoinWith_Cons)
  next
    case False
    obtain p ps where sp: "Split s c = p # ps"
      by (cases "Split s c") auto
    with 2 False have ih: "JoinWith c (p # ps) = s" by simp
    have "JoinWith c ((x # p) # ps) = x # JoinWith c (p # ps)"
      by (cases ps) auto
    with False sp ih show ?thesis by simp
  qed
qed simp

lemma Split_JoinWith:
  "ps \<noteq> [] \<Longrightarrow> (\<And>p. p \<in> set ps \<Longrightarrow> c \<notin> set p) \<Longrightarrow> Split (JoinWith c ps) c = ps"
  by (induction c ps rule: JoinWith.induct) (auto simp: Split_append)

subsection \<open>Decimal numbers\<close>

lemma of_char_digitChar: "d < 10 \<Longrightarrow> (of_char (digitChar d) :: nat) = 48 + d"
  by (simp add: digitChar_def)

lemma isDigit_digitChar: "d < 10 \<Longrightarrow> isDigit (digitChar d)"
  by (simp add: isDigit_def of_char_digitChar)

lemma digitsVal_snoc: "digitsVal (s @ [c]) = 10 * digitsVal s + (of_char c - 48)"
  by (simp add: digitsVal_def)

lemma Itoa_not_Nil [simp]: "Itoa n \<noteq> []"
  by (subst Itoa.simps) simp

lemma Itoa_digits: "list_all isDigit (Itoa n)"
proof (induction n rule: Itoa.induct)
  case (1 n)
  then show ?case
    by (cases "n < 10") (simp_all add: Itoa.simps [of n] isDigit_digitChar)
qed

lemma digitsVal_Itoa [simp]: "digitsVal (Itoa n) = n"
proof (induction n rule: Itoa.induct)
  case (1 n)
  show ?case
  proof (cases "n < 10")
    case True
    then show ?thesis
      by (simp add: Itoa.simps [of n] digitsVal_def of_char_digitChar)
  next
    case False
    with 1 have "digitsVal (Itoa (n div 10)) = n div 10" by simp
    with False show ?thesis
      by (simp add: Itoa.simps [of n] digitsVal_snoc of_char_digitChar)
  qed
qed

lemma ParseUint_Itoa: "n < 2 ^ bits \<Longrightarrow> ParseUint bits (Itoa n) = Inr n"
  by (simp add: ParseUint_def Itoa_digits)

lemma Itoa_inj: "Itoa m = Itoa n \<longleftrightarrow> m = n"
  by (metis digitsVal_Itoa)

lemma colon_notin_Itoa: "CHR '':'' \<notin> set (Itoa n)"
  using Itoa_digits [of n] by (auto simp: list_all_iff isDigit_def)

end
