(* ===== verification/Go_Path.thy ===== *)
theory Go_Path
  imports Go_Strings
begin

text \<open>
  Go's \<open>path/filepath\<close> on Unix: the lexical functions \<open>Clean\<close>, \<open>Join\<close>, \<open>Dir\<close>,
  \<open>Base\<close>, \<open>Ext\<close>, \<open>Split\<close>, \<open>IsAbs\<close> and \<open>Abs\<close>. \<open>Clean\<close> is the documented
  algorithm over the list of path elements: drop empty and \<open>.\<close> elements, let \<open>..\<close>
  remove the element before it, keep leading \<open>..\<close> in a relative path and drop it in a
  rooted one. \<open>Abs\<close> takes the working directory as an argument.
\<close>

abbreviation sep :: char where "sep \<equiv> CHR ''/''"

definition IsAbs :: "string \<Rightarrow> bool" where
  "IsAbs p \<longleftrightarrow> HasPrefix p ''/''"

fun cleanElems :: "bool \<Rightarrow> string list \<Rightarrow> string list \<Rightarrow> string list" where
  "cleanElems rooted st [] = rev st"
| "cleanElems rooted st (e # es) =
     (if e = [] \<or> e = ''.'' then cleanElems rooted st es
      else if e = ''..'' then
        (case st of
           t # ts \<Rightarrow> if t = ''..'' then cleanElems rooted (e # st) es else cleanElems rooted ts es
         | [] \<Rightarrow> if rooted then cleanElems rooted [] es else cleanElems rooted [e] es)
      else cleanElems rooted (e # st) es)"

definition renderPath :: "bool \<Rightarrow> string list \<Rightarrow> string" where
  "renderPath rooted es =
     (if rooted then sep # JoinWith sep es else if es = [] then ''.'' else JoinWith sep es)"

definition Clean :: "string \<Rightarrow> string" where
  "Clean p =
     (if p = [] then ''.''
      else renderPath (IsAbs p) (cleanElems (IsAbs p) [] (Split p sep)))"

definition Join :: "string list \<Rightarrow> string" where
  "Join es =
     (case dropWhile (\<lambda>e. e = []) es of
        [] \<Rightarrow> []
      | es' \<Rightarrow> Clean (JoinWith sep es'))"

text \<open>\<open>filepath.Split\<close>: the directory with its trailing separator, and the file.\<close>

definition SplitPath :: "string \<Rightarrow> string \<times> string" where
  "SplitPath p =
     (rev (dropWhile (\<lambda>c. c \<noteq> sep) (rev p)), rev (takeWhile (\<lambda>c. c \<noteq> sep) (rev p)))"

definition Dir :: "string \<Rightarrow> string" where
  "Dir p = Clean (fst (SplitPath p))"

definition Base :: "string \<Rightarrow> string" where
  "Base p =
     (if p = [] then ''.''
      else let t = rev (dropWhile (\<lambda>c. c = sep) (rev p))
           in if t = [] then ''/'' else snd (SplitPath t))"

definition Ext :: "string \<Rightarrow> string" where
  "Ext p =
     (let f = snd (SplitPath p)
      in if CHR ''.'' \<in> set f
         then CHR ''.'' # rev (takeWhile (\<lambda>c. c \<noteq> CHR ''.'') (rev f)) else [])"

definition Abs :: "string \<Rightarrow> string \<Rightarrow> string" where
  "Abs wd p = (if IsAbs p then Clean p else Join [wd, p])"

subsection \<open>Clean paths\<close>

text \<open>Elements that \<open>Clean\<close> leaves alone: names, and \<open>..\<close> only at the front of a
  relative path.\<close>

definition nameElem :: "string \<Rightarrow> bool" where
  "nameElem e \<longleftrightarrow> e \<noteq> [] \<and> e \<noteq> ''.'' \<and> e \<noteq> ''..'' \<and> sep \<notin> set e"

fun normalElems :: "bool \<Rightarrow> string list \<Rightarrow> bool" where
  "normalElems rooted [] = True"
| "normalElems rooted (e # es) =
     (if e = ''..'' \<and> \<not> rooted then normalElems rooted es
      else list_all nameElem (e # es))"

definition cleanPath :: "string \<Rightarrow> bool" where
  "cleanPath p \<longleftrightarrow> Clean p = p"

lemma normalElems_rooted [simp]: "normalElems True es = list_all nameElem es"
  by (cases es) auto

lemma nameElem_no_sep: "nameElem e \<Longrightarrow> sep \<notin> set e"
  by (simp add: nameElem_def)

lemma normalElems_no_sep: "normalElems r es \<Longrightarrow> e \<in> set es \<Longrightarrow> sep \<notin> set e"
  by (induction es) (auto simp: list_all_iff nameElem_def split: if_splits)

lemma normalElems_not_Nil: "normalElems r es \<Longrightarrow> [] \<notin> set es"
  by (induction es) (auto simp: list_all_iff nameElem_def split: if_splits)

lemma cleanElems_names:
  "list_all nameElem es \<Longrightarrow> cleanElems r st es = rev st @ es"
  by (induction es arbitrary: st) (auto simp: nameElem_def)

lemma cleanElems_normal_rel:
  "normalElems False es \<Longrightarrow> set st \<subseteq> {''..''} \<Longrightarrow> cleanElems False st es = rev st @ es"
proof (induction es arbitrary: st)
  case (Cons e es)
  show ?case
  proof (cases "e = ''..''")
    case True
    with Cons show ?thesis by (auto split: list.splits)
  next
    case False
    with Cons.prems have "list_all nameElem (e # es)" by simp
    then show ?thesis by (rule cleanElems_names)
  qed
qed simp

lemma cleanElems_normal [simp]: "normalElems r es \<Longrightarrow> cleanElems r [] es = es"
  by (cases r) (simp_all add: cleanElems_names cleanElems_normal_rel)

text \<open>The stack of \<open>cleanElems\<close>, read bottom up, stays normal.\<close>

lemma normalElems_snoc_name:
  "normalElems r es \<Longrightarrow> nameElem e \<Longrightarrow> normalElems r (es @ [e])"
  by (induction es) (auto simp: nameElem_def)

lemma normalElems_butlast: "normalElems r (es @ [e]) \<Longrightarrow> normalElems r es"
  by (induction es) (auto split: if_splits)

lemma normalElems_dotdots:
  "normalElems r (es @ [''..'']) \<Longrightarrow> normalElems r (es @ [''..'', ''..''])"
  by (induction es) (auto simp: nameElem_def split: if_splits)

lemma cleanElems_is_normal:
  "normalElems r (rev st) \<Longrightarrow> (\<And>e. e \<in> set es \<Longrightarrow> sep \<notin> set e) \<Longrightarrow>
   normalElems r (cleanElems r st es)"
proof (induction r st es rule: cleanElems.induct)
  case (2 r st e es)
  show ?case
  proof (cases "e = [] \<or> e = ''.''")
    case True
    with 2 show ?thesis by auto
  next
    case notdot: False
    show ?thesis
    proof (cases "e = ''..''")
      case True
      with notdot 2 show ?thesis
        by (cases st)
          (auto dest: normalElems_butlast normalElems_dotdots)
    next
      case False
      with notdot 2 have "nameElem e" by (simp add: nameElem_def)
      with notdot False 2 show ?thesis
        by (auto intro: normalElems_snoc_name)
    qed
  qed
qed simp

lemma IsAbs_simps [path_simps, simp]:
  "IsAbs (c # p) \<longleftrightarrow> c = sep" "\<not> IsAbs []"
  by (auto simp: IsAbs_def)

lemma IsAbs_append [simp]: "IsAbs p \<Longrightarrow> IsAbs (p @ q)"
  by (cases p) auto

lemma hd_JoinWith: "es \<noteq> [] \<Longrightarrow> hd es \<noteq> [] \<Longrightarrow> hd (JoinWith c es) = hd (hd es)"
  by (cases es rule: remdups_adj.cases) (auto simp: JoinWith_Cons)

lemma JoinWith_eq_Nil: "JoinWith c es = [] \<longleftrightarrow> es = [] \<or> es = [[]]"
  by (induction c es rule: JoinWith.induct) auto

lemma IsAbs_JoinWith:
  "es \<noteq> [] \<Longrightarrow> hd es \<noteq> [] \<Longrightarrow> IsAbs (JoinWith sep es) \<longleftrightarrow> IsAbs (hd es)"
  by (cases "JoinWith sep es"; cases "hd es")
    (auto simp: JoinWith_eq_Nil dest: hd_JoinWith [where c = sep])

lemma renderPath_props:
  assumes "normalElems r es"
  shows "renderPath r es \<noteq> []" and "IsAbs (renderPath r es) \<longleftrightarrow> r"
    and "cleanElems r [] (Split (renderPath r es) sep) = es"
proof -
  have nosep: "\<And>e. e \<in> set es \<Longrightarrow> sep \<notin> set e"
    using assms by (rule normalElems_no_sep)
  have nn: "[] \<notin> set es" using assms by (rule normalElems_not_Nil)
  have hdne: "es \<noteq> [] \<Longrightarrow> hd es \<noteq> []" using nn by (cases es) auto
  show "renderPath r es \<noteq> []"
    using nn by (auto simp: renderPath_def JoinWith_eq_Nil)
  have "es \<noteq> [] \<Longrightarrow> \<not> IsAbs (hd es)"
    using nosep [of "hd es"] by (cases es; cases "hd es") auto
  then show "IsAbs (renderPath r es) \<longleftrightarrow> r"
    using hdne by (auto simp: renderPath_def IsAbs_JoinWith)
  show "cleanElems r [] (Split (renderPath r es) sep) = es"
  proof (cases "es = []")
    case True
    then show ?thesis by (simp add: renderPath_def)
  next
    case False
    then have "Split (JoinWith sep es) sep = es"
      using nosep by (rule Split_JoinWith)
    then show ?thesis using assms False by (cases r) (simp_all add: renderPath_def)
  qed
qed

lemma Clean_renderPath: "normalElems r es \<Longrightarrow> Clean (renderPath r es) = renderPath r es"
  using renderPath_props [of r es] by (simp add: Clean_def)

text \<open>Every cleaned path is the rendering of normal elements.\<close>

lemma Clean_as_render:
  "\<exists>es. normalElems (IsAbs p) es \<and> Clean p = renderPath (IsAbs p) es"
proof (cases "p = []")
  case True
  have "normalElems (IsAbs []) [] \<and> Clean [] = renderPath (IsAbs []) []"
    by (simp add: Clean_def renderPath_def)
  then show ?thesis using True by blast
next
  case False
  have "normalElems (IsAbs p) (cleanElems (IsAbs p) [] (Split p sep))"
    by (rule cleanElems_is_normal) (auto dest: Split_no_sep_in_parts)
  then show ?thesis using False by (auto simp: Clean_def)
qed

lemma Clean_idem [simp]: "Clean (Clean p) = Clean p"
  using Clean_as_render [of p] Clean_renderPath by metis

lemma Clean_not_Nil [simp]: "Clean p \<noteq> []"
  using Clean_as_render [of p] renderPath_props(1) by metis

lemma IsAbs_Clean [simp]: "IsAbs (Clean p) \<longleftrightarrow> IsAbs p"
  using Clean_as_render [of p] renderPath_props(2) by metis

lemma Clean_abs_form:
  assumes "IsAbs p"
  obtains es where "list_all nameElem es" and "Clean p = sep # JoinWith sep es"
  using Clean_as_render [of p] assms by (auto simp: renderPath_def)

subsection \<open>Joining names below a directory\<close>

lemma cleanElems_append:
  "cleanElems r st (xs @ ys) = cleanElems r (rev (cleanElems r st xs)) ys"
  by (induction r st xs rule: cleanElems.induct) (auto split: list.splits)

lemma Split_snoc: "Split (p @ c # q) c = Split p c @ Split q c"
  by (induction p) (auto split: list.splits)

lemma Join_names:
  assumes "IsAbs w" and "ns \<noteq> []" and "list_all nameElem ns"
  shows "Join (w # ns) =
    sep # JoinWith sep (cleanElems True [] (Split w sep) @ ns)"
proof -
  have w: "w \<noteq> []" using assms(1) by auto
  have nosep: "\<And>e. e \<in> set ns \<Longrightarrow> sep \<notin> set e"
    using assms(3) by (auto simp: list_all_iff nameElem_def)
  have "JoinWith sep (w # ns) = w @ sep # JoinWith sep ns"
    using assms(2) by (rule JoinWith_Cons)
  moreover have "Split (w @ sep # JoinWith sep ns) sep = Split w sep @ ns"
    using Split_JoinWith [OF assms(2) nosep] by (simp add: Split_snoc)
  ultimately show ?thesis
    using assms w
    by (simp add: Join_def Clean_def renderPath_def cleanElems_append cleanElems_names)
qed

lemma JoinWith_append:
  "xs \<noteq> [] \<Longrightarrow> ys \<noteq> [] \<Longrightarrow> JoinWith c (xs @ ys) = JoinWith c xs @ c # JoinWith c ys"
  by (induction c xs rule: JoinWith.induct) (auto simp: JoinWith_Cons)

text \<open>The directory prefix below which the names land: the cleaned directory, without the
  doubled separator when it is the root.\<close>

definition under :: "string \<Rightarrow> string \<Rightarrow> bool" where
  "under d p \<longleftrightarrow> HasPrefix p (if d = ''/'' then ''/'' else d @ ''/'') \<and> p \<noteq> d"

lemma Join_names_under:
  assumes "IsAbs w" and "ns \<noteq> []" and "list_all nameElem ns"
  shows "under (Clean w) (Join (w # ns))"
    and "Join (w # ns) =
      (if Clean w = ''/'' then [] else Clean w) @ sep # JoinWith sep ns"
proof -
  let ?es = "cleanElems True [] (Split w sep)"
  have w: "w \<noteq> []" using assms(1) by auto
  have cw: "Clean w = sep # JoinWith sep ?es"
    using assms(1) w by (simp add: Clean_def renderPath_def)
  have "normalElems True ?es"
    by (rule cleanElems_is_normal) (auto dest: Split_no_sep_in_parts)
  then have nn: "[] \<notin> set ?es" by (rule normalElems_not_Nil)
  have "JoinWith sep ?es = [] \<longleftrightarrow> ?es = []"
    using nn JoinWith_eq_Nil [of sep ?es] by force
  then have root: "Clean w = ''/'' \<longleftrightarrow> ?es = []"
    unfolding cw by simp
  show eq: "Join (w # ns) =
      (if Clean w = ''/'' then [] else Clean w) @ sep # JoinWith sep ns"
    using Join_names [OF assms] cw root assms(2)
    by (cases "?es = []") (simp_all add: JoinWith_append)
  have "JoinWith sep ns \<noteq> []"
    using assms(2,3) by (auto simp: JoinWith_eq_Nil nameElem_def)
  then show "under (Clean w) (Join (w # ns))"
    using eq by (auto simp: under_def HasPrefix_iff)
qed

lemma Join_names_inj:
  assumes "IsAbs w" and "ns \<noteq> []" and "list_all nameElem ns"
    and "ms \<noteq> []" and "list_all nameElem ms"
  shows "Join (w # ns) = Join (w # ms) \<longleftrightarrow> ns = ms"
proof
  assume "Join (w # ns) = Join (w # ms)"
  then have "JoinWith sep ns = JoinWith sep ms"
    using Join_names_under(2) [OF assms(1-3)] Join_names_under(2) [OF assms(1,4,5)] by simp
  then show "ns = ms"
    using Split_JoinWith [of ns sep] Split_JoinWith [of ms sep] assms
    by (metis list_all_iff nameElem_no_sep)
qed simp

lemma IsAbs_Join_names:
  "IsAbs w \<Longrightarrow> ns \<noteq> [] \<Longrightarrow> list_all nameElem ns \<Longrightarrow> IsAbs (Join (w # ns))"
  by (simp add: Join_names)

lemma Clean_Join [simp]: "Join es \<noteq> [] \<Longrightarrow> Clean (Join es) = Join es"
  unfolding Join_def by (cases "dropWhile (\<lambda>e. e = []) es") (simp_all del: dropWhile_eq_Nil_conv)

lemma IsAbs_Abs: "IsAbs wd \<Longrightarrow> IsAbs (Abs wd p)"
proof (cases "IsAbs p")
  case False
  assume wd: "IsAbs wd"
  then have "wd \<noteq> []" by auto
  moreover have "IsAbs (wd @ sep # p)" using wd by simp
  ultimately show ?thesis using False by (simp add: Abs_def Join_def)
qed (simp add: Abs_def)

lemma Clean_Abs: "IsAbs wd \<Longrightarrow> Clean (Abs wd p) = Abs wd p"
proof (cases "IsAbs p")
  case False
  assume "IsAbs wd"
  then have "Join [wd, p] \<noteq> []"
    using IsAbs_Abs [of wd p] False by (auto simp: Abs_def)
  then show ?thesis using False by (simp add: Abs_def)
qed (simp add: Abs_def)

lemma Abs_Abs [simp]: "IsAbs wd \<Longrightarrow> Abs wd (Abs wd p) = Abs wd p"
  using IsAbs_Abs [of wd p] Clean_Abs [of wd p] by (simp add: Abs_def [of wd "Abs wd p"])

lemma Abs_Clean: "IsAbs p \<Longrightarrow> Abs wd (Clean p) = Clean p"
  by (simp add: Abs_def)

end
