(* ===== verification/Define.thy ===== *)
theory Define
  imports Go_Path
begin

text \<open>
  Package \<open>pkg/define\<close>: the constants shared by host and guest, the virtual machine
  description \<open>define.Machine\<close> with its parts, the run modes and log levels, and the
  readiness signals.

  A readiness signal is a \<open>sync.Once\<close> and a channel. The program never sends on the
  channel, it only closes it, so the channel's state is whether it is closed; closing a
  closed channel panics in Go, which is \<open>None\<close> here. The interface \<open>once_signal\<close> says
  what the four \<open>Signal...\<close> methods promise their callers, and each method is an
  interpretation of it.
\<close>

subsection \<open>Constants (const.go, flags.go, flags_legacy.go, struct.go)\<close>

datatype RunMode = ContainerMode | RunModeOther int

fun RunMode_String :: "RunMode \<Rightarrow> string" where
  "RunMode_String ContainerMode = ''container''"
| "RunMode_String (RunModeOther _) = ''unknown''"

text \<open>\<open>VNetMode\<close> is a string type: any string is a value, two are known.\<close>

type_synonym VNetMode = string

definition GVISOR :: VNetMode where "GVISOR = ''gvisor''"
definition TSI :: VNetMode where "TSI = ''tsi''"

definition BuiltinBusybox :: string where "BuiltinBusybox = ''/.bin/busybox''"
definition GuestAgentPathInGuest :: string where "GuestAgentPathInGuest = ''/.bin/guest-agent''"
definition GuestHiddenBinDir :: string where "GuestHiddenBinDir = ''/.bin''"
definition VMConfigFilePathInGuest :: string where "VMConfigFilePathInGuest = ''/vmconfig.json''"
definition HostDomainInGVPNet :: string where "HostDomainInGVPNet = ''host.containers.internal''"
definition VarDiskMountPoint :: string where "VarDiskMountPoint = ''/var''"
definition DefaultRawDiskVersion :: string where "DefaultRawDiskVersion = ''v1-0-0-ovm''"
definition DefaultGuestUser :: string where "DefaultGuestUser = ''root''"
definition UnspecifiedAddress :: string where "UnspecifiedAddress = ''0.0.0.0''"
definition GuestIP :: string where "GuestIP = ''192.168.127.2''"
definition LocalHost :: string where "LocalHost = ''127.0.0.1''"
definition DefaultVSockPort :: nat where "DefaultVSockPort = 25882"
definition SSHLocalForwardListenPort :: nat where "SSHLocalForwardListenPort = 6123"
definition ServiceNamePodman :: string where "ServiceNamePodman = ''podman''"
definition ServiceNameSSH :: string where "ServiceNameSSH = ''ssh''"
definition ServiceNameGuestNetwork :: string where "ServiceNameGuestNetwork = ''guest-network''"
definition EnvLogLevel :: string where "EnvLogLevel = ''LOG_LEVEL''"
definition VarDataDiskUUID :: string where
  "VarDataDiskUUID = ''162cf68f-93c7-49ad-be53-45ed0e9fe42b''"
definition OVMSourceDiskUUID :: string where
  "OVMSourceDiskUUID = ''44f7d1c0-122c-4402-a20e-c1166cbbad6d''"
definition DefaultOVMSessionID :: string where "DefaultOVMSessionID = ''oomol-studio-19452''"
definition XattrDiskVersionKey :: string where "XattrDiskVersionKey = ''user.vm.rawdisk.version''"

lemma vnet_modes_differ [simp]: "GVISOR \<noteq> TSI" "TSI \<noteq> GVISOR" "GVISOR \<noteq> []" "TSI \<noteq> []"
  by (simp_all add: GVISOR_def TSI_def)

subsection \<open>Log levels (loglevel.go)\<close>

text \<open>An \<open>int32\<close> with six named values.\<close>

datatype Loglevel = OFF | ERROR | WARN | INFO | DEBUG | TRACE | LoglevelOther int

fun Loglevel_String :: "Loglevel \<Rightarrow> string" where
  "Loglevel_String OFF = ''OFF''"
| "Loglevel_String ERROR = ''ERROR''"
| "Loglevel_String WARN = ''WARN''"
| "Loglevel_String DEBUG = ''DEBUG''"
| "Loglevel_String TRACE = ''TRACE''"
| "Loglevel_String INFO = ''INFO''"
| "Loglevel_String (LoglevelOther _) = ''OFF''"

definition LogLevelStr2Type :: "string \<Rightarrow> Loglevel" where
  "LogLevelStr2Type str =
     (if str = ''OFF'' then OFF
      else if str = ''ERROR'' then ERROR
      else if str = ''WARN'' then WARN
      else if str = ''DEBUG'' then DEBUG
      else if str = ''TRACE'' then TRACE
      else if str = ''INFO'' then INFO
      else OFF)"

subsection \<open>The machine description (struct.go)\<close>

record Cmdline =
  cl_Envs :: "string list"
  cl_Bin :: string
  cl_Args :: "string list"
  cl_WorkDir :: string

record Mount =
  mnt_ReadOnly :: bool
  mnt_Source :: string
  mnt_Tag :: string
  mnt_Target :: string
  mnt_Type :: string
  mnt_Opts :: string
  mnt_UUID :: string

record SSHInfo =
  HostSSHPrivateKeyFile :: string
  HostSSHPublicKey :: string
  HostSSHPrivateKey :: string
  HostSSHProxyListenAddr :: string
  GuestSSHServerListenAddr :: string
  GuestSSHPrivateKeyFile :: string
  GuestSSHAuthorizedKeys :: string
  GuestSSHPidFile :: string

record ProxySetting =
  ps_HTTPProxy :: string
  ps_HTTPSProxy :: string
  ps_Use :: bool

record BlkDev =
  bd_FsType :: string
  bd_UUID :: string
  bd_Path :: string
  bd_MountTo :: string

record PodmanInfo =
  HostPodmanProxyAddr :: string
  GuestPodmanAPIListenAddr :: string
  GuestPodmanRunWithEnvs :: "string list"

record GuestAgentCfg =
  ga_Workdir :: string
  ga_Args :: "string list"
  ga_Env :: "string list"

text \<open>\<open>IgnitionServerCfg\<close> has one field, its listen address, which stands for it here;
  \<open>UnixSocketForwards\<close> is a Go map, an association list with distinct keys.\<close>

record MachineSpec =
  WorkspaceDir :: string
  MemoryInMB :: u64
  Cpus :: u8
  RootFS :: string
  BlkDevs :: "BlkDev list"
  GVPCtlAddr :: string
  GVPVNetAddr :: string
  VirtualNetworkMode :: VNetMode
  LogFile :: string
  Mounts :: "Mount list"
  SSHInfo :: SSHInfo
  PodmanInfo :: PodmanInfo
  VMCtlAddr :: string
  spec_RunMode :: string
  IgnitionListenSockAddr :: string
  GuestAgentCfg :: GuestAgentCfg
  spec_Cmdline :: Cmdline
  ProxySetting :: ProxySetting
  UnixSocketForwards :: "(string \<times> string) list"
  TTY :: bool

definition emptySSHInfo :: SSHInfo where
  "emptySSHInfo = \<lparr>HostSSHPrivateKeyFile = [], HostSSHPublicKey = [], HostSSHPrivateKey = [],
     HostSSHProxyListenAddr = [], GuestSSHServerListenAddr = [], GuestSSHPrivateKeyFile = [],
     GuestSSHAuthorizedKeys = [], GuestSSHPidFile = []\<rparr>"

text \<open>The zero value of a \<open>MachineSpec\<close>.\<close>

definition emptyMachine :: MachineSpec where
  "emptyMachine = \<lparr>WorkspaceDir = [], MemoryInMB = 0, Cpus = 0, RootFS = [], BlkDevs = [],
     GVPCtlAddr = [], GVPVNetAddr = [], VirtualNetworkMode = [], LogFile = [], Mounts = [],
     SSHInfo = emptySSHInfo,
     PodmanInfo = \<lparr>HostPodmanProxyAddr = [], GuestPodmanAPIListenAddr = [],
                   GuestPodmanRunWithEnvs = []\<rparr>,
     VMCtlAddr = [], spec_RunMode = [], IgnitionListenSockAddr = [],
     GuestAgentCfg = \<lparr>ga_Workdir = [], ga_Args = [], ga_Env = []\<rparr>,
     spec_Cmdline = \<lparr>cl_Envs = [], cl_Bin = [], cl_Args = [], cl_WorkDir = []\<rparr>,
     ProxySetting = \<lparr>ps_HTTPProxy = [], ps_HTTPSProxy = [], ps_Use = False\<rparr>,
     UnixSocketForwards = [], TTY = False\<rparr>"

subsection \<open>Readiness signals (readiness.go)\<close>

record latch =
  once_done :: bool
  chan_closed :: bool

record Readiness =
  SSHReady :: latch
  PodmanReady :: latch
  VNetHostReady :: latch
  VNetGuestReady :: latch

definition newLatch :: latch where
  "newLatch = \<lparr>once_done = False, chan_closed = False\<rparr>"

definition NewReadiness :: Readiness where
  "NewReadiness = \<lparr>SSHReady = newLatch, PodmanReady = newLatch,
     VNetHostReady = newLatch, VNetGuestReady = newLatch\<rparr>"

text \<open>\<open>once.Do(func() { close(ch); first = true }); return first\<close>; \<open>None\<close> is the panic
  of closing a closed channel.\<close>

definition signalLatch :: "latch \<Rightarrow> (bool \<times> latch) option" where
  "signalLatch l =
     (if once_done l then Some (False, l)
      else if chan_closed l then None
      else Some (True, \<lparr>once_done = True, chan_closed = True\<rparr>))"

definition SignalSSHReady :: "Readiness \<Rightarrow> (bool \<times> Readiness) option" where
  "SignalSSHReady r =
     map_option (\<lambda>(first, l). (first, r\<lparr>SSHReady := l\<rparr>)) (signalLatch (SSHReady r))"

definition SignalPodmanAPIProxyReady :: "Readiness \<Rightarrow> (bool \<times> Readiness) option" where
  "SignalPodmanAPIProxyReady r =
     map_option (\<lambda>(first, l). (first, r\<lparr>PodmanReady := l\<rparr>)) (signalLatch (PodmanReady r))"

definition SignalVNetHostReady :: "Readiness \<Rightarrow> (bool \<times> Readiness) option" where
  "SignalVNetHostReady r =
     map_option (\<lambda>(first, l). (first, r\<lparr>VNetHostReady := l\<rparr>)) (signalLatch (VNetHostReady r))"

definition SignalVNetGuestReady :: "Readiness \<Rightarrow> (bool \<times> Readiness) option" where
  "SignalVNetGuestReady r =
     map_option (\<lambda>(first, l). (first, r\<lparr>VNetGuestReady := l\<rparr>)) (signalLatch (VNetGuestReady r))"

text \<open>The once-flag and the channel agree: the channel is closed exactly when the once ran.\<close>

definition latch_ok :: "latch \<Rightarrow> bool" where
  "latch_ok l \<longleftrightarrow> (once_done l \<longleftrightarrow> chan_closed l)"

definition readiness_ok :: "Readiness \<Rightarrow> bool" where
  "readiness_ok r \<longleftrightarrow> latch_ok (SSHReady r) \<and> latch_ok (PodmanReady r) \<and>
     latch_ok (VNetHostReady r) \<and> latch_ok (VNetGuestReady r)"

lemma NewReadiness_ok [simp]: "readiness_ok NewReadiness"
  by (simp add: readiness_ok_def NewReadiness_def newLatch_def latch_ok_def)

text \<open>What a one-shot signal promises: it never panics, the first call reports \<open>True\<close>
  and closes the channel, later calls report \<open>False\<close> and change nothing.\<close>

locale once_signal =
  fixes signal :: "'s \<Rightarrow> (bool \<times> 's) option"
    and closed :: "'s \<Rightarrow> bool"
    and invar :: "'s \<Rightarrow> bool"
  assumes signal_first:
      "invar s \<Longrightarrow> \<not> closed s \<Longrightarrow> \<exists>s'. signal s = Some (True, s') \<and> closed s' \<and> invar s'"
    and signal_again: "invar s \<Longrightarrow> closed s \<Longrightarrow> signal s = Some (False, s)"
begin

primrec calls :: "nat \<Rightarrow> 's \<Rightarrow> (bool list \<times> 's) option" where
  "calls 0 s = Some ([], s)"
| "calls (Suc n) s =
     (case signal s of
        None \<Rightarrow> None
      | Some (b, s') \<Rightarrow>
          (case calls n s' of None \<Rightarrow> None | Some (bs, t) \<Rightarrow> Some (b # bs, t)))"

lemma calls_closed: "invar s \<Longrightarrow> closed s \<Longrightarrow> calls n s = Some (replicate n False, s)"
  by (induction n) (simp_all add: signal_again)

lemma calls_once:
  assumes "invar s" and "\<not> closed s"
  shows "\<exists>t. calls (Suc n) s = Some (True # replicate n False, t) \<and> closed t \<and> invar t"
proof -
  obtain s' where "signal s = Some (True, s')" and "closed s'" and "invar s'"
    using signal_first [OF assms] by blast
  then show ?thesis by (simp add: calls_closed)
qed

lemma signal_closes:
  assumes "invar s"
  obtains b s' where "signal s = Some (b, s')" and "closed s'" and "invar s'"
    and "b \<longleftrightarrow> \<not> closed s"
  using assms signal_first [of s] signal_again [of s] by (cases "closed s") auto

end

lemmas signal_defs = SignalSSHReady_def SignalPodmanAPIProxyReady_def SignalVNetHostReady_def
  SignalVNetGuestReady_def signalLatch_def readiness_ok_def latch_ok_def

interpretation ssh_signal: once_signal SignalSSHReady "\<lambda>r. chan_closed (SSHReady r)" readiness_ok
  by unfold_locales (auto simp: signal_defs)

interpretation podman_signal: once_signal SignalPodmanAPIProxyReady
  "\<lambda>r. chan_closed (PodmanReady r)" readiness_ok
  by unfold_locales (auto simp: signal_defs)

interpretation vnethost_signal: once_signal SignalVNetHostReady
  "\<lambda>r. chan_closed (VNetHostReady r)" readiness_ok
  by unfold_locales (auto simp: signal_defs)

interpretation vnetguest_signal: once_signal SignalVNetGuestReady
  "\<lambda>r. chan_closed (VNetGuestReady r)" readiness_ok
  by unfold_locales (auto simp: signal_defs)

text \<open>A signal touches its own channel only.\<close>

lemma signal_frames [frame_simps]:
  "SignalSSHReady r = Some (b, r') \<Longrightarrow>
     PodmanReady r' = PodmanReady r \<and> VNetHostReady r' = VNetHostReady r \<and>
     VNetGuestReady r' = VNetGuestReady r"
  "SignalPodmanAPIProxyReady r = Some (b, r') \<Longrightarrow>
     SSHReady r' = SSHReady r \<and> VNetHostReady r' = VNetHostReady r \<and>
     VNetGuestReady r' = VNetGuestReady r"
  "SignalVNetHostReady r = Some (b, r') \<Longrightarrow>
     SSHReady r' = SSHReady r \<and> PodmanReady r' = PodmanReady r \<and>
     VNetGuestReady r' = VNetGuestReady r"
  "SignalVNetGuestReady r = Some (b, r') \<Longrightarrow>
     SSHReady r' = SSHReady r \<and> PodmanReady r' = PodmanReady r \<and>
     VNetHostReady r' = VNetHostReady r"
  by (auto simp: signal_defs split: if_splits)

end
