(* ===== verification/Go_OS.thy ===== *)
theory Go_OS
  imports Go_Path "HOL-Library.AList"
begin

text \<open>
  The part of the operating system the host program uses: a file tree, the working and home
  directories, advisory file locks, free TCP ports and fresh UUIDs.

  \<^item> The tree is a finite map from clean absolute paths to nodes. The root always exists.
    A symbolic link is followed at the last component of a path (at most 40 links, like
    Linux); links in the middle of a path are not followed.
  \<^item> \<open>os_fault call path\<close> says which system calls fail for a reason outside the model
    (permissions, a full disk, an I/O error). Every call consults it first.
  \<^item> \<open>os_ports\<close> are the kernel's successive answers to a request for a free TCP port and
    \<open>os_uuids\<close> the successive results of \<open>uuid.NewString\<close>.

  File modes, owners and times are not modelled.
\<close>

datatype node =
    File (file_content: string) (file_xattrs: "(string \<times> string) list")
  | Directory
  | Symlink string
  | SocketNode

record OS =
  os_fs :: "(string \<times> node) list"
  os_cwd :: string
  os_home :: "string res"
  os_fault :: "string \<Rightarrow> string \<Rightarrow> bool"
  os_ports :: "u16 list"
  os_uuids :: "string list"
  os_locks :: "string list"

definition osKey :: "OS \<Rightarrow> string \<Rightarrow> string" where
  "osKey s p = Abs (os_cwd s) p"

definition nodeAt :: "OS \<Rightarrow> string \<Rightarrow> node option" where
  "nodeAt s k = (if k = [sep] then Some Directory else map_of (os_fs s) k)"

definition setNode :: "string \<Rightarrow> node \<Rightarrow> OS \<Rightarrow> OS" where
  "setNode k n s = s\<lparr>os_fs := AList.update k n (os_fs s)\<rparr>"

definition delNode :: "string \<Rightarrow> OS \<Rightarrow> OS" where
  "delNode k s = s\<lparr>os_fs := AList.delete k (os_fs s)\<rparr>"

primrec follow :: "nat \<Rightarrow> OS \<Rightarrow> string \<Rightarrow> string option" where
  "follow 0 s k = (case nodeAt s k of Some (Symlink t) \<Rightarrow> None | _ \<Rightarrow> Some k)"
| "follow (Suc n) s k =
     (case nodeAt s k of
        Some (Symlink t) \<Rightarrow> follow n s (if IsAbs t then Clean t else Join [Dir k, t])
      | _ \<Rightarrow> Some k)"

definition maxLinks :: nat where "maxLinks = 40"

text \<open>The directories on the way to \<open>k\<close>, from the top, the root left out.\<close>

definition pathElems :: "string \<Rightarrow> string list" where
  "pathElems k = filter (\<lambda>e. e \<noteq> []) (Split k sep)"

definition dirChain :: "string \<Rightarrow> string list" where
  "dirChain k = map (\<lambda>i. renderPath True (take i (pathElems k))) [1..<Suc (length (pathElems k))]"

definition isDirAt :: "OS \<Rightarrow> string \<Rightarrow> bool" where
  "isDirAt s k =
     (case follow maxLinks s k of None \<Rightarrow> False | Some k' \<Rightarrow> nodeAt s k' = Some Directory)"

text \<open>The error of a path that names nothing: \<open>ENOTDIR\<close> when something on the way is no
  directory, \<open>ENOENT\<close> otherwise.\<close>

definition absent :: "OS \<Rightarrow> string \<Rightarrow> goerr" where
  "absent s k =
     (if list_ex (\<lambda>d. nodeAt s d \<noteq> None \<and> \<not> isDirAt s d) (butlast (dirChain k))
      then ErrSyscall ''ENOTDIR'' else ErrNotExist k)"

subsection \<open>System calls\<close>

definition os_Stat :: "string \<Rightarrow> (OS, node) proc" where
  "os_Stat p s =
     (let k = osKey s p
      in (if p = [] then Inl (ErrNotExist p)
          else if os_fault s ''stat'' k then Inl (ErrSyscall ''stat'')
          else case follow maxLinks s k of
                 None \<Rightarrow> Inl (ErrSyscall ''ELOOP'')
               | Some k' \<Rightarrow> (case nodeAt s k' of None \<Rightarrow> Inl (absent s k') | Some n \<Rightarrow> Inr n),
          s))"

definition os_Lstat :: "string \<Rightarrow> (OS, node) proc" where
  "os_Lstat p s =
     (let k = osKey s p
      in (if p = [] then Inl (ErrNotExist p)
          else if os_fault s ''lstat'' k then Inl (ErrSyscall ''lstat'')
          else case nodeAt s k of None \<Rightarrow> Inl (absent s k) | Some n \<Rightarrow> Inr n,
          s))"

fun mkdirChain :: "string list \<Rightarrow> (OS, unit) proc" where
  "mkdirChain [] s = (Inr (), s)"
| "mkdirChain (d # ds) s =
     (if isDirAt s d then mkdirChain ds s
      else if nodeAt s d \<noteq> None then (Inl (ErrSyscall ''ENOTDIR''), s)
      else if os_fault s ''mkdir'' d then (Inl (ErrSyscall ''mkdir''), s)
      else mkdirChain ds (setNode d Directory s))"

definition os_MkdirAll :: "string \<Rightarrow> (OS, unit) proc" where
  "os_MkdirAll p s =
     (if p = [] then (Inl (ErrNotExist p), s) else mkdirChain (dirChain (osKey s p)) s)"

definition os_Chdir :: "string \<Rightarrow> (OS, unit) proc" where
  "os_Chdir p s =
     (if p = [] then (Inl (ErrNotExist p), s)
      else if isDirAt s (osKey s p) then (Inr (), s\<lparr>os_cwd := osKey s p\<rparr>)
      else (Inl (absent s (osKey s p)), s))"

definition hasChild :: "OS \<Rightarrow> string \<Rightarrow> bool" where
  "hasChild s k \<longleftrightarrow> list_ex (\<lambda>(q, _). under k q) (os_fs s)"

definition os_Remove :: "string \<Rightarrow> (OS, unit) proc" where
  "os_Remove p s =
     (let k = osKey s p
      in if p = [] then (Inl (ErrNotExist p), s)
         else if os_fault s ''remove'' k \<or> k = [sep] then (Inl (ErrSyscall ''remove''), s)
         else case nodeAt s k of
                None \<Rightarrow> (Inl (absent s k), s)
              | Some n \<Rightarrow>
                  if n = Directory \<and> hasChild s k then (Inl (ErrSyscall ''ENOTEMPTY''), s)
                  else (Inr (), delNode k s))"

definition os_RemoveAll :: "string \<Rightarrow> (OS, unit) proc" where
  "os_RemoveAll p s =
     (let k = osKey s p
      in if p = [] then (Inr (), s)
         else if os_fault s ''remove'' k then (Inl (ErrSyscall ''remove''), s)
         else (Inr (), s\<lparr>os_fs := filter (\<lambda>(q, _). \<not> (q = k \<or> under k q)) (os_fs s)\<rparr>))"

text \<open>\<open>os.WriteFile\<close> and \<open>os.OpenFile(O_CREATE)\<close>: \<open>upd\<close> gives the content from the old
  one (\<open>None\<close> when the file is new). Extended attributes of an existing file stay.\<close>

definition openWrite :: "string \<Rightarrow> (string option \<Rightarrow> string) \<Rightarrow> (OS, unit) proc" where
  "openWrite p upd s =
     (let k = osKey s p
      in if p = [] then (Inl (ErrNotExist p), s)
         else if os_fault s ''open'' k then (Inl (ErrSyscall ''open''), s)
         else case follow maxLinks s k of
                None \<Rightarrow> (Inl (ErrSyscall ''ELOOP''), s)
              | Some k' \<Rightarrow>
                  (case nodeAt s k' of
                     Some (File c xs) \<Rightarrow> (Inr (), setNode k' (File (upd (Some c)) xs) s)
                   | None \<Rightarrow>
                       if isDirAt s (Dir k') then (Inr (), setNode k' (File (upd None) []) s)
                       else (Inl (absent s k'), s)
                   | Some _ \<Rightarrow> (Inl (ErrSyscall ''open''), s)))"

definition os_WriteFile :: "string \<Rightarrow> string \<Rightarrow> (OS, unit) proc" where
  "os_WriteFile p data = openWrite p (\<lambda>_. data)"

definition os_OpenAppend :: "string \<Rightarrow> (OS, unit) proc" where
  "os_OpenAppend p = openWrite p (\<lambda>old. case old of None \<Rightarrow> [] | Some c \<Rightarrow> c)"

definition os_ReadFile :: "string \<Rightarrow> (OS, string) proc" where
  "os_ReadFile p s =
     (let k = osKey s p
      in (if p = [] then Inl (ErrNotExist p)
          else if os_fault s ''open'' k then Inl (ErrSyscall ''open'')
          else case follow maxLinks s k of
                 None \<Rightarrow> Inl (ErrSyscall ''ELOOP'')
               | Some k' \<Rightarrow>
                   (case nodeAt s k' of
                      Some (File c xs) \<Rightarrow> Inr c
                    | None \<Rightarrow> Inl (absent s k')
                    | Some _ \<Rightarrow> Inl (ErrSyscall ''read'')),
          s))"

text \<open>\<open>os.Truncate(path, 0)\<close> on an existing file.\<close>

definition os_Truncate0 :: "string \<Rightarrow> (OS, unit) proc" where
  "os_Truncate0 p s =
     (case os_ReadFile p s of
        (Inl e, _) \<Rightarrow> (Inl e, s)
      | (Inr c, _) \<Rightarrow> openWrite p (\<lambda>_. []) s)"

definition os_Symlink :: "string \<Rightarrow> string \<Rightarrow> (OS, unit) proc" where
  "os_Symlink target p s =
     (let k = osKey s p
      in if p = [] \<or> target = [] then (Inl (ErrNotExist p), s)
         else if os_fault s ''symlink'' k then (Inl (ErrSyscall ''symlink''), s)
         else if nodeAt s k \<noteq> None then (Inl (ErrSyscall ''EEXIST''), s)
         else if isDirAt s (Dir k) then (Inr (), setNode k (Symlink target) s)
         else (Inl (absent s k), s))"

text \<open>Extended attributes: \<open>getxattr(2)\<close> and \<open>setxattr(2)\<close> on a regular file.\<close>

definition sys_Getxattr :: "string \<Rightarrow> string \<Rightarrow> (OS, string) proc" where
  "sys_Getxattr p key s =
     (let k = osKey s p
      in (if os_fault s ''getxattr'' k then Inl (ErrSyscall ''getxattr'')
          else case follow maxLinks s k of
                 None \<Rightarrow> Inl (ErrSyscall ''ELOOP'')
               | Some k' \<Rightarrow>
                   (case nodeAt s k' of
                      Some (File c xs) \<Rightarrow>
                        (case map_of xs key of
                           None \<Rightarrow> Inl (ErrSyscall ''ENODATA'')
                         | Some v \<Rightarrow> Inr v)
                    | None \<Rightarrow> Inl (absent s k')
                    | Some _ \<Rightarrow> Inl (ErrSyscall ''ENODATA'')),
          s))"

definition sys_Setxattr :: "string \<Rightarrow> string \<Rightarrow> string \<Rightarrow> (OS, unit) proc" where
  "sys_Setxattr p key val s =
     (let k = osKey s p
      in if os_fault s ''setxattr'' k then (Inl (ErrSyscall ''setxattr''), s)
         else case follow maxLinks s k of
                None \<Rightarrow> (Inl (ErrSyscall ''ELOOP''), s)
              | Some k' \<Rightarrow>
                  (case nodeAt s k' of
                     Some (File c xs) \<Rightarrow>
                       (Inr (), setNode k' (File c (AList.update key val xs)) s)
                   | None \<Rightarrow> (Inl (absent s k'), s)
                   | Some _ \<Rightarrow> (Inl (ErrSyscall ''EPERM''), s)))"

definition os_UserHomeDir :: "(OS, string) proc" where
  "os_UserHomeDir s = (os_home s, s)"

definition uuid_NewString :: "OS \<Rightarrow> string \<times> OS" where
  "uuid_NewString s =
     (case os_uuids s of [] \<Rightarrow> ([], s) | u # us \<Rightarrow> (u, s\<lparr>os_uuids := us\<rparr>))"

text \<open>\<open>if err := os.Remove(p); err != nil && !os.IsNotExist(err) { return err }\<close>.\<close>

definition removeIfExists :: "string \<Rightarrow> (OS, unit) proc" where
  "removeIfExists p s =
     (case os_Remove p s of
        (Inl e, s') \<Rightarrow> if os_IsNotExist e then (Inr (), s') else (Inl e, s')
      | (Inr u, s') \<Rightarrow> (Inr u, s'))"

text \<open>A call whose error the source ignores (\<open>_ = f()\<close>).\<close>

definition ignoring :: "(OS, 'a) proc \<Rightarrow> (OS, unit) proc" where
  "ignoring m s = (Inr (), snd (m s))"

subsection \<open>What the calls read and write\<close>

lemma nodeAt_setNode [os_simps]:
  "k \<noteq> [sep] \<Longrightarrow> nodeAt (setNode k n s) q = (if q = k then Some n else nodeAt s q)"
  by (auto simp: nodeAt_def setNode_def update_conv')

lemma nodeAt_delNode [os_simps]:
  "k \<noteq> [sep] \<Longrightarrow> nodeAt (delNode k s) q = (if q = k then None else nodeAt s q)"
  by (auto simp: nodeAt_def delNode_def delete_conv')

lemma setNode_frame [frame_simps, simp]:
  "os_cwd (setNode k n s) = os_cwd s" "os_fault (setNode k n s) = os_fault s"
  "os_home (setNode k n s) = os_home s" "os_ports (setNode k n s) = os_ports s"
  "os_uuids (setNode k n s) = os_uuids s" "os_locks (setNode k n s) = os_locks s"
  "osKey (setNode k n s) p = osKey s p"
  by (simp_all add: setNode_def osKey_def)

lemma delNode_frame [frame_simps, simp]:
  "os_cwd (delNode k s) = os_cwd s" "os_fault (delNode k s) = os_fault s"
  "os_home (delNode k s) = os_home s" "os_ports (delNode k s) = os_ports s"
  "os_uuids (delNode k s) = os_uuids s" "os_locks (delNode k s) = os_locks s"
  "osKey (delNode k s) p = osKey s p"
  by (simp_all add: delNode_def osKey_def)

text \<open>A path that is no symbolic link stands for itself.\<close>

definition plainAt :: "OS \<Rightarrow> string \<Rightarrow> bool" where
  "plainAt s k \<longleftrightarrow> (\<forall>t. nodeAt s k \<noteq> Some (Symlink t))"

lemma follow_plain [os_simps]: "plainAt s k \<Longrightarrow> follow n s k = Some k"
  by (cases n) (auto simp: plainAt_def split: option.splits node.splits)

lemma plainAt_simps [os_simps]:
  "nodeAt s k = Some (File c xs) \<Longrightarrow> plainAt s k"
  "nodeAt s k = Some Directory \<Longrightarrow> plainAt s k"
  "nodeAt s k = None \<Longrightarrow> plainAt s k"
  by (simp_all add: plainAt_def)

lemma os_Stat_pure [os_simps]: "snd (os_Stat p s) = s"
  by (simp add: os_Stat_def Let_def)

lemma os_Lstat_pure [os_simps]: "snd (os_Lstat p s) = s"
  by (simp add: os_Lstat_def Let_def)

lemma os_ReadFile_pure [os_simps]: "snd (os_ReadFile p s) = s"
  by (simp add: os_ReadFile_def Let_def)

lemma sys_Getxattr_pure [os_simps]: "snd (sys_Getxattr p key s) = s"
  by (simp add: sys_Getxattr_def Let_def)

lemma removeIfExists_ok:
  assumes "removeIfExists p s = (Inr (), t)" and "p \<noteq> []" and "osKey s p \<noteq> [sep]"
  shows "nodeAt t (osKey s p) = None"
  using assms
  by (auto simp: removeIfExists_def os_Remove_def Let_def os_simps
      split: option.splits if_splits)

text \<open>Creating directories only adds directories.\<close>

definition addsDirs :: "OS \<Rightarrow> OS \<Rightarrow> bool" where
  "addsDirs s t \<longleftrightarrow> os_cwd t = os_cwd s \<and> os_fault t = os_fault s \<and> os_home t = os_home s \<and>
     os_ports t = os_ports s \<and> os_uuids t = os_uuids s \<and> os_locks t = os_locks s \<and>
     (\<forall>k. nodeAt t k = nodeAt s k \<or> nodeAt s k = None \<and> nodeAt t k = Some Directory)"

lemma addsDirs_refl [simp]: "addsDirs s s"
  by (simp add: addsDirs_def)

lemma addsDirs_trans: "addsDirs s t \<Longrightarrow> addsDirs t u \<Longrightarrow> addsDirs s u"
  unfolding addsDirs_def by metis

lemma addsDirs_setNode:
  assumes "nodeAt s k = None"
  shows "addsDirs s (setNode k Directory s)"
proof -
  have "k \<noteq> [sep]" using assms by (auto simp: nodeAt_def)
  with assms show ?thesis by (simp add: addsDirs_def os_simps)
qed

lemma mkdirChain_addsDirs: "mkdirChain ds s = (r, t) \<Longrightarrow> addsDirs s t"
proof (induction ds s rule: mkdirChain.induct)
  case (2 d ds s)
  then show ?case
    by (auto split: if_splits intro: addsDirs_trans addsDirs_setNode)
qed simp

lemma os_MkdirAll_addsDirs: "os_MkdirAll p s = (r, t) \<Longrightarrow> addsDirs s t"
  by (auto simp: os_MkdirAll_def split: if_splits intro: mkdirChain_addsDirs)

lemma addsDirs_file: "addsDirs s t \<Longrightarrow> nodeAt s k = Some n \<Longrightarrow> nodeAt t k = Some n"
  unfolding addsDirs_def by (metis option.distinct(1))

lemma addsDirs_frame:
  "addsDirs s t \<Longrightarrow> os_cwd t = os_cwd s \<and> os_fault t = os_fault s \<and> os_home t = os_home s \<and>
     os_ports t = os_ports s \<and> os_uuids t = os_uuids s \<and> os_locks t = os_locks s \<and>
     osKey t p = osKey s p"
  by (simp add: addsDirs_def osKey_def)

text \<open>Removing a tree leaves nothing at or below its path and keeps the rest.\<close>

lemma map_of_filter_key:
  "map_of (filter (\<lambda>(q, _). P q) al) k = (if P k then map_of al k else None)"
  by (induction al) auto

lemma os_RemoveAll_node:
  assumes "os_RemoveAll p s = (Inr (), t)" and "p \<noteq> []"
  shows "nodeAt t q =
    (if q \<noteq> [sep] \<and> (q = osKey s p \<or> under (osKey s p) q) then None else nodeAt s q)"
  using assms
  by (auto simp: os_RemoveAll_def Let_def nodeAt_def map_of_filter_key split: if_splits)

text \<open>A file that was written is read back, through symbolic links too.\<close>

lemma follow_target: "follow n s k = Some k' \<Longrightarrow> nodeAt s k' \<noteq> Some (Symlink t)"
  by (induction n arbitrary: k) (auto split: option.splits node.splits)

lemma follow_setNode:
  assumes "follow n s k = Some k'" and "k' \<noteq> [sep]"
  shows "follow n (setNode k' (File c xs) s) k = Some k'"
  using assms(1)
proof (induction n arbitrary: k)
  case 0
  then show ?case using assms(2) by (auto simp: os_simps split: option.splits node.splits)
next
  case (Suc n)
  show ?case
  proof (cases "k = k'")
    case True
    then show ?thesis using assms(2) by (simp add: os_simps)
  next
    case False
    with Suc show ?thesis
      using assms(2) by (auto simp: os_simps split: option.splits node.splits)
  qed
qed

lemma openWrite_ok:
  assumes "openWrite p upd s = (Inr (), t)"
  obtains k c xs where "p \<noteq> []" and "\<not> os_fault s ''open'' (osKey s p)"
    and "follow maxLinks s (osKey s p) = Some k" and "k \<noteq> [sep]" and "t = setNode k (File c xs) s"
    and "c = upd (case nodeAt s k of Some (File c' xs') \<Rightarrow> Some c' | _ \<Rightarrow> None)"
proof -
  obtain k where k: "p \<noteq> []" "\<not> os_fault s ''open'' (osKey s p)" "follow maxLinks s (osKey s p) = Some k"
    using assms by (auto simp: openWrite_def Let_def split: if_splits option.splits)
  have sep: "nodeAt s [sep] = Some Directory" by (simp add: nodeAt_def)
  show thesis
  proof (cases "nodeAt s k")
    case None
    then have "t = setNode k (File (upd None) []) s"
      using assms k by (auto simp: openWrite_def Let_def split: if_splits)
    moreover have "k \<noteq> [sep]" using None sep by auto
    ultimately show thesis using that [OF k] None by simp
  next
    case (Some n)
    then obtain c xs where n: "n = File c xs" and t: "t = setNode k (File (upd (Some c)) xs) s"
      using assms k by (cases n) (auto simp: openWrite_def Let_def)
    moreover have "k \<noteq> [sep]" using Some n sep by auto
    ultimately show thesis using that [OF k] Some by simp
  qed
qed

lemma write_then_read:
  assumes "os_WriteFile p d s = (Inr (), t)"
  shows "os_ReadFile p t = (Inr d, t)"
proof -
  obtain k c xs where k: "p \<noteq> []" "\<not> os_fault s ''open'' (osKey s p)"
    "follow maxLinks s (osKey s p) = Some k" "k \<noteq> [sep]" "t = setNode k (File c xs) s" "c = d"
    using assms unfolding os_WriteFile_def by (rule openWrite_ok) auto
  have "osKey t p = osKey s p" by (simp add: k(5) osKey_def)
  moreover have "follow maxLinks t (osKey s p) = Some k" unfolding k(5) by (rule follow_setNode [OF k(3,4)])
  moreover have "nodeAt t k = Some (File d xs)" by (simp add: k(4,5,6) os_simps)
  ultimately show ?thesis using k(1,2) by (simp add: os_ReadFile_def Let_def k(5))
qed

end
