(* ===== verification/Virtio.thy ===== *)
theory Virtio
  imports Define
begin

unbundle bit_operations_syntax

text \<open>
  \<open>pkg/filesystem\<close>: shared directories from \<open>--mount\<close> flags (\<open>virtio.go\<close>), storage
  units (\<open>strongunits.go\<close>) and, because the tag of a shared directory is a prefix of a
  SHA-256 digest, SHA-256 (FIPS 180-4) over byte strings.
\<close>

subsection \<open>SHA-256\<close>

definition sha256_K :: "u32 list" where
  "sha256_K =
    [1116352408, 1899447441, 3049323471, 3921009573, 961987163, 1508970993, 2453635748, 2870763221,
     3624381080, 310598401, 607225278, 1426881987, 1925078388, 2162078206, 2614888103, 3248222580,
     3835390401, 4022224774, 264347078, 604807628, 770255983, 1249150122, 1555081692, 1996064986,
     2554220882, 2821834349, 2952996808, 3210313671, 3336571891, 3584528711, 113926993, 338241895,
     666307205, 773529912, 1294757372, 1396182291, 1695183700, 1986661051, 2177026350, 2456956037,
     2730485921, 2820302411, 3259730800, 3345764771, 3516065817, 3600352804, 4094571909, 275423344,
     430227734, 506948616, 659060556, 883997877, 958139571, 1322822218, 1537002063, 1747873779,
     1955562222, 2024104815, 2227730452, 2361852424, 2428436474, 2756734187, 3204031479, 3329325298]"

definition sha256_init :: "u32 list" where
  "sha256_init =
    [1779033703, 3144134277, 1013904242, 2773480762,
     1359893119, 2600822924, 528734635, 1541459225]"

definition rotr :: "nat \<Rightarrow> u32 \<Rightarrow> u32" where
  "rotr n x = drop_bit n x OR push_bit (32 - n) x"

text \<open>Message bytes with padding: \<open>0x80\<close>, zeros to 56 modulo 64, the bit length in eight
  bytes.\<close>

definition lengthBytes :: "nat \<Rightarrow> nat list" where
  "lengthBytes n = map (\<lambda>i. (8 * n) div 256 ^ (7 - i) mod 256) [0..<8]"

definition sha256_pad :: "nat list \<Rightarrow> nat list" where
  "sha256_pad m =
     m @ [128] @ replicate ((119 - length m mod 64) mod 64) 0 @ lengthBytes (length m)"

fun beWords :: "nat list \<Rightarrow> u32 list" where
  "beWords (a # b # c # d # r) = of_nat (((a * 256 + b) * 256 + c) * 256 + d) # beWords r"
| "beWords _ = []"

fun expand :: "nat \<Rightarrow> u32 list \<Rightarrow> u32 list" where
  "expand 0 w = w"
| "expand (Suc n) w =
     (let l = length w; x = w ! (l - 15); y = w ! (l - 2);
          s0 = rotr 7 x XOR rotr 18 x XOR drop_bit 3 x;
          s1 = rotr 17 y XOR rotr 19 y XOR drop_bit 10 y
      in expand n (w @ [w ! (l - 16) + s0 + w ! (l - 7) + s1]))"

fun sha256_round :: "u32 list \<Rightarrow> u32 \<times> u32 \<Rightarrow> u32 list" where
  "sha256_round [a, b, c, d, e, f, g, h] (k, w) =
     (let s1 = rotr 6 e XOR rotr 11 e XOR rotr 25 e;
          ch = (e AND f) XOR (NOT e AND g);
          t1 = h + s1 + ch + k + w;
          s0 = rotr 2 a XOR rotr 13 a XOR rotr 22 a;
          mj = (a AND b) XOR (a AND c) XOR (b AND c)
      in [t1 + s0 + mj, a, b, c, d + t1, e, f, g])"
| "sha256_round v _ = v"

definition sha256_block :: "u32 list \<Rightarrow> u32 list \<Rightarrow> u32 list" where
  "sha256_block h blk = map2 (+) h (foldl sha256_round h (zip sha256_K (expand 48 blk)))"

fun sha256_blocks :: "nat \<Rightarrow> u32 list \<Rightarrow> u32 list \<Rightarrow> u32 list" where
  "sha256_blocks 0 h ws = h"
| "sha256_blocks (Suc n) h ws = sha256_blocks n (sha256_block h (take 16 ws)) (drop 16 ws)"

definition sha256 :: "string \<Rightarrow> u32 list" where
  "sha256 s =
     (let ws = beWords (sha256_pad (map of_char s))
      in sha256_blocks (length ws div 16) sha256_init ws)"

text \<open>\<open>hex.EncodeToString\<close> of the digest, lower case.\<close>

definition lowerHex :: "nat \<Rightarrow> char" where
  "lowerHex n = (if n < 10 then char_of (48 + n) else char_of (87 + n))"

definition hexWord :: "u32 \<Rightarrow> string" where
  "hexWord w = map (\<lambda>i. lowerHex (unat w div 16 ^ (7 - i) mod 16)) [0..<8]"

definition sha256_hex :: "string \<Rightarrow> string" where
  "sha256_hex s = concat (map hexWord (sha256 s))"

subsection \<open>Mount flags (virtio.go)\<close>

definition pathsFromVolume :: "string \<Rightarrow> string list" where
  "pathsFromVolume volume = SplitN2 volume (CHR '':'')"

definition extractSourcePath :: "string list \<Rightarrow> string" where
  "extractSourcePath paths =
     (if length paths > 1 then hd paths else fst (Cut (hd paths) (CHR '','')))"

definition extractTargetPath :: "string list \<Rightarrow> string" where
  "extractTargetPath paths =
     (if length paths > 1 then fst (Cut (paths ! 1) (CHR '','')) else fst (Cut (hd paths) (CHR '','')))"

fun readOnlyOption :: "bool \<Rightarrow> string list \<Rightarrow> bool" where
  "readOnlyOption readonly [] = readonly"
| "readOnlyOption readonly (o' # os) =
     readOnlyOption (if o' = ''rw'' then False else if o' = ''ro'' then True else readonly) os"

definition extractMountOptions :: "string list \<Rightarrow> bool" where
  "extractMountOptions paths =
     (case Cut (last paths) (CHR '','') of (_, opts, found) \<Rightarrow>
        if \<not> found then False else readOnlyOption False (Split opts (CHR '','')))"

definition SplitVolume :: "nat \<Rightarrow> string \<Rightarrow> string \<times> string \<times> string \<times> bool" where
  "SplitVolume idx volume =
     (let paths = pathsFromVolume volume
      in (''mnt-'' @ Itoa idx, extractSourcePath paths, extractTargetPath paths,
          extractMountOptions paths))"

definition VirtIOFs :: string where "VirtIOFs = ''virtiofs''"

record VirtIoFs =
  vfs_ReadOnly :: bool
  vfs_Tag :: string
  vfs_Source :: string
  vfs_Target :: string

definition generateTag :: "VirtIoFs \<Rightarrow> string" where
  "generateTag v = take 36 (sha256_hex (vfs_Target v))"

definition NewVirtIoFsMount :: "string \<Rightarrow> string \<Rightarrow> bool \<Rightarrow> VirtIoFs" where
  "NewVirtIoFsMount src target readOnly =
     (let vfs = \<lparr>vfs_ReadOnly = readOnly, vfs_Tag = [], vfs_Source = src, vfs_Target = target\<rparr>
      in vfs\<lparr>vfs_Tag := generateTag vfs\<rparr>)"

definition ToMount :: "VirtIoFs \<Rightarrow> Mount" where
  "ToMount v = \<lparr>mnt_ReadOnly = vfs_ReadOnly v, mnt_Source = vfs_Source v, mnt_Tag = vfs_Tag v,
     mnt_Target = vfs_Target v, mnt_Type = VirtIOFs, mnt_Opts = [], mnt_UUID = []\<rparr>"

fun mountsLoop :: "nat \<Rightarrow> string list \<Rightarrow> Mount list" where
  "mountsLoop i [] = []"
| "mountsLoop i (volume # mnts) =
     (if volume = [] then mountsLoop (i + 1) mnts
      else case SplitVolume i volume of (_, source, target, readOnly) \<Rightarrow>
        ToMount (NewVirtIoFsMount source target readOnly) # mountsLoop (i + 1) mnts)"

definition CmdLineMountToMounts :: "string list \<Rightarrow> Mount list" where
  "CmdLineMountToMounts mnts = mountsLoop 0 mnts"

subsection \<open>Storage units (strongunits.go)\<close>

datatype StorageUnit = B u64 | KiB u64 | MiB u64 | GiB u64

fun ToBytes :: "StorageUnit \<Rightarrow> u64" where
  "ToBytes (B b) = b"
| "ToBytes (KiB k) = k * 2 ^ 10"
| "ToBytes (MiB m) = m * 2 ^ 20"
| "ToBytes (GiB g) = g * 2 ^ 30"

definition ToKiB :: "StorageUnit \<Rightarrow> u64" where "ToKiB b = drop_bit 10 (ToBytes b)"
definition ToMib :: "StorageUnit \<Rightarrow> u64" where "ToMib b = drop_bit 20 (ToBytes b)"
definition ToGiB :: "StorageUnit \<Rightarrow> u64" where "ToGiB b = drop_bit 30 (ToBytes b)"

subsection \<open>Digests and tags\<close>

lemma sha256_round_length: "length (sha256_round v p) = length v"
  by (induction v p rule: sha256_round.induct) (simp_all add: Let_def)

lemma sha256_rounds_length: "length (foldl sha256_round v ps) = length v"
  by (induction ps arbitrary: v) (simp_all add: sha256_round_length)

lemma sha256_blocks_length: "length h = 8 \<Longrightarrow> length (sha256_blocks n h ws) = 8"
  by (induction n arbitrary: h ws) (simp_all add: sha256_block_def sha256_rounds_length)

lemma sha256_length [simp]: "length (sha256 s) = 8"
  by (simp add: sha256_def Let_def sha256_blocks_length sha256_init_def)

lemma hex_concat_length: "length (concat (map hexWord ws)) = 8 * length ws"
  by (induction ws) (simp_all add: hexWord_def)

lemma generateTag_length [simp]: "length (generateTag v) = 36"
  by (simp add: generateTag_def sha256_hex_def hex_concat_length)

subsection \<open>Flags as they are written\<close>

text \<open>One \<open>--mount\<close> flag \<open>src:dst\<close> with its options.\<close>

lemma SplitN2_colon: "CHR '':'' \<notin> set a \<Longrightarrow> SplitN2 (a @ '':'' @ b) (CHR '':'') = [a, b]"
  by (simp add: SplitN2_def)

definition optionSuffix :: "string list \<Rightarrow> string" where
  "optionSuffix opts = (if opts = [] then [] else CHR '','' # JoinWith (CHR '','') opts)"

lemma Cut_optionSuffix:
  "CHR '','' \<notin> set p \<Longrightarrow> fst (Cut (p @ optionSuffix opts) (CHR '','')) = p"
  by (simp add: optionSuffix_def)

lemma options_read:
  assumes "CHR '','' \<notin> set p" and "list_all (\<lambda>v. CHR '','' \<notin> set v) opts"
  shows "extractMountOptions [a, p @ optionSuffix opts] = readOnlyOption False opts"
    and "extractMountOptions [p @ optionSuffix opts] = readOnlyOption False opts"
  using assms Split_JoinWith [of opts "CHR '',''"]
  by (auto simp: extractMountOptions_def optionSuffix_def list_all_iff)

lemma readOnlyOption_last:
  "readOnlyOption b opts =
     (case filter (\<lambda>v. v = ''ro'' \<or> v = ''rw'') opts of
        [] \<Rightarrow> b | xs \<Rightarrow> last xs = ''ro'')"
  by (induction b opts rule: readOnlyOption.induct) (auto split: list.splits)

lemma mountsLoop_eq:
  "mountsLoop i mnts = map (\<lambda>v. case SplitVolume 0 v of (_, s, t, r) \<Rightarrow> ToMount (NewVirtIoFsMount s t r))
     (filter (\<lambda>v. v \<noteq> []) mnts)"
  by (induction i mnts rule: mountsLoop.induct) (simp_all add: SplitVolume_def Let_def)

lemma mul_no_overflow:
  fixes x :: u64
  assumes "unat x < 2 ^ (64 - n)" and "n \<le> 64"
  shows "unat (x * 2 ^ n) = unat x * 2 ^ n"
proof (cases "n = 64")
  case True
  then show ?thesis using assms by (simp add: unat_eq_0)
next
  case False
  then have n: "n < 64" using assms(2) by simp
  have "unat x * 2 ^ n < 2 ^ (64 - n) * 2 ^ n"
    using assms(1) by (rule mult_strict_right_mono) simp
  also have "\<dots> = 2 ^ 64" using n by (simp flip: power_add)
  finally have "unat x * 2 ^ n < 2 ^ 64" .
  moreover have "unat (2 ^ n :: u64) = 2 ^ n"
    using unat_of_nat [where 'a = 64, of "2 ^ n"] power_strict_increasing [OF n, of "2 :: nat"]
    by simp
  ultimately show ?thesis by (simp add: unat_mult_lem [THEN iffD1])
qed

lemma drop_push_unit:
  fixes x :: u64
  assumes "unat x < 2 ^ (64 - n)" and "n \<le> 64"
  shows "drop_bit n (x * 2 ^ n) = x"
proof -
  have "unat (drop_bit n (x * 2 ^ n)) = unat (x * 2 ^ n) div 2 ^ n"
    by (simp only: unat_drop_bit_eq drop_bit_eq_div [where 'a = nat])
  then show ?thesis
    using mul_no_overflow [OF assms] by (intro word_unat_eq_iff [THEN iffD2]) simp
qed

subsection \<open>Properties\<close>

text \<open>Mount flags: \<open>src:dst,opt,...\<close> is read as that source and target, and read-only
  exactly when the last of its \<open>ro\<close> and \<open>rw\<close> options is \<open>ro\<close>; a single path is its
  own target.\<close>

theorem mount_flag_round_trip:
  assumes "CHR '':'' \<notin> set src" and "CHR '','' \<notin> set dst"
    and "list_all (\<lambda>v. CHR '','' \<notin> set v) opts"
    and "CHR '':'' \<notin> set dst" and "CHR '':'' \<notin> set (optionSuffix opts)"
  shows "SplitVolume i (src @ '':'' @ dst @ optionSuffix opts) =
      (''mnt-'' @ Itoa i, src, dst,
        case filter (\<lambda>v. v = ''ro'' \<or> v = ''rw'') opts of [] \<Rightarrow> False | xs \<Rightarrow> last xs = ''ro'') \<and>
    SplitVolume i (dst @ optionSuffix opts) =
      (''mnt-'' @ Itoa i, dst, dst,
        case filter (\<lambda>v. v = ''ro'' \<or> v = ''rw'') opts of [] \<Rightarrow> False | xs \<Rightarrow> last xs = ''ro'')"
proof -
  have two: "pathsFromVolume (src @ '':'' @ dst @ optionSuffix opts) = [src, dst @ optionSuffix opts]"
    unfolding pathsFromVolume_def by (rule SplitN2_colon [OF assms(1)])
  have one: "pathsFromVolume (dst @ optionSuffix opts) = [dst @ optionSuffix opts]"
    using assms(4,5) by (simp add: pathsFromVolume_def SplitN2_def)
  show ?thesis
    unfolding SplitVolume_def two one
    using options_read [OF assms(2,3)] Cut_optionSuffix [OF assms(2)]
    by (simp add: extractSourcePath_def extractTargetPath_def readOnlyOption_last Let_def)
qed

theorem mount_flag_round_trip_witness:
  "SplitVolume 3 ''/home/u:/mnt/u,rw,ro'' = (''mnt-3'', ''/home/u'', ''/mnt/u'', True)"
proof -
  have e: "''/mnt/u'' @ optionSuffix [''rw'', ''ro''] = ''/mnt/u,rw,ro''"
    by (simp add: optionSuffix_def)
  have h: "CHR '':'' \<notin> set ''/home/u''" "CHR '','' \<notin> set ''/mnt/u''"
      "list_all (\<lambda>v. CHR '','' \<notin> set v) [''rw'', ''ro'']" "CHR '':'' \<notin> set ''/mnt/u''"
      "CHR '':'' \<notin> set (optionSuffix [''rw'', ''ro''])"
    by (simp_all add: optionSuffix_def)
  have "Itoa 3 = ''3''" by code_simp
  then show ?thesis
    using mount_flag_round_trip [OF h, of 3, THEN conjunct1] by (simp add: optionSuffix_def)
qed

text \<open>Every mount flag that is not empty gives one mount, in order, of type virtiofs with
  a tag of 36 characters (within the limit of a virtio-fs tag); the tag depends on the guest
  target alone, so that two mounts get the same tag when they have the same target.\<close>

theorem mounts_of_flags:
  "length (CmdLineMountToMounts mnts) = length (filter (\<lambda>v. v \<noteq> []) mnts) \<and>
   map mnt_Source (CmdLineMountToMounts mnts) =
     map (\<lambda>v. extractSourcePath (pathsFromVolume v)) (filter (\<lambda>v. v \<noteq> []) mnts) \<and>
   map mnt_Target (CmdLineMountToMounts mnts) =
     map (\<lambda>v. extractTargetPath (pathsFromVolume v)) (filter (\<lambda>v. v \<noteq> []) mnts) \<and>
   list_all (\<lambda>m. mnt_Type m = ''virtiofs'' \<and> length (mnt_Tag m) = 36 \<and>
     mnt_Tag m = take 36 (sha256_hex (mnt_Target m))) (CmdLineMountToMounts mnts)"
  by (auto simp: CmdLineMountToMounts_def mountsLoop_eq SplitVolume_def ToMount_def
      NewVirtIoFsMount_def VirtIOFs_def generateTag_def sha256_hex_def hex_concat_length Let_def
      list_all_iff comp_def)

text \<open>Storage units: converting to bytes is exact as long as the byte count fits 64 bits,
  and converting back gives the number of units again.\<close>

lemma storage_units_exact:
  assumes "unat k < 2 ^ 54" and "unat m < 2 ^ 44" and "unat g < 2 ^ 34"
  shows "unat (ToBytes (KiB k)) = unat k * 1024 \<and> ToKiB (KiB k) = k \<and>
    unat (ToBytes (MiB m)) = unat m * 1048576 \<and> ToMib (MiB m) = m \<and>
    unat (ToBytes (GiB g)) = unat g * 1073741824 \<and> ToGiB (GiB g) = g"
  using mul_no_overflow [of k 10] mul_no_overflow [of m 20] mul_no_overflow [of g 30]
    drop_push_unit [of k 10] drop_push_unit [of m 20] drop_push_unit [of g 30] assms
  by (simp add: ToKiB_def ToMib_def ToGiB_def)

lemma storage_units_exact_witness:
  "unat (ToBytes (GiB 4)) = 4294967296 \<and> ToMib (MiB 512) = 512"
  using storage_units_exact [of 1 512 4] by simp

end
