(* ===== verification/Disk.thy ===== *)
theory Disk
  imports Define Go_OS Virtio
begin

text \<open>
  Raw disk images: \<open>pkg/disk/cgo_func.go\<close> (the C code over libblkid, libext2fs and
  libuuid and its Go wrappers), \<open>pkg/disk/disk.go\<close> (the disk manager),
  \<open>pkg/filesystem/xattr_linux.go\<close> (extended attributes), \<open>pkg/filesystem/file.go\<close> and
  the extraction of the embedded image of \<open>pkg/static_resources/resources.go\<close>.

  The C libraries and the archive extraction are the parameter \<open>disk_lib\<close>; \<open>disk_lib_ok\<close>
  collects what the code relies on. A device is a regular file and its content the byte
  string the libraries read.
\<close>

subsection \<open>The libraries\<close>

text \<open>The open file system handle as far as the code reads or writes it.\<close>

record ext2_fs =
  s_uuid :: string
  has_stable_inodes :: bool
  has_csum_seed :: bool
  has_metadata_csum :: bool
  has_ea_inode :: bool
  has_group_desc_csum :: bool
  group_csum_valid :: "bool list"
  flag_master_sb_only :: bool
  flag_super_only :: bool
  csum_seed_of :: string
  super_dirty :: bool

record disk_lib =
  ext2fs_open :: "string \<Rightarrow> ext2_fs option"
  ext2fs_close_free :: "string \<Rightarrow> ext2_fs \<Rightarrow> string option"
  uuid_parse :: "string \<Rightarrow> string option"
  uuid_unparse :: "string \<Rightarrow> string"
  uuid_generate_time :: string
  uuid_generate :: string
  blkid_cache_ok :: bool
  blkid_tags :: "string \<Rightarrow> (string \<times> string) list option"
  ext2fs_check_mount_point :: "string \<Rightarrow> (int \<times> string) option"
  archive_extract :: "string \<Rightarrow> string \<Rightarrow> (OS, unit) proc"
  raw_image :: string

text \<open>A C string in a buffer of \<open>n\<close> bytes after \<open>strncpy(buf, s, n - 1)\<close>.\<close>

definition cbuf :: "nat \<Rightarrow> string \<Rightarrow> string" where
  "cbuf n s = take (n - 1) (takeWhile (\<lambda>c. c \<noteq> CHR 0x00) s)"

subsection \<open>Probing (blkid_probe_device, ProbeRAWDisk)\<close>

record ProbeResult =
  pr_Device :: string
  pr_UUID :: string
  pr_Type :: string
  pr_Label :: string
  pr_Version :: string
  pr_PartUUID :: string
  pr_PartLabel :: string
  pr_MountFlags :: int
  pr_MountPoint :: string

definition probeTag :: "ProbeResult \<Rightarrow> string \<times> string \<Rightarrow> ProbeResult" where
  "probeTag r tv =
     (case tv of (type, val) \<Rightarrow>
        if type = ''UUID'' then r\<lparr>pr_UUID := cbuf 64 val\<rparr>
        else if type = ''TYPE'' then r\<lparr>pr_Type := cbuf 64 val\<rparr>
        else if type = ''LABEL'' then r\<lparr>pr_Label := cbuf 256 val\<rparr>
        else if type = ''VERSION'' then r\<lparr>pr_Version := cbuf 64 val\<rparr>
        else if type = ''PARTUUID'' then r\<lparr>pr_PartUUID := cbuf 64 val\<rparr>
        else if type = ''PARTLABEL'' then r\<lparr>pr_PartLabel := cbuf 256 val\<rparr>
        else r)"

definition deviceContent :: "string \<Rightarrow> OS \<Rightarrow> string option" where
  "deviceContent device s =
     (case follow maxLinks s (osKey s device) of
        None \<Rightarrow> None
      | Some k \<Rightarrow> (case nodeAt s k of Some (File c xs) \<Rightarrow> Some c | _ \<Rightarrow> None))"

definition deviceExists :: "string \<Rightarrow> OS \<Rightarrow> bool" where
  "deviceExists device s =
     (case follow maxLinks s (osKey s device) of None \<Rightarrow> False | Some k \<Rightarrow> nodeAt s k \<noteq> None)"

definition blkid_probe_device :: "disk_lib \<Rightarrow> string \<Rightarrow> OS \<Rightarrow> ProbeResult res" where
  "blkid_probe_device lib device s =
     (if \<not> deviceExists device s then Inl (Errorf ''Device not found'')
      else if \<not> blkid_cache_ok lib then Inl (Errorf ''Failed to initialize blkid'')
      else case Option.bind (deviceContent device s) (blkid_tags lib) of
             None \<Rightarrow> Inl (Errorf ''Failed to probe device (unknown filesystem)'')
           | Some tags \<Rightarrow>
               let r0 = \<lparr>pr_Device = cbuf 256 device, pr_UUID = [], pr_Type = [], pr_Label = [],
                          pr_Version = [], pr_PartUUID = [], pr_PartLabel = [],
                          pr_MountFlags = 0, pr_MountPoint = []\<rparr>;
                   r1 = foldl probeTag r0 tags
               in case ext2fs_check_mount_point lib device of
                    None \<Rightarrow> Inr r1
                  | Some (flags, mp) \<Rightarrow>
                      Inr (r1\<lparr>pr_MountFlags := flags, pr_MountPoint := cbuf 256 mp\<rparr>))"

definition ProbeRAWDisk :: "disk_lib \<Rightarrow> string \<Rightarrow> (OS, ProbeResult) proc" where
  "ProbeRAWDisk lib device s = (blkid_probe_device lib device s, s)"

subsection \<open>Reading and setting the UUID (ext2fs_get_uuid, ext2fs_set_uuid)\<close>

definition ext2fs_get_uuid :: "disk_lib \<Rightarrow> string \<Rightarrow> string res" where
  "ext2fs_get_uuid lib content =
     (case ext2fs_open lib content of
        None \<Rightarrow> Inl (Errorf ''Failed to open filesystem'')
      | Some fs \<Rightarrow> Inr (cbuf 64 (uuid_unparse lib (s_uuid fs))))"

text \<open>\<open>strcasecmp(newUUID, ...)\<close> for the four keywords, otherwise \<open>uuid_parse\<close>.\<close>

definition parseNewUUID :: "disk_lib \<Rightarrow> string \<Rightarrow> string option" where
  "parseNewUUID lib u =
     (if EqualFold u ''null'' \<or> EqualFold u ''clear'' then Some (replicate 16 (CHR 0x00))
      else if EqualFold u ''time'' then Some (uuid_generate_time lib)
      else if EqualFold u ''random'' then Some (uuid_generate lib)
      else uuid_parse lib u)"

text \<open>The result: old and new UUID and the content written back. The handle is closed
  without writing on the error paths, because it is not dirty there.\<close>

definition ext2fs_set_uuid ::
    "disk_lib \<Rightarrow> string \<Rightarrow> string \<Rightarrow> (string \<times> string \<times> string) res" where
  "ext2fs_set_uuid lib content newUUID =
     (case ext2fs_open lib content of
        None \<Rightarrow> Inl (Errorf ''Failed to open filesystem'')
      | Some fs0 \<Rightarrow>
          let fs1 = fs0\<lparr>flag_master_sb_only := False, flag_super_only := True\<rparr>
          in if has_stable_inodes fs1
             then Inl (Errorf ''Cannot change UUID: filesystem has stable_inodes feature'')
             else if \<not> has_csum_seed fs1 \<and> (has_metadata_csum fs1 \<or> has_ea_inode fs1)
             then Inl (Errorf ''Filesystem needs metadata_csum_seed feature'')
             else
               let set_csum = (has_group_desc_csum fs1 \<and> list_all (\<lambda>b. b) (group_csum_valid fs1));
                   old = uuid_unparse lib (s_uuid fs1)
               in case parseNewUUID lib newUUID of
                    None \<Rightarrow> Inl (Errorf ''Invalid UUID format'')
                  | Some new_uuid \<Rightarrow>
                      let fs2 = fs1\<lparr>s_uuid := new_uuid, csum_seed_of := new_uuid\<rparr>;
                          fs3 = (if set_csum
                                 then fs2\<lparr>group_csum_valid := map (\<lambda>_. True) (group_csum_valid fs2),
                                          flag_super_only := False\<rparr> else fs2);
                          fs4 = fs3\<lparr>super_dirty := True\<rparr>
                      in case ext2fs_close_free lib content fs4 of
                           None \<Rightarrow> Inl (Errorf ''Failed to close filesystem'')
                         | Some content' \<Rightarrow>
                             Inr (cbuf 64 old, cbuf 64 (uuid_unparse lib new_uuid), content'))"

definition GetUUID :: "disk_lib \<Rightarrow> string \<Rightarrow> (OS, string) proc" where
  "GetUUID lib device s =
     (case deviceContent device s of
        None \<Rightarrow> (Inl (Errorf ''Failed to open filesystem''), s)
      | Some c \<Rightarrow> (ext2fs_get_uuid lib c, s))"

definition SetUUID :: "disk_lib \<Rightarrow> string \<Rightarrow> string \<Rightarrow> (OS, string \<times> string) proc" where
  "SetUUID lib device newUUID s =
     (case follow maxLinks s (osKey s device) of
        None \<Rightarrow> (Inl (Errorf ''Failed to open filesystem''), s)
      | Some k \<Rightarrow>
          (case nodeAt s k of
             Some (File c xs) \<Rightarrow>
               (case ext2fs_set_uuid lib c newUUID of
                  Inl e \<Rightarrow> (Inl e, s)
                | Inr (old, new, c') \<Rightarrow> (Inr (old, new), setNode k (File c' xs) s))
           | _ \<Rightarrow> (Inl (Errorf ''Failed to open filesystem''), s)))"

definition IsMounted :: "ProbeResult \<Rightarrow> bool" where
  "IsMounted p \<longleftrightarrow> odd (pr_MountFlags p)"

definition IsReadOnly :: "ProbeResult \<Rightarrow> bool" where
  "IsReadOnly p \<longleftrightarrow> odd (pr_MountFlags p div 2)"

definition IsBusy :: "ProbeResult \<Rightarrow> bool" where
  "IsBusy p \<longleftrightarrow> odd (pr_MountFlags p div 8)"

subsection \<open>The disk manager (disk.go)\<close>

definition Inspect :: "disk_lib \<Rightarrow> string \<Rightarrow> (OS, BlkDev) proc" where
  "Inspect lib blkPath0 s =
     (let blkPath = Abs (os_cwd s) blkPath0
      in andThen (ProbeRAWDisk lib blkPath) (\<lambda>info.
           let mntTo = (if pr_UUID info = VarDataDiskUUID then VarDiskMountPoint
                        else ''/mnt/'' @ pr_UUID info)
           in succeed \<lparr>bd_FsType = pr_Type info, bd_UUID = pr_UUID info, bd_Path = blkPath,
                        bd_MountTo = mntTo\<rparr>) s)"

text \<open>\<open>Create\<close>: the size is converted with wrap-around to bytes and then to \<open>int64\<close>;
  a negative size is refused by \<open>ftruncate\<close>, after the file was created and emptied.\<close>

definition CreateDisk :: "string \<Rightarrow> u64 \<Rightarrow> (OS, unit) proc" where
  "CreateDisk blkPath sizeInMib =
     andThen (openWrite blkPath (\<lambda>_. [])) (\<lambda>_.
       let size = sint (ToBytes (MiB sizeInMib))
       in if size < 0 then failWith (ErrSyscall ''truncate'')
          else openWrite blkPath (\<lambda>_. replicate (nat size) (CHR 0x00)))"

definition NewUUID :: "disk_lib \<Rightarrow> string \<Rightarrow> string \<Rightarrow> (OS, unit) proc" where
  "NewUUID lib uid blkPath0 s =
     andThen (SetUUID lib (Abs (os_cwd s) blkPath0) uid) (\<lambda>_. succeed ()) s"

subsection \<open>Extended attributes (xattr_linux.go)\<close>

definition GetXattr :: "string \<Rightarrow> string \<Rightarrow> (OS, string) proc" where
  "GetXattr blkPath0 namespace s =
     (let blkPath = Abs (os_cwd s) (Clean blkPath0)
      in wrapping ''getxattr'' (sys_Getxattr blkPath namespace) s)"

definition SetXattr :: "string \<Rightarrow> string \<Rightarrow> string \<Rightarrow> bool \<Rightarrow> (OS, unit) proc" where
  "SetXattr blkPath0 namespace val overwrite s =
     (if namespace = [] then (Inl (Errorf ''xattr key cannot be empty''), s)
      else if \<not> HasPrefix namespace ''user.vm.''
      then (Inl (Errorf ''xattr key must start with user.vm.''), s)
      else if val = [] then (Inl (Errorf ''xattr value cannot be empty''), s)
      else
        let blkPath = Abs (os_cwd s) (Clean blkPath0);
            existValue = (case GetXattr blkPath namespace s of (Inr v, _) \<Rightarrow> v | _ \<Rightarrow> [])
        in if existValue \<noteq> [] \<and> \<not> overwrite then (Inr (), s)
           else sys_Setxattr blkPath namespace val s)"

subsection \<open>Files (file.go, resources.go)\<close>

definition PathExists :: "string \<Rightarrow> (OS, bool) proc" where
  "PathExists path s =
     (case os_Stat path s of
        (Inr _, s') \<Rightarrow> (Inr True, s')
      | (Inl e, s') \<Rightarrow> if errIs_NotExist e then (Inr False, s') else (Inl e, s'))"

definition ExtractEmbeddedRawDisk :: "disk_lib \<Rightarrow> string \<Rightarrow> (OS, unit) proc" where
  "ExtractEmbeddedRawDisk lib target0 s =
     (let target = Abs (os_cwd s) (Clean target0)
      in case SplitPath target of (baseDir, fileName) \<Rightarrow>
           andThen (os_MkdirAll baseDir) (\<lambda>_. archive_extract lib baseDir fileName) s)"

subsection \<open>What the code relies on\<close>

text \<open>Extraction writes the embedded image as a new file at the path and nothing else;
  libuuid prints what it parsed, in lower case; after the superblock is written back, a probe
  reports its UUID.\<close>

definition sameOutside :: "string \<Rightarrow> OS \<Rightarrow> OS \<Rightarrow> bool" where
  "sameOutside k s t \<longleftrightarrow> os_cwd t = os_cwd s \<and> os_fault t = os_fault s \<and> os_home t = os_home s \<and>
     os_ports t = os_ports s \<and> os_uuids t = os_uuids s \<and> os_locks t = os_locks s \<and>
     (\<forall>q. q \<noteq> k \<longrightarrow> nodeAt t q = nodeAt s q)"

definition tagValue :: "(string \<times> string) list \<Rightarrow> string \<Rightarrow> string option" where
  "tagValue tags key = map_of (rev tags) key"

definition extract_ok :: "disk_lib \<Rightarrow> bool" where
  "extract_ok lib \<longleftrightarrow>
     (\<forall>d f s t. archive_extract lib d f s = (Inr (), t) \<longrightarrow>
        nodeAt t (osKey s (d @ f)) = Some (File (raw_image lib) []) \<and>
        sameOutside (osKey s (d @ f)) s t)"

definition uuid_lib_ok :: "disk_lib \<Rightarrow> bool" where
  "uuid_lib_ok lib \<longleftrightarrow>
     (\<forall>u b. uuid_parse lib u = Some b \<longrightarrow>
        uuid_unparse lib b = ToLower u \<and> length u = 36 \<and> CHR 0x00 \<notin> set (ToLower u))"

definition superblock_ok :: "disk_lib \<Rightarrow> bool" where
  "superblock_ok lib \<longleftrightarrow>
     (\<forall>c fs c'. ext2fs_close_free lib c fs = Some c' \<and> super_dirty fs \<longrightarrow>
        (\<exists>tags. blkid_tags lib c' = Some tags \<and>
           tagValue tags ''UUID'' = Some (uuid_unparse lib (s_uuid fs))))"

definition disk_lib_ok :: "disk_lib \<Rightarrow> bool" where
  "disk_lib_ok lib \<longleftrightarrow> extract_ok lib \<and> uuid_lib_ok lib \<and> superblock_ok lib"

text \<open>The four words \<open>SetUUID\<close> treats as commands; a proper UUID is none of them.\<close>

definition properUUID :: "string \<Rightarrow> bool" where
  "properUUID u \<longleftrightarrow> ToLower u = u \<and> u \<notin> {''null'', ''clear'', ''time'', ''random''}"

subsection \<open>Probing and writing\<close>

lemma probe_uuid:
  "pr_UUID (foldl probeTag r tags) =
     (case tagValue tags ''UUID'' of None \<Rightarrow> pr_UUID r | Some v \<Rightarrow> cbuf 64 v)"
proof (induction tags rule: rev_induct)
  case (snoc tv tags)
  obtain t v where "tv = (t, v)" by (cases tv)
  with snoc show ?case by (simp add: probeTag_def tagValue_def)
qed (simp add: tagValue_def)

lemma cbuf_short: "length s \<le> n - 1 \<Longrightarrow> CHR 0x00 \<notin> set s \<Longrightarrow> cbuf n s = s"
  by (simp add: cbuf_def takeWhile_neq_all)

text \<open>A clean absolute path is its own key.\<close>

definition imagePath :: "string \<Rightarrow> bool" where
  "imagePath p \<longleftrightarrow> IsAbs p \<and> Clean p = p"

lemma imagePath_key [simp]:
  "imagePath p \<Longrightarrow> Abs wd p = p" "imagePath p \<Longrightarrow> Clean p = p" "imagePath p \<Longrightarrow> osKey s p = p"
  "imagePath p \<Longrightarrow> p \<noteq> []"
  by (auto simp: imagePath_def Abs_def osKey_def)

lemma node_not_root: "nodeAt s p = Some (File c xs) \<Longrightarrow> p \<noteq> [sep]"
  by (auto simp: nodeAt_def)

lemma deviceContent_file:
  assumes "imagePath p" and "nodeAt s p = Some (File c xs)"
  shows "deviceContent p s = Some c" and "deviceExists p s"
  using assms follow_plain [OF plainAt_simps(1) [OF assms(2)]]
  by (simp_all add: deviceContent_def deviceExists_def)

lemma set_uuid_ok:
  assumes "disk_lib_ok lib" and "properUUID u" and "ext2fs_set_uuid lib c u = Inr (old, new, c')"
  shows "new = u" and "\<exists>tags. blkid_tags lib c' = Some tags \<and> tagValue tags ''UUID'' = Some u"
    and "cbuf 64 u = u"
proof -
  have lower: "ToLower u = u" and kw: "u \<noteq> ''null''" "u \<noteq> ''clear''" "u \<noteq> ''time''" "u \<noteq> ''random''"
    using assms(2) by (auto simp: properUUID_def)
  have words: "ToLower ''null'' = ''null''" "ToLower ''clear'' = ''clear''"
      "ToLower ''time'' = ''time''" "ToLower ''random'' = ''random''"
    by code_simp+
  have p: "parseNewUUID lib u = uuid_parse lib u"
    using lower kw by (simp add: parseNewUUID_def EqualFold_def words)
  obtain fs b where close: "ext2fs_close_free lib c fs = Some c'" and dirty: "super_dirty fs"
    and b: "uuid_parse lib u = Some b" and fsu: "s_uuid fs = b" and new: "new = cbuf 64 (uuid_unparse lib b)"
    using assms(3) unfolding ext2fs_set_uuid_def p
    by (auto simp: Let_def split: option.splits if_splits)
  have un: "uuid_unparse lib b = u" and len: "length u = 36" and nul: "CHR 0x00 \<notin> set u"
    using assms(1) b lower unfolding disk_lib_ok_def uuid_lib_ok_def by (metis, metis, metis)
  show cb: "cbuf 64 u = u" using len nul by (simp add: cbuf_short)
  show "new = u" using new un cb by simp
  show "\<exists>tags. blkid_tags lib c' = Some tags \<and> tagValue tags ''UUID'' = Some u"
    using assms(1) close dirty fsu un unfolding disk_lib_ok_def superblock_ok_def by blast
qed

lemma SetUUID_file:
  assumes "imagePath p" and "nodeAt s p = Some (File c xs)" and "SetUUID lib p u s = (Inr r, t)"
  shows "\<exists>old new c'. ext2fs_set_uuid lib c u = Inr (old, new, c') \<and> t = setNode p (File c' xs) s"
  using assms follow_plain [OF plainAt_simps(1) [OF assms(2)]]
  by (auto simp: SetUUID_def split: sum.splits)

lemma GetXattr_file:
  assumes "imagePath p" and "nodeAt s p = Some (File c xs)" and "\<not> os_fault s ''getxattr'' p"
  shows "GetXattr p key s =
    (case map_of xs key of None \<Rightarrow> (Inl (Wrap ''getxattr'' (ErrSyscall ''ENODATA'')), s)
     | Some v \<Rightarrow> (Inr v, s))"
  using assms follow_plain [OF plainAt_simps(1) [OF assms(2)]]
  by (auto simp: GetXattr_def sys_Getxattr_def wrapping_def Let_def split: option.splits)

lemma SetXattr_file:
  assumes "imagePath p" and "nodeAt s p = Some (File c xs)" and "SetXattr p key v True s = (Inr (), t)"
  shows "t = setNode p (File c (AList.update key v xs)) s"
  using assms follow_plain [OF plainAt_simps(1) [OF assms(2)]]
  by (auto simp: SetXattr_def sys_Setxattr_def Let_def split: if_splits)

lemma Inspect_file:
  assumes "imagePath p" and "nodeAt s p = Some (File c xs)" and "Inspect lib p s = (Inr info, t)"
  shows "t = s" and "bd_Path info = p"
    and "\<exists>tags. blkid_tags lib c = Some tags \<and>
      bd_UUID info = (case tagValue tags ''UUID'' of None \<Rightarrow> [] | Some v \<Rightarrow> cbuf 64 v)"
    and "bd_MountTo info = (if bd_UUID info = VarDataDiskUUID then VarDiskMountPoint
      else ''/mnt/'' @ bd_UUID info)"
proof -
  obtain r where r: "blkid_probe_device lib p s = Inr r" and t: "t = s"
    and info: "info = \<lparr>bd_FsType = pr_Type r, bd_UUID = pr_UUID r, bd_Path = p,
      bd_MountTo = (if pr_UUID r = VarDataDiskUUID then VarDiskMountPoint else ''/mnt/'' @ pr_UUID r)\<rparr>"
    using assms(1,3)
    by (auto simp: Inspect_def ProbeRAWDisk_def andThen_Inr_iff Let_def)
  obtain tags where "blkid_tags lib c = Some tags"
    and "pr_UUID r = (case tagValue tags ''UUID'' of None \<Rightarrow> [] | Some v \<Rightarrow> cbuf 64 v)"
    using r deviceContent_file [OF assms(1,2)]
    by (auto simp: blkid_probe_device_def probe_uuid Let_def
        split: if_splits option.splits)
  with t info show "t = s" and "bd_Path info = p"
    and "\<exists>tags. blkid_tags lib c = Some tags \<and>
      bd_UUID info = (case tagValue tags ''UUID'' of None \<Rightarrow> [] | Some v \<Rightarrow> cbuf 64 v)"
    and "bd_MountTo info = (if bd_UUID info = VarDataDiskUUID then VarDiskMountPoint
      else ''/mnt/'' @ bd_UUID info)"
    by auto
qed

lemma Inspect_succeeds:
  assumes "imagePath p" and "nodeAt s p = Some (File c xs)" and "blkid_cache_ok lib"
    and "blkid_tags lib c = Some tags"
  shows "\<exists>info. Inspect lib p s = (Inr info, s)"
  using assms deviceContent_file [OF assms(1,2)]
  by (auto simp: Inspect_def ProbeRAWDisk_def blkid_probe_device_def andThen_def succeed_def Let_def
      split: option.splits)

lemma SplitPath_append: "fst (SplitPath p) @ snd (SplitPath p) = p"
proof -
  have "rev (takeWhile (\<lambda>c. c \<noteq> sep) (rev p) @ dropWhile (\<lambda>c. c \<noteq> sep) (rev p)) = p"
    by (simp only: takeWhile_dropWhile_id rev_rev_ident)
  then show ?thesis by (simp only: SplitPath_def rev_append fst_conv snd_conv)
qed

text \<open>Extraction leaves a fresh image at the path; otherwise it only adds directories.\<close>

definition onlyAt :: "string \<Rightarrow> OS \<Rightarrow> OS \<Rightarrow> bool" where
  "onlyAt k s t \<longleftrightarrow> os_cwd t = os_cwd s \<and> os_fault t = os_fault s \<and> os_home t = os_home s \<and>
     os_ports t = os_ports s \<and> os_uuids t = os_uuids s \<and> os_locks t = os_locks s \<and>
     (\<forall>q. q \<noteq> k \<longrightarrow> nodeAt t q = nodeAt s q \<or> nodeAt s q = None \<and> nodeAt t q = Some Directory)"

lemma onlyAt_refl [simp]: "onlyAt k s s"
  by (simp add: onlyAt_def)

lemma onlyAt_trans: "onlyAt k s t \<Longrightarrow> onlyAt k t u \<Longrightarrow> onlyAt k s u"
  unfolding onlyAt_def by metis

lemma onlyAt_addsDirs: "addsDirs s t \<Longrightarrow> onlyAt k s t"
  unfolding onlyAt_def addsDirs_def by blast

lemma onlyAt_sameOutside: "sameOutside k s t \<Longrightarrow> onlyAt k s t"
  unfolding onlyAt_def sameOutside_def by blast

lemma onlyAt_setNode: "k \<noteq> [sep] \<Longrightarrow> onlyAt k s (setNode k n s)"
  by (simp add: onlyAt_def os_simps)

lemma onlyAt_delNode: "k \<noteq> [sep] \<Longrightarrow> onlyAt k s (delNode k s)"
  by (simp add: onlyAt_def os_simps)

lemma ExtractEmbeddedRawDisk_ok:
  assumes "disk_lib_ok lib" and "imagePath p" and "ExtractEmbeddedRawDisk lib p s = (Inr (), t)"
  shows "nodeAt t p = Some (File (raw_image lib) [])" and "onlyAt p s t"
proof -
  obtain s1 where m: "os_MkdirAll (fst (SplitPath p)) s = (Inr (), s1)"
    and x: "archive_extract lib (fst (SplitPath p)) (snd (SplitPath p)) s1 = (Inr (), t)"
    using assms(2,3) by (auto simp: ExtractEmbeddedRawDisk_def andThen_Inr_iff Let_def split: prod.splits)
  have "extract_ok lib" using assms(1) by (simp add: disk_lib_ok_def)
  then have e: "nodeAt t (osKey s1 p) = Some (File (raw_image lib) [])" "sameOutside (osKey s1 p) s1 t"
    using x unfolding extract_ok_def by (metis SplitPath_append)+
  then show "nodeAt t p = Some (File (raw_image lib) [])" using assms(2) by simp
  show "onlyAt p s t"
    using onlyAt_addsDirs [OF os_MkdirAll_addsDirs [OF m]] onlyAt_sameOutside e(2) assms(2)
    by (metis imagePath_key(3) onlyAt_trans)
qed

end
