(* ===== verification/Paths.thy ===== *)
theory Paths
  imports Define Go_OS
begin

text \<open>
  Where the host program puts its files: \<open>pkg/librevm/paths.go\<close> (the files of a workspace)
  and the session directory functions at the end of \<open>pkg/librevm/machine.go\<close>. The
  interface \<open>workspace_files\<close> says what the callers rely on: every file lies inside the
  workspace, and different roles get different files.
\<close>

subsection \<open>Session directories (machine.go)\<close>

text \<open>The argument \<open>home\<close> is the result of \<open>os.UserHomeDir()\<close>.\<close>

definition getSessionDir :: "string res \<Rightarrow> string \<Rightarrow> string" where
  "getSessionDir home name =
     (case home of
        Inl _ \<Rightarrow> Join [''/tmp'', name]
      | Inr dir \<Rightarrow> Join [dir, ''.cache'', ''ovm-krun'', name])"

definition getDefaultVarDiskPath :: "string res \<Rightarrow> string \<Rightarrow> string" where
  "getDefaultVarDiskPath home sid = Join [getSessionDir home sid, ''data'', ''data.img'']"

definition getLogFilePath :: "string res \<Rightarrow> string \<Rightarrow> string" where
  "getLogFilePath home sid = Join [getSessionDir home sid, ''logs'', ''ovm.log'']"

definition ignitionSockFile :: "string \<Rightarrow> string" where
  "ignitionSockFile workspace = Clean (Join [workspace, ''socks'', ''ign.sock''])"

subsection \<open>Workspace files (paths.go)\<close>

record machinePathManager =
  workspaceDir :: string

definition newMachinePathManager :: "string \<Rightarrow> machinePathManager" where
  "newMachinePathManager dir = \<lparr>workspaceDir = dir\<rparr>"

definition GetSocketFile :: "machinePathManager \<Rightarrow> string \<Rightarrow> string" where
  "GetSocketFile p name = Clean (Join [workspaceDir p, ''socks'', name])"

definition GetPodmanSocketFile :: "machinePathManager \<Rightarrow> string" where
  "GetPodmanSocketFile p = GetSocketFile p ''podman-api.sock''"

definition GetVNetSocketFile :: "machinePathManager \<Rightarrow> string" where
  "GetVNetSocketFile p = GetSocketFile p ''vnet.sock''"

definition GetGVPCtlSocketFile :: "machinePathManager \<Rightarrow> string" where
  "GetGVPCtlSocketFile p = GetSocketFile p ''gvpctl.sock''"

definition GetVMCtlSocketFile :: "machinePathManager \<Rightarrow> string" where
  "GetVMCtlSocketFile p = GetSocketFile p ''vmctl.sock''"

definition GetIgnSocketFile :: "machinePathManager \<Rightarrow> string" where
  "GetIgnSocketFile p = GetSocketFile p ''ign.sock''"

definition GetSSHPrivateKeyFile :: "machinePathManager \<Rightarrow> string" where
  "GetSSHPrivateKeyFile p = Clean (Join [workspaceDir p, ''ssh'', ''key''])"

definition GetLogsDir :: "machinePathManager \<Rightarrow> string" where
  "GetLogsDir p = Join [workspaceDir p, ''logs'']"

definition GetRootfsDir :: "machinePathManager \<Rightarrow> string" where
  "GetRootfsDir p = Join [workspaceDir p, ''rootfs'']"

text \<open>All files the path manager names, in the order of the source.\<close>

definition workspaceFiles :: "machinePathManager \<Rightarrow> string list" where
  "workspaceFiles p = [GetPodmanSocketFile p, GetVNetSocketFile p, GetGVPCtlSocketFile p,
     GetVMCtlSocketFile p, GetIgnSocketFile p, GetSSHPrivateKeyFile p, GetLogsDir p,
     GetRootfsDir p]"

definition workspaceElems :: "string list list" where
  "workspaceElems = [[''socks'', ''podman-api.sock''], [''socks'', ''vnet.sock''],
     [''socks'', ''gvpctl.sock''], [''socks'', ''vmctl.sock''], [''socks'', ''ign.sock''],
     [''ssh'', ''key''], [''logs''], [''rootfs'']]"

subsection \<open>Every file lies in the workspace\<close>

text \<open>What the callers of a path manager rely on.\<close>

locale workspace_files =
  fixes root :: "'m \<Rightarrow> string"
    and files :: "'m \<Rightarrow> string list"
    and invar :: "'m \<Rightarrow> bool"
  assumes inside: "invar m \<Longrightarrow> f \<in> set (files m) \<Longrightarrow> under (root m) f"
    and distinct_files: "invar m \<Longrightarrow> distinct (files m)"
    and root_clean: "invar m \<Longrightarrow> IsAbs (root m) \<and> Clean (root m) = root m"
begin

lemma not_root: "invar m \<Longrightarrow> f \<in> set (files m) \<Longrightarrow> f \<noteq> root m"
  using inside [of m f] by (auto simp: under_def)

lemma removed_with_root:
  assumes "invar m" and "os_RemoveAll (root m) s = (Inr (), t)"
    and "f \<in> set (files m)" and "f \<noteq> [sep]"
  shows "nodeAt t f = None"
proof -
  have "osKey s (root m) = root m"
    using root_clean [OF assms(1)] by (simp add: osKey_def Abs_def)
  moreover have "root m \<noteq> []" using root_clean [OF assms(1)] by auto
  ultimately show ?thesis
    using os_RemoveAll_node [OF assms(2)] inside [OF assms(1,3)] assms(4) by simp
qed

end

definition workspace_ok :: "machinePathManager \<Rightarrow> bool" where
  "workspace_ok p \<longleftrightarrow> IsAbs (workspaceDir p) \<and> Clean (workspaceDir p) = workspaceDir p"

lemmas path_getters = GetPodmanSocketFile_def GetVNetSocketFile_def GetGVPCtlSocketFile_def
  GetVMCtlSocketFile_def GetIgnSocketFile_def GetSSHPrivateKeyFile_def GetLogsDir_def
  GetRootfsDir_def GetSocketFile_def

lemma Join_names_not_Nil: "IsAbs w \<Longrightarrow> ns \<noteq> [] \<Longrightarrow> list_all nameElem ns \<Longrightarrow> Join (w # ns) \<noteq> []"
  by (simp add: Join_names)

lemma workspaceElems_names:
  "ns \<in> set workspaceElems \<Longrightarrow> ns \<noteq> [] \<and> list_all nameElem ns"
  unfolding workspaceElems_def by (auto simp: nameElem_def)

lemma workspaceFiles_eq:
  assumes "IsAbs (workspaceDir p)"
  shows "workspaceFiles p = map (\<lambda>ns. Join (workspaceDir p # ns)) workspaceElems"
  using Join_names_not_Nil [OF assms]
  by (simp add: workspaceFiles_def workspaceElems_def path_getters nameElem_def)

interpretation pathMgr: workspace_files workspaceDir workspaceFiles workspace_ok
proof
  fix m f
  assume m: "workspace_ok m" and f: "f \<in> set (workspaceFiles m)"
  then have abs: "IsAbs (workspaceDir m)" by (simp add: workspace_ok_def)
  from f obtain ns where "ns \<in> set workspaceElems" and "f = Join (workspaceDir m # ns)"
    by (auto simp: workspaceFiles_eq [OF abs])
  then show "under (workspaceDir m) f"
    using Join_names_under(1) [OF abs] workspaceElems_names m by (simp add: workspace_ok_def)
next
  fix m
  assume m: "workspace_ok m"
  then have abs: "IsAbs (workspaceDir m)" by (simp add: workspace_ok_def)
  have "inj_on (\<lambda>ns. Join (workspaceDir m # ns)) (set workspaceElems)"
    using Join_names_inj [OF abs] workspaceElems_names by (meson inj_onI)
  moreover have "distinct workspaceElems" by (simp add: workspaceElems_def)
  ultimately show "distinct (workspaceFiles m)"
    by (simp add: workspaceFiles_eq [OF abs] distinct_map)
qed (simp add: workspace_ok_def)

subsection \<open>Properties\<close>

text \<open>The files of a workspace: for an absolute clean workspace directory the eight
  files and directories the program names there are pairwise different and all lie strictly
  inside the workspace, so that no two services share a socket.\<close>

theorem workspace_files_separate:
  assumes "IsAbs ws" and "Clean ws = ws"
  shows "distinct (workspaceFiles (newMachinePathManager ws)) \<and>
    (\<forall>f \<in> set (workspaceFiles (newMachinePathManager ws)). under ws f)"
proof -
  have "workspace_ok (newMachinePathManager ws)"
    using assms by (simp add: workspace_ok_def newMachinePathManager_def)
  then show ?thesis
    using pathMgr.distinct_files pathMgr.inside by (fastforce simp: newMachinePathManager_def)
qed

theorem workspace_files_separate_witness:
  "distinct (workspaceFiles (newMachinePathManager ''/tmp/s'')) \<and>
    list_all (under ''/tmp/s'') (workspaceFiles (newMachinePathManager ''/tmp/s''))"
proof -
  have "IsAbs ''/tmp/s''" and "Clean ''/tmp/s'' = ''/tmp/s''" by code_simp+
  from workspace_files_separate [OF this] show ?thesis by (simp add: list_all_iff)
qed

end
