(* ===== verification/Config.thy ===== *)
theory Config
  imports Paths
begin

text \<open>
  \<open>pkg/librevm/config.go\<close>: the user's configuration, the chain methods that fill it from
  flags, the merge with a configuration file, and the normalisation and validation every VM
  start goes through.

  The receiver of a chain method, never nil here, is the first argument and the updated configuration the
  result. What the host provides is a parameter: \<open>numCPU\<close> (\<open>runtime.NumCPU\<close>) and
  \<open>totalMem\<close> (\<open>mem.VirtualMemory\<close> of gopsutil, in bytes, which may fail).
\<close>

subsection \<open>The configuration\<close>

definition ModeContainer :: string where "ModeContainer = ''docker''"
definition ModeCfgGen :: string where "ModeCfgGen = ''cfggen''"
definition maxLogFileSize :: nat where "maxLogFileSize = 10 * 1024 * 1024"

definition RunMode_IsValid :: "string \<Rightarrow> bool" where
  "RunMode_IsValid m \<longleftrightarrow> m = ModeContainer"

record RawDisk =
  RawDiskPath :: string
  rd_UUID :: string
  rd_Mnt :: string
  rd_Version :: string

record Config =
  cfg_RunMode :: string
  SessionID :: string
  CPUs :: int
  MemoryMB :: u64
  WorkDir :: string
  Env :: "string list"
  VarDisk :: RawDisk
  ExternalDisks :: "RawDisk list"
  Network :: string
  cfg_Mounts :: "string list"
  ForwardUnix :: "string list"
  PodmanProxyAPIFile :: string
  ManageAPIFile :: string
  SSHKeyPrivateFileSymbolLinks :: string
  SSHKeyPublicFileSymbolLinks :: string
  Proxy :: bool
  LogLevel :: string
  LogTo :: string
  ReportURL :: string

definition emptyRawDisk :: RawDisk where
  "emptyRawDisk = \<lparr>RawDiskPath = [], rd_UUID = [], rd_Mnt = [], rd_Version = []\<rparr>"

definition emptyConfig :: Config where
  "emptyConfig = \<lparr>cfg_RunMode = [], SessionID = [], CPUs = 0, MemoryMB = 0, WorkDir = [],
     Env = [], VarDisk = emptyRawDisk, ExternalDisks = [], Network = [], cfg_Mounts = [],
     ForwardUnix = [], PodmanProxyAPIFile = [], ManageAPIFile = [],
     SSHKeyPrivateFileSymbolLinks = [], SSHKeyPublicFileSymbolLinks = [], Proxy = False,
     LogLevel = [], LogTo = [], ReportURL = []\<rparr>"

definition DefaultConfig :: "string res \<Rightarrow> string \<Rightarrow> Config" where
  "DefaultConfig home sid = emptyConfig\<lparr>SessionID := sid, Network := ''gvisor'', WorkDir := ''/'',
     LogTo := getLogFilePath home sid, LogLevel := ''info'',
     VarDisk := \<lparr>RawDiskPath = getDefaultVarDiskPath home sid, rd_UUID = VarDataDiskUUID,
                 rd_Mnt = VarDiskMountPoint, rd_Version = DefaultRawDiskVersion\<rparr>\<rparr>"

subsection \<open>Chain methods\<close>

definition WithMode :: "Config \<Rightarrow> string \<Rightarrow> Config" where
  "WithMode c m = (if m \<noteq> [] then c\<lparr>cfg_RunMode := m\<rparr> else c)"

definition WithCPUs :: "Config \<Rightarrow> int \<Rightarrow> Config" where
  "WithCPUs c n = (if n > 0 then c\<lparr>CPUs := n\<rparr> else c)"

definition WithMemory :: "Config \<Rightarrow> u64 \<Rightarrow> Config" where
  "WithMemory c mb = (if mb > 0 then c\<lparr>MemoryMB := mb\<rparr> else c)"

definition WithWorkDir :: "Config \<Rightarrow> string \<Rightarrow> Config" where
  "WithWorkDir c dir = (if dir \<noteq> [] then c\<lparr>WorkDir := dir\<rparr> else c)"

definition WithNetwork :: "Config \<Rightarrow> string \<Rightarrow> Config" where
  "WithNetwork c mode = (if mode \<noteq> [] then c\<lparr>Network := mode\<rparr> else c)"

text \<open>The loop of \<open>WithVarDataDisk\<close> over the options after the path.\<close>

fun varDiskVersion :: "string \<Rightarrow> string list \<Rightarrow> string" where
  "varDiskVersion version [] = version"
| "varDiskVersion version (part # parts) =
     (case Cut (TrimSpace part) (CHR ''='') of (key, val, found) \<Rightarrow>
        varDiskVersion
          (if found \<and> EqualFold (TrimSpace key) ''version'' \<and> TrimSpace val \<noteq> []
           then TrimSpace val else version)
          parts)"

definition WithVarDataDisk :: "Config \<Rightarrow> string \<Rightarrow> Config" where
  "WithVarDataDisk c raw =
     (let spec = TrimSpace raw
      in if spec = [] then c
         else
           let parts = Split spec (CHR '','');
               path = TrimSpace (hd parts)
           in if path = [] then c
              else c\<lparr>VarDisk := \<lparr>RawDiskPath = path, rd_UUID = VarDataDiskUUID,
                                rd_Mnt = VarDiskMountPoint,
                                rd_Version = varDiskVersion DefaultRawDiskVersion (tl parts)\<rparr>\<rparr>)"

definition WithPodmanProxyAPIFile :: "Config \<Rightarrow> string \<Rightarrow> Config" where
  "WithPodmanProxyAPIFile c path = (if path \<noteq> [] then c\<lparr>PodmanProxyAPIFile := path\<rparr> else c)"

definition WithManageAPIFile :: "Config \<Rightarrow> string \<Rightarrow> Config" where
  "WithManageAPIFile c path = (if path \<noteq> [] then c\<lparr>ManageAPIFile := path\<rparr> else c)"

definition WithExportSSHKeyPrivateFile :: "Config \<Rightarrow> string \<Rightarrow> Config" where
  "WithExportSSHKeyPrivateFile c path =
     (if path \<noteq> [] then c\<lparr>SSHKeyPrivateFileSymbolLinks := path\<rparr> else c)"

definition WithExportSSHKeyPublicFile :: "Config \<Rightarrow> string \<Rightarrow> Config" where
  "WithExportSSHKeyPublicFile c path =
     (if path \<noteq> [] then c\<lparr>SSHKeyPublicFileSymbolLinks := path\<rparr> else c)"

definition WithReportEndpoint :: "Config \<Rightarrow> string \<Rightarrow> Config" where
  "WithReportEndpoint c url = (let v = TrimSpace url in if v \<noteq> [] then c\<lparr>ReportURL := v\<rparr> else c)"

definition WithProxy :: "Config \<Rightarrow> bool \<Rightarrow> Config" where
  "WithProxy c enable = c\<lparr>Proxy := enable\<rparr>"

definition WithLogLevelAndLogFile :: "Config \<Rightarrow> string \<Rightarrow> string \<Rightarrow> Config" where
  "WithLogLevelAndLogFile c level logTo =
     (let c1 = (if level \<noteq> [] then c\<lparr>LogLevel := level\<rparr> else c)
      in if logTo \<noteq> [] then c1\<lparr>LogTo := logTo\<rparr> else c1)"

definition WithEnv :: "Config \<Rightarrow> string list \<Rightarrow> Config" where
  "WithEnv c kvs = (if kvs \<noteq> [] then c\<lparr>Env := Env c @ kvs\<rparr> else c)"

definition WithMount :: "Config \<Rightarrow> string list \<Rightarrow> Config" where
  "WithMount c specs = (if specs \<noteq> [] then c\<lparr>cfg_Mounts := cfg_Mounts c @ specs\<rparr> else c)"

definition WithForwardUnix :: "Config \<Rightarrow> string list \<Rightarrow> Config" where
  "WithForwardUnix c specs =
     (if specs \<noteq> [] then c\<lparr>ForwardUnix := ForwardUnix c @ specs\<rparr> else c)"

text \<open>One option \<open>key=value\<close> of a \<open>--raw-disk\<close> spec, then one spec, then all specs. A
  missing UUID is drawn from \<open>uuid.NewString\<close>.\<close>

definition diskOption :: "RawDisk \<Rightarrow> string \<Rightarrow> RawDisk" where
  "diskOption raw part0 =
     (let part = TrimSpace part0
      in if part = [] then raw
         else case Cut part (CHR ''='') of (key0, val0, found) \<Rightarrow>
           if \<not> found then raw
           else
             let key = ToLower (TrimSpace key0); val = TrimSpace val0
             in if key = ''uuid'' then raw\<lparr>rd_UUID := val\<rparr>
                else if key = ''version'' then raw\<lparr>rd_Version := val\<rparr>
                else if key = ''mnt'' then raw\<lparr>rd_Mnt := val\<rparr>
                else raw)"

definition parseDiskSpec :: "string \<Rightarrow> OS \<Rightarrow> RawDisk \<times> OS" where
  "parseDiskSpec spec s =
     (let parts = Split spec (CHR '','');
          raw0 = foldl diskOption (emptyRawDisk\<lparr>RawDiskPath := TrimSpace (hd parts)\<rparr>) (tl parts);
          raw1 = (if rd_Version raw0 = [] then raw0\<lparr>rd_Version := DefaultRawDiskVersion\<rparr> else raw0)
      in if rd_UUID raw1 = []
         then (case uuid_NewString s of (u, s') \<Rightarrow> (raw1\<lparr>rd_UUID := u\<rparr>, s'))
         else (raw1, s))"

fun WithDisk :: "Config \<Rightarrow> string list \<Rightarrow> OS \<Rightarrow> Config \<times> OS" where
  "WithDisk c [] s = (c, s)"
| "WithDisk c (raw # specs) s =
     (let spec = TrimSpace raw
      in if spec = [] then WithDisk c specs s
         else case parseDiskSpec spec s of (d, s') \<Rightarrow>
           WithDisk (c\<lparr>ExternalDisks := ExternalDisks c @ [d]\<rparr>) specs s')"

subsection \<open>Merging with a configuration file\<close>

text \<open>Each field the merge covers: the other configuration's value when it is set. A list
  is copied whole.\<close>

definition trimmedOr :: "string \<Rightarrow> string \<Rightarrow> string" where
  "trimmedOr v old = (if TrimSpace v \<noteq> [] then TrimSpace v else old)"

definition OverwriteCfgFrom :: "Config \<Rightarrow> Config \<Rightarrow> Config" where
  "OverwriteCfgFrom c other = c\<lparr>
     SessionID := trimmedOr (SessionID other) (SessionID c),
     CPUs := (if CPUs other > 0 then CPUs other else CPUs c),
     MemoryMB := (if MemoryMB other > 0 then MemoryMB other else MemoryMB c),
     VarDisk := (if TrimSpace (RawDiskPath (VarDisk other)) \<noteq> [] then VarDisk other else VarDisk c),
     ExternalDisks := (if ExternalDisks other \<noteq> [] then ExternalDisks other else ExternalDisks c),
     cfg_Mounts := (if cfg_Mounts other \<noteq> [] then cfg_Mounts other else cfg_Mounts c),
     ForwardUnix := (if ForwardUnix other \<noteq> [] then ForwardUnix other else ForwardUnix c),
     PodmanProxyAPIFile := trimmedOr (PodmanProxyAPIFile other) (PodmanProxyAPIFile c),
     ManageAPIFile := trimmedOr (ManageAPIFile other) (ManageAPIFile c),
     SSHKeyPrivateFileSymbolLinks :=
       trimmedOr (SSHKeyPrivateFileSymbolLinks other) (SSHKeyPrivateFileSymbolLinks c),
     SSHKeyPublicFileSymbolLinks :=
       trimmedOr (SSHKeyPublicFileSymbolLinks other) (SSHKeyPublicFileSymbolLinks c),
     LogLevel := trimmedOr (LogLevel other) (LogLevel c),
     LogTo := trimmedOr (LogTo other) (LogTo c)\<rparr>"

subsection \<open>Logging set-up\<close>

text \<open>\<open>parseLevel\<close> is \<open>logrus.ParseLevel\<close>. The result is the level logrus is set to.\<close>

definition setupLoggers :: "(string \<Rightarrow> 'l res) \<Rightarrow> string \<Rightarrow> string \<Rightarrow> string \<Rightarrow> (OS, 'l) proc" where
  "setupLoggers parseLevel level0 logTo0 sessionID s =
     (let level = (if level0 = [] then ''info'' else level0);
          logTo = (if logTo0 = [] then getLogFilePath (os_home s) sessionID else logTo0)
      in if TrimSpace level = [] then (Inl (Errorf ''invalid log level''), s)
         else if TrimSpace logTo = [] then (Inl (Errorf ''invalid log path''), s)
         else case parseLevel level of
                Inl e \<Rightarrow> (Inl (Wrap ''parse log level'' e), s)
              | Inr l \<Rightarrow>
                  if logTo = [] then (Inr l, s)
                  else
                    andThen (wrapping ''create log directory'' (os_MkdirAll (Dir logTo))) (\<lambda>_ s1.
                      let s2 = (case os_Stat logTo s1 of
                                  (Inr (File c xs), _) \<Rightarrow>
                                    if length c > maxLogFileSize then snd (os_Truncate0 logTo s1)
                                    else s1
                                | _ \<Rightarrow> s1)
                      in andThen (wrapping ''open log file'' (os_OpenAppend logTo))
                           (\<lambda>_. succeed l) s2) s)"

subsection \<open>Normalisation and validation\<close>

definition validateConfig :: "Config \<Rightarrow> unit res" where
  "validateConfig cfg =
     (if SessionID cfg = [] then Inl (Errorf ''session name must not be empty'')
      else if \<not> RunMode_IsValid (cfg_RunMode cfg) then Inl (Errorf ''invalid run mode'')
      else if MemoryMB cfg < 512 then Inl (Errorf ''memory must be at least 512 MB'')
      else if CPUs cfg < 1 then Inl (Errorf ''cpus must be at least 1'')
      else if CPUs cfg > 255 then Inl (Errorf ''cpus must be at most 255'')
      else if \<not> (Network cfg = ''gvisor'' \<or> Network cfg = ''tsi'')
      then Inl (Errorf ''network must be gvisor or tsi'')
      else if RawDiskPath (VarDisk cfg) = [] then Inl (Errorf ''var disk path is required'')
      else if rd_Mnt (VarDisk cfg) \<noteq> VarDiskMountPoint \<or> rd_UUID (VarDisk cfg) \<noteq> VarDataDiskUUID
      then Inl (Errorf ''var disk must use the fixed mnt and uuid'')
      else Inr ())"

text \<open>The defaults, field by field in the order of the source; \<open>uint64\<close> division by 1024
  twice gives megabytes.\<close>

definition withDefaults :: "int \<Rightarrow> u64 \<Rightarrow> Config \<Rightarrow> Config" where
  "withDefaults numCPU totalMem cfg = cfg\<lparr>
     CPUs := (if CPUs cfg \<le> 0 then numCPU else CPUs cfg),
     MemoryMB := (if MemoryMB cfg = 0 then totalMem div 1024 div 1024 else MemoryMB cfg),
     Network := (if Network cfg = [] then ''gvisor'' else Network cfg),
     LogLevel := (if LogLevel cfg = [] then ''info'' else LogLevel cfg),
     WorkDir := (if WorkDir cfg = [] then ''/'' else WorkDir cfg)\<rparr>"

definition NormalizeConfig :: "int \<Rightarrow> u64 res \<Rightarrow> Config \<Rightarrow> Config res" where
  "NormalizeConfig numCPU totalMem cfg =
     (case (if MemoryMB cfg = 0 then wrapErr ''detect host memory'' totalMem else Inr 0) of
        Inl e \<Rightarrow> Inl e
      | Inr mem \<Rightarrow>
          let cfg' = withDefaults numCPU mem cfg
          in case validateConfig cfg' of Inl e \<Rightarrow> Inl e | Inr _ \<Rightarrow> Inr cfg')"

subsection \<open>Options as they are written\<close>

text \<open>A field value that survives the trip through an option list: not empty, no comma, no
  white space at its ends.\<close>

definition plainField :: "string \<Rightarrow> bool" where
  "plainField v \<longleftrightarrow> v \<noteq> [] \<and> CHR '','' \<notin> set v \<and> \<not> isSpace (hd v) \<and> \<not> isSpace (last v)"

definition renderDisk :: "RawDisk \<Rightarrow> string" where
  "renderDisk d = RawDiskPath d @ '',uuid='' @ rd_UUID d @ '',version='' @ rd_Version d @
     '',mnt='' @ rd_Mnt d"

definition diskFields :: "RawDisk \<Rightarrow> string list" where
  "diskFields d = [RawDiskPath d, rd_UUID d, rd_Version d, rd_Mnt d]"

lemma plainField_trim [simp]: "plainField v \<Longrightarrow> TrimSpace v = v"
  by (rule TrimSpace_id) (auto simp: plainField_def)

lemma plainField_comma: "plainField v \<Longrightarrow> CHR '','' \<notin> set v"
  by (simp add: plainField_def)

lemma plainField_not_Nil: "plainField v \<Longrightarrow> v \<noteq> []"
  by (simp add: plainField_def)

lemma trim_between:
  assumes "plainField a" and "plainField b"
  shows "TrimSpace (a @ m @ b) = a @ m @ b"
  using assms by (intro TrimSpace_id) (auto simp: plainField_def)

text \<open>An option \<open>key=value\<close> with a key of letters and a plain value.\<close>

lemma option_parts:
  assumes "plainField k" and "CHR ''='' \<notin> set k" and "plainField v"
  shows "TrimSpace (k @ ''='' @ v) = k @ ''='' @ v"
    and "Cut (k @ ''='' @ v) (CHR ''='') = (k, v, True)"
  using trim_between [OF assms(1,3), of "''=''"] assms(2) by simp_all

lemma lower_keys:
  "ToLower ''uuid'' = ''uuid''" "ToLower ''version'' = ''version''" "ToLower ''mnt'' = ''mnt''"
  by code_simp+

lemma plain_keys:
  "plainField ''uuid''" "plainField ''version''" "plainField ''mnt''"
  by (simp_all add: plainField_def isSpace_def)

lemma diskOption_keys:
  assumes "plainField v"
  shows "diskOption raw (''uuid='' @ v) = raw\<lparr>rd_UUID := v\<rparr>"
    and "diskOption raw (''version='' @ v) = raw\<lparr>rd_Version := v\<rparr>"
    and "diskOption raw (''mnt='' @ v) = raw\<lparr>rd_Mnt := v\<rparr>"
  using option_parts [OF plain_keys(1) _ assms] option_parts [OF plain_keys(2) _ assms]
    option_parts [OF plain_keys(3) _ assms] assms
  by (simp_all add: diskOption_def lower_keys plain_keys)

lemma Split_renderDisk:
  assumes "list_all plainField (diskFields d)"
  shows "Split (renderDisk d) (CHR '','') =
    [RawDiskPath d, ''uuid='' @ rd_UUID d, ''version='' @ rd_Version d, ''mnt='' @ rd_Mnt d]"
proof -
  have c: "CHR '','' \<notin> set v" if "v \<in> set (diskFields d)" for v
    using assms that by (auto simp: list_all_iff plainField_def)
  have "renderDisk d = RawDiskPath d @ CHR '','' # (''uuid='' @ rd_UUID d) @ CHR '','' #
      (''version='' @ rd_Version d) @ CHR '','' # ''mnt='' @ rd_Mnt d"
    by (simp add: renderDisk_def)
  then show ?thesis
    using c by (simp only: Split_append Split_no_sep) (simp add: Split_append diskFields_def)
qed

lemma parseDiskSpec_render:
  assumes "list_all plainField (diskFields d)"
  shows "parseDiskSpec (renderDisk d) s = (d, s)"
  using assms Split_renderDisk [OF assms]
  by (simp add: parseDiskSpec_def diskFields_def diskOption_keys [simplified] emptyRawDisk_def
      plainField_not_Nil)

lemma renderDisk_trim:
  "list_all plainField (diskFields d) \<Longrightarrow> TrimSpace (renderDisk d) = renderDisk d"
  using trim_between [of "RawDiskPath d" "rd_Mnt d"
      "'',uuid='' @ rd_UUID d @ '',version='' @ rd_Version d @ '',mnt=''"]
  by (simp add: renderDisk_def diskFields_def)

lemma WithDisk_renders:
  "list_all (\<lambda>d. list_all plainField (diskFields d)) ds \<Longrightarrow>
   WithDisk c (map renderDisk ds) s = (c\<lparr>ExternalDisks := ExternalDisks c @ ds\<rparr>, s)"
proof (induction ds arbitrary: c)
  case (Cons d ds)
  then have "TrimSpace (renderDisk d) = renderDisk d" and "renderDisk d \<noteq> []"
    by (auto simp: renderDisk_trim) (auto simp: renderDisk_def diskFields_def plainField_def)
  with Cons show ?case by (simp add: parseDiskSpec_render)
qed simp

subsection \<open>Every accepted disk has a version and a UUID\<close>

lemma parseDiskSpec_filled:
  assumes "parseDiskSpec spec s = (d, s')" and "list_all (\<lambda>u. u \<noteq> []) (os_uuids s)"
    and "os_uuids s \<noteq> []"
  shows "rd_Version d \<noteq> [] \<and> rd_UUID d \<noteq> [] \<and>
    (\<exists>n \<le> 1. s' = s\<lparr>os_uuids := drop n (os_uuids s)\<rparr>)"
  using assms
  by (cases "os_uuids s")
    (auto simp: parseDiskSpec_def uuid_NewString_def Let_def DefaultRawDiskVersion_def
      intro: exI [of _ 0] exI [of _ 1] split: if_splits)

lemma WithDisk_filled:
  assumes "WithDisk c specs s = (c', s')" and "list_all (\<lambda>u. u \<noteq> []) (os_uuids s)"
    and "length specs \<le> length (os_uuids s)"
  shows "\<exists>ds. c' = c\<lparr>ExternalDisks := ExternalDisks c @ ds\<rparr> \<and>
    length ds = length (filter (\<lambda>p. TrimSpace p \<noteq> []) specs) \<and>
    (\<forall>d \<in> set ds. rd_Version d \<noteq> [] \<and> rd_UUID d \<noteq> [])"
  using assms
proof (induction c specs s rule: WithDisk.induct)
  case (2 c raw specs s)
  show ?case
  proof (cases "TrimSpace raw = []")
    case True
    with 2 show ?thesis by simp
  next
    case False
    obtain d s1 where p: "parseDiskSpec (TrimSpace raw) s = (d, s1)"
      by (cases "parseDiskSpec (TrimSpace raw) s")
    have "os_uuids s \<noteq> []" using "2.prems"(3) by auto
    then have d: "rd_Version d \<noteq> []" "rd_UUID d \<noteq> []"
      and s1: "\<exists>n \<le> 1. s1 = s\<lparr>os_uuids := drop n (os_uuids s)\<rparr>"
      using parseDiskSpec_filled [OF p "2.prems"(2)] by auto
    have w: "WithDisk (c\<lparr>ExternalDisks := ExternalDisks c @ [d]\<rparr>) specs s1 = (c', s')"
      using "2.prems"(1) False p by simp
    have u: "list_all (\<lambda>u. u \<noteq> []) (os_uuids s1)" "length specs \<le> length (os_uuids s1)"
      using s1 "2.prems"(2,3) in_set_dropD [of "[]" _ "os_uuids s"] by (auto simp: list_all_iff)
    obtain ds where "c' = c\<lparr>ExternalDisks := ExternalDisks c @ [d]\<rparr>\<lparr>ExternalDisks :=
          (ExternalDisks c @ [d]) @ ds\<rparr>"
      and "length ds = length (filter (\<lambda>p. TrimSpace p \<noteq> []) specs)"
      and "\<forall>d \<in> set ds. rd_Version d \<noteq> [] \<and> rd_UUID d \<noteq> []"
      using "2.IH"(2) [OF refl False p [symmetric] w u] by auto
    with False d show ?thesis by (intro exI [of _ "d # ds"]) simp
  qed
qed simp

subsection \<open>The var disk keeps its identity\<close>

definition varDiskFixed :: "Config \<Rightarrow> bool" where
  "varDiskFixed c \<longleftrightarrow> rd_Mnt (VarDisk c) = VarDiskMountPoint \<and> rd_UUID (VarDisk c) = VarDataDiskUUID"

lemma varDiskVersion_not_Nil: "v \<noteq> [] \<Longrightarrow> varDiskVersion v parts \<noteq> []"
  by (induction v parts rule: varDiskVersion.induct) (auto split: prod.splits)

lemma WithVarDataDisk_cases:
  "WithVarDataDisk c raw = c \<or>
   varDiskFixed (WithVarDataDisk c raw) \<and> RawDiskPath (VarDisk (WithVarDataDisk c raw)) \<noteq> [] \<and>
   rd_Version (VarDisk (WithVarDataDisk c raw)) \<noteq> []"
  by (simp add: WithVarDataDisk_def Let_def varDiskFixed_def varDiskVersion_not_Nil
      DefaultRawDiskVersion_def)

lemmas chain_defs = WithMode_def WithCPUs_def WithMemory_def WithWorkDir_def WithNetwork_def
  WithPodmanProxyAPIFile_def WithManageAPIFile_def WithExportSSHKeyPrivateFile_def
  WithExportSSHKeyPublicFile_def WithReportEndpoint_def WithProxy_def
  WithLogLevelAndLogFile_def WithEnv_def WithMount_def WithForwardUnix_def

lemma WithDisk_VarDisk: "WithDisk c specs s = (c', s') \<Longrightarrow> VarDisk c' = VarDisk c"
proof (induction c specs s rule: WithDisk.induct)
  case (2 c raw specs s)
  then show ?case by (auto simp: Let_def split: if_splits prod.splits)
qed simp

lemma trimmedOr_idem [simp]: "trimmedOr v (trimmedOr v old) = trimmedOr v old"
  by (simp add: trimmedOr_def)

lemma validateConfig_ok_iff:
  "validateConfig c = Inr () \<longleftrightarrow>
     SessionID c \<noteq> [] \<and> cfg_RunMode c = ModeContainer \<and> 512 \<le> MemoryMB c \<and>
     1 \<le> CPUs c \<and> CPUs c \<le> 255 \<and> (Network c = GVISOR \<or> Network c = TSI) \<and>
     RawDiskPath (VarDisk c) \<noteq> [] \<and> varDiskFixed c"
  by (auto simp: validateConfig_def RunMode_IsValid_def varDiskFixed_def GVISOR_def TSI_def not_less)

lemma NormalizeConfig_Inr:
  "NormalizeConfig n tm cfg = Inr cfg' \<longleftrightarrow>
     (\<exists>m. (MemoryMB cfg = 0 \<longrightarrow> tm = Inr m) \<and> (MemoryMB cfg \<noteq> 0 \<longrightarrow> m = 0) \<and>
       cfg' = withDefaults n m cfg \<and> validateConfig cfg' = Inr ())"
  by (auto simp: NormalizeConfig_def Let_def split: sum.splits if_splits)

lemma withDefaults_id:
  "CPUs c > 0 \<Longrightarrow> MemoryMB c \<noteq> 0 \<Longrightarrow> Network c \<noteq> [] \<Longrightarrow> LogLevel c \<noteq> [] \<Longrightarrow> WorkDir c \<noteq> [] \<Longrightarrow>
   withDefaults n m c = c"
  by (simp add: withDefaults_def)

subsection \<open>Properties\<close>

text \<open>C32. A normalised configuration is within the bounds of the hypervisor: at least 512 MB,
  1 to 255 CPUs (so the later conversion to \<open>uint8\<close> loses nothing), a known run mode and
  network mode, the fixed identity of the var disk; and normalising it again, on any host,
  changes nothing.\<close>

theorem normalized_config_ok:
  assumes "NormalizeConfig numCPU totalMem cfg = Inr cfg'"
  shows "SessionID cfg' \<noteq> [] \<and> cfg_RunMode cfg' = ModeContainer \<and> 512 \<le> unat (MemoryMB cfg') \<and>
    1 \<le> CPUs cfg' \<and> int (unat (of_int (CPUs cfg') :: u8)) = CPUs cfg' \<and>
    (Network cfg' = GVISOR \<or> Network cfg' = TSI) \<and>
    RawDiskPath (VarDisk cfg') \<noteq> [] \<and> rd_Mnt (VarDisk cfg') = VarDiskMountPoint \<and>
    rd_UUID (VarDisk cfg') = VarDataDiskUUID \<and> WorkDir cfg' \<noteq> [] \<and> LogLevel cfg' \<noteq> [] \<and>
    (\<forall>n m. NormalizeConfig n m cfg' = Inr cfg')"
proof -
  obtain m where c': "cfg' = withDefaults numCPU m cfg" and v: "validateConfig cfg' = Inr ()"
    using assms by (auto simp: NormalizeConfig_Inr)
  note facts = v [unfolded validateConfig_ok_iff varDiskFixed_def]
  have set: "LogLevel cfg' \<noteq> []" "WorkDir cfg' \<noteq> []"
    using c' by (simp_all add: withDefaults_def)
  have mem: "512 \<le> unat (MemoryMB cfg')"
    using facts by (simp add: word_le_nat_alt)
  have cpu: "int (unat (of_int (CPUs cfg') :: u8)) = CPUs cfg'"
    using facts by (simp add: unsigned_of_int take_bit_int_eq_self)
  have "NormalizeConfig n t cfg' = Inr cfg'" for n t
  proof -
    have "MemoryMB cfg' \<noteq> 0" using mem by auto
    moreover have "withDefaults n 0 cfg' = cfg'"
      using facts set \<open>MemoryMB cfg' \<noteq> 0\<close> by (intro withDefaults_id) (auto simp: GVISOR_def TSI_def)
    ultimately show ?thesis using v by (simp add: NormalizeConfig_Inr)
  qed
  with facts set mem cpu show ?thesis by simp
qed

definition sampleConfig :: Config where
  "sampleConfig = WithMode (DefaultConfig (Inr ''/home/u'') ''s1'') ModeContainer"

theorem normalized_config_ok_witness:
  "\<exists>cfg'. NormalizeConfig 8 (Inr 17179869184) sampleConfig = Inr cfg' \<and> MemoryMB cfg' = 16384 \<and>
     (\<forall>n m. NormalizeConfig n m cfg' = Inr cfg')"
proof -
  have "NormalizeConfig 8 (Inr 17179869184) sampleConfig =
      Inr (sampleConfig\<lparr>CPUs := 8, MemoryMB := 16384\<rparr>)"
    by code_simp
  from normalized_config_ok [OF this] this show ?thesis by simp
qed


lemma small_memory_refused:
  assumes "0 < unat (MemoryMB cfg)" and "unat (MemoryMB cfg) < 512"
  shows "\<exists>e. NormalizeConfig n tm cfg = Inl e"
proof (cases "NormalizeConfig n tm cfg")
  case (Inr c)
  then have "MemoryMB c = MemoryMB cfg" and "512 \<le> MemoryMB c"
    using assms(1) by (auto simp: NormalizeConfig_Inr withDefaults_def validateConfig_ok_iff)
  with assms(2) show ?thesis by (simp add: word_le_nat_alt)
qed simp

text \<open>The \<open>--raw-disk\<close> syntax: disks written as
  \<open>path,uuid=U,version=V,mnt=M\<close> are read back exactly, in order, after the disks the
  configuration already had, and nothing else of the configuration changes.\<close>

theorem disk_specs_round_trip:
  assumes "list_all (\<lambda>d. list_all plainField (diskFields d)) ds"
  shows "WithDisk c (map renderDisk ds) s = (c\<lparr>ExternalDisks := ExternalDisks c @ ds\<rparr>, s)"
  using assms by (rule WithDisk_renders)

definition sampleOS :: OS where
  "sampleOS = \<lparr>os_fs = [], os_cwd = ''/work'', os_home = Inr ''/home/u'',
     os_fault = (\<lambda>_ _. False), os_ports = [22, 23, 24],
     os_uuids = [''11111111-2222-3333-4444-555555555555'', ''u2'', ''u3''], os_locks = []\<rparr>"

theorem disk_specs_round_trip_witness:
  "WithDisk sampleConfig [''/d/x.img,uuid=U1,version=v2,mnt=/mnt/x''] sampleOS =
     (sampleConfig\<lparr>ExternalDisks := [\<lparr>RawDiskPath = ''/d/x.img'', rd_UUID = ''U1'',
        rd_Mnt = ''/mnt/x'', rd_Version = ''v2''\<rparr>]\<rparr>, sampleOS)"
proof -
  let ?d = "\<lparr>RawDiskPath = ''/d/x.img'', rd_UUID = ''U1'', rd_Mnt = ''/mnt/x'', rd_Version = ''v2''\<rparr>"
  have "list_all (\<lambda>d. list_all plainField (diskFields d)) [?d]" by code_simp
  from disk_specs_round_trip [OF this, of sampleConfig sampleOS] show ?thesis
    by (simp add: renderDisk_def sampleConfig_def DefaultConfig_def emptyConfig_def WithMode_def)
qed

text \<open>Every \<open>--raw-disk\<close> spec that is not blank adds one disk, whatever it contains, and
  each added disk has a version and a UUID (a fresh one when none is given).\<close>

lemma disks_are_filled:
  assumes "WithDisk c specs s = (c', s')" and "list_all (\<lambda>u. u \<noteq> []) (os_uuids s)"
    and "length specs \<le> length (os_uuids s)"
  shows "\<exists>ds. c' = c\<lparr>ExternalDisks := ExternalDisks c @ ds\<rparr> \<and>
    length ds = length (filter (\<lambda>p. TrimSpace p \<noteq> []) specs) \<and>
    (\<forall>d \<in> set ds. rd_Version d \<noteq> [] \<and> rd_UUID d \<noteq> [])"
  using assms by (rule WithDisk_filled)

lemma disks_are_filled_witness:
  "\<exists>ds. fst (WithDisk sampleConfig ['' /a.img'', ''  '', ''/b.img,VERSION=9''] sampleOS) =
     sampleConfig\<lparr>ExternalDisks := ExternalDisks sampleConfig @ ds\<rparr> \<and> length ds = 2"
proof -
  let ?specs = "['' /a.img'', ''  '', ''/b.img,VERSION=9'']"
  have p: "WithDisk sampleConfig ?specs sampleOS =
      (fst (WithDisk sampleConfig ?specs sampleOS), snd (WithDisk sampleConfig ?specs sampleOS))"
    by simp
  have n: "length (filter (\<lambda>p. TrimSpace p \<noteq> []) ?specs) = 2" by code_simp
  have "list_all (\<lambda>u. u \<noteq> []) (os_uuids sampleOS)" and "length ?specs \<le> length (os_uuids sampleOS)"
    by (simp_all add: sampleOS_def)
  from disks_are_filled [OF p this] show ?thesis unfolding n by blast
qed

text \<open>The \<open>--var-disk\<close> option: \<open>path,version=V\<close> selects that path and version, a
  bare path the default version, and no spec whatsoever gives the var disk another mount
  point, another UUID or an empty version.\<close>

lemma var_disk_option:
  assumes "plainField path" and "plainField v"
  shows "VarDisk (WithVarDataDisk c (path @ '',version='' @ v)) =
      \<lparr>RawDiskPath = path, rd_UUID = VarDataDiskUUID, rd_Mnt = ''/var'', rd_Version = v\<rparr> \<and>
    VarDisk (WithVarDataDisk c path) =
      \<lparr>RawDiskPath = path, rd_UUID = VarDataDiskUUID, rd_Mnt = ''/var'',
        rd_Version = DefaultRawDiskVersion\<rparr> \<and>
    (\<forall>raw. WithVarDataDisk c raw = c \<or>
      rd_UUID (VarDisk (WithVarDataDisk c raw)) = VarDataDiskUUID \<and>
      rd_Mnt (VarDisk (WithVarDataDisk c raw)) = ''/var'' \<and>
      RawDiskPath (VarDisk (WithVarDataDisk c raw)) \<noteq> [] \<and>
      rd_Version (VarDisk (WithVarDataDisk c raw)) \<noteq> [])"
proof -
  have t: "TrimSpace (path @ '',version='' @ v) = path @ '',version='' @ v"
    using assms by (rule trim_between)
  have sp: "Split (path @ '',version='' @ v) (CHR '','') = [path, ''version='' @ v]"
    using Split_append [OF plainField_comma [OF assms(1)], of "''version='' @ v"]
      plainField_comma [OF assms(2)] by simp
  have ver: "varDiskVersion d [''version='' @ v] = v" for d
    using option_parts [OF plain_keys(2) _ assms(2)] assms(2)
    by (simp add: plain_keys plainField_not_Nil EqualFold_def)
  have "VarDisk (WithVarDataDisk c (path @ '',version='' @ v)) =
      \<lparr>RawDiskPath = path, rd_UUID = VarDataDiskUUID, rd_Mnt = VarDiskMountPoint, rd_Version = v\<rparr>"
    unfolding WithVarDataDisk_def t sp Let_def
    using assms ver plainField_not_Nil by simp
  moreover have "VarDisk (WithVarDataDisk c path) =
      \<lparr>RawDiskPath = path, rd_UUID = VarDataDiskUUID, rd_Mnt = VarDiskMountPoint,
        rd_Version = DefaultRawDiskVersion\<rparr>"
    using assms(1) plainField_comma [OF assms(1)] plainField_not_Nil [OF assms(1)]
    by (simp add: WithVarDataDisk_def)
  ultimately show ?thesis
    using WithVarDataDisk_cases [of c] by (auto simp: varDiskFixed_def VarDiskMountPoint_def)
qed

lemma var_disk_option_witness:
  "VarDisk (WithVarDataDisk sampleConfig ''/d/var.img,version=v7'') =
     \<lparr>RawDiskPath = ''/d/var.img'', rd_UUID = VarDataDiskUUID, rd_Mnt = ''/var'', rd_Version = ''v7''\<rparr>"
proof -
  have "plainField ''/d/var.img''" and "plainField ''v7''" by code_simp+
  from var_disk_option [OF this, of sampleConfig] show ?thesis by simp
qed

text \<open>Merging a configuration file: the report URL, run mode, network, work directory,
  environment and proxy switch are never taken from the file; a field the file sets wins, a
  field it leaves empty keeps its value; and merging the same file twice is the same as
  merging it once.\<close>

theorem overwrite_config:
  "ReportURL (OverwriteCfgFrom c other) = ReportURL c \<and>
   cfg_RunMode (OverwriteCfgFrom c other) = cfg_RunMode c \<and>
   Network (OverwriteCfgFrom c other) = Network c \<and> WorkDir (OverwriteCfgFrom c other) = WorkDir c \<and>
   Env (OverwriteCfgFrom c other) = Env c \<and> Proxy (OverwriteCfgFrom c other) = Proxy c \<and>
   CPUs (OverwriteCfgFrom c other) = (if CPUs other > 0 then CPUs other else CPUs c) \<and>
   MemoryMB (OverwriteCfgFrom c other) = (if MemoryMB other = 0 then MemoryMB c else MemoryMB other) \<and>
   ForwardUnix (OverwriteCfgFrom c other) =
     (if ForwardUnix other = [] then ForwardUnix c else ForwardUnix other) \<and>
   OverwriteCfgFrom c emptyConfig = c \<and>
   OverwriteCfgFrom (OverwriteCfgFrom c other) other = OverwriteCfgFrom c other"
  by (simp add: OverwriteCfgFrom_def emptyConfig_def emptyRawDisk_def trimmedOr_def word_gt_0)

end
