(* ===== verification/Storage.thy ===== *)
theory Storage
  imports Disk Config
begin

text \<open>
  \<open>pkg/librevm/storage.go\<close>: attaching the var disk and the user's raw disks. Depending on
  what is at the path, an image is created, kept or regenerated. The specification is the
  pair of decision tables in \<open>README.md\<close>, here \<open>varPlan\<close> and \<open>externalPlan\<close>; the
  theorems say that the code follows them.

  The state is the part of the machine builder that is filled step by step: the machine
  description and the operating system.
\<close>

subsection \<open>The builder's state (machine.go)\<close>

record builder =
  b_spec :: MachineSpec
  b_readiness :: Readiness
  b_fileLock :: "string option"
  b_pathMgr :: "machinePathManager option"
  b_os :: OS

definition onOS :: "(OS, 'a) proc \<Rightarrow> (builder, 'a) proc" where
  "onOS m b = (case m (b_os b) of (r, s) \<Rightarrow> (r, b\<lparr>b_os := s\<rparr>))"

definition newMachineBuilder :: "RunMode \<Rightarrow> OS \<Rightarrow> builder" where
  "newMachineBuilder mode s = \<lparr>b_spec = emptyMachine\<lparr>spec_RunMode := RunMode_String mode\<rparr>,
     b_readiness = NewReadiness, b_fileLock = None, b_pathMgr = None, b_os = s\<rparr>"

subsection \<open>Operations (storage.go)\<close>

definition absDiskPath :: "OS \<Rightarrow> string \<Rightarrow> string res" where
  "absDiskPath s rawDiskPath =
     (if rawDiskPath = [] then Inl (Errorf ''raw disk path is empty'')
      else Inr (Abs (os_cwd s) (Clean rawDiskPath)))"

fun applyDiskXattrs :: "string \<Rightarrow> (string \<times> string) list \<Rightarrow> (OS, unit) proc" where
  "applyDiskXattrs rawDiskPath [] s = (Inr (), s)"
| "applyDiskXattrs rawDiskPath ((key, val) # xattrs) s =
     andThen (wrapping ''setxattr'' (SetXattr rawDiskPath key val True))
       (\<lambda>_. applyDiskXattrs rawDiskPath xattrs) s"

definition generateRAWDisk ::
    "disk_lib \<Rightarrow> string \<Rightarrow> string \<Rightarrow> (string \<times> string) list \<Rightarrow> (OS, unit) proc" where
  "generateRAWDisk lib rawDiskPath0 givenUUID xattrs s =
     (let rawDiskPath = Abs (os_cwd s) (Clean rawDiskPath0)
      in andThen (wrapping ''failed to extract embedded raw disk''
                   (ExtractEmbeddedRawDisk lib rawDiskPath)) (\<lambda>_.
         andThen (wrapping ''failed to write UUID for raw disk'' (NewUUID lib givenUUID rawDiskPath)) (\<lambda>_.
         applyDiskXattrs rawDiskPath xattrs)) s)"

definition addRAWDiskToBlkList :: "disk_lib \<Rightarrow> string \<Rightarrow> string \<Rightarrow> (builder, unit) proc" where
  "addRAWDiskToBlkList lib rawDiskPath0 mountTo b =
     (let rawDiskPath = Abs (os_cwd (b_os b)) (Clean rawDiskPath0)
      in andThen (onOS (Inspect lib rawDiskPath)) (\<lambda>info.
           let blkDev = \<lparr>bd_FsType = bd_FsType info, bd_UUID = bd_UUID info, bd_Path = bd_Path info,
                          bd_MountTo = (if mountTo \<noteq> [] then mountTo else bd_MountTo info)\<rparr>
           in modifyState (\<lambda>b. b\<lparr>b_spec := (b_spec b)\<lparr>BlkDevs := BlkDevs (b_spec b) @ [blkDev]\<rparr>\<rparr>)) b)"

definition diskVersionXattrs :: "string \<Rightarrow> (string \<times> string) list" where
  "diskVersionXattrs version = (if version = [] then [] else [(XattrDiskVersionKey, version)])"

text \<open>\<open>(shouldRegenerate, hasVersionXattr)\<close>; an unreadable attribute counts as missing.\<close>

definition needsDiskRegeneration :: "string \<Rightarrow> string \<Rightarrow> (OS, bool \<times> bool) proc" where
  "needsDiskRegeneration diskPath expected s =
     (if expected = [] then (Inr (False, False), s)
      else
        let stored = (case GetXattr diskPath XattrDiskVersionKey s of (Inr v, _) \<Rightarrow> v | _ \<Rightarrow> [])
        in if stored = [] then (Inr (False, False), s) else (Inr (stored \<noteq> expected, True), s))"

definition recreateRAWDisk ::
    "disk_lib \<Rightarrow> string \<Rightarrow> string \<Rightarrow> (string \<times> string) list \<Rightarrow> (OS, unit) proc" where
  "recreateRAWDisk lib rawDiskPath uid xattrs =
     andThen (removeIfExists rawDiskPath) (\<lambda>_. generateRAWDisk lib rawDiskPath uid xattrs)"

definition createUserProvidedRawDisk :: "disk_lib \<Rightarrow> RawDisk \<Rightarrow> (OS, RawDisk) proc" where
  "createUserProvidedRawDisk lib d0 s =
     (case (if rd_UUID d0 = []
            then (case uuid_NewString s of (u, s') \<Rightarrow> (d0\<lparr>rd_UUID := u\<rparr>, s')) else (d0, s)) of
        (d1, s1) \<Rightarrow>
          let d2 = (if rd_Mnt d1 = [] then d1\<lparr>rd_Mnt := ''/mnt/'' @ rd_UUID d1\<rparr> else d1)
          in andThen (wrapping ''failed to create external raw disk''
                (generateRAWDisk lib (RawDiskPath d2) (rd_UUID d2) (diskVersionXattrs (rd_Version d2))))
               (\<lambda>_. succeed d2) s1)"

definition handleExistingUserProvidedRawDisk :: "disk_lib \<Rightarrow> RawDisk \<Rightarrow> (OS, RawDisk) proc" where
  "handleExistingUserProvidedRawDisk lib d0 =
     andThen (wrapping ''inspect external raw disk'' (Inspect lib (RawDiskPath d0))) (\<lambda>info.
       let d1 = d0\<lparr>rd_UUID := bd_UUID info\<rparr>;
           d2 = (if rd_Mnt d1 = [] then d1\<lparr>rd_Mnt := bd_MountTo info\<rparr> else d1)
       in andThen (needsDiskRegeneration (RawDiskPath d2) (rd_Version d2)) (\<lambda>(shouldRegenerate, hasVersionXattr).
            if \<not> hasVersionXattr then succeed d2
            else if \<not> shouldRegenerate then succeed d2
            else andThen (recreateRAWDisk lib (RawDiskPath d2) (rd_UUID d2)
                    (diskVersionXattrs (rd_Version d2))) (\<lambda>_. succeed d2)))"

definition reconcileUserProvidedRawDisk :: "disk_lib \<Rightarrow> RawDisk \<Rightarrow> (OS, RawDisk) proc" where
  "reconcileUserProvidedRawDisk lib d s =
     (case os_Stat (RawDiskPath d) s of
        (Inr _, s') \<Rightarrow> handleExistingUserProvidedRawDisk lib d s'
      | (Inl e, s') \<Rightarrow>
          if \<not> os_IsNotExist e then (Inl (Wrap ''stat external raw disk failed'' e), s')
          else createUserProvidedRawDisk lib d s')"

definition reconcileVarRAWDisk :: "disk_lib \<Rightarrow> RawDisk \<Rightarrow> (OS, RawDisk) proc" where
  "reconcileVarRAWDisk lib d0 s =
     (let d = d0\<lparr>rd_UUID := VarDataDiskUUID\<rparr>;
          versionXattrs = diskVersionXattrs (rd_Version d);
          rawDiskPath = RawDiskPath d
      in case os_Stat rawDiskPath s of
           (Inl e, s') \<Rightarrow>
             if \<not> os_IsNotExist e then (Inl e, s')
             else andThen (generateRAWDisk lib rawDiskPath VarDataDiskUUID versionXattrs)
                    (\<lambda>_. succeed d) s'
         | (Inr _, s') \<Rightarrow>
             andThen (wrapping ''inspect var disk'' (Inspect lib rawDiskPath)) (\<lambda>info.
               if bd_UUID info \<noteq> VarDataDiskUUID
               then andThen (recreateRAWDisk lib rawDiskPath VarDataDiskUUID versionXattrs)
                      (\<lambda>_. succeed d)
               else andThen (needsDiskRegeneration rawDiskPath (rd_Version d))
                      (\<lambda>(shouldRegenerate, hasVersionXattr).
                        if \<not> hasVersionXattr \<or> shouldRegenerate
                        then andThen (recreateRAWDisk lib rawDiskPath VarDataDiskUUID versionXattrs)
                               (\<lambda>_. succeed d)
                        else succeed d)) s')"

definition withVarDisk :: "disk_lib \<Rightarrow> RawDisk \<Rightarrow> (builder, unit) proc" where
  "withVarDisk lib diskSpec b =
     (case absDiskPath (b_os b) (RawDiskPath diskSpec) of
        Inl e \<Rightarrow> (Inl e, b)
      | Inr path \<Rightarrow>
          andThen (onOS (reconcileVarRAWDisk lib (diskSpec\<lparr>RawDiskPath := path\<rparr>)))
            (\<lambda>d. addRAWDiskToBlkList lib (RawDiskPath d) (rd_Mnt d)) b)"

fun withUserProvidedRawDisk :: "disk_lib \<Rightarrow> RawDisk list \<Rightarrow> (builder, unit) proc" where
  "withUserProvidedRawDisk lib [] b = (Inr (), b)"
| "withUserProvidedRawDisk lib (diskSpec # diskSpecs) b =
     (case absDiskPath (b_os b) (RawDiskPath diskSpec) of
        Inl e \<Rightarrow> (Inl e, b)
      | Inr path \<Rightarrow>
          andThen (onOS (reconcileUserProvidedRawDisk lib (diskSpec\<lparr>RawDiskPath := path\<rparr>)))
            (\<lambda>d. andThen (addRAWDiskToBlkList lib (RawDiskPath d) (rd_Mnt d))
              (\<lambda>_. withUserProvidedRawDisk lib diskSpecs)) b)"

subsection \<open>The decision tables (README.md)\<close>

text \<open>A disk as its owner sees it: its UUID and its version attribute.\<close>

datatype diskState = NoDisk | DiskWith (ds_uuid: string) (ds_version: "string option")

datatype plan = KeepDisk | MakeDisk string

definition varPlan :: "diskState \<Rightarrow> string \<Rightarrow> plan" where
  "varPlan st version =
     (case st of
        NoDisk \<Rightarrow> MakeDisk VarDataDiskUUID
      | DiskWith u v \<Rightarrow>
          if u = VarDataDiskUUID \<and> v = Some version then KeepDisk else MakeDisk VarDataDiskUUID)"

definition externalPlan :: "diskState \<Rightarrow> string \<Rightarrow> string \<Rightarrow> plan" where
  "externalPlan st userUUID version =
     (case st of
        NoDisk \<Rightarrow> MakeDisk userUUID
      | DiskWith u v \<Rightarrow> if v = None \<or> v = Some version then KeepDisk else MakeDisk u)"

subsection \<open>What is at a path\<close>

definition versionAttr :: "(string \<times> string) list \<Rightarrow> string option" where
  "versionAttr xs =
     (case map_of xs XattrDiskVersionKey of None \<Rightarrow> None | Some v \<Rightarrow> if v = [] then None else Some v)"

text \<open>The disk state at a path; \<open>None\<close> when there is something that is no disk image.\<close>

definition diskAt :: "disk_lib \<Rightarrow> OS \<Rightarrow> string \<Rightarrow> diskState option" where
  "diskAt lib s p =
     (case nodeAt s p of
        None \<Rightarrow> Some NoDisk
      | Some (File c xs) \<Rightarrow>
          (case blkid_tags lib c of
             None \<Rightarrow> None
           | Some tags \<Rightarrow>
               Some (DiskWith (case tagValue tags ''UUID'' of None \<Rightarrow> [] | Some v \<Rightarrow> cbuf 64 v)
                 (versionAttr xs)))
      | Some _ \<Rightarrow> None)"

text \<open>A disk made from the embedded image with a given UUID and version, nothing else on it.\<close>

definition freshDisk :: "disk_lib \<Rightarrow> string \<Rightarrow> string \<Rightarrow> string \<Rightarrow> OS \<Rightarrow> bool" where
  "freshDisk lib p u v t \<longleftrightarrow>
     (\<exists>old new c. ext2fs_set_uuid lib (raw_image lib) u = Inr (old, new, c) \<and>
        nodeAt t p = Some (File c (diskVersionXattrs v)))"

lemma versionAttr_written [simp]: "versionAttr (diskVersionXattrs v) = (if v = [] then None else Some v)"
  by (simp add: versionAttr_def diskVersionXattrs_def)

lemma freshDisk_state:
  assumes "disk_lib_ok lib" and "properUUID u" and "freshDisk lib p u v t"
  shows "diskAt lib t p = Some (DiskWith u (if v = [] then None else Some v))"
proof -
  obtain old new c where set: "ext2fs_set_uuid lib (raw_image lib) u = Inr (old, new, c)"
    and n: "nodeAt t p = Some (File c (diskVersionXattrs v))"
    using assms(3) by (auto simp: freshDisk_def)
  show ?thesis
    using set_uuid_ok [OF assms(1,2) set] n by (auto simp: diskAt_def)
qed

lemma diskAt_cases:
  assumes "diskAt lib s p = Some st"
  obtains "st = NoDisk" "nodeAt s p = None"
  | c xs tags where "nodeAt s p = Some (File c xs)" "blkid_tags lib c = Some tags"
      "st = DiskWith (case tagValue tags ''UUID'' of None \<Rightarrow> [] | Some v \<Rightarrow> cbuf 64 v) (versionAttr xs)"
  using assms by (auto simp: diskAt_def split: option.splits node.splits)

subsection \<open>Making and remaking a disk\<close>

lemma applyDiskXattrs_version:
  assumes "imagePath p" and "nodeAt s p = Some (File c [])"
    and "applyDiskXattrs p (diskVersionXattrs v) s = (Inr (), t)"
  shows "nodeAt t p = Some (File c (diskVersionXattrs v))" and "onlyAt p s t"
proof -
  have root: "p \<noteq> [sep]" using assms(2) by (rule node_not_root)
  have "nodeAt t p = Some (File c (diskVersionXattrs v)) \<and> onlyAt p s t"
  proof (cases "v = []")
    case True
    with assms show ?thesis by (simp add: diskVersionXattrs_def)
  next
    case False
    then have "SetXattr p XattrDiskVersionKey v True s = (Inr (), t)"
      using assms(3) by (auto simp: diskVersionXattrs_def andThen_Inr_iff)
    from SetXattr_file [OF assms(1,2) this] show ?thesis
      using False root by (simp add: os_simps onlyAt_setNode diskVersionXattrs_def)
  qed
  then show "nodeAt t p = Some (File c (diskVersionXattrs v))" and "onlyAt p s t" by auto
qed

lemma generateRAWDisk_ok:
  assumes "disk_lib_ok lib" and "imagePath p"
    and "generateRAWDisk lib p u (diskVersionXattrs v) s = (Inr (), t)"
  shows "freshDisk lib p u v t" and "onlyAt p s t"
proof -
  obtain s1 s2 where x: "ExtractEmbeddedRawDisk lib p s = (Inr (), s1)"
    and n: "NewUUID lib u p s1 = (Inr (), s2)"
    and a: "applyDiskXattrs p (diskVersionXattrs v) s2 = (Inr (), t)"
    using assms(2,3) by (auto simp: generateRAWDisk_def andThen_Inr_iff Let_def)
  note x' = ExtractEmbeddedRawDisk_ok [OF assms(1,2) x]
  obtain r where "SetUUID lib p u s1 = (Inr r, s2)"
    using n assms(2) by (auto simp: NewUUID_def andThen_Inr_iff)
  then obtain old new c where c: "ext2fs_set_uuid lib (raw_image lib) u = Inr (old, new, c)"
    and s2: "s2 = setNode p (File c []) s1"
    using SetUUID_file [OF assms(2) x'(1)] by blast
  have root: "p \<noteq> [sep]" using x'(1) by (rule node_not_root)
  have n2: "nodeAt s2 p = Some (File c [])" using s2 root by (simp add: os_simps)
  note a' = applyDiskXattrs_version [OF assms(2) n2 a]
  show "freshDisk lib p u v t" using c a'(1) by (auto simp: freshDisk_def)
  show "onlyAt p s t"
    using x'(2) onlyAt_setNode [OF root, of s1] a'(2) s2 by (metis onlyAt_trans)
qed

lemma recreateRAWDisk_ok:
  assumes "disk_lib_ok lib" and "imagePath p" and "nodeAt s p = Some (File c xs)"
    and "recreateRAWDisk lib p u (diskVersionXattrs v) s = (Inr (), t)"
  shows "freshDisk lib p u v t" and "onlyAt p s t"
proof -
  obtain s1 where r: "removeIfExists p s = (Inr (), s1)"
    and g: "generateRAWDisk lib p u (diskVersionXattrs v) s1 = (Inr (), t)"
    using assms(4) by (auto simp: recreateRAWDisk_def andThen_Inr_iff)
  have root: "p \<noteq> [sep]" using assms(3) by (rule node_not_root)
  have "s1 = delNode p s"
    using r assms(2,3) by (auto simp: removeIfExists_def os_Remove_def Let_def split: if_splits)
  then show "freshDisk lib p u v t" and "onlyAt p s t"
    using generateRAWDisk_ok [OF assms(1,2) g] onlyAt_delNode [OF root, of s]
    by (auto intro: onlyAt_trans)
qed

lemma needsDiskRegeneration_file:
  assumes "imagePath p" and "nodeAt s p = Some (File c xs)" and "\<not> os_fault s ''getxattr'' p"
    and "v \<noteq> []"
  shows "needsDiskRegeneration p v s =
    (Inr (case versionAttr xs of None \<Rightarrow> (False, False) | Some w \<Rightarrow> (w \<noteq> v, True)), s)"
  using assms(4) GetXattr_file [OF assms(1-3), of XattrDiskVersionKey]
  by (auto simp: needsDiskRegeneration_def versionAttr_def Let_def split: option.splits)

lemma os_Stat_node:
  assumes "imagePath p" and "plainAt s p"
  shows "os_Stat p s =
    (if os_fault s ''stat'' p then Inl (ErrSyscall ''stat'')
     else case nodeAt s p of None \<Rightarrow> Inl (absent s p) | Some n \<Rightarrow> Inr n, s)"
  using assms by (simp add: os_Stat_def os_simps Let_def)

subsection \<open>The var disk\<close>

lemma reconcileVar_existing:
  assumes "disk_lib_ok lib" and "imagePath p" and "RawDiskPath d = p" and "rd_Version d \<noteq> []"
    and "\<not> os_fault s ''getxattr'' p" and "nodeAt s p = Some (File c xs)"
    and "blkid_tags lib c = Some tags"
    and "reconcileVarRAWDisk lib d s = (Inr d', t)"
  defines "u \<equiv> case tagValue tags ''UUID'' of None \<Rightarrow> [] | Some v \<Rightarrow> cbuf 64 v"
  shows "(case varPlan (DiskWith u (versionAttr xs)) (rd_Version d) of
      KeepDisk \<Rightarrow> t = s | MakeDisk w \<Rightarrow> freshDisk lib p w (rd_Version d) t \<and> onlyAt p s t) \<and>
    d' = d\<lparr>rd_UUID := VarDataDiskUUID\<rparr>"
proof -
  have st: "\<not> os_fault s ''stat'' p"
    using assms(8) os_Stat_node [OF assms(2) plainAt_simps(1) [OF assms(6)]] assms(3)
    by (auto simp: reconcileVarRAWDisk_def Let_def)
  then have stat: "os_Stat p s = (Inr (File c xs), s)"
    using os_Stat_node [OF assms(2) plainAt_simps(1) [OF assms(6)]] assms(6) by simp
  obtain info where i: "Inspect lib p s = (Inr info, s)"
    using assms(3,8) stat Inspect_file(1) [OF assms(2,6)]
    by (fastforce simp: reconcileVarRAWDisk_def andThen_Inr_iff Let_def)
  then have u: "bd_UUID info = u"
    using Inspect_file(3) [OF assms(2,6) i] assms(7) by (simp add: u_def)
  let ?x = "diskVersionXattrs (rd_Version d)"
  have rest: "(if u \<noteq> VarDataDiskUUID \<or> versionAttr xs \<noteq> Some (rd_Version d)
      then andThen (recreateRAWDisk lib p VarDataDiskUUID ?x) (\<lambda>_. succeed (d\<lparr>rd_UUID := VarDataDiskUUID\<rparr>)) s
      else (Inr (d\<lparr>rd_UUID := VarDataDiskUUID\<rparr>), s)) = (Inr d', t)"
    using assms(3,8) stat i u needsDiskRegeneration_file [OF assms(2,6,5,4)]
    by (auto simp: reconcileVarRAWDisk_def andThen_def wrapping_def succeed_def Let_def
        split: if_splits option.splits)
  then show ?thesis
    using recreateRAWDisk_ok [OF assms(1,2,6), of VarDataDiskUUID "rd_Version d" t]
    by (auto simp: varPlan_def andThen_Inr_iff split: if_splits)
qed

lemma reconcileVar_ok:
  assumes "disk_lib_ok lib" and "imagePath p" and "RawDiskPath d = p" and "rd_Version d \<noteq> []"
    and "\<not> os_fault s ''getxattr'' p" and "diskAt lib s p = Some st"
    and "reconcileVarRAWDisk lib d s = (Inr d', t)"
  shows "(case varPlan st (rd_Version d) of
      KeepDisk \<Rightarrow> t = s | MakeDisk w \<Rightarrow> freshDisk lib p w (rd_Version d) t \<and> onlyAt p s t) \<and>
    d' = d\<lparr>rd_UUID := VarDataDiskUUID\<rparr>"
  using assms(6)
proof (cases rule: diskAt_cases)
  case 1
  have "os_Stat p s = (if os_fault s ''stat'' p then Inl (ErrSyscall ''stat'') else Inl (absent s p), s)"
    using os_Stat_node [OF assms(2) plainAt_simps(3) [OF 1(2)]] 1(2) by simp
  then have "generateRAWDisk lib p VarDataDiskUUID (diskVersionXattrs (rd_Version d)) s = (Inr (), t)"
    and "d' = d\<lparr>rd_UUID := VarDataDiskUUID\<rparr>"
    using assms(3,7)
    by (auto simp: reconcileVarRAWDisk_def andThen_Inr_iff Let_def split: if_splits)
  then show ?thesis
    using generateRAWDisk_ok [OF assms(1,2)] 1(1) by (simp add: varPlan_def)
next
  case 2
  then show ?thesis using reconcileVar_existing [OF assms(1-5) 2(1,2) assms(7)] by simp
qed

subsection \<open>User disks\<close>

definition probedMount :: "string \<Rightarrow> string" where
  "probedMount u = (if u = VarDataDiskUUID then VarDiskMountPoint else ''/mnt/'' @ u)"

lemma handleExisting_ok:
  assumes "disk_lib_ok lib" and "imagePath p" and "RawDiskPath d = p" and "rd_Version d \<noteq> []"
    and "\<not> os_fault s ''getxattr'' p" and "nodeAt s p = Some (File c xs)"
    and "blkid_tags lib c = Some tags"
    and "handleExistingUserProvidedRawDisk lib d s = (Inr d', t)"
  defines "u \<equiv> case tagValue tags ''UUID'' of None \<Rightarrow> [] | Some v \<Rightarrow> cbuf 64 v"
  shows "(case externalPlan (DiskWith u (versionAttr xs)) w (rd_Version d) of
      KeepDisk \<Rightarrow> t = s | MakeDisk x \<Rightarrow> freshDisk lib p x (rd_Version d) t \<and> onlyAt p s t) \<and>
    d' = d\<lparr>rd_UUID := u, rd_Mnt := if rd_Mnt d = [] then probedMount u else rd_Mnt d\<rparr>"
proof -
  obtain info where i: "Inspect lib p s = (Inr info, s)"
    using assms(3,8) Inspect_file(1) [OF assms(2,6)]
    by (fastforce simp: handleExistingUserProvidedRawDisk_def andThen_Inr_iff)
  have u: "bd_UUID info = u" and mt: "bd_MountTo info = probedMount u"
    using Inspect_file(3,4) [OF assms(2,6) i] assms(7) by (auto simp: u_def probedMount_def)
  let ?d = "d\<lparr>rd_UUID := u, rd_Mnt := if rd_Mnt d = [] then probedMount u else rd_Mnt d\<rparr>"
  have keep: "d\<lparr>rd_UUID := x, rd_Mnt := rd_Mnt d\<rparr> = d\<lparr>rd_UUID := x\<rparr>" for x
    by (cases d) simp
  have rest: "(if versionAttr xs = None \<or> versionAttr xs = Some (rd_Version d) then (Inr ?d, s)
      else andThen (recreateRAWDisk lib p u (diskVersionXattrs (rd_Version d))) (\<lambda>_. succeed ?d) s)
      = (Inr d', t)"
    using assms(3,8) i u mt needsDiskRegeneration_file [OF assms(2,6,5,4)]
    by (auto simp: handleExistingUserProvidedRawDisk_def andThen_def wrapping_def succeed_def Let_def
        keep split: if_splits option.splits prod.splits sum.splits)
  then show ?thesis
    using recreateRAWDisk_ok [OF assms(1,2,6), of u "rd_Version d" t]
    by (auto simp: externalPlan_def andThen_Inr_iff split: if_splits)
qed

lemma createUser_ok:
  assumes "disk_lib_ok lib" and "imagePath p" and "RawDiskPath d = p"
    and "createUserProvidedRawDisk lib d s = (Inr d', t)"
  defines "u \<equiv> if rd_UUID d = [] then fst (uuid_NewString s) else rd_UUID d"
  shows "freshDisk lib p u (rd_Version d) t \<and>
    d' = d\<lparr>rd_UUID := u, rd_Mnt := if rd_Mnt d = [] then ''/mnt/'' @ u else rd_Mnt d\<rparr> \<and>
    (\<forall>q. q \<noteq> p \<longrightarrow> nodeAt t q = nodeAt s q \<or> nodeAt s q = None \<and> nodeAt t q = Some Directory)"
proof -
  let ?d = "d\<lparr>rd_UUID := u, rd_Mnt := if rd_Mnt d = [] then ''/mnt/'' @ u else rd_Mnt d\<rparr>"
  define s1 where "s1 = (if rd_UUID d = [] then snd (uuid_NewString s) else s)"
  have same: "nodeAt s1 q = nodeAt s q" for q
    by (simp add: s1_def uuid_NewString_def nodeAt_def split: list.splits)
  have id: "d\<lparr>rd_UUID := rd_UUID d\<rparr> = d" "d\<lparr>rd_UUID := w, rd_Mnt := rd_Mnt d\<rparr> = d\<lparr>rd_UUID := w\<rparr>"
      "d\<lparr>rd_UUID := rd_UUID d, rd_Mnt := m\<rparr> = d\<lparr>rd_Mnt := m\<rparr>" for w m
    by (cases d; simp)+
  have "generateRAWDisk lib p u (diskVersionXattrs (rd_Version d)) s1 = (Inr (), t)" and "d' = ?d"
    using assms(3,4)
    by (auto simp: createUserProvidedRawDisk_def andThen_Inr_iff Let_def u_def s1_def id
        split: prod.splits if_splits)
  then show ?thesis
    using generateRAWDisk_ok [OF assms(1,2), of u "rd_Version d" s1 t] same
    by (simp add: onlyAt_def)
qed

lemma reconcileUser_ok:
  assumes "disk_lib_ok lib" and "imagePath p" and "RawDiskPath d = p" and "rd_Version d \<noteq> []"
    and "\<not> os_fault s ''getxattr'' p" and "diskAt lib s p = Some st"
    and "reconcileUserProvidedRawDisk lib d s = (Inr d', t)"
  defines "u \<equiv> if rd_UUID d = [] then fst (uuid_NewString s) else rd_UUID d"
  shows "(case externalPlan st u (rd_Version d) of
      KeepDisk \<Rightarrow> t = s | MakeDisk w \<Rightarrow> freshDisk lib p w (rd_Version d) t) \<and>
    rd_UUID d' = (case st of NoDisk \<Rightarrow> u | DiskWith w _ \<Rightarrow> w) \<and>
    rd_Mnt d' = (if rd_Mnt d \<noteq> [] then rd_Mnt d
      else case st of NoDisk \<Rightarrow> ''/mnt/'' @ u | DiskWith w _ \<Rightarrow> probedMount w) \<and>
    RawDiskPath d' = p \<and>
    (\<forall>q. q \<noteq> p \<longrightarrow> nodeAt t q = nodeAt s q \<or> nodeAt s q = None \<and> nodeAt t q = Some Directory)"
  using assms(6)
proof (cases rule: diskAt_cases)
  case 1
  have "os_Stat p s = (if os_fault s ''stat'' p then Inl (ErrSyscall ''stat'') else Inl (absent s p), s)"
    using os_Stat_node [OF assms(2) plainAt_simps(3) [OF 1(2)]] 1(2) by simp
  then have "createUserProvidedRawDisk lib d s = (Inr d', t)"
    using assms(3,7) by (auto simp: reconcileUserProvidedRawDisk_def split: if_splits)
  from createUser_ok [OF assms(1-3) this] show ?thesis
    using 1(1) assms(3) by (simp add: externalPlan_def u_def)
next
  case (2 c xs tags)
  have "os_Stat p s = (if os_fault s ''stat'' p then Inl (ErrSyscall ''stat'') else Inr (File c xs), s)"
    using os_Stat_node [OF assms(2) plainAt_simps(1) [OF 2(1)]] 2(1) by simp
  then have "handleExistingUserProvidedRawDisk lib d s = (Inr d', t)"
    using assms(3,7) by (auto simp: reconcileUserProvidedRawDisk_def split: if_splits)
  from handleExisting_ok [OF assms(1-5) 2(1,2) this, of u] show ?thesis
    using 2(3) assms(3) by (auto simp: onlyAt_def split: plan.splits)
qed

subsection \<open>A second boot\<close>

lemma reconcileVar_again:
  assumes "imagePath p" and "RawDiskPath d = p" and "rd_Version d \<noteq> []"
    and "diskAt lib s p = Some (DiskWith VarDataDiskUUID (Some (rd_Version d)))"
    and "\<not> os_fault s ''getxattr'' p" and "\<not> os_fault s ''stat'' p" and "blkid_cache_ok lib"
  shows "reconcileVarRAWDisk lib d s = (Inr (d\<lparr>rd_UUID := VarDataDiskUUID\<rparr>), s)"
  using assms(4)
proof (cases rule: diskAt_cases)
  case (2 c xs tags)
  then have ver: "versionAttr xs = Some (rd_Version d)" by simp
  obtain info where i: "Inspect lib p s = (Inr info, s)"
    using Inspect_succeeds [OF assms(1) 2(1) assms(7) 2(2)] by blast
  have "bd_UUID info = VarDataDiskUUID"
    using Inspect_file(3) [OF assms(1) 2(1) i] 2(2,3) by simp
  moreover have "os_Stat p s = (Inr (File c xs), s)"
    using os_Stat_node [OF assms(1) plainAt_simps(1) [OF 2(1)]] 2(1) assms(6) by simp
  ultimately show ?thesis
    using i ver needsDiskRegeneration_file [OF assms(1) 2(1) assms(5,3)] assms(2)
    by (simp add: reconcileVarRAWDisk_def andThen_def wrapping_def succeed_def Let_def)
qed simp

subsection \<open>Libraries that behave as assumed\<close>

text \<open>An instance of the libraries for concrete runs: an image is its UUID, extraction writes
  the file.\<close>

definition sampleLib :: disk_lib where
  "sampleLib = \<lparr>
     ext2fs_open = (\<lambda>c. Some \<lparr>s_uuid = c, has_stable_inodes = False, has_csum_seed = True,
       has_metadata_csum = True, has_ea_inode = False, has_group_desc_csum = True,
       group_csum_valid = [True, True], flag_master_sb_only = True, flag_super_only = False,
       csum_seed_of = c, super_dirty = False\<rparr>),
     ext2fs_close_free = (\<lambda>c fs. Some (if super_dirty fs then s_uuid fs else c)),
     uuid_parse = (\<lambda>u. if length u = 36 \<and> CHR 0x00 \<notin> set (ToLower u) then Some (ToLower u) else None),
     uuid_unparse = (\<lambda>b. b), uuid_generate_time = ''t'', uuid_generate = ''r'',
     blkid_cache_ok = True, blkid_tags = (\<lambda>c. Some [(''UUID'', c), (''TYPE'', ''ext4'')]),
     ext2fs_check_mount_point = (\<lambda>_. None),
     archive_extract = (\<lambda>d f s. if osKey s (d @ f) = [sep] then (Inl (ErrLib ''extract''), s)
       else (Inr (), setNode (osKey s (d @ f)) (File ''image'' []) s)),
     raw_image = ''image''\<rparr>"

lemma sampleLib_ok: "disk_lib_ok sampleLib"
proof -
  have "extract_ok sampleLib"
    unfolding extract_ok_def sampleLib_def
    by (auto simp: sameOutside_def nodeAt_setNode split: if_splits)
  moreover have "uuid_lib_ok sampleLib"
    unfolding uuid_lib_ok_def sampleLib_def by (auto split: if_splits)
  moreover have "superblock_ok sampleLib"
    unfolding superblock_ok_def sampleLib_def by (auto simp: tagValue_def)
  ultimately show ?thesis by (simp add: disk_lib_ok_def)
qed

lemma properUUID_var: "properUUID VarDataDiskUUID"
  by code_simp

subsection \<open>Properties\<close>

text \<open>C18. The var disk follows its decision table: whenever attaching succeeds, a disk with the
  fixed UUID and the expected version is left exactly as it was (and so is everything else);
  in every other case the path then holds a fresh image, made from the embedded one, with the
  fixed UUID and the expected version, and no other existing file was touched. Either way the
  disk afterwards has the fixed UUID and the expected version.\<close>

theorem var_disk_follows_table:
  assumes "disk_lib_ok lib" and "imagePath (RawDiskPath d)" and "rd_Version d \<noteq> []"
    and "\<not> os_fault s ''getxattr'' (RawDiskPath d)"
    and "diskAt lib s (RawDiskPath d) = Some st"
    and "reconcileVarRAWDisk lib d s = (Inr d', t)"
  shows "(case varPlan st (rd_Version d) of
      KeepDisk \<Rightarrow> t = s
    | MakeDisk u \<Rightarrow> freshDisk lib (RawDiskPath d) u (rd_Version d) t \<and> onlyAt (RawDiskPath d) s t) \<and>
    diskAt lib t (RawDiskPath d) = Some (DiskWith VarDataDiskUUID (Some (rd_Version d))) \<and>
    rd_UUID d' = VarDataDiskUUID"
proof -
  note r = reconcileVar_ok [OF assms(1,2) refl assms(3-6)]
  have "diskAt lib t (RawDiskPath d) = Some (DiskWith VarDataDiskUUID (Some (rd_Version d)))"
  proof (cases "varPlan st (rd_Version d)")
    case KeepDisk
    then show ?thesis
      using r assms(5) by (auto simp: varPlan_def split: diskState.splits if_splits)
  next
    case (MakeDisk u)
    then have "u = VarDataDiskUUID" by (auto simp: varPlan_def split: diskState.splits if_splits)
    then show ?thesis
      using r MakeDisk assms(3)
        freshDisk_state [OF assms(1) properUUID_var, of "RawDiskPath d" "rd_Version d" t] by simp
  qed
  with r show ?thesis by simp
qed

definition sampleVarDisk :: RawDisk where
  "sampleVarDisk = \<lparr>RawDiskPath = ''/d/var.img'', rd_UUID = [], rd_Mnt = ''/var'', rd_Version = ''v1''\<rparr>"

theorem var_disk_follows_table_witness:
  "\<exists>d' t. reconcileVarRAWDisk sampleLib sampleVarDisk sampleOS = (Inr d', t) \<and>
     diskAt sampleLib t ''/d/var.img'' = Some (DiskWith VarDataDiskUUID (Some ''v1''))"
proof -
  let ?s = "sampleOS"
  have ok: "fst (reconcileVarRAWDisk sampleLib sampleVarDisk ?s) =
      Inr (sampleVarDisk\<lparr>rd_UUID := VarDataDiskUUID\<rparr>)"
    by code_simp
  then obtain t where r: "reconcileVarRAWDisk sampleLib sampleVarDisk ?s =
      (Inr (sampleVarDisk\<lparr>rd_UUID := VarDataDiskUUID\<rparr>), t)"
    by (metis prod.collapse)
  have pre: "imagePath (RawDiskPath sampleVarDisk)" "rd_Version sampleVarDisk \<noteq> []"
      "\<not> os_fault ?s ''getxattr'' (RawDiskPath sampleVarDisk)"
    by (simp_all add: imagePath_def sampleVarDisk_def sampleOS_def) code_simp
  have st: "diskAt sampleLib ?s (RawDiskPath sampleVarDisk) = Some NoDisk"
    by code_simp
  from var_disk_follows_table [OF sampleLib_ok pre st r] r show ?thesis
    by (auto simp: sampleVarDisk_def)
qed

text \<open>C19. User disks follow their decision table: an existing disk keeps its UUID whatever the
  command line says, it is regenerated (with that UUID) exactly when it carries a different
  version, and it is left untouched when it carries none; a missing disk is created with the
  given or a fresh UUID. The mount point is the user's, or the default of the disk's UUID. No
  other existing file is touched.\<close>

theorem external_disk_follows_table:
  assumes "disk_lib_ok lib" and "imagePath (RawDiskPath d)" and "rd_Version d \<noteq> []"
    and "\<not> os_fault s ''getxattr'' (RawDiskPath d)"
    and "diskAt lib s (RawDiskPath d) = Some st"
    and "reconcileUserProvidedRawDisk lib d s = (Inr d', t)"
  defines "u \<equiv> if rd_UUID d = [] then fst (uuid_NewString s) else rd_UUID d"
  shows "(case externalPlan st u (rd_Version d) of
      KeepDisk \<Rightarrow> t = s | MakeDisk w \<Rightarrow> freshDisk lib (RawDiskPath d) w (rd_Version d) t) \<and>
    rd_UUID d' = (case st of NoDisk \<Rightarrow> u | DiskWith w _ \<Rightarrow> w) \<and>
    rd_Mnt d' = (if rd_Mnt d \<noteq> [] then rd_Mnt d
      else case st of NoDisk \<Rightarrow> ''/mnt/'' @ u | DiskWith w _ \<Rightarrow> probedMount w) \<and>
    (\<forall>q. q \<noteq> RawDiskPath d \<longrightarrow>
      nodeAt t q = nodeAt s q \<or> nodeAt s q = None \<and> nodeAt t q = Some Directory)"
  using reconcileUser_ok [OF assms(1,2) refl assms(3-6)] unfolding u_def by blast

definition sampleOldDisk :: string where
  "sampleOldDisk = ''11111111-2222-3333-4444-555555555555''"

definition sampleDiskOS :: OS where
  "sampleDiskOS = sampleOS\<lparr>os_fs := [(''/d'', Directory),
     (''/d/x.img'', File sampleOldDisk [(XattrDiskVersionKey, ''v0'')])]\<rparr>"

definition sampleUserDisk :: RawDisk where
  "sampleUserDisk = \<lparr>RawDiskPath = ''/d/x.img'', rd_UUID = ''ignored'', rd_Mnt = [], rd_Version = ''v1''\<rparr>"

theorem external_disk_follows_table_witness:
  "\<exists>d' t. reconcileUserProvidedRawDisk sampleLib sampleUserDisk sampleDiskOS = (Inr d', t) \<and>
     rd_UUID d' = sampleOldDisk \<and> freshDisk sampleLib ''/d/x.img'' sampleOldDisk ''v1'' t"
proof -
  let ?r = "reconcileUserProvidedRawDisk sampleLib sampleUserDisk sampleDiskOS"
  have ok: "fst ?r = Inr (sampleUserDisk\<lparr>rd_UUID := sampleOldDisk, rd_Mnt := ''/mnt/'' @ sampleOldDisk\<rparr>)"
    by code_simp
  then obtain t where r: "?r =
      (Inr (sampleUserDisk\<lparr>rd_UUID := sampleOldDisk, rd_Mnt := ''/mnt/'' @ sampleOldDisk\<rparr>), t)"
    by (metis prod.collapse)
  have pre: "imagePath (RawDiskPath sampleUserDisk)" "rd_Version sampleUserDisk \<noteq> []"
      "\<not> os_fault sampleDiskOS ''getxattr'' (RawDiskPath sampleUserDisk)"
    by (simp_all add: imagePath_def sampleUserDisk_def sampleDiskOS_def sampleOS_def) code_simp
  have st: "diskAt sampleLib sampleDiskOS (RawDiskPath sampleUserDisk) =
      Some (DiskWith sampleOldDisk (Some ''v0''))"
    by code_simp
  from external_disk_follows_table [OF sampleLib_ok pre st r] r show ?thesis
    by (auto simp: sampleUserDisk_def externalPlan_def)
qed

text \<open>Data survive a reboot: once the var disk has been attached, attaching it again with
  the same version, on a host whose calls do not fail, succeeds and changes nothing at
  all.\<close>

theorem var_disk_second_boot:
  assumes "disk_lib_ok lib" and "imagePath (RawDiskPath d)" and "rd_Version d \<noteq> []"
    and "diskAt lib s (RawDiskPath d) = Some st"
    and "reconcileVarRAWDisk lib d s = (Inr d', t)"
    and "blkid_cache_ok lib" and "os_fault t = (\<lambda>_ _. False)" and "os_fault s = (\<lambda>_ _. False)"
  shows "reconcileVarRAWDisk lib d' t = (Inr d', t)"
proof -
  have nf: "\<not> os_fault s ''getxattr'' (RawDiskPath d)" using assms(8) by simp
  note r = reconcileVar_ok [OF assms(1,2) refl assms(3) nf assms(4,5)]
  then have d': "d' = d\<lparr>rd_UUID := VarDataDiskUUID\<rparr>" by simp
  have "diskAt lib t (RawDiskPath d) = Some (DiskWith VarDataDiskUUID (Some (rd_Version d)))"
    using r freshDisk_state [OF assms(1) properUUID_var, of "RawDiskPath d" "rd_Version d" t] assms(3,4)
    by (auto simp: varPlan_def split: diskState.splits if_splits)
  then show ?thesis
    using reconcileVar_again [of "RawDiskPath d" d' lib t] assms(2,3,6,7) d' by simp
qed

theorem var_disk_second_boot_witness:
  "\<exists>d' t. reconcileVarRAWDisk sampleLib sampleVarDisk sampleOS = (Inr d', t) \<and>
     reconcileVarRAWDisk sampleLib d' t = (Inr d', t)"
proof -
  let ?d = "sampleVarDisk\<lparr>rd_UUID := VarDataDiskUUID\<rparr>"
  have ok: "fst (reconcileVarRAWDisk sampleLib sampleVarDisk sampleOS) = Inr ?d"
    by code_simp
  then obtain t where r: "reconcileVarRAWDisk sampleLib sampleVarDisk sampleOS = (Inr ?d, t)"
    by (metis prod.collapse)
  have pre: "imagePath (RawDiskPath sampleVarDisk)" "rd_Version sampleVarDisk \<noteq> []"
    by (simp_all add: imagePath_def sampleVarDisk_def) code_simp
  have st: "diskAt sampleLib sampleOS (RawDiskPath sampleVarDisk) = Some NoDisk"
    by code_simp
  have "os_fault sampleOS = (\<lambda>_ _. False)" and "blkid_cache_ok sampleLib"
    by (simp_all add: sampleOS_def sampleLib_def)
  moreover have "os_fault t = os_fault sampleOS"
    using reconcileVar_ok [OF sampleLib_ok pre(1) refl pre(2) _ st r]
    by (simp add: varPlan_def onlyAt_def sampleOS_def)
  ultimately show ?thesis
    using var_disk_second_boot [OF sampleLib_ok pre st r] r by auto
qed

end
