(* ===== verification/Archive.thy ===== *)
theory Archive
  imports Storage
begin

text \<open>
  Extracting archives, \<open>pkg/libarchive/bsdtar.go\<close>, and the two embedded archives of
  \<open>pkg/static_resources/resources.go\<close>. The C library libarchive is the parameter \<open>arch_env\<close>: its
  return codes, the entries its reader delivers, its pattern matching, and what its disk writer does
  to the file system. What the Go code does with them is modelled: which entries are extracted,
  under which names, in which directory, and where it stops.

  The context is observed at the head of a turn of the loop (time \<open>2 * i\<close>) and again when the turn
  fails or the loop ends (time \<open>2 * i + 1\<close>).
\<close>

subsection \<open>The library\<close>

definition ARCHIVE_EOF :: int where "ARCHIVE_EOF = 1"
definition ARCHIVE_OK :: int where "ARCHIVE_OK = 0"
definition ARCHIVE_RETRY :: int where "ARCHIVE_RETRY = -10"
definition ARCHIVE_FATAL :: int where "ARCHIVE_FATAL = -30"

lemmas archive_codes = ARCHIVE_EOF_def ARCHIVE_OK_def ARCHIVE_RETRY_def ARCHIVE_FATAL_def

datatype extractFlag =
    ExtractTime | ExtractPerm | ExtractOwner | ExtractACL | ExtractXattr | ExtractFFlags
  | ExtractSecureSymlink | ExtractSecureNoDot | ExtractSecureNoAbsolute | ExtractUnlink | ExtractSparse

record entry =
  en_pathname :: string
  en_hardlink :: string
  en_node :: node

record arch_env =
  ae_matchNew :: bool
  ae_includePattern :: "string \<Rightarrow> int"
  ae_writeDiskNew :: bool
  ae_readNew :: bool
  ae_pipe :: "unit res"
  ae_openFd :: int
  ae_source :: "goerr option"
  ae_headers :: "(int \<times> entry) list"
  ae_excluded :: "string list \<Rightarrow> entry \<Rightarrow> bool"
  ae_unmatched :: "string list \<Rightarrow> entry list \<Rightarrow> int"
  ae_extract :: "extractFlag list \<Rightarrow> entry \<Rightarrow> OS \<Rightarrow> int \<times> OS"
  ae_ctxDone :: "nat \<Rightarrow> bool"

subsection \<open>The archiver and its options\<close>

record Archiver =
  ar_filename :: string
  ar_reader :: "string option"
  ar_pendingChdir :: string
  ar_verbose :: int
  ar_patterns :: "string list"
  ar_bytesPerBlock :: int
  ar_fastRead :: bool
  ar_sparse :: bool
  ar_includeFileAttribute :: bool
  ar_transform :: "string \<rightharpoonup> string"

definition defaultExtractFlags :: "extractFlag list" where
  "defaultExtractFlags = [ExtractTime, ExtractSecureSymlink, ExtractSecureNoDot, ExtractSecureNoAbsolute, ExtractUnlink]"

definition NewArchiver :: Archiver where
  "NewArchiver = \<lparr>ar_filename = [], ar_reader = None, ar_pendingChdir = [], ar_verbose = 0, ar_patterns = [],
     ar_bytesPerBlock = 256 * 1024, ar_fastRead = False, ar_sparse = False, ar_includeFileAttribute = False,
     ar_transform = (\<lambda>_. None)\<rparr>"

definition SetReader :: "string \<Rightarrow> Archiver \<Rightarrow> Archiver" where
  "SetReader r t = t\<lparr>ar_reader := Some r\<rparr>"

definition SetSparse :: "bool \<Rightarrow> Archiver \<Rightarrow> Archiver" where
  "SetSparse sparse t = t\<lparr>ar_sparse := sparse\<rparr>"

definition SetFastRead :: "bool \<Rightarrow> Archiver \<Rightarrow> Archiver" where
  "SetFastRead fastRead t = t\<lparr>ar_fastRead := fastRead\<rparr>"

definition WithPattern :: "string \<Rightarrow> Archiver \<Rightarrow> Archiver" where
  "WithPattern pattern t = t\<lparr>ar_patterns := ar_patterns t @ [pattern]\<rparr>"

definition WithTransform :: "string \<Rightarrow> string \<Rightarrow> Archiver \<Rightarrow> Archiver" where
  "WithTransform oldName newName t = t\<lparr>ar_transform := (ar_transform t)(oldName \<mapsto> newName)\<rparr>"

definition SetChdir :: "string \<Rightarrow> Archiver \<Rightarrow> Archiver" where
  "SetChdir dir t = t\<lparr>ar_pendingChdir := dir\<rparr>"

definition extractFlags :: "Archiver \<Rightarrow> extractFlag list" where
  "extractFlags t = defaultExtractFlags @
     (if ar_includeFileAttribute t then [ExtractPerm, ExtractOwner, ExtractACL, ExtractXattr, ExtractFFlags] else []) @
     (if ar_sparse t then [ExtractSparse] else [])"

subsection \<open>Extraction (ModeX, readArchive)\<close>

definition initMatching :: "arch_env \<Rightarrow> Archiver \<Rightarrow> unit res" where
  "initMatching env t =
     (if \<not> ae_matchNew env then Inl (Errorf ''cannot allocate match object'')
      else if list_ex (\<lambda>p. ae_includePattern env p \<noteq> ARCHIVE_OK) (ar_patterns t)
      then Inl (Errorf ''failed to add pattern'')
      else Inr ())"

definition doChdir :: "Archiver \<Rightarrow> (OS, unit) proc" where
  "doChdir t =
     (if ar_pendingChdir t = [] then succeed ()
      else wrapping ''could not chdir'' (os_Chdir (ar_pendingChdir t)))"

text \<open>The names an entry is extracted under; \<open>None\<close>: it is skipped.\<close>

definition renamed :: "Archiver \<Rightarrow> entry \<Rightarrow> entry option" where
  "renamed t e =
     (case (case ar_transform t (en_pathname e) of
              Some newName \<Rightarrow> if newName = [] then None else Some (e\<lparr>en_pathname := newName\<rparr>)
            | None \<Rightarrow> Some e) of
        None \<Rightarrow> None
      | Some e' \<Rightarrow>
          Some (if en_hardlink e' = [] then e'
                else case ar_transform t (en_hardlink e') of
                       Some newHL \<Rightarrow> e'\<lparr>en_hardlink := newHL\<rparr>
                     | None \<Rightarrow> e'))"

definition extractOne :: "arch_env \<Rightarrow> Archiver \<Rightarrow> nat \<Rightarrow> entry \<Rightarrow> (OS, unit) proc" where
  "extractOne env t now e s =
     (case ae_extract env (extractFlags t) e s of
        (r, s') \<Rightarrow>
          (if r = ARCHIVE_OK then Inr ()
           else if r = ARCHIVE_FATAL \<and> ae_ctxDone env now then Inl ErrCanceled
           else Inl (Errorf ''extract''), s'))"

text \<open>The loop over the entries; \<open>seen\<close> are the entries the patterns were matched with. When the reader
  has delivered what the archive holds, it reports its end.\<close>

fun processEntries :: "arch_env \<Rightarrow> Archiver \<Rightarrow> nat \<Rightarrow> entry list \<Rightarrow> (int \<times> entry) list \<Rightarrow> (OS, unit) proc" where
  "processEntries env t i seen hs s =
     (if ae_ctxDone env (2 * i) then (Inl ErrCanceled, s)
      else if ar_fastRead t \<and> ae_unmatched env (ar_patterns t) seen = 0
      then (if ae_ctxDone env (2 * i + 1) then Inl ErrCanceled else Inr (), s)
      else case hs of
        [] \<Rightarrow> (if ae_ctxDone env (2 * i + 1) then Inl ErrCanceled else Inr (), s)
      | (r, e) # hs' \<Rightarrow>
          if r = ARCHIVE_EOF then (if ae_ctxDone env (2 * i + 1) then Inl ErrCanceled else Inr (), s)
          else if r = ARCHIVE_FATAL
          then (Inl (if ae_ctxDone env (2 * i + 1) then ErrCanceled else ErrLib ''archive''), s)
          else if r = ARCHIVE_RETRY \<or> en_pathname e = [] then processEntries env t (Suc i) seen hs' s
          else if ae_excluded env (ar_patterns t) e then processEntries env t (Suc i) (seen @ [e]) hs' s
          else case renamed t e of
            None \<Rightarrow> processEntries env t (Suc i) (seen @ [e]) hs' s
          | Some e' \<Rightarrow>
              andThen (extractOne env t (2 * i + 1) e')
                (\<lambda>_. processEntries env t (Suc i) (seen @ [e]) hs') s)"

declare processEntries.simps [simp del]

definition readArchive :: "arch_env \<Rightarrow> Archiver \<Rightarrow> (OS, unit) proc" where
  "readArchive env t =
     (if \<not> ae_readNew env then failWith (Errorf ''cannot allocate archive reader'')
      else andThen (wrapping ''failed to create pipe'' (lift (ae_pipe env))) (\<lambda>_.
        if ae_openFd env \<noteq> ARCHIVE_OK
        then failWith (case ae_source env of
               Some e \<Rightarrow> Wrap ''error opening archive'' e
             | None \<Rightarrow> Errorf ''error opening archive'')
        else andThen (doChdir t) (\<lambda>_. processEntries env t 0 [] (ae_headers env))))"

text \<open>\<open>ModeX\<close>: on every way out the working directory is set back; when that fails, it stays. The pending
  directory is forgotten by the Go code once it was entered; every archiver is used once.\<close>

definition ModeX :: "arch_env \<Rightarrow> Archiver \<Rightarrow> (OS, unit) proc" where
  "ModeX env t s =
     (case (case initMatching env t of
              Inl e \<Rightarrow> (Inl e, s)
            | Inr _ \<Rightarrow>
                if \<not> ae_writeDiskNew env then (Inl (Errorf ''cannot allocate disk writer object''), s)
                else readArchive env t s) of
        (r, s') \<Rightarrow> (r, snd (os_Chdir (os_cwd s) s')))"

text \<open>The two embedded archives (resources.go): the raw disk under the name of the target, the root file
  system whole.\<close>

definition rawDiskArchiver :: "string \<Rightarrow> string \<Rightarrow> string \<Rightarrow> Archiver" where
  "rawDiskArchiver bytes baseDir fileName =
     WithTransform ''ext4.raw'' fileName (SetChdir baseDir (WithPattern ''ext4.raw''
       (SetSparse True (SetFastRead True (SetReader bytes NewArchiver)))))"

definition rootfsArchiver :: "string \<Rightarrow> string \<Rightarrow> Archiver" where
  "rootfsArchiver bytes dstDir = SetSparse True (SetChdir dstDir (SetReader bytes NewArchiver))"

subsection \<open>What is extracted\<close>

text \<open>The specification: of the entries before the end of the archive, those that are named, match the
  patterns and are not renamed to nothing, in the order of the archive.\<close>

definition wanted :: "arch_env \<Rightarrow> Archiver \<Rightarrow> entry \<Rightarrow> bool" where
  "wanted env t e \<longleftrightarrow> en_pathname e \<noteq> [] \<and> \<not> ae_excluded env (ar_patterns t) e"

definition delivered :: "(int \<times> entry) list \<Rightarrow> (int \<times> entry) list" where
  "delivered hs = takeWhile (\<lambda>(r, _). r \<noteq> ARCHIVE_EOF) hs"

definition todo :: "arch_env \<Rightarrow> Archiver \<Rightarrow> (int \<times> entry) list \<Rightarrow> entry list" where
  "todo env t hs = List.map_filter (renamed t)
     (filter (wanted env t) (map snd (filter (\<lambda>(r, _). r \<noteq> ARCHIVE_RETRY) (delivered hs))))"

lemma extractOne_uncancelled:
  "\<forall>n. \<not> ae_ctxDone env n \<Longrightarrow> extractOne env t now = extractOne env t 0"
  by (simp add: extractOne_def fun_eq_iff split: prod.split)

lemma process_todo:
  assumes "\<forall>n. \<not> ae_ctxDone env n" and "\<not> ar_fastRead t" and "\<forall>e. (ARCHIVE_FATAL, e) \<notin> set (delivered hs)"
  shows "processEntries env t i seen hs s = forEach (extractOne env t 0) (todo env t hs) s"
  using assms(3)
proof (induction hs arbitrary: i seen s)
  case Nil
  then show ?case
    using assms(1,2) by (simp add: processEntries.simps todo_def delivered_def map_filter_simps succeed_def)
next
  case (Cons h hs)
  obtain r e where h: "h = (r, e)" by fastforce
  note simps = processEntries.simps [of env t i seen "(r, e) # hs"] todo_def delivered_def h
  show ?case
  proof (cases "r = ARCHIVE_EOF")
    case True
    then show ?thesis
      using assms(1,2) processEntries.simps [of env t i seen "(ARCHIVE_EOF, e) # hs"]
      by (simp add: todo_def delivered_def h map_filter_simps succeed_def)
  next
    case False
    with Cons.prems h have fatal: "r \<noteq> ARCHIVE_FATAL" "\<forall>e. (ARCHIVE_FATAL, e) \<notin> set (delivered hs)"
      by (auto simp: delivered_def)
    note ih = Cons.IH [OF fatal(2)]
    consider (skip) "r = ARCHIVE_RETRY \<or> \<not> wanted env t e"
      | (gone) "r \<noteq> ARCHIVE_RETRY" "wanted env t e" "renamed t e = None"
      | (taken) e' where "r \<noteq> ARCHIVE_RETRY" "wanted env t e" "renamed t e = Some e'"
      by fastforce
    then show ?thesis
    proof cases
      case skip
      with False fatal(1) ih assms(1,2) show ?thesis
        by (auto simp: simps wanted_def)
    next
      case gone
      with False fatal(1) ih assms(1,2) show ?thesis
        by (simp add: simps wanted_def map_filter_simps)
    next
      case taken
      with False fatal(1) ih assms(1,2) show ?thesis
        by (simp add: simps wanted_def map_filter_simps andThen_def extractOne_uncancelled [OF assms(1), of t "Suc (2 * i)"]
            split: prod.split sum.split)
    qed
  qed
qed

text \<open>A library that works, as far as it is prepared before the first entry.\<close>

definition archive_ready :: "arch_env \<Rightarrow> Archiver \<Rightarrow> bool" where
  "archive_ready env t \<longleftrightarrow> ae_matchNew env \<and> list_all (\<lambda>p. ae_includePattern env p = ARCHIVE_OK) (ar_patterns t) \<and>
     ae_writeDiskNew env \<and> ae_readNew env \<and> ok (ae_pipe env) \<and> ae_openFd env = ARCHIVE_OK"

lemma readArchive_ready:
  assumes "archive_ready env t"
  shows "ModeX env t s = (case andThen (doChdir t) (\<lambda>_. processEntries env t 0 [] (ae_headers env)) s of
    (r, s') \<Rightarrow> (r, snd (os_Chdir (os_cwd s) s')))"
  using assms
  by (auto simp: ModeX_def archive_ready_def initMatching_def readArchive_def list_ex_iff list_all_iff ok_iff
      andThen_def wrapping_def wrapErr_def lift_def split: prod.split sum.split)

text \<open>Extraction does exactly what the specification says. With a library that is ready, an archive that
  is read without a fatal error, no shortened reading and no cancellation, \<open>ModeX\<close> goes to the
  requested directory, extracts the wanted entries one after the other under their new names, with
  the links renamed alike, stops at the first that fails, and goes back to where it was.\<close>

theorem archive_extracts:
  assumes "archive_ready env t" and "\<not> ar_fastRead t" and "\<forall>n. \<not> ae_ctxDone env n"
    and "\<forall>e. (ARCHIVE_FATAL, e) \<notin> set (delivered (ae_headers env))"
  shows "ModeX env t s =
    (case andThen (doChdir t) (\<lambda>_. forEach (extractOne env t 0) (todo env t (ae_headers env))) s of
       (r, s') \<Rightarrow> (r, snd (os_Chdir (os_cwd s) s')))"
proof -
  have "processEntries env t 0 [] (ae_headers env) = forEach (extractOne env t 0) (todo env t (ae_headers env))"
    using process_todo [OF assms(3,2,4)] by (simp add: fun_eq_iff)
  then show ?thesis by (simp add: readArchive_ready [OF assms(1)])
qed

definition sampleArchive :: arch_env where
  "sampleArchive = \<lparr>ae_matchNew = True, ae_includePattern = (\<lambda>_. 0), ae_writeDiskNew = True, ae_readNew = True,
     ae_pipe = Inr (), ae_openFd = 0, ae_source = None,
     ae_headers = [(0, \<lparr>en_pathname = ''ext4.raw'', en_hardlink = [], en_node = File ''IMG'' []\<rparr>),
       (-10, \<lparr>en_pathname = ''broken'', en_hardlink = [], en_node = Directory\<rparr>),
       (-20, \<lparr>en_pathname = ''readme'', en_hardlink = [], en_node = File ''text'' []\<rparr>)],
     ae_excluded = (\<lambda>ps e. ps \<noteq> [] \<and> en_pathname e \<notin> set ps),
     ae_unmatched = (\<lambda>ps seen. int (length (filter (\<lambda>p. p \<notin> en_pathname ` set seen) ps))),
     ae_extract = (\<lambda>_ e s. (0, setNode (osKey s (en_pathname e)) (en_node e) s)), ae_ctxDone = (\<lambda>_. False)\<rparr>"

theorem archive_extracts_witness:
  "\<exists>t. ModeX sampleArchive NewArchiver sampleOS = (Inr (), t) \<and>
     todo sampleArchive NewArchiver (ae_headers sampleArchive) =
       [\<lparr>en_pathname = ''ext4.raw'', en_hardlink = [], en_node = File ''IMG'' []\<rparr>,
        \<lparr>en_pathname = ''readme'', en_hardlink = [], en_node = File ''text'' []\<rparr>]"
proof -
  have todo: "todo sampleArchive NewArchiver (ae_headers sampleArchive) =
       [\<lparr>en_pathname = ''ext4.raw'', en_hardlink = [], en_node = File ''IMG'' []\<rparr>,
        \<lparr>en_pathname = ''readme'', en_hardlink = [], en_node = File ''text'' []\<rparr>]"
    by code_simp
  have "archive_ready sampleArchive NewArchiver" "\<not> ar_fastRead NewArchiver" "\<forall>n. \<not> ae_ctxDone sampleArchive n"
    "\<forall>e. (ARCHIVE_FATAL, e) \<notin> set (delivered (ae_headers sampleArchive))"
    by (simp_all add: archive_ready_def sampleArchive_def NewArchiver_def delivered_def archive_codes)
  from archive_extracts [OF this, of sampleOS] todo show ?thesis
    by (simp add: doChdir_def NewArchiver_def extractOne_def sampleArchive_def archive_codes proc_defs)
qed

subsection \<open>The embedded disk image\<close>

lemma SplitPath_Join:
  assumes "imagePath p" and "p \<noteq> [sep]"
  shows "IsAbs (fst (SplitPath p))" and "snd (SplitPath p) \<noteq> []" and "\<not> IsAbs (snd (SplitPath p))"
    and "Join [Clean (fst (SplitPath p)), snd (SplitPath p)] = p"
proof -
  obtain es where es: "list_all nameElem es" and p: "p = sep # JoinWith sep es"
    using assms(1) by (metis Clean_abs_form imagePath_def)
  with assms(2) have "es \<noteq> []" by auto
  then obtain bs f where bf: "es = bs @ [f]" by (cases es rule: rev_cases) auto
  let ?b = "if bs = [] then [sep] else sep # JoinWith sep bs @ [sep]"
  have names: "list_all nameElem bs" "nameElem f" using es bf by auto
  have pb: "p = ?b @ f" using p bf by (simp add: JoinWith_append)
  have "sep \<notin> set f" using names(2) by (simp add: nameElem_def)
  moreover have "\<exists>b'. ?b = b' @ [sep]" by simp
  ultimately have "SplitPath p = (?b, f)"
    unfolding SplitPath_def pb by (auto simp: takeWhile_append dropWhile_append)
  then have split: "fst (SplitPath p) = ?b" "snd (SplitPath p) = f" by simp_all
  have el: "cleanElems True [] (Split ?b sep) = bs"
    using names(1) Split_JoinWith [of bs sep]
    by (auto simp: cleanElems_append cleanElems_names Split_snoc list_all_iff nameElem_def)
  moreover have "?b \<noteq> []" "IsAbs ?b" by simp_all
  ultimately have clean: "Clean ?b = renderPath True bs" by (simp only: Clean_def simp_thms if_False)
  have "Join [Clean ?b, f] = sep # JoinWith sep (cleanElems True [] (Split (Clean ?b) sep) @ [f])"
    using names(2) by (intro Join_names) auto
  also have "\<dots> = p"
    using renderPath_props(3) [of True bs] names(1) clean p bf by simp
  finally show "Join [Clean (fst (SplitPath p)), snd (SplitPath p)] = p" using split by simp
  show "IsAbs (fst (SplitPath p))" "snd (SplitPath p) \<noteq> []" "\<not> IsAbs (snd (SplitPath p))"
    using split names(2) by (cases f; auto simp: nameElem_def)+
qed

text \<open>What the library promises for a plain file, and for the pattern of the image.\<close>

definition writes_ok :: "arch_env \<Rightarrow> bool" where
  "writes_ok env \<longleftrightarrow> (\<forall>fl e s t c xs. ae_extract env fl e s = (ARCHIVE_OK, t) \<and> en_hardlink e = [] \<and>
     en_node e = File c xs \<longrightarrow>
     nodeAt t (osKey s (en_pathname e)) = Some (File c xs) \<and> sameOutside (osKey s (en_pathname e)) s t)"

definition matches_literally :: "arch_env \<Rightarrow> string \<Rightarrow> bool" where
  "matches_literally env name \<longleftrightarrow>
     (\<forall>e. ae_excluded env [name] e \<longleftrightarrow> en_pathname e \<noteq> name) \<and>
     (\<forall>seen. ae_unmatched env [name] seen = 0 \<longleftrightarrow> name \<in> en_pathname ` set seen)"

text \<open>The tar of the image: among entries with other names, one that is a plain file \<open>ext4.raw\<close>.\<close>

definition image_tar :: "arch_env \<Rightarrow> string \<Rightarrow> bool" where
  "image_tar env img \<longleftrightarrow> (\<exists>pre e rest. ae_headers env = pre @ (ARCHIVE_OK, e) # rest \<and>
     en_pathname e = ''ext4.raw'' \<and> en_hardlink e = [] \<and> en_node e = File img [] \<and>
     (\<forall>(r, e') \<in> set pre. r = ARCHIVE_OK \<and> en_pathname e' \<noteq> ''ext4.raw''))"

lemma rawDiskArchiver_simps [simp]:
  "ar_patterns (rawDiskArchiver b d f) = [''ext4.raw'']" "ar_fastRead (rawDiskArchiver b d f)"
  "ar_pendingChdir (rawDiskArchiver b d f) = d"
  "ar_transform (rawDiskArchiver b d f) = [''ext4.raw'' \<mapsto> f]"
  by (simp_all add: rawDiskArchiver_def NewArchiver_def SetReader_def SetFastRead_def SetSparse_def
      WithPattern_def SetChdir_def WithTransform_def)

lemma image_extracted:
  assumes lit: "matches_literally env ''ext4.raw''" and f: "f \<noteq> []"
    and img: "en_pathname e = ''ext4.raw''" "en_hardlink e = []"
    and pre: "\<forall>(r, e') \<in> set pre. r = ARCHIVE_OK \<and> en_pathname e' \<noteq> ''ext4.raw''"
    and seen: "''ext4.raw'' \<notin> en_pathname ` set seen"
    and run: "processEntries env (rawDiskArchiver b d f) i seen (pre @ (ARCHIVE_OK, e) # rest) s = (Inr (), t)"
  shows "ae_extract env (extractFlags (rawDiskArchiver b d f)) (e\<lparr>en_pathname := f\<rparr>) s = (ARCHIVE_OK, t)"
  using pre seen run
proof (induction pre arbitrary: i seen)
  case Nil
  let ?t = "rawDiskArchiver b d f"
  have "renamed ?t e = Some (e\<lparr>en_pathname := f\<rparr>)" using img f by (simp add: renamed_def)
  moreover have "\<not> ae_excluded env [''ext4.raw''] e" "ae_unmatched env [''ext4.raw''] seen \<noteq> 0"
    "ae_unmatched env [''ext4.raw''] (seen @ [e]) = 0"
    using lit img(1) Nil.prems(2) by (auto simp: matches_literally_def)
  moreover note Nil.prems(3) img(1)
  ultimately show ?case
    by (auto simp: processEntries.simps [of env ?t i] processEntries.simps [of env ?t "Suc i"] archive_codes andThen_Inr_iff
        extractOne_def split: if_splits prod.splits)
next
  case (Cons h pre)
  let ?t = "rawDiskArchiver b d f"
  obtain e' where h: "h = (ARCHIVE_OK, e')" and n: "en_pathname e' \<noteq> ''ext4.raw''"
    using Cons.prems(1) by (cases h) auto
  have u: "ae_unmatched env [''ext4.raw''] seen \<noteq> 0" and x: "ae_excluded env [''ext4.raw''] e'"
    using lit n Cons.prems(2) by (auto simp: matches_literally_def)
  from Cons.prems(3) u x h obtain seen'
    where "processEntries env ?t (Suc i) seen' (pre @ (ARCHIVE_OK, e) # rest) s = (Inr (), t)"
      and "seen' = seen \<or> seen' = seen @ [e']"
    by (auto simp: processEntries.simps [of env ?t i] archive_codes split: if_splits)
  then have run: "processEntries env ?t (Suc i) seen' (pre @ (ARCHIVE_OK, e) # rest) s = (Inr (), t)"
    and "''ext4.raw'' \<notin> en_pathname ` set seen'"
    using n Cons.prems(2) by auto
  moreover have "\<forall>(r, e') \<in> set pre. r = ARCHIVE_OK \<and> en_pathname e' \<noteq> ''ext4.raw''"
    using Cons.prems(1) by simp
  ultimately show ?case using Cons.IH by blast
qed

lemma ModeX_ready_ok:
  assumes "archive_ready env t" and "ModeX env t s = (Inr (), u)"
  shows "\<exists>s1 s2. doChdir t s = (Inr (), s1) \<and> processEntries env t 0 [] (ae_headers env) s1 = (Inr (), s2) \<and>
    u = snd (os_Chdir (os_cwd s) s2)"
  using assms(2) unfolding readArchive_ready [OF assms(1)]
  by (auto simp: andThen_Inr_iff split: prod.splits)

lemma os_Chdir_plain:
  "imagePath d \<Longrightarrow> nodeAt s d = Some Directory \<Longrightarrow> os_Chdir d s = (Inr (), s\<lparr>os_cwd := d\<rparr>)"
  by (simp add: os_Chdir_def isDirAt_def follow_plain plainAt_simps)

lemma nodeAt_cwd [simp]: "nodeAt (s\<lparr>os_cwd := d\<rparr>) k = nodeAt s k"
  by (simp add: nodeAt_def)

lemma ModeX_image:
  assumes ready: "archive_ready env (rawDiskArchiver b d f)" and wok: "writes_ok env"
    and lit: "matches_literally env ''ext4.raw''" and tar: "image_tar env img"
    and d: "IsAbs d" and f: "f \<noteq> []" "\<not> IsAbs f" and p: "Join [Clean d, f] = p"
    and cwd: "imagePath (os_cwd s)" "nodeAt s (os_cwd s) = Some Directory" "p \<noteq> os_cwd s"
    and run: "ModeX env (rawDiskArchiver b d f) s = (Inr (), t)"
  shows "nodeAt t p = Some (File img [])" and "sameOutside p s t"
proof -
  let ?t = "rawDiskArchiver b d f"
  obtain s1 s2 where chdir: "doChdir ?t s = (Inr (), s1)"
    and loop: "processEntries env ?t 0 [] (ae_headers env) s1 = (Inr (), s2)"
    and t: "t = snd (os_Chdir (os_cwd s) s2)"
    using ModeX_ready_ok [OF ready run] by blast
  have s1: "s1 = s\<lparr>os_cwd := Clean d\<rparr>"
    using chdir d by (auto simp: doChdir_def wrapping_def os_Chdir_def osKey_def Abs_def split: if_splits)
  obtain pre e rest where h: "ae_headers env = pre @ (ARCHIVE_OK, e) # rest"
    and e: "en_pathname e = ''ext4.raw''" "en_hardlink e = []" "en_node e = File img []"
    and pre: "\<forall>(r, e') \<in> set pre. r = ARCHIVE_OK \<and> en_pathname e' \<noteq> ''ext4.raw''"
    using tar unfolding image_tar_def by blast
  have "ae_extract env (extractFlags ?t) (e\<lparr>en_pathname := f\<rparr>) s1 = (ARCHIVE_OK, s2)"
    using image_extracted [OF lit f(1) e(1,2) pre _ loop [unfolded h]] by simp
  moreover have "osKey s1 f = p" using f(2) p by (simp add: s1 osKey_def Abs_def)
  ultimately have s2: "nodeAt s2 p = Some (File img [])" "sameOutside p s1 s2"
    using wok e unfolding writes_ok_def by fastforce+
  then have "nodeAt s2 (os_cwd s) = Some Directory"
    using cwd(2,3) by (simp add: sameOutside_def s1)
  then have "t = s2\<lparr>os_cwd := os_cwd s\<rparr>" using cwd(1) t by (simp add: os_Chdir_plain)
  then show "nodeAt t p = Some (File img [])" "sameOutside p s t"
    using s2 by (simp_all add: sameOutside_def s1)
qed

text \<open>C40. Extracting the embedded image keeps the promise the disk manager relies on. When the tar
  holds a plain file \<open>ext4.raw\<close> and the library writes what it reports as written,
  \<open>ExtractEmbeddedRawDisk\<close>, run over the archiver, leaves exactly the image under the name of the
  target and changes nothing else but missing parent directories; the process is back in the
  directory it came from.\<close>

theorem embedded_disk_extracted:
  assumes "archive_ready env (rawDiskArchiver b (fst (SplitPath p)) (snd (SplitPath p)))" and "writes_ok env"
    and "matches_literally env ''ext4.raw''" and "image_tar env img" and "imagePath p" and "p \<noteq> ''/''"
    and "imagePath (os_cwd s)" and "nodeAt s (os_cwd s) = Some Directory" and "p \<noteq> os_cwd s"
    and "ExtractEmbeddedRawDisk (lib\<lparr>archive_extract := (\<lambda>d f. ModeX env (rawDiskArchiver b d f))\<rparr>) p s = (Inr (), t)"
  shows "nodeAt t p = Some (File img []) \<and> onlyAt p s t \<and> os_cwd t = os_cwd s"
proof -
  obtain s1 where m: "os_MkdirAll (fst (SplitPath p)) s = (Inr (), s1)"
    and x: "ModeX env (rawDiskArchiver b (fst (SplitPath p)) (snd (SplitPath p))) s1 = (Inr (), t)"
    using assms(5,10) by (auto simp: ExtractEmbeddedRawDisk_def andThen_Inr_iff Let_def split: prod.splits)
  have a: "addsDirs s s1" using m by (rule os_MkdirAll_addsDirs)
  then have cwd: "os_cwd s1 = os_cwd s" by (simp add: addsDirs_def)
  note ModeX_image [OF assms(1-4) SplitPath_Join [OF assms(5,6)], where s = s1 and t = t]
  then have "nodeAt t p = Some (File img [])" "sameOutside p s1 t"
    using assms(7-9) cwd x addsDirs_file [OF a] by simp_all
  moreover from this(2) have "onlyAt p s t" "os_cwd t = os_cwd s"
    using onlyAt_trans [OF onlyAt_addsDirs [OF a] onlyAt_sameOutside] by (auto simp: onlyAt_def)
  ultimately show ?thesis by simp
qed



definition imageArchive :: arch_env where
  "imageArchive = \<lparr>ae_matchNew = True, ae_includePattern = (\<lambda>_. 0), ae_writeDiskNew = True, ae_readNew = True,
     ae_pipe = Inr (), ae_openFd = 0, ae_source = None,
     ae_headers = [(0, \<lparr>en_pathname = ''ext4.raw'', en_hardlink = [], en_node = File ''IMG'' []\<rparr>)],
     ae_excluded = (\<lambda>ps e. en_pathname e \<notin> set ps),
     ae_unmatched = (\<lambda>ps seen. if set ps \<subseteq> en_pathname ` set seen then 0 else 1),
     ae_extract = (\<lambda>_ e s. case en_node e of
         File c xs \<Rightarrow>
           if osKey s (en_pathname e) = ''/'' then (-25, s) else (0, setNode (osKey s (en_pathname e)) (en_node e) s)
       | _ \<Rightarrow> (-25, s)),
     ae_ctxDone = (\<lambda>_. False)\<rparr>"

theorem embedded_disk_extracted_witness:
  "\<exists>t. ExtractEmbeddedRawDisk
       (sampleLib\<lparr>archive_extract := (\<lambda>d f. ModeX imageArchive (rawDiskArchiver ''tar'' d f))\<rparr>) ''/d/x.raw''
       (sampleOS\<lparr>os_fs := [(''/work'', Directory)]\<rparr>) = (Inr (), t) \<and>
     nodeAt t ''/d/x.raw'' = Some (File ''IMG'' []) \<and> os_cwd t = ''/work''"
proof -
  let ?s = "sampleOS\<lparr>os_fs := [(''/work'', Directory)]\<rparr>"
  let ?p = "''/d/x.raw''"
  let ?run = "ExtractEmbeddedRawDisk
       (sampleLib\<lparr>archive_extract := (\<lambda>d f. ModeX imageArchive (rawDiskArchiver ''tar'' d f))\<rparr>) ?p ?s"
  have "ok (fst ?run)" by code_simp
  then obtain t where run: "?run = (Inr (), t)" by (auto simp: ok_iff) (metis prod.collapse)
  have "archive_ready imageArchive (rawDiskArchiver ''tar'' (fst (SplitPath ?p)) (snd (SplitPath ?p)))"
    by (simp add: archive_ready_def imageArchive_def archive_codes)
  moreover have "writes_ok imageArchive"
    by (auto simp: writes_ok_def imageArchive_def sameOutside_def archive_codes os_simps split: node.splits if_splits)
  moreover have "matches_literally imageArchive ''ext4.raw''"
    by (auto simp: matches_literally_def imageArchive_def)
  moreover have "image_tar imageArchive ''IMG''"
    by (force simp: image_tar_def imageArchive_def archive_codes)
  moreover have "imagePath ?p" "imagePath (os_cwd ?s)" "?p \<noteq> ''/''" "?p \<noteq> os_cwd ?s"
    by code_simp+
  moreover have "nodeAt ?s (os_cwd ?s) = Some Directory" by code_simp
  ultimately have "nodeAt t ?p = Some (File ''IMG'' []) \<and> os_cwd t = os_cwd ?s"
    using run embedded_disk_extracted [where env = imageArchive and b = "''tar''" and s = ?s and t = t] by simp
  moreover have "os_cwd ?s = ''/work''" by (simp add: sampleOS_def)
  ultimately show ?thesis using run by simp
qed

end
