(* ===== verification/Go_Url.thy ===== *)
theory Go_Url
  imports Go_Path
begin

text \<open>
  The parts of Go's \<open>net/url\<close> and \<open>net\<close> packages the program uses for endpoint
  addresses: \<open>url.URL.String\<close> for a scheme, host and path, \<open>url.Parse\<close> for
  hierarchical addresses, \<open>net.JoinHostPort\<close>, \<open>net.SplitHostPort\<close> and
  \<open>strconv.Atoi\<close>. The fragment and the query are cut off and not kept, user information
  before an \<open>@\<close> is dropped, and an address without slashes (\<open>mailto:x\<close>) keeps its
  opaque part only. The main lemma is that an address printed for a rooted path parses back
  to that path.
\<close>

record URL =
  u_Scheme :: string
  u_Opaque :: string
  u_Host :: string
  u_Path :: string

subsection \<open>Percent encoding\<close>

definition isLetter :: "char \<Rightarrow> bool" where
  "isLetter c \<longleftrightarrow> (let n = (of_char c :: nat) in 65 \<le> n \<and> n \<le> 90 \<or> 97 \<le> n \<and> n \<le> 122)"

definition unreserved :: "char \<Rightarrow> bool" where
  "unreserved c \<longleftrightarrow> isLetter c \<or> isDigit c \<or> c \<in> set ''-_.~''"

text \<open>\<open>shouldEscape(c, encodePath)\<close> and \<open>shouldEscape(c, encodeHost)\<close>.\<close>

definition escapeInPath :: "char \<Rightarrow> bool" where
  "escapeInPath c \<longleftrightarrow> \<not> (unreserved c \<or> c \<in> set ''$&+,/:;=@'')"

definition escapeInHost :: "char \<Rightarrow> bool" where
  "escapeInHost c \<longleftrightarrow> \<not> (unreserved c \<or> c \<in> set ''!$&()*+,;=:[]<>'' \<or> c = CHR 0x22 \<or> c = CHR 0x27)"

definition hexDigit :: "nat \<Rightarrow> char" where
  "hexDigit n = (if n < 10 then char_of (48 + n) else char_of (55 + n))"

definition isHex :: "char \<Rightarrow> bool" where
  "isHex c \<longleftrightarrow> (let n = (of_char c :: nat) in
     48 \<le> n \<and> n \<le> 57 \<or> 65 \<le> n \<and> n \<le> 70 \<or> 97 \<le> n \<and> n \<le> 102)"

definition unhex :: "char \<Rightarrow> nat" where
  "unhex c = (let n = (of_char c :: nat) in
     if n \<le> 57 then n - 48 else if n \<le> 70 then n - 55 else n - 87)"

definition escapeChar :: "char \<Rightarrow> string" where
  "escapeChar c =
     (if escapeInPath c
      then [CHR ''%'', hexDigit (of_char c div 16), hexDigit (of_char c mod 16)] else [c])"

definition escapePath :: "string \<Rightarrow> string" where
  "escapePath p = concat (map escapeChar p)"

fun unescapePath :: "string \<Rightarrow> string res" where
  "unescapePath [] = Inr []"
| "unescapePath (c # s) =
     (if c = CHR ''%'' then
        (case s of
           a # b # t \<Rightarrow>
             if isHex a \<and> isHex b
             then map_sum id (\<lambda>r. char_of (16 * unhex a + unhex b) # r) (unescapePath t)
             else Inl (Errorf ''invalid URL escape'')
         | _ \<Rightarrow> Inl (Errorf ''invalid URL escape''))
      else map_sum id (\<lambda>r. c # r) (unescapePath s))"

subsection \<open>Printing and parsing\<close>

definition url_String :: "URL \<Rightarrow> string" where
  "url_String u =
     (if u_Scheme u \<noteq> [] then u_Scheme u @ '':'' else []) @
     (if u_Opaque u \<noteq> [] then u_Opaque u
      else
        (if (u_Scheme u \<noteq> [] \<or> u_Host u \<noteq> []) \<and> (u_Host u \<noteq> [] \<or> u_Path u \<noteq> [])
         then ''//'' @ u_Host u else []) @
        (let p = (if u_Path u = ''*'' then ''*'' else escapePath (u_Path u))
         in (if p \<noteq> [] \<and> hd p \<noteq> sep \<and> u_Host u \<noteq> [] then ''/'' else []) @ p))"

text \<open>\<open>getScheme\<close>: \<open>Inr (scheme, rest)\<close>; no scheme when the prefix is no scheme.\<close>

fun getScheme :: "string \<Rightarrow> string \<Rightarrow> (string \<times> string) res" where
  "getScheme acc [] = Inr ([], rev acc)"
| "getScheme acc (c # s) =
     (if isLetter c then getScheme (c # acc) s
      else if isDigit c \<or> c \<in> set ''+-.''
      then (if acc = [] then Inr ([], c # s) else getScheme (c # acc) s)
      else if c = CHR '':''
      then (if acc = [] then Inl (Errorf ''missing protocol scheme'') else Inr (rev acc, s))
      else Inr ([], rev acc @ c # s))"

definition isCtl :: "char \<Rightarrow> bool" where
  "isCtl c \<longleftrightarrow> (of_char c :: nat) < 32 \<or> (of_char c :: nat) = 127"

text \<open>The port after the host, \<open>validOptionalPort\<close>, and the checks of \<open>parseHost\<close>.\<close>

definition afterLast :: "char \<Rightarrow> string \<Rightarrow> string" where
  "afterLast c s = rev (takeWhile (\<lambda>x. x \<noteq> c) (rev s))"

definition beforeLast :: "char \<Rightarrow> string \<Rightarrow> string" where
  "beforeLast c s = rev (tl (dropWhile (\<lambda>x. x \<noteq> c) (rev s)))"

definition validHost :: "string \<Rightarrow> bool" where
  "validHost h \<longleftrightarrow> list_all (\<lambda>c. (of_char c :: nat) \<ge> 128 \<or> \<not> escapeInHost c) h \<and>
     (if h \<noteq> [] \<and> hd h = CHR ''[''
      then CHR '']'' \<in> set h \<and>
        (let p = afterLast (CHR '']'') h
         in p = [] \<or> hd p = CHR '':'' \<and> list_all isDigit (tl p))
      else CHR '':'' \<in> set h \<longrightarrow> list_all isDigit (afterLast (CHR '':'') h))"

definition url_Parse :: "string \<Rightarrow> URL res" where
  "url_Parse raw =
     (let noFrag = fst (Cut raw (CHR ''#''))
      in if list_ex isCtl noFrag then Inl (Errorf ''invalid control character in URL'')
         else if noFrag = [] then Inr \<lparr>u_Scheme = [], u_Opaque = [], u_Host = [], u_Path = []\<rparr>
         else if noFrag = ''*'' then Inr \<lparr>u_Scheme = [], u_Opaque = [], u_Host = [], u_Path = ''*''\<rparr>
         else case getScheme [] noFrag of
                Inl e \<Rightarrow> Inl e
              | Inr (scheme0, rest0) \<Rightarrow>
                  let scheme = ToLower scheme0; rest = fst (Cut rest0 (CHR ''?''))
                  in if \<not> HasPrefix rest ''/'' \<and> scheme \<noteq> []
                     then Inr \<lparr>u_Scheme = scheme, u_Opaque = rest, u_Host = [], u_Path = []\<rparr>
                     else if \<not> HasPrefix rest ''/'' \<and> Contains (fst (Cut rest sep)) '':''
                     then Inl (Errorf ''first path segment in URL cannot contain colon'')
                     else if (scheme \<noteq> [] \<or> \<not> HasPrefix rest ''///'') \<and> HasPrefix rest ''//''
                     then
                       let auth = takeWhile (\<lambda>c. c \<noteq> sep) (drop 2 rest);
                           path = dropWhile (\<lambda>c. c \<noteq> sep) (drop 2 rest);
                           host = afterLast (CHR ''@'') auth
                       in if \<not> validHost host then Inl (Errorf ''invalid host'')
                          else map_sum id (\<lambda>p. \<lparr>u_Scheme = scheme, u_Opaque = [], u_Host = host,
                                  u_Path = p\<rparr>) (unescapePath path)
                     else map_sum id (\<lambda>p. \<lparr>u_Scheme = scheme, u_Opaque = [], u_Host = [],
                            u_Path = p\<rparr>) (unescapePath rest))"

subsection \<open>Host and port\<close>

definition JoinHostPort :: "string \<Rightarrow> string \<Rightarrow> string" where
  "JoinHostPort host port =
     (if CHR '':'' \<in> set host \<or> CHR ''%'' \<in> set host
      then ''['' @ host @ '']:'' @ port else host @ '':'' @ port)"

definition SplitHostPort :: "string \<Rightarrow> (string \<times> string) res" where
  "SplitHostPort hp =
     (if CHR '':'' \<notin> set hp then Inl (Errorf ''missing port in address'')
      else if hd hp = CHR ''[''
      then
        let inner = takeWhile (\<lambda>c. c \<noteq> CHR '']'') (tl hp);
            rest = dropWhile (\<lambda>c. c \<noteq> CHR '']'') (tl hp)
        in if rest = [] then Inl (Errorf ''missing right bracket in address'')
           else if tl rest = [] then Inl (Errorf ''missing port in address'')
           else if hd (tl rest) \<noteq> CHR '':'' then Inl (Errorf ''missing port in address'')
           else if CHR '':'' \<in> set (tl (tl rest)) then Inl (Errorf ''too many colons in address'')
           else if CHR ''['' \<in> set inner \<or> CHR ''['' \<in> set (tl (tl rest))
           then Inl (Errorf ''unexpected left bracket in address'')
           else if CHR '']'' \<in> set (tl (tl rest))
           then Inl (Errorf ''unexpected right bracket in address'')
           else Inr (inner, tl (tl rest))
      else
        let host = beforeLast (CHR '':'') hp; port = afterLast (CHR '':'') hp
        in if CHR '':'' \<in> set host then Inl (Errorf ''too many colons in address'')
           else if CHR ''['' \<in> set hp then Inl (Errorf ''unexpected left bracket in address'')
           else if CHR '']'' \<in> set hp then Inl (Errorf ''unexpected right bracket in address'')
           else Inr (host, port))"

text \<open>\<open>strconv.Atoi\<close> on a 64-bit machine: an optional sign, then digits.\<close>

definition Atoi :: "string \<Rightarrow> int res" where
  "Atoi s =
     (let neg = (s \<noteq> [] \<and> hd s = CHR ''-'');
          ds = (if s \<noteq> [] \<and> (hd s = CHR ''-'' \<or> hd s = CHR ''+'') then tl s else s)
      in if ds = [] \<or> \<not> list_all isDigit ds then Inl (Errorf ''invalid syntax'')
         else
           let v = int (digitsVal ds)
           in if neg then (if v \<le> 2 ^ 63 then Inr (- v) else Inl (Errorf ''value out of range''))
              else if v < 2 ^ 63 then Inr v else Inl (Errorf ''value out of range''))"

subsection \<open>Evaluation\<close>

lemma isLetter_code [code]:
  "isLetter c \<longleftrightarrow> (let n = (of_char c :: int) in 65 \<le> n \<and> n \<le> 90 \<or> 97 \<le> n \<and> n \<le> 122)"
  unfolding isLetter_def Let_def of_char_int by simp

lemma isCtl_code [code]:
  "isCtl c \<longleftrightarrow> (let n = (of_char c :: int) in n < 32 \<or> n = 127)"
  unfolding isCtl_def Let_def of_char_int by simp

lemma isHex_code [code]:
  "isHex c \<longleftrightarrow> (let n = (of_char c :: int) in
     48 \<le> n \<and> n \<le> 57 \<or> 65 \<le> n \<and> n \<le> 70 \<or> 97 \<le> n \<and> n \<le> 102)"
  unfolding isHex_def Let_def of_char_int by simp

lemma escapeInHost_high [code_unfold]:
  "(128 \<le> (of_char c :: nat)) \<longleftrightarrow> 128 \<le> (of_char c :: int)"
  unfolding of_char_int by simp

subsection \<open>Round trips\<close>

lemma of_char_less_256 [simp]: "(of_char c :: nat) < 256"
  by (cases c) (auto simp: of_char_def)

lemma hex_round_trip:
  assumes "n < 16"
  shows "isHex (hexDigit n) \<and> unhex (hexDigit n) = n"
proof -
  have "n \<in> set [0..<16]" using assms by simp
  then show ?thesis
    by (simp add: isHex_def unhex_def hexDigit_def upt_rec Let_def) auto
qed

lemma escapeChar_cases:
  "escapeChar c = [c] \<and> c \<noteq> CHR ''%'' \<or>
   (\<exists>a b. escapeChar c = [CHR ''%'', a, b] \<and> isHex a \<and> isHex b \<and>
     char_of (16 * unhex a + unhex b) = c)"
proof (cases "escapeInPath c")
  case True
  let ?n = "of_char c :: nat"
  have "?n div 16 < 16" using of_char_less_256 [of c] by linarith
  then have "isHex (hexDigit (?n div 16)) \<and> unhex (hexDigit (?n div 16)) = ?n div 16"
    by (rule hex_round_trip)
  moreover have "isHex (hexDigit (?n mod 16)) \<and> unhex (hexDigit (?n mod 16)) = ?n mod 16"
    by (rule hex_round_trip) simp
  moreover have "char_of (16 * (?n div 16) + ?n mod 16) = c"
    by (simp only: mult_div_mod_eq char_of_char)
  ultimately show ?thesis using True by (simp add: escapeChar_def)
next
  case False
  then have "c \<noteq> CHR ''%''"
    by (auto simp: escapeInPath_def unreserved_def isLetter_def isDigit_def)
  with False show ?thesis by (simp add: escapeChar_def)
qed

lemma unescape_escape_append:
  "unescapePath (escapeChar c @ s) = map_sum id (\<lambda>r. c # r) (unescapePath s)"
  using escapeChar_cases [of c] by (auto simp: sum.map_comp comp_def)

lemma unescape_escapePath: "unescapePath (escapePath p) = Inr p"
proof (induction p)
  case (Cons c p)
  then show ?case
    using unescape_escape_append [of c "escapePath p"] by (simp add: escapePath_def)
qed (simp add: escapePath_def)

text \<open>An escaped path has none of the bytes that end or spoil a path in an address.\<close>

lemma escapePath_chars:
  assumes "x \<in> set (escapePath p)"
  shows "x \<noteq> CHR ''#'' \<and> x \<noteq> CHR ''?'' \<and> \<not> isCtl x"
proof -
  obtain c where c: "x \<in> set (escapeChar c)"
    using assms by (auto simp: escapePath_def)
  have hex: "\<not> isCtl h \<and> h \<noteq> CHR ''#'' \<and> h \<noteq> CHR ''?''" if "isHex h" for h
    using that by (auto simp: isHex_def isCtl_def Let_def)
  have keep: "\<not> isCtl c \<and> c \<noteq> CHR ''#'' \<and> c \<noteq> CHR ''?''" if "\<not> escapeInPath c"
    using that by (auto simp: escapeInPath_def unreserved_def isLetter_def isDigit_def isCtl_def Let_def)
  consider "escapeChar c = [c]" "\<not> escapeInPath c"
    | a b where "escapeChar c = [CHR ''%'', a, b]" "isHex a" "isHex b"
    using escapeChar_cases [of c] by (cases "escapeInPath c") (auto simp: escapeChar_def)
  then show ?thesis
  proof cases
    case 1
    then show ?thesis using c keep by simp
  next
    case 2
    then show ?thesis using c hex by (auto simp: isCtl_def)
  qed
qed

lemma escapePath_rooted: "escapePath (sep # p) = sep # escapePath p"
proof -
  have "\<not> escapeInPath sep" by (simp add: escapeInPath_def)
  then show ?thesis by (simp add: escapePath_def escapeChar_def)
qed

definition plainScheme :: "string \<Rightarrow> bool" where
  "plainScheme sc \<longleftrightarrow> sc \<noteq> [] \<and> list_all isLetter sc \<and> ToLower sc = sc"

lemma getScheme_letters:
  "list_all isLetter sc \<Longrightarrow> acc @ sc \<noteq> [] \<Longrightarrow>
   getScheme acc (sc @ CHR '':'' # rest) = Inr (rev acc @ sc, rest)"
proof (induction sc arbitrary: acc)
  case Nil
  have "\<not> isLetter (CHR '':'')" "\<not> isDigit (CHR '':'')"
    by (simp_all add: isLetter_def isDigit_def)
  with Nil show ?case by simp
next
  case (Cons c sc)
  then show ?case by simp
qed

lemma Cut_fst_none: "c \<notin> set s \<Longrightarrow> fst (Cut s c) = s"
  by simp

lemma letter_not_special:
  "isLetter c \<Longrightarrow> c \<noteq> CHR ''#'' \<and> c \<noteq> CHR ''?'' \<and> \<not> isCtl c \<and> c \<noteq> CHR ''*''"
  by (auto simp: isLetter_def isCtl_def Let_def)

text \<open>Parsing an authority followed by an escaped path (none or a rooted one).\<close>

definition authChars :: "string \<Rightarrow> bool" where
  "authChars a \<longleftrightarrow> list_all (\<lambda>c. unreserved c \<or> c = CHR '':'') a"

lemma authChars_safe:
  "authChars a \<Longrightarrow> x \<in> set a \<Longrightarrow>
   x \<noteq> CHR ''#'' \<and> x \<noteq> CHR ''?'' \<and> x \<noteq> sep \<and> x \<noteq> CHR ''@'' \<and> \<not> isCtl x"
  by (auto simp: authChars_def list_all_iff unreserved_def isLetter_def isDigit_def isCtl_def Let_def)

lemma authority_parts:
  assumes "authChars a" and "p = [] \<or> IsAbs p"
  shows "takeWhile (\<lambda>c. c \<noteq> sep) (a @ escapePath p) = a"
    and "dropWhile (\<lambda>c. c \<noteq> sep) (a @ escapePath p) = escapePath p"
    and "afterLast (CHR ''@'') a = a"
proof -
  have "sep \<notin> set a" and "CHR ''@'' \<notin> set a" using authChars_safe [OF assms(1)] by auto
  then show "afterLast (CHR ''@'') a = a"
    by (simp add: afterLast_def takeWhile_neq_all)
  have "escapePath p = [] \<or> (\<exists>q. escapePath p = sep # q)"
  proof (cases p)
    case Nil
    then show ?thesis by (simp add: escapePath_def)
  next
    case (Cons c q)
    then have "p = sep # q" using assms(2) by simp
    then show ?thesis by (simp add: escapePath_rooted)
  qed
  then show "takeWhile (\<lambda>c. c \<noteq> sep) (a @ escapePath p) = a"
    and "dropWhile (\<lambda>c. c \<noteq> sep) (a @ escapePath p) = escapePath p"
    using \<open>sep \<notin> set a\<close>
    by (auto simp: takeWhile_neq_append dropWhile_neq_append takeWhile_neq_all dropWhile_neq_all)
qed

lemma url_Parse_authority:
  assumes "plainScheme sc" and "authChars a" and "validHost a" and "p = [] \<or> IsAbs p"
  shows "url_Parse (sc @ ''://'' @ a @ escapePath p) =
    Inr \<lparr>u_Scheme = sc, u_Opaque = [], u_Host = a, u_Path = p\<rparr>"
proof -
  let ?rest = "''//'' @ a @ escapePath p"
  let ?raw = "sc @ CHR '':'' # ?rest"
  have sc: "sc \<noteq> []" "list_all isLetter sc" "ToLower sc = sc"
    using assms(1) by (simp_all add: plainScheme_def)
  have safe: "x \<noteq> CHR ''#'' \<and> \<not> isCtl x" if "x \<in> set ?raw" for x
    using that sc(2) escapePath_chars [of x p] letter_not_special [of x] authChars_safe [OF assms(2), of x]
    by (auto simp: list_all_iff isCtl_def)
  have nofrag: "fst (Cut ?raw (CHR ''#'')) = ?raw"
    using safe by (intro Cut_fst_none) blast
  have noctl: "\<not> list_ex isCtl ?raw"
    using safe by (simp only: list_ex_iff) blast
  have "CHR ''?'' \<notin> set ?rest"
    using escapePath_chars [of "CHR ''?''" p] authChars_safe [OF assms(2), of "CHR ''?''"] by auto
  then have noq: "fst (Cut ?rest (CHR ''?'')) = ?rest"
    by (rule Cut_fst_none)
  have g: "getScheme [] ?raw = Inr (sc, ?rest)"
    using getScheme_letters [OF sc(2), of "[]"] sc(1) by simp
  have "?raw \<noteq> ''*''" using sc(1) by (cases sc) auto
  moreover have "?raw \<noteq> []" by simp
  ultimately have "url_Parse ?raw = Inr \<lparr>u_Scheme = sc, u_Opaque = [], u_Host = a, u_Path = p\<rparr>"
    unfolding url_Parse_def Let_def nofrag g
    using noctl noq sc authority_parts [OF assms(2,4)] assms(3) unescape_escapePath [of p]
    by simp
  then show ?thesis by simp
qed

text \<open>Printing a rooted path under a scheme and parsing it gives the path back.\<close>

lemma url_round_trip:
  assumes "plainScheme sc" and "IsAbs p"
  shows "url_Parse (url_String \<lparr>u_Scheme = sc, u_Opaque = [], u_Host = [], u_Path = p\<rparr>) =
    Inr \<lparr>u_Scheme = sc, u_Opaque = [], u_Host = [], u_Path = p\<rparr>"
proof -
  have "sc \<noteq> []" and "p \<noteq> []" and "p \<noteq> ''*''" using assms by (auto simp: plainScheme_def)
  then have "url_String \<lparr>u_Scheme = sc, u_Opaque = [], u_Host = [], u_Path = p\<rparr> =
      sc @ ''://'' @ [] @ escapePath p"
    by (simp add: url_String_def Let_def)
  then show ?thesis
    using url_Parse_authority [OF assms(1), of "[]" p] assms(2)
    by (simp add: authChars_def validHost_def)
qed

lemma afterLast_append: "c \<notin> set b \<Longrightarrow> afterLast c (a @ c # b) = b"
  by (simp add: afterLast_def takeWhile_neq_append)

lemma beforeLast_append: "c \<notin> set b \<Longrightarrow> beforeLast c (a @ c # b) = a"
  by (simp add: beforeLast_def dropWhile_neq_append)

text \<open>A host name or IPv4 address and a port.\<close>

definition plainHost :: "string \<Rightarrow> bool" where
  "plainHost h \<longleftrightarrow> h \<noteq> [] \<and> list_all (\<lambda>c. c \<notin> set '':%[]'') h"

lemma Itoa_chars: "x \<in> set (Itoa n) \<Longrightarrow> isDigit x"
  using Itoa_digits [of n] by (simp add: list_all_iff)

lemma host_port_round_trip:
  assumes "plainHost h"
  shows "JoinHostPort h (Itoa n) = h @ '':'' @ Itoa n"
    and "SplitHostPort (JoinHostPort h (Itoa n)) = Inr (h, Itoa n)"
proof -
  have h: "h \<noteq> []" "CHR '':'' \<notin> set h" "CHR ''%'' \<notin> set h" "CHR ''['' \<notin> set h" "CHR '']'' \<notin> set h"
    using assms by (auto simp: plainHost_def list_all_iff)
  have d: "CHR '':'' \<notin> set (Itoa n)" "CHR ''['' \<notin> set (Itoa n)" "CHR '']'' \<notin> set (Itoa n)"
    using Itoa_chars [of "CHR '':''" n] Itoa_chars [of "CHR ''[''" n] Itoa_chars [of "CHR '']''" n]
    by (auto simp: isDigit_def)
  show j: "JoinHostPort h (Itoa n) = h @ '':'' @ Itoa n"
    using h by (simp add: JoinHostPort_def)
  have "hd (h @ CHR '':'' # Itoa n) \<noteq> CHR ''[''" using h by (cases h) auto
  then show "SplitHostPort (JoinHostPort h (Itoa n)) = Inr (h, Itoa n)"
    using h d
    by (simp add: j SplitHostPort_def Let_def afterLast_append beforeLast_append)
qed

lemma Atoi_Itoa: "n < 2 ^ 63 \<Longrightarrow> Atoi (Itoa n) = Inr (int n)"
proof -
  assume n: "n < 2 ^ 63"
  have "hd (Itoa n) \<noteq> CHR ''-'' \<and> hd (Itoa n) \<noteq> CHR ''+''"
    using Itoa_chars [of "hd (Itoa n)" n] by (auto simp: isDigit_def)
  then show ?thesis
    using n Itoa_digits [of n] by (simp add: Atoi_def Let_def)
qed

end
