(* ===== verification/Network.thy ===== *)
theory Network
  imports Go_Url Go_OS "HOL-Library.Char_ord" "HOL-Library.List_Lexorder"
begin

text \<open>
  \<open>pkg/network\<close>: free ports and endpoint addresses (\<open>port.go\<close>) and the small HTTP client
  (\<open>httpclient.go\<close>) that the event reporter, the attach command and the guest agent use.

  The peer of a request is a parameter: a function from the request that goes over the wire
  to the peer's response or a transport error. What the code decides is the request: the
  dialled endpoint, the URL, the headers and the query. The header names the program sets are
  already in canonical form.
\<close>

subsection \<open>Ports and addresses (port.go)\<close>

text \<open>\<open>listen\<close> says whether the preferred port can be bound. The ephemeral port is the
  kernel's next answer.\<close>

definition GetAvailablePort :: "(u16 \<Rightarrow> bool) \<Rightarrow> u16 \<Rightarrow> (OS, u64) proc" where
  "GetAvailablePort canListen preferredPort s =
     (if preferredPort \<noteq> 0 \<and> canListen preferredPort then (Inr (ucast preferredPort), s)
      else case os_ports s of
             [] \<Rightarrow> (Inl (ErrSyscall ''listen''), s)
           | p # ps \<Rightarrow> (Inr (ucast p), s\<lparr>os_ports := ps\<rparr>))"

record Addr =
  addr_Scheme :: string
  addr_Host :: string
  addr_Port :: int
  addr_Path :: string

definition ParseUnixAddr :: "string \<Rightarrow> Addr res" where
  "ParseUnixAddr raw =
     (if \<not> Contains raw ''unix://'' \<and> \<not> Contains raw ''unixgram://''
      then Inl (Errorf ''scheme missing, expected format: unix://'')
      else case url_Parse raw of
             Inl e \<Rightarrow> Inl (Wrap ''parse'' e)
           | Inr u \<Rightarrow>
               if u_Scheme u = [] then Inl (Errorf ''missing scheme'')
               else if u_Path u = [] then Inl (Errorf ''missing path'')
               else Inr \<lparr>addr_Scheme = u_Scheme u, addr_Host = [], addr_Port = 0,
                          addr_Path = u_Path u\<rparr>)"

definition ParseTcpAddr :: "string \<Rightarrow> Addr res" where
  "ParseTcpAddr raw =
     (if \<not> Contains raw ''tcp://''
      then Inl (Errorf ''scheme missing, expected format: tcp://<host>:<port>'')
      else case url_Parse raw of
             Inl e \<Rightarrow> Inl (Wrap ''parse'' e)
           | Inr u \<Rightarrow>
               if u_Scheme u = [] then Inl (Errorf ''missing scheme'')
               else if u_Host u = [] then Inl (Errorf ''missing host:port'')
               else case SplitHostPort (u_Host u) of
                      Inl e \<Rightarrow> Inl (Wrap ''split host/port'' e)
                    | Inr (host, portStr) \<Rightarrow>
                        (case Atoi portStr of
                           Inl e \<Rightarrow> Inl (Wrap ''invalid port'' e)
                         | Inr port \<Rightarrow> Inr \<lparr>addr_Scheme = u_Scheme u, addr_Host = host,
                                            addr_Port = port, addr_Path = []\<rparr>))"

subsection \<open>HTTP client (httpclient.go)\<close>

text \<open>Durations in milliseconds.\<close>

record clientConfig =
  cc_timeout :: nat
  cc_idleConnTimeout :: nat
  cc_disableKeepAlives :: bool
  cc_maxIdleConnsPerHost :: int

datatype ClientOption =
    WithTimeout nat
  | WithIdleConnTimeout nat
  | WithKeepAlive bool
  | WithMaxIdleConns int

fun applyOption :: "clientConfig \<Rightarrow> ClientOption \<Rightarrow> clientConfig" where
  "applyOption c (WithTimeout d) = c\<lparr>cc_timeout := d\<rparr>"
| "applyOption c (WithIdleConnTimeout d) = c\<lparr>cc_idleConnTimeout := d\<rparr>"
| "applyOption c (WithKeepAlive enabled) = c\<lparr>cc_disableKeepAlives := \<not> enabled\<rparr>"
| "applyOption c (WithMaxIdleConns n) = c\<lparr>cc_maxIdleConnsPerHost := n\<rparr>"

definition defaultConfig :: clientConfig where
  "defaultConfig = \<lparr>cc_timeout = 2000, cc_idleConnTimeout = 1000, cc_disableKeepAlives = False,
     cc_maxIdleConnsPerHost = 0\<rparr>"

definition applyOptions :: "clientConfig \<Rightarrow> ClientOption list \<Rightarrow> clientConfig" where
  "applyOptions cfg opts = foldl applyOption cfg opts"

datatype dialTarget = DialUnix string | DialTCP string | DialVSock u32 u32

record Client =
  cl_dial :: dialTarget
  cl_baseURL :: string
  cl_config :: clientConfig

definition NewUnixClient :: "string \<Rightarrow> ClientOption list \<Rightarrow> Client" where
  "NewUnixClient socketPath opts = \<lparr>cl_dial = DialUnix socketPath, cl_baseURL = ''http://unix'',
     cl_config = applyOptions defaultConfig opts\<rparr>"

definition NewTCPClient :: "string \<Rightarrow> ClientOption list \<Rightarrow> Client" where
  "NewTCPClient address opts = \<lparr>cl_dial = DialTCP address, cl_baseURL = ''http://'' @ address,
     cl_config = applyOptions defaultConfig opts\<rparr>"

definition NewVSockClient :: "u32 \<Rightarrow> u32 \<Rightarrow> ClientOption list \<Rightarrow> Client" where
  "NewVSockClient cid port opts = \<lparr>cl_dial = DialVSock cid port, cl_baseURL = ''http://vsock'',
     cl_config = applyOptions defaultConfig opts\<rparr>"

record Request =
  rq_client :: Client
  rq_method :: string
  rq_path :: string
  rq_headers :: "(string \<times> string) list"
  rq_query :: "(string \<times> string) list"
  rq_body :: string

definition NewRequest :: "Client \<Rightarrow> string \<Rightarrow> string \<Rightarrow> Request" where
  "NewRequest c method path = \<lparr>rq_client = c, rq_method = method, rq_path = path,
     rq_headers = [], rq_query = [], rq_body = []\<rparr>"

definition HttpGet :: "Client \<Rightarrow> string \<Rightarrow> Request" where
  "HttpGet c path = NewRequest c ''GET'' path"

definition HttpPost :: "Client \<Rightarrow> string \<Rightarrow> Request" where
  "HttpPost c path = NewRequest c ''POST'' path"

definition HttpPut :: "Client \<Rightarrow> string \<Rightarrow> Request" where
  "HttpPut c path = NewRequest c ''PUT'' path"

definition HttpDelete :: "Client \<Rightarrow> string \<Rightarrow> Request" where
  "HttpDelete c path = NewRequest c ''DELETE'' path"

definition HttpHead :: "Client \<Rightarrow> string \<Rightarrow> Request" where
  "HttpHead c path = NewRequest c ''HEAD'' path"

definition Header :: "Request \<Rightarrow> string \<Rightarrow> string \<Rightarrow> Request" where
  "Header r key val = r\<lparr>rq_headers := AList.update key val (rq_headers r)\<rparr>"

definition Query :: "Request \<Rightarrow> string \<Rightarrow> string \<Rightarrow> Request" where
  "Query r key val = r\<lparr>rq_query := AList.update key val (rq_query r)\<rparr>"

definition Body :: "Request \<Rightarrow> string \<Rightarrow> Request" where
  "Body r body = r\<lparr>rq_body := body\<rparr>"

definition RequestJSON :: "Request \<Rightarrow> Request" where
  "RequestJSON r =
     Header (Header r ''Content-Type'' ''application/json'') ''Accept'' ''application/json''"

definition buildURL :: "Request \<Rightarrow> string" where
  "buildURL r = cl_baseURL (rq_client r) @ Clean (sep # rq_path r)"

text \<open>\<open>url.QueryEscape\<close> and \<open>url.Values.Encode\<close>: keys in byte order.\<close>

definition queryEscape :: "string \<Rightarrow> string" where
  "queryEscape s = concat (map (\<lambda>c. if c = CHR '' '' then ''+''
     else if unreserved c then [c]
     else [CHR ''%'', hexDigit (of_char c div 16), hexDigit (of_char c mod 16)]) s)"

definition encodeQuery :: "(string \<times> string) list \<Rightarrow> string" where
  "encodeQuery q =
     JoinWith (CHR ''&'') (map (\<lambda>k. queryEscape k @ ''='' @
       queryEscape (case map_of q k of Some v \<Rightarrow> v | None \<Rightarrow> [])) (sort (map fst q)))"

record HttpRequest =
  hr_dial :: dialTarget
  hr_timeout :: nat
  hr_method :: string
  hr_url :: string
  hr_rawQuery :: string
  hr_headers :: "(string \<times> string) list"
  hr_body :: string

record HttpResponse =
  StatusCode :: nat
  resp_body :: "string res"

type_synonym transport = "HttpRequest \<Rightarrow> HttpResponse res"

definition wireRequest :: "Request \<Rightarrow> HttpRequest" where
  "wireRequest r = \<lparr>hr_dial = cl_dial (rq_client r),
     hr_timeout = cc_timeout (cl_config (rq_client r)), hr_method = rq_method r,
     hr_url = buildURL r, hr_rawQuery = (if rq_query r = [] then [] else encodeQuery (rq_query r)),
     hr_headers = rq_headers r, hr_body = rq_body r\<rparr>"

text \<open>\<open>Do\<close>: building the request fails when the URL does not parse.\<close>

definition httpDo :: "transport \<Rightarrow> Request \<Rightarrow> HttpResponse res" where
  "httpDo peer r =
     (case url_Parse (buildURL r) of
        Inl e \<Rightarrow> Inl (Wrap ''failed to create request'' e)
      | Inr _ \<Rightarrow> wrapErr ''HTTP request failed'' (peer (wireRequest r)))"

definition DoAndRead :: "transport \<Rightarrow> Request \<Rightarrow> (string \<times> nat) res" where
  "DoAndRead peer r =
     (case httpDo peer r of
        Inl e \<Rightarrow> Inl e
      | Inr resp \<Rightarrow>
          (case resp_body resp of
             Inl e \<Rightarrow> Inl (Wrap ''failed to read response body'' e)
           | Inr body \<Rightarrow> Inr (body, StatusCode resp)))"

subsection \<open>Addresses the program prints are addresses it can read\<close>

lemma plainScheme_known: "plainScheme ''unix''" "plainScheme ''unixgram''" "plainScheme ''tcp''"
  by code_simp+

text \<open>\<open>(&url.URL{Scheme: "unix", Path: p}).String()\<close>, as every builder of the host writes it.\<close>

definition unixURL :: "string \<Rightarrow> string" where
  "unixURL p = url_String \<lparr>u_Scheme = ''unix'', u_Opaque = [], u_Host = [], u_Path = p\<rparr>"

lemma unixURL_form: "IsAbs p \<Longrightarrow> unixURL p = ''unix://'' @ escapePath p"
  by (cases p) (auto simp: unixURL_def url_String_def Let_def escapePath_rooted)

lemma ParseUnixAddr_unixURL:
  assumes "IsAbs p"
  shows "ParseUnixAddr (unixURL p) =
    Inr \<lparr>addr_Scheme = ''unix'', addr_Host = [], addr_Port = 0, addr_Path = p\<rparr>"
proof -
  have "Contains (unixURL p) ''unix://''"
    unfolding unixURL_form [OF assms] by (rule Contains_append)
  moreover have "p \<noteq> []" using assms by auto
  ultimately show ?thesis
    using url_round_trip [OF plainScheme_known(1) assms]
    by (simp add: ParseUnixAddr_def unixURL_def)
qed

lemma GetAvailablePort_0 [simp]:
  "GetAvailablePort can 0 s =
     (case os_ports s of [] \<Rightarrow> (Inl (ErrSyscall ''listen''), s)
      | p # ps \<Rightarrow> (Inr (ucast p), s\<lparr>os_ports := ps\<rparr>))"
  by (simp add: GetAvailablePort_def)

text \<open>The dialled endpoint and the timeout do not depend on how the request is built.\<close>

lemma request_client [simp]:
  "rq_client (Header r k v) = rq_client r" "rq_client (Query r k v) = rq_client r"
  "rq_client (Body r b) = rq_client r" "rq_client (RequestJSON r) = rq_client r"
  "rq_client (NewRequest c m p) = c"
  by (simp_all add: Header_def Query_def Body_def RequestJSON_def NewRequest_def)

lemma host_char_kept: "unreserved c \<or> c = CHR '':'' \<Longrightarrow> \<not> escapeInHost c"
  by (auto simp: escapeInHost_def)

lemma tcp_host_port:
  assumes "plainHost h" and "list_all unreserved h"
  shows "authChars (h @ '':'' @ Itoa n)" and "validHost (h @ '':'' @ Itoa n)"
proof -
  have d: "list_all (\<lambda>c. isDigit c \<and> unreserved c) (Itoa n)"
    using Itoa_digits [of n] by (auto simp: list_all_iff unreserved_def)
  then show a: "authChars (h @ '':'' @ Itoa n)"
    using assms(2) by (auto simp: authChars_def list_all_iff)
  have colon: "CHR '':'' \<notin> set (Itoa n)" by (rule colon_notin_Itoa)
  have "h \<noteq> []" and "hd h \<noteq> CHR ''[''"
    using assms(1) by (auto simp: plainHost_def list_all_iff dest: hd_in_set)
  moreover have "list_all (\<lambda>c. (of_char c :: nat) \<ge> 128 \<or> \<not> escapeInHost c) (h @ '':'' @ Itoa n)"
    using a host_char_kept unfolding authChars_def list_all_iff by blast
  ultimately show "validHost (h @ '':'' @ Itoa n)"
    using Itoa_digits [of n] by (simp add: validHost_def afterLast_append [OF colon])
qed

subsection \<open>Properties\<close>

text \<open>Endpoint addresses round trip: the \<open>unix://\<close> address printed for any absolute path,
  with whatever bytes in its file names, is read back as exactly that path; and
  \<open>tcp://host:port\<close> is read back as that host and port.\<close>

theorem addresses_round_trip:
  assumes "IsAbs p" and "plainHost h" and "list_all unreserved h" and "n < 2 ^ 63"
  shows "ParseUnixAddr (unixURL p) =
      Inr \<lparr>addr_Scheme = ''unix'', addr_Host = [], addr_Port = 0, addr_Path = p\<rparr> \<and>
    ParseTcpAddr (''tcp://'' @ JoinHostPort h (Itoa n)) =
      Inr \<lparr>addr_Scheme = ''tcp'', addr_Host = h, addr_Port = int n, addr_Path = []\<rparr>"
proof
  show "ParseUnixAddr (unixURL p) =
      Inr \<lparr>addr_Scheme = ''unix'', addr_Host = [], addr_Port = 0, addr_Path = p\<rparr>"
    using assms(1) by (rule ParseUnixAddr_unixURL)
  let ?hp = "h @ '':'' @ Itoa n"
  have j: "JoinHostPort h (Itoa n) = ?hp" using assms(2) by (rule host_port_round_trip)
  have "url_Parse (''tcp'' @ ''://'' @ ?hp @ escapePath []) =
      Inr \<lparr>u_Scheme = ''tcp'', u_Opaque = [], u_Host = ?hp, u_Path = []\<rparr>"
    using tcp_host_port [OF assms(2,3)] plainScheme_known(3) by (intro url_Parse_authority) auto
  then have u: "url_Parse (''tcp://'' @ ?hp) =
      Inr \<lparr>u_Scheme = ''tcp'', u_Opaque = [], u_Host = ?hp, u_Path = []\<rparr>"
    by (simp add: escapePath_def)
  have "Contains (''tcp://'' @ ?hp) ''tcp://''" by (rule Contains_append)
  then show "ParseTcpAddr (''tcp://'' @ JoinHostPort h (Itoa n)) =
      Inr \<lparr>addr_Scheme = ''tcp'', addr_Host = h, addr_Port = int n, addr_Path = []\<rparr>"
    unfolding ParseTcpAddr_def j
    using u host_port_round_trip(2) [OF assms(2), of n, unfolded j] Atoi_Itoa [OF assms(4)]
    by (simp del: append_Cons append.simps Contains.simps)
qed

theorem addresses_round_trip_witness:
  "ParseUnixAddr (unixURL ''/tmp/a b?.sock'') =
     Inr \<lparr>addr_Scheme = ''unix'', addr_Host = [], addr_Port = 0, addr_Path = ''/tmp/a b?.sock''\<rparr>"
proof -
  have "IsAbs ''/tmp/a b?.sock''" and "plainHost ''127.0.0.1''" and "list_all unreserved ''127.0.0.1''"
    by code_simp+
  from addresses_round_trip [OF this, of 80] show ?thesis by simp
qed

end
