(* ===== verification/Cleanup.thy ===== *)
theory Cleanup
  imports Prelude "HOL-Library.Multiset"
begin

text \<open>
  \<open>pkg/system/callback.go\<close>: the stack of clean-up callbacks. A callback is a state
  transformer that may report an error; errors are logged and otherwise ignored.

  The first part is the sequential behaviour, with the interface \<open>teardown\<close> that the
  builders and the VM rely on. The second part is the behaviour under concurrency: several
  goroutines may call \<open>DoClean\<close> while others still add callbacks. The mutex makes the
  claim of the list one atomic step; running the claimed callbacks interleaves freely.
\<close>

subsection \<open>Sequential behaviour\<close>

type_synonym 's callback = "'s \<Rightarrow> unit res \<times> 's"

record 's CleanupCallback =
  Funcs :: "'s callback list"

definition NewCleanUp :: "'s CleanupCallback" where
  "NewCleanUp = \<lparr>Funcs = []\<rparr>"

text \<open>\<open>Add\<close> takes a function value that may be nil.\<close>

definition Add :: "'s CleanupCallback \<Rightarrow> 's callback option \<Rightarrow> 's CleanupCallback" where
  "Add c f = (case f of None \<Rightarrow> c | Some g \<Rightarrow> c\<lparr>Funcs := Funcs c @ [g]\<rparr>)"

definition AddFunc :: "'s CleanupCallback \<Rightarrow> ('s \<Rightarrow> 's) option \<Rightarrow> 's CleanupCallback" where
  "AddFunc c f = (case f of None \<Rightarrow> c | Some g \<Rightarrow> Add c (Some (\<lambda>s. (Inr (), g s))))"

fun runAll :: "'s callback list \<Rightarrow> 's \<Rightarrow> 's" where
  "runAll [] s = s"
| "runAll (f # fs) s = runAll fs (snd (f s))"

definition clean :: "'s CleanupCallback \<Rightarrow> 's \<Rightarrow> 's CleanupCallback \<times> 's" where
  "clean c s = (c\<lparr>Funcs := []\<rparr>, runAll (rev (Funcs c)) s)"

definition DoClean :: "'s CleanupCallback \<Rightarrow> 's \<Rightarrow> 's CleanupCallback \<times> 's" where
  "DoClean c s = clean c s"

text \<open>\<open>CleanIfErr(&err)\<close>: the pointer is never nil in the program; \<open>None\<close> is no error.\<close>

definition CleanIfErr :: "'s CleanupCallback \<Rightarrow> goerr option \<Rightarrow> 's \<Rightarrow> 's CleanupCallback \<times> 's" where
  "CleanIfErr c err s = (case err of None \<Rightarrow> (c, s) | Some _ \<Rightarrow> clean c s)"

subsection \<open>Concurrent use\<close>

text \<open>Callbacks by their identity \<open>'f\<close>. A goroutine that calls \<open>clean\<close> is waiting for the
  lock, running the list it claimed, or done.\<close>

datatype 'f cleaner = Waiting | Running "'f list" | Finished

record 'f cleanState =
  pending :: "'f list"
  cleaners :: "'f cleaner list"
  ran :: "'f list"
  added :: "'f list"

inductive cleanStep :: "'f cleanState \<Rightarrow> 'f cleanState \<Rightarrow> bool" where
  AddStep: "cleanStep st (st\<lparr>pending := pending st @ [f], added := added st @ [f]\<rparr>)"
| ClaimStep: "i < length (cleaners st) \<Longrightarrow> cleaners st ! i = Waiting \<Longrightarrow>
    cleanStep st (st\<lparr>pending := [], cleaners := (cleaners st)[i := Running (rev (pending st))]\<rparr>)"
| RunStep: "i < length (cleaners st) \<Longrightarrow> cleaners st ! i = Running (f # fs) \<Longrightarrow>
    cleanStep st (st\<lparr>cleaners := (cleaners st)[i := Running fs], ran := ran st @ [f]\<rparr>)"
| FinishStep: "i < length (cleaners st) \<Longrightarrow> cleaners st ! i = Running [] \<Longrightarrow>
    cleanStep st (st\<lparr>cleaners := (cleaners st)[i := Finished]\<rparr>)"

definition cleanInit :: "nat \<Rightarrow> 'f cleanState" where
  "cleanInit n = \<lparr>pending = [], cleaners = replicate n Waiting, ran = [], added = []\<rparr>"

inductive cleanReachable :: "nat \<Rightarrow> 'f cleanState \<Rightarrow> bool" for n where
  Start: "cleanReachable n (cleanInit n)"
| Step: "cleanReachable n st \<Longrightarrow> cleanStep st st' \<Longrightarrow> cleanReachable n st'"

fun claimed :: "'f cleaner \<Rightarrow> 'f list" where
  "claimed (Running fs) = fs"
| "claimed _ = []"

subsection \<open>What a clean-up stack promises\<close>

locale teardown =
  fixes add :: "'c \<Rightarrow> 's callback \<Rightarrow> 'c"
    and clear :: "'c \<Rightarrow> 's \<Rightarrow> 'c \<times> 's"
    and todo :: "'c \<Rightarrow> 's callback list"
  assumes todo_add: "todo (add c f) = todo c @ [f]"
    and todo_clear: "todo (fst (clear c s)) = []"
    and clear_runs: "snd (clear c s) = runAll (rev (todo c)) s"
begin

lemma clear_twice: "snd (clear (fst (clear c s)) t) = t"
  by (simp add: clear_runs todo_clear)

lemma last_added_first:
  "snd (clear (add c f) s) = snd (clear c (snd (f s)))"
  by (simp add: clear_runs todo_add)

lemma todo_foldl: "todo (foldl add c fs) = todo c @ fs"
  by (induction fs arbitrary: c) (simp_all add: todo_add)

lemma clear_foldl: "todo c = [] \<Longrightarrow> snd (clear (foldl add c fs) s) = runAll (rev fs) s"
  by (simp add: clear_runs todo_foldl)

end

interpretation cleanup: teardown "\<lambda>c f. Add c (Some f)" DoClean Funcs
  by unfold_locales (simp_all add: Add_def DoClean_def clean_def)

lemma runAll_append [simp]: "runAll (fs @ gs) s = runAll gs (runAll fs s)"
  by (induction fs arbitrary: s) simp_all

subsection \<open>No callback is lost or run twice\<close>

definition accounted :: "'f cleanState \<Rightarrow> bool" where
  "accounted st \<longleftrightarrow> mset (added st) =
     mset (pending st) + sum_list (map (\<lambda>c. mset (claimed c)) (cleaners st)) + mset (ran st)"

lemma sum_list_update_mset:
  fixes f :: "'c \<Rightarrow> 'f multiset"
  assumes "i < length cs"
  shows "sum_list (map f (cs[i := c])) + f (cs ! i) = sum_list (map f cs) + f c"
  using assms
proof (induction cs arbitrary: i)
  case (Cons a cs)
  then show ?case by (cases i) (auto simp: ac_simps)
qed simp

lemma accounted_step: "cleanStep st st' \<Longrightarrow> accounted st \<Longrightarrow> accounted st'"
proof (induction rule: cleanStep.induct)
  case (ClaimStep i st)
  then show ?case
    using sum_list_update_mset [of i "cleaners st" "\<lambda>c. mset (claimed c)" "Running (rev (pending st))"]
    by (simp add: accounted_def)
next
  case (RunStep i st f fs)
  then show ?case
    using sum_list_update_mset [of i "cleaners st" "\<lambda>c. mset (claimed c)" "Running fs"]
    by (simp add: accounted_def)
next
  case (FinishStep i st)
  then show ?case
    using sum_list_update_mset [of i "cleaners st" "\<lambda>c. mset (claimed c)" Finished]
    by (simp add: accounted_def)
qed (simp add: accounted_def)

lemma accounted_reachable: "cleanReachable n st \<Longrightarrow> accounted st"
proof (induction rule: cleanReachable.induct)
  case Start
  have "sum_list (map (\<lambda>c. mset (claimed c)) (replicate n Waiting)) = {#}"
    by (induction n) simp_all
  then show ?case by (simp add: accounted_def cleanInit_def)
qed (rule accounted_step)

lemma ran_submset: "cleanReachable n st \<Longrightarrow> mset (ran st) \<subseteq># mset (added st)"
  using accounted_reachable [of n st] by (simp add: accounted_def)

lemma submset_distinct: "mset xs \<subseteq># mset ys \<Longrightarrow> distinct ys \<Longrightarrow> distinct xs"
  by (metis distinct_append mset_append mset_subset_eq_exists_conv ex_mset mset_eq_imp_distinct_iff)

subsection \<open>Properties\<close>

text \<open>Clean-up in order and once: callbacks added one after the other to a new stack run in
  the reverse order, each exactly once and whether or not an earlier one fails; a second
  clean-up does nothing; on the way out of a function the clean-up runs exactly when the
  function fails.\<close>

theorem cleanup_lifo_once:
  fixes fs :: "'s callback list"
  defines "c \<equiv> foldl (\<lambda>c f. Add c (Some f)) NewCleanUp fs"
  shows "snd (DoClean c s) = runAll (rev fs) s \<and> Funcs (fst (DoClean c s)) = [] \<and>
    snd (DoClean (fst (DoClean c s)) t) = t \<and>
    snd (CleanIfErr c err s) = (if err = None then s else runAll (rev fs) s)"
  using cleanup.todo_foldl [of NewCleanUp fs] cleanup.clear_twice [of c s t]
  by (simp add: c_def DoClean_def clean_def NewCleanUp_def CleanIfErr_def split: option.splits)

text \<open>C33. Clean-up under concurrency: in every interleaving of any number of goroutines that
  call \<open>DoClean\<close> while callbacks are still being added, no callback runs twice, and when
  every goroutine has finished and none is waiting, each callback added has run exactly once
  or is still registered for the next clean-up.\<close>

theorem cleanup_concurrent:
  assumes "cleanReachable n st" and "distinct (added st)"
  shows "distinct (ran st) \<and> set (ran st) \<subseteq> set (added st) \<and>
    (list_all (\<lambda>c. c = Finished) (cleaners st) \<longrightarrow> mset (ran st @ pending st) = mset (added st))"
proof -
  have sub: "mset (ran st) \<subseteq># mset (added st)" using assms(1) by (rule ran_submset)
  have "sum_list (map (\<lambda>c. mset (claimed c)) cs) = {#}"
    if "list_all (\<lambda>c. c = Finished) cs" for cs :: "'a cleaner list"
    using that by (induction cs) auto
  then have "mset (ran st @ pending st) = mset (added st)"
    if "list_all (\<lambda>c. c = Finished) (cleaners st)"
    using that accounted_reachable [OF assms(1)] by (simp add: accounted_def union_commute)
  moreover have "set (ran st) \<subseteq> set (added st)"
    using sub by (metis set_mset_mono set_mset_mset)
  ultimately show ?thesis using submset_distinct [OF sub assms(2)] by blast
qed

theorem cleanup_concurrent_witness:
  "\<exists>st. cleanReachable 1 (st :: nat cleanState) \<and> added st = [7] \<and> distinct (ran st) \<and> ran st = [7]"
proof -
  let ?s0 = "cleanInit 1 :: nat cleanState"
  let ?s1 = "?s0\<lparr>pending := pending ?s0 @ [7], added := added ?s0 @ [7]\<rparr>"
  let ?s2 = "?s1\<lparr>pending := [], cleaners := (cleaners ?s1)[0 := Running (rev (pending ?s1))]\<rparr>"
  let ?s3 = "?s2\<lparr>cleaners := (cleaners ?s2)[0 := Running []], ran := ran ?s2 @ [7]\<rparr>"
  have "cleanReachable 1 ?s1" by (rule cleanReachable.Step [OF cleanReachable.Start AddStep])
  then have "cleanReachable 1 ?s2"
    by (rule cleanReachable.Step) (rule ClaimStep, simp_all add: cleanInit_def)
  then have r: "cleanReachable 1 ?s3"
    by (rule cleanReachable.Step) (rule RunStep, simp_all add: cleanInit_def)
  have "distinct (added ?s3)" by (simp add: cleanInit_def)
  from cleanup_concurrent [OF r this] r show ?thesis
    by (intro exI [of _ ?s3]) (simp add: cleanInit_def)
qed

end
