(* ===== verification/Unix_Forward.thy ===== *)
theory Unix_Forward
  imports Define "HOL-Library.Char_ord" "HOL-Library.List_Lexorder"
begin

text \<open>
  Forwarding of guest unix sockets to host unix sockets over vsock.

  \<^item> \<open>pkg/librevm/unix_forward.go\<close>: the command line rules \<open>guest:host\<close> become a map;
  \<^item> \<open>pkg/librevm/vm.go\<close>, \<open>mergeAutoForwardUnixRule\<close>: the built-in SSH agent rule is
    added unless the user forwards that guest path already;
  \<^item> \<open>pkg/define/unix_forward.go\<close>: host and guest both number the map's entries, and
    must come to the same vsock port for each guest path. \<open>sort.Strings\<close> is the
    byte-wise order of \<open>List_Lexorder\<close> over \<open>Char_ord\<close>.

  A Go map is an association list with distinct keys; its order is the (unspecified)
  iteration order, which the routes must not depend on.
\<close>

subsection \<open>Routes (pkg/define/unix_forward.go)\<close>

definition UnixForwardVSockBasePort :: u32 where
  "UnixForwardVSockBasePort = 25900"

record UnixSocketForwardRoute =
  GuestPath :: string
  HostPath :: string
  VSockPort :: u32

definition unixForwardVSockPortByIndex :: "int \<Rightarrow> u32 res" where
  "unixForwardVSockPortByIndex index =
     (if index < 0 then Inl (Errorf ''invalid unix forward index'')
      else if (ucast UnixForwardVSockBasePort :: u64) + of_int index > 2 ^ 32 - 1
      then Inl (Errorf ''unix forward index overflows uint32 vsock port'')
      else Inr (UnixForwardVSockBasePort + of_int index))"

text \<open>The loop over the sorted keys, with the index and the set of used ports.\<close>

fun routesLoop :: "(string \<times> string) list \<Rightarrow> int \<Rightarrow> u32 list \<Rightarrow> string list \<Rightarrow>
    UnixSocketForwardRoute list res" where
  "routesLoop forwards i used [] = Inr []"
| "routesLoop forwards i used (guestPath # ks) =
     (case unixForwardVSockPortByIndex i of
        Inl e \<Rightarrow> Inl e
      | Inr port \<Rightarrow>
          if port \<in> set used then Inl (Errorf ''duplicate vsock port'')
          else
            (case routesLoop forwards (i + 1) (port # used) ks of
               Inl e \<Rightarrow> Inl e
             | Inr rs \<Rightarrow>
                 Inr (\<lparr>GuestPath = guestPath,
                       HostPath = (case map_of forwards guestPath of Some h \<Rightarrow> h | None \<Rightarrow> []),
                       VSockPort = port\<rparr> # rs)))"

definition BuildUnixSocketForwardRoutes ::
    "(string \<times> string) list \<Rightarrow> UnixSocketForwardRoute list res" where
  "BuildUnixSocketForwardRoutes forwards =
     (if forwards = [] then Inr []
      else routesLoop forwards 0 [] (sort (keys forwards)))"

subsection \<open>Rules (pkg/librevm/unix_forward.go)\<close>

text \<open>One turn of the loop over the specs; the state is the map built so far.\<close>

definition parseForwardUnixRule ::
    "(string \<times> string) list \<Rightarrow> string \<Rightarrow> (string \<times> string) list res" where
  "parseForwardUnixRule rules raw =
     (let spec = TrimSpace raw
      in if spec = [] then Inr rules
         else case Cut spec (CHR '':'') of (g, h, found) \<Rightarrow>
           if \<not> found then Inl (Errorf ''invalid forward rule, expected guest-path:host-path'')
           else
             let guestPath = TrimSpace g;
                 hostPath = TrimPrefix (TrimSpace h) ''unix://''
             in if guestPath = [] \<or> hostPath = []
                then Inl (Errorf ''invalid forward rule, guest-path and host-path must not be empty'')
                else if \<not> IsAbs guestPath
                then Inl (Errorf ''invalid guest unix socket path: must be absolute'')
                else if \<not> IsAbs hostPath
                then Inl (Errorf ''invalid host unix socket path: must be absolute'')
                else if map_of rules guestPath \<noteq> None
                then Inl (Errorf ''duplicate guest unix socket path'')
                else Inr ((guestPath, hostPath) # rules))"

fun parseForwardLoop ::
    "(string \<times> string) list \<Rightarrow> string list \<Rightarrow> (string \<times> string) list res" where
  "parseForwardLoop rules [] = Inr rules"
| "parseForwardLoop rules (raw # specs) =
     (case parseForwardUnixRule rules raw of
        Inl e \<Rightarrow> Inl e
      | Inr rules' \<Rightarrow> parseForwardLoop rules' specs)"

definition parseForwardUnixRules :: "string list \<Rightarrow> (string \<times> string) list res" where
  "parseForwardUnixRules specs =
     (if specs = [] then Inr [] else parseForwardLoop [] specs)"

subsection \<open>The built-in rule (pkg/librevm/vm.go)\<close>

text \<open>Result: the specs to use, whether to start the built-in service, and the host path
  the user configured (empty if none).\<close>

definition mergeAutoForwardUnixRule ::
    "string list \<Rightarrow> string \<Rightarrow> string \<Rightarrow> (string list \<times> bool \<times> string) res" where
  "mergeAutoForwardUnixRule specs guestPath hostPath =
     (case parseForwardUnixRules specs of
        Inl e \<Rightarrow> Inl e
      | Inr forwardRules \<Rightarrow>
          (case map_of forwardRules guestPath of
             Some existingHostPath \<Rightarrow>
               if existingHostPath = hostPath then Inr (specs, True, existingHostPath)
               else Inr (specs, False, existingHostPath)
           | None \<Rightarrow> Inr (specs @ [guestPath @ '':'' @ hostPath], True, [])))"

subsection \<open>The port numbering\<close>

definition maxRoutes :: nat where
  "maxRoutes = 2 ^ 32 - 25900"

lemma port_by_index:
  assumes "i < maxRoutes"
  shows "unixForwardVSockPortByIndex (int i) = Inr (of_nat (25900 + i))"
proof -
  have "unat ((25900 :: u64) + of_nat i) = 25900 + i"
    using assms by (simp add: maxRoutes_def unat_word_ariths unat_of_nat)
  moreover have "unat (2 ^ 32 - 1 :: u64) = 2 ^ 32 - 1"
    by simp
  ultimately have "\<not> (25900 :: u64) + of_nat i > 2 ^ 32 - 1"
    using assms by (simp add: word_less_nat_alt maxRoutes_def)
  then show ?thesis
    by (simp add: unixForwardVSockPortByIndex_def UnixForwardVSockBasePort_def)
qed

lemma port_by_index_overflow:
  assumes "maxRoutes \<le> i" and "i < 2 ^ 63"
  shows "unixForwardVSockPortByIndex (int i) =
    Inl (Errorf ''unix forward index overflows uint32 vsock port'')"
proof -
  have "unat ((25900 :: u64) + of_nat i) = 25900 + i"
    using assms by (simp add: maxRoutes_def unat_word_ariths unat_of_nat)
  then have "(25900 :: u64) + of_nat i > 2 ^ 32 - 1"
    using assms by (simp add: word_less_nat_alt maxRoutes_def)
  then show ?thesis
    by (simp add: unixForwardVSockPortByIndex_def UnixForwardVSockBasePort_def)
qed

lemma route_port_inj:
  "i < maxRoutes \<Longrightarrow> j < maxRoutes \<Longrightarrow>
   (of_nat (25900 + i) :: u32) = of_nat (25900 + j) \<longleftrightarrow> i = j"
  by (auto simp: maxRoutes_def word_of_nat_eq_iff take_bit_nat_def simp del: of_nat_add)

lemma route_port_fresh:
  assumes "i < maxRoutes"
  shows "(of_nat (25900 + i) :: u32) \<notin> (\<lambda>j. of_nat (25900 + j)) ` {..<i}"
proof
  assume "(of_nat (25900 + i) :: u32) \<in> (\<lambda>j. of_nat (25900 + j)) ` {..<i}"
  then obtain j where "j < i" and "(of_nat (25900 + i) :: u32) = of_nat (25900 + j)"
    by blast
  then show False using route_port_inj [of i j] assms by simp
qed

definition routeAt :: "(string \<times> string) list \<Rightarrow> nat \<Rightarrow> string \<Rightarrow> UnixSocketForwardRoute" where
  "routeAt forwards i k = \<lparr>GuestPath = k,
     HostPath = (case map_of forwards k of Some h \<Rightarrow> h | None \<Rightarrow> []),
     VSockPort = of_nat (25900 + i)\<rparr>"

lemma routesLoop_eq:
  assumes "i + length ks \<le> maxRoutes"
    and "set used = (\<lambda>j. of_nat (25900 + j)) ` {..<i}"
  shows "routesLoop forwards (int i) used ks =
    Inr (map (\<lambda>(j, k). routeAt forwards j k) (zip [i..<i + length ks] ks))"
  using assms
proof (induction ks arbitrary: i used)
  case (Cons k ks)
  then have i: "i < maxRoutes" by simp
  have "(of_nat (25900 + i) :: u32) \<notin> set used"
    using Cons.prems(2) route_port_fresh [OF i] by simp
  moreover have "set (of_nat (25900 + i) # used) = (\<lambda>j. of_nat (25900 + j) :: u32) ` {..<Suc i}"
    using Cons.prems(2) by (auto simp: lessThan_Suc)
  then have "routesLoop forwards (int (Suc i)) (of_nat (25900 + i) # used) ks =
      Inr (map (\<lambda>(j, k). routeAt forwards j k) (zip [Suc i..<Suc i + length ks] ks))"
    using Cons.prems(1) by (intro Cons.IH) auto
  moreover have "zip [i..<i + length (k # ks)] (k # ks) =
      (i, k) # zip [Suc i..<Suc i + length ks] ks"
    by (simp add: upt_rec)
  ultimately show ?case
    using port_by_index [OF i] by (simp add: routeAt_def add.commute)
qed simp

lemma BuildRoutes_eq:
  assumes "length forwards \<le> maxRoutes"
  shows "BuildUnixSocketForwardRoutes forwards =
    Inr (map (\<lambda>(j, k). routeAt forwards j k)
          (zip [0..<length forwards] (sort (keys forwards))))"
  using routesLoop_eq [of 0 "sort (keys forwards)" "[]" forwards] assms
  by (simp add: BuildUnixSocketForwardRoutes_def keys_def)

lemma routesLoop_overflow:
  assumes "i \<le> maxRoutes" and "maxRoutes < i + length ks"
    and "set used = (\<lambda>j. of_nat (25900 + j)) ` {..<i}"
  shows "\<exists>e. routesLoop forwards (int i) used ks = Inl e"
  using assms
proof (induction ks arbitrary: i used)
  case (Cons k ks)
  show ?case
  proof (cases "i = maxRoutes")
    case True
    then show ?thesis
      using port_by_index_overflow [of i] by (simp add: maxRoutes_def)
  next
    case False
    with Cons.prems have i: "i < maxRoutes" by simp
    have "(of_nat (25900 + i) :: u32) \<notin> set used"
      using Cons.prems(3) route_port_fresh [OF i] by simp
    moreover have "set (of_nat (25900 + i) # used) = (\<lambda>j. of_nat (25900 + j) :: u32) ` {..<Suc i}"
      using Cons.prems(3) by (auto simp: lessThan_Suc)
    then have "\<exists>e. routesLoop forwards (int (Suc i)) (of_nat (25900 + i) # used) ks = Inl e"
      using Cons.prems i by (intro Cons.IH) auto
    ultimately show ?thesis
      using port_by_index [OF i] by (auto simp: add.commute)
  qed
qed simp

lemma keys_perm_sort:
  assumes "distinct (keys m)" and "distinct (keys m')" and "map_of m = map_of m'"
  shows "sort (keys m) = sort (keys m')"
proof -
  have "set (keys m) = set (keys m')"
    using assms(3) by (metis keys_def dom_map_of_conv_image_fst list.set_map)
  then show ?thesis
    using assms by (intro sorted_distinct_set_unique) auto
qed

lemma routes_set:
  assumes "BuildUnixSocketForwardRoutes m = Inr rs" and "length m \<le> maxRoutes"
  shows "map GuestPath rs = sort (keys m)"
    and "map VSockPort rs = map (\<lambda>i. of_nat (25900 + i)) [0..<length m]"
    and "map HostPath rs =
      map (\<lambda>k. case map_of m k of Some h \<Rightarrow> h | None \<Rightarrow> []) (sort (keys m))"
proof -
  have rs: "rs = map (\<lambda>(j, k). routeAt m j k) (zip [0..<length m] (sort (keys m)))"
    using assms BuildRoutes_eq by simp
  have len: "length (keys m) = length m" by (simp add: keys_def)
  show "map GuestPath rs = sort (keys m)"
    unfolding rs by (rule nth_equalityI) (simp_all add: len routeAt_def)
  show "map VSockPort rs = map (\<lambda>i. of_nat (25900 + i)) [0..<length m]"
    unfolding rs by (rule nth_equalityI) (simp_all add: len routeAt_def)
  show "map HostPath rs =
      map (\<lambda>k. case map_of m k of Some h \<Rightarrow> h | None \<Rightarrow> []) (sort (keys m))"
    unfolding rs by (rule nth_equalityI) (simp_all add: len routeAt_def)
qed

subsection \<open>What an accepted rule set looks like\<close>

definition goodRules :: "(string \<times> string) list \<Rightarrow> bool" where
  "goodRules rules \<longleftrightarrow> distinct (keys rules) \<and>
     (\<forall>(g, h) \<in> set rules. IsAbs g \<and> IsAbs h \<and> CHR '':'' \<notin> set g)"

lemma parseForwardUnixRule_good:
  assumes "goodRules rules" and "parseForwardUnixRule rules raw = Inr rules'"
  shows "goodRules rules'"
proof (cases "TrimSpace raw = []")
  case True
  with assms show ?thesis by (simp add: parseForwardUnixRule_def)
next
  case False
  obtain g h found where cut: "Cut (TrimSpace raw) (CHR '':'') = (g, h, found)"
    by (cases "Cut (TrimSpace raw) (CHR '':'')")
  from assms(2) False cut have found
    and r: "rules' = (TrimSpace g, TrimPrefix (TrimSpace h) ''unix://'') # rules"
    and abs: "IsAbs (TrimSpace g)" "IsAbs (TrimPrefix (TrimSpace h) ''unix://'')"
    and new: "map_of rules (TrimSpace g) = None"
    by (auto simp: parseForwardUnixRule_def Let_def split: if_splits)
  have "CHR '':'' \<notin> set g"
    using cut \<open>found\<close> by (simp add: Cut_found)
  then have "CHR '':'' \<notin> set (TrimSpace g)"
    using TrimSpace_subset by blast
  with assms(1) r abs new show ?thesis
    by (auto simp: goodRules_def map_of_None_keys)
qed

lemma parseForwardLoop_good:
  "goodRules rules \<Longrightarrow> parseForwardLoop rules specs = Inr rules' \<Longrightarrow> goodRules rules'"
  by (induction specs arbitrary: rules)
    (auto split: sum.splits dest: parseForwardUnixRule_good)

lemma parseForwardUnixRules_good:
  assumes "parseForwardUnixRules specs = Inr rules"
  shows "goodRules rules"
proof -
  have Nil: "goodRules []" by (simp add: goodRules_def)
  show ?thesis
    using assms Nil parseForwardLoop_good [OF Nil, of specs rules]
    by (auto simp: parseForwardUnixRules_def split: if_splits)
qed

lemma parseForwardLoop_append:
  "parseForwardLoop rules (xs @ ys) =
     (case parseForwardLoop rules xs of Inl e \<Rightarrow> Inl e | Inr r \<Rightarrow> parseForwardLoop r ys)"
  by (induction xs arbitrary: rules) (auto split: sum.splits)

text \<open>A spec \<open>guest:host\<close> of two plain absolute paths parses to that pair.\<close>

definition plainPath :: "string \<Rightarrow> bool" where
  "plainPath p \<longleftrightarrow> IsAbs p \<and> \<not> isSpace (last p)"

lemma plainPath_trim: "plainPath p \<Longrightarrow> TrimSpace p = p"
  by (rule TrimSpace_id) (cases p; auto simp: plainPath_def isSpace_def)+

lemma parse_plain_spec:
  assumes "plainPath g" and "plainPath h" and "CHR '':'' \<notin> set g"
    and "map_of rules g = None"
  shows "parseForwardUnixRule rules (g @ '':'' @ h) = Inr ((g, h) # rules)"
proof -
  have g: "g \<noteq> []" and h: "h \<noteq> []" using assms(1,2) by (auto simp: plainPath_def)
  have "hd g = sep" and "hd h = sep"
    using assms(1,2) g h by (cases g; cases h; auto simp: plainPath_def)+
  have "TrimSpace (g @ '':'' @ h) = g @ '':'' @ h"
    using assms(2) g h \<open>hd g = sep\<close>
    by (intro TrimSpace_id) (auto simp: plainPath_def isSpace_def)
  moreover have "Cut (g @ '':'' @ h) (CHR '':'') = (g, h, True)"
    using assms(3) by simp
  moreover have "\<not> HasPrefix h ''unix://''"
    using \<open>hd h = sep\<close> h by (cases h) auto
  ultimately show ?thesis
    using assms g h
    by (simp add: parseForwardUnixRule_def plainPath_trim TrimPrefix_def plainPath_def)
qed

text \<open>Rule sets only grow: a later spec never changes an earlier entry.\<close>

lemma parseForwardUnixRule_extends:
  "parseForwardUnixRule rules raw = Inr rules' \<Longrightarrow> map_of rules \<subseteq>\<^sub>m map_of rules'"
  by (auto simp: parseForwardUnixRule_def Let_def map_le_def split: if_splits prod.splits)

subsection \<open>Properties\<close>

lemma built_routes:
  assumes "distinct (keys forwards)" and "length forwards \<le> maxRoutes"
  shows "\<exists>rs. BuildUnixSocketForwardRoutes forwards = Inr rs \<and>
    map GuestPath rs = sort (keys forwards) \<and>
    (\<forall>r \<in> set rs. map_of forwards (GuestPath r) = Some (HostPath r)) \<and>
    (\<forall>i < length rs. unat (VSockPort (rs ! i)) = 25900 + i) \<and>
    distinct (map VSockPort rs) \<and>
    (\<forall>r \<in> set rs. unat (VSockPort r) \<noteq> DefaultVSockPort)"
proof -
  obtain rs where rs: "BuildUnixSocketForwardRoutes forwards = Inr rs"
    using BuildRoutes_eq [OF assms(2)] by simp
  note fields = routes_set [OF rs assms(2)]
  have len: "length rs = length forwards"
    using arg_cong [OF fields(1), of length] by (simp add: keys_def)
  have port: "unat (VSockPort (rs ! i)) = 25900 + i" if "i < length rs" for i
  proof -
    have "map VSockPort rs ! i = map (\<lambda>i. of_nat (25900 + i)) [0..<length forwards] ! i"
      by (simp only: fields(2))
    then have "VSockPort (rs ! i) = of_nat (25900 + i)"
      using that len by (simp del: of_nat_add)
    then show ?thesis
      using that len assms(2) by (simp add: maxRoutes_def unat_of_nat del: of_nat_add)
  qed
  have host: "map_of forwards (GuestPath (rs ! i)) = Some (HostPath (rs ! i))"
    if "i < length rs" for i
  proof -
    have "GuestPath (rs ! i) = sort (keys forwards) ! i"
      using that by (simp flip: fields(1))
    moreover have "map HostPath rs ! i =
        map (\<lambda>k. case map_of forwards k of Some h \<Rightarrow> h | None \<Rightarrow> []) (sort (keys forwards)) ! i"
      by (simp only: fields(3))
    then have "HostPath (rs ! i) =
        (case map_of forwards (sort (keys forwards) ! i) of Some h \<Rightarrow> h | None \<Rightarrow> [])"
      using that len by (simp add: keys_def)
    moreover have "sort (keys forwards) ! i \<in> set (keys forwards)"
      using that len nth_mem [of i "sort (keys forwards)"] by (simp add: keys_def)
    ultimately show ?thesis
      using map_of_None_keys [of forwards "sort (keys forwards) ! i"]
      by (cases "map_of forwards (sort (keys forwards) ! i)") auto
  qed
  have "distinct (map VSockPort rs)"
  proof -
    have "VSockPort (rs ! i) \<noteq> VSockPort (rs ! j)"
      if "i < length rs" and "j < length rs" and "i \<noteq> j" for i j
      using port [OF that(1)] port [OF that(2)] that(3) by auto
    then show ?thesis by (simp add: distinct_conv_nth)
  qed
  then show ?thesis
    using rs fields(1) port host
    by (auto simp: in_set_conv_nth DefaultVSockPort_def)
qed

text \<open>C23. Routing table of the socket forwards: for a map of at most \<open>maxRoutes\<close> rules the
  builder succeeds, lists every guest path exactly once in byte order with its host path,
  gives pairwise different vsock ports starting at the base port, and never the ignition
  port.\<close>

theorem routes_correct:
  assumes "distinct (keys forwards)" and "length forwards \<le> maxRoutes"
  shows "\<exists>rs. BuildUnixSocketForwardRoutes forwards = Inr rs \<and>
    map GuestPath rs = sort (keys forwards) \<and>
    (\<forall>r \<in> set rs. map_of forwards (GuestPath r) = Some (HostPath r)) \<and>
    (\<forall>i < length rs. unat (VSockPort (rs ! i)) = 25900 + i) \<and>
    distinct (map VSockPort rs) \<and>
    (\<forall>r \<in> set rs. unat (VSockPort r) \<noteq> DefaultVSockPort)"
  using assms by (rule built_routes)

theorem routes_correct_witness:
  "\<exists>rs. BuildUnixSocketForwardRoutes
       [(''/tmp/b.sock'', ''/tmp/host-b.sock''), (''/tmp/a.sock'', ''/tmp/host-a.sock'')] = Inr rs \<and>
     map GuestPath rs = [''/tmp/a.sock'', ''/tmp/b.sock'']"
proof -
  let ?m = "[(''/tmp/b.sock'', ''/tmp/host-b.sock''), (''/tmp/a.sock'', ''/tmp/host-a.sock'')]"
  have "distinct (keys ?m)" and "length ?m \<le> maxRoutes"
    by (simp_all add: keys_def maxRoutes_def)
  from routes_correct [OF this] show ?thesis by (auto simp: keys_def)
qed

lemma routes_by_map:
  assumes "distinct (keys m)" and "distinct (keys m')" and "map_of m = map_of m'"
  shows "BuildUnixSocketForwardRoutes m = BuildUnixSocketForwardRoutes m'"
proof -
  have "routesLoop m i used ks = routesLoop m' i used ks" for i used ks
    using assms(3) by (induction m i used ks rule: routesLoop.induct)
      (auto split: sum.splits)
  moreover have "m = [] \<longleftrightarrow> m' = []"
    using assms(3) by (metis map_of.simps(1) map_of_eq_empty_iff)
  ultimately show ?thesis
    using keys_perm_sort [OF assms] by (simp add: BuildUnixSocketForwardRoutes_def)
qed

text \<open>Host and guest agree on the ports: the routes depend on the rules as a map only,
  so two processes that hold the same map in different iteration orders compute the same
  route list (and fail on the same maps).\<close>

theorem routes_order_independent:
  assumes "distinct (keys m)" and "distinct (keys m')" and "map_of m = map_of m'"
  shows "BuildUnixSocketForwardRoutes m = BuildUnixSocketForwardRoutes m'"
  using assms by (rule routes_by_map)

theorem routes_order_independent_witness:
  "BuildUnixSocketForwardRoutes [(''/a'', ''/x''), (''/b'', ''/y'')] =
   BuildUnixSocketForwardRoutes [(''/b'', ''/y''), (''/a'', ''/x'')]"
  by (rule routes_order_independent) (auto simp: keys_def)

text \<open>C38. Overflow is reported: with more rules than the 32-bit port space above the base
  port holds, the builder returns an error instead of wrapping round to small ports.\<close>

theorem routes_overflow_reported:
  assumes "maxRoutes < length forwards"
  shows "\<exists>e. BuildUnixSocketForwardRoutes forwards = Inl e"
  using routesLoop_overflow [of 0 "sort (keys forwards)" "[]" forwards] assms
  by (auto simp: BuildUnixSocketForwardRoutes_def keys_def)

theorem routes_overflow_reported_witness:
  "\<exists>e. BuildUnixSocketForwardRoutes (replicate (2 ^ 32) (''/a'', ''/b'')) = Inl e"
  by (rule routes_overflow_reported) (simp add: maxRoutes_def)

text \<open>Accepted forwarding rules are well formed: guest paths are pairwise different,
  every guest and host path is absolute, and no guest path contains a colon.\<close>

theorem parsed_rules_well_formed:
  assumes "parseForwardUnixRules specs = Inr rules"
  shows "distinct (map fst rules) \<and>
    (\<forall>(g, h) \<in> set rules. IsAbs g \<and> IsAbs h \<and> CHR '':'' \<notin> set g)"
  using parseForwardUnixRules_good [OF assms] by (simp add: goodRules_def keys_def)

theorem parsed_rules_well_formed_witness:
  "\<exists>rules. parseForwardUnixRules ['' /g.sock : unix:///h.sock ''] = Inr rules \<and>
     distinct (map fst rules) \<and> (\<forall>(g, h) \<in> set rules. IsAbs g \<and> IsAbs h)"
proof -
  have "parseForwardUnixRules ['' /g.sock : unix:///h.sock ''] = Inr [(''/g.sock'', ''/h.sock'')]"
    by code_simp
  with parsed_rules_well_formed [OF this] show ?thesis by auto
qed

text \<open>Merging the built-in SSH agent rule: the merged specs parse again, a guest path
  the user forwards already keeps the user's host path, otherwise it is forwarded to the
  built-in socket, every other rule is unchanged, and the built-in service is started
  exactly when the guest path ends up at the built-in socket.\<close>

theorem merge_auto_rule:
  assumes "mergeAutoForwardUnixRule specs g h = Inr (specs', start, existing)"
    and "plainPath g" and "plainPath h" and "CHR '':'' \<notin> set g"
  shows "\<exists>rules rules'. parseForwardUnixRules specs = Inr rules \<and>
    parseForwardUnixRules specs' = Inr rules' \<and>
    map_of rules' g = Some (case map_of rules g of Some u \<Rightarrow> u | None \<Rightarrow> h) \<and>
    (\<forall>k. k \<noteq> g \<longrightarrow> map_of rules' k = map_of rules k) \<and>
    (start \<longleftrightarrow> map_of rules' g = Some h)"
proof -
  obtain rules where p: "parseForwardUnixRules specs = Inr rules"
    using assms(1) by (auto simp: mergeAutoForwardUnixRule_def split: sum.splits)
  show ?thesis
  proof (cases "map_of rules g")
    case None
    with assms(1) p have s: "specs' = specs @ [g @ '':'' @ h]" "start"
      by (auto simp: mergeAutoForwardUnixRule_def)
    have "parseForwardLoop [] specs = Inr rules"
      using p by (auto simp: parseForwardUnixRules_def split: if_splits)
    then have "parseForwardUnixRules specs' = Inr ((g, h) # rules)"
      using parse_plain_spec [OF assms(2,3,4) None] s(1)
      by (simp add: parseForwardUnixRules_def parseForwardLoop_append)
    with p None s(2) show ?thesis by auto
  next
    case (Some u)
    with assms(1) p have "specs' = specs" and "start \<longleftrightarrow> u = h"
      by (auto simp: mergeAutoForwardUnixRule_def split: if_splits)
    with p Some show ?thesis by auto
  qed
qed

theorem merge_auto_rule_witness:
  "\<exists>rules'. parseForwardUnixRules
       [''/a.sock:/b.sock'', ''/opt/ssh_auth/oo-ssh-agent.sock:/s/oo.sock''] = Inr rules' \<and>
     map_of rules' ''/opt/ssh_auth/oo-ssh-agent.sock'' = Some ''/s/oo.sock''"
proof -
  have m: "mergeAutoForwardUnixRule [''/a.sock:/b.sock''] ''/opt/ssh_auth/oo-ssh-agent.sock''
      ''/s/oo.sock'' =
    Inr ([''/a.sock:/b.sock'', ''/opt/ssh_auth/oo-ssh-agent.sock:/s/oo.sock''], True, [])"
    by code_simp
  have "parseForwardUnixRules [''/a.sock:/b.sock''] = Inr [(''/a.sock'', ''/b.sock'')]"
    by code_simp
  then show ?thesis
    using merge_auto_rule [OF m] by (auto simp: plainPath_def isSpace_def)
qed

end
