(* ===== verification/Machine.thy ===== *)
theory Machine
  imports Storage Network Cleanup Unix_Forward
begin

text \<open>
  \<open>pkg/librevm/machine.go\<close> and \<open>pkg/librevm/network.go\<close>: assembling the machine
  description from a configuration. Each method of \<open>machineBuilder\<close> is a step on the
  builder's state; \<open>buildMachine\<close> runs them in order and undoes the workspace when one
  fails. The symbolic links of \<open>vm.go\<close> (\<open>createUserSymlinks\<close>) are here too.

  What the host environment answers is the parameter \<open>host_env\<close>: key generation
  (charmbracelet/keygen), the system proxy (getSysProxy), archive extraction, the path of the
  executable, the logger's level, whether the standard streams are terminals, and how waiting
  for the workspace lock (gofrs/flock) ends.
\<close>

subsection \<open>The environment\<close>

datatype lockOutcome = Locked | LockFailed goerr | LockCancelled

text \<open>The system proxy: its host, which the code may replace, and its rendering (\<open>String\<close>) for a host.\<close>

record sysProxy =
  sy_Host :: string
  sy_render :: "string \<Rightarrow> string"

record host_env =
  he_disk :: disk_lib
  he_keygen :: "(string \<times> string) res"
  he_sysproxy :: "sysProxy option res"
  he_extractRootfs :: "string \<Rightarrow> (OS, unit) proc"
  he_executable :: "string res"
  he_logLevel :: string
  he_isTerminal :: "bool \<times> bool \<times> bool"
  he_lock :: "string \<Rightarrow> lockOutcome"
  he_linux :: bool

definition setSpec :: "(MachineSpec \<Rightarrow> MachineSpec) \<Rightarrow> (builder, unit) proc" where
  "setSpec f = modifyState (\<lambda>b. b\<lparr>b_spec := f (b_spec b)\<rparr>)"

text \<open>\<open>v.pathMgr\<close> is set once the workspace is set up; before, using it panics.\<close>

definition pathMgr :: "builder \<Rightarrow> machinePathManager" where
  "pathMgr b = the (b_pathMgr b)"

subsection \<open>Workspace and lock\<close>

definition lockFile :: "string \<Rightarrow> string" where
  "lockFile ws = ws @ ''.lock''"

definition lockWorkspace :: "host_env \<Rightarrow> (builder, unit) proc" where
  "lockWorkspace env b =
     (let f = lockFile (WorkspaceDir (b_spec b))
      in case he_lock env f of
           LockCancelled \<Rightarrow> (Inl ErrCanceled, b)
         | LockFailed e \<Rightarrow> (Inl e, b)
         | Locked \<Rightarrow>
             (Inr (), b\<lparr>b_fileLock := Some f,
                b_os := (case nodeAt (b_os b) f of
                           None \<Rightarrow> setNode f (File [] []) (b_os b) | Some _ \<Rightarrow> b_os b)
                        \<lparr>os_locks := f # os_locks (b_os b)\<rparr>\<rparr>))"

definition setupWorkspace :: "host_env \<Rightarrow> string \<Rightarrow> (builder, unit) proc" where
  "setupWorkspace env workspacePath0 b =
     (if workspacePath0 = [] then (Inl (Errorf ''workspace path is empty''), b)
      else
        let workspacePath = Abs (os_cwd (b_os b)) (Clean workspacePath0)
        in andThen (onOS os_UserHomeDir) (\<lambda>homeDir.
             if \<not> HasPrefix workspacePath ''/tmp'' \<and> \<not> HasPrefix workspacePath homeDir
             then failWith (Errorf ''workspace must be under /tmp or home directory'')
             else
               andThen (setSpec (\<lambda>sp. sp\<lparr>WorkspaceDir := workspacePath\<rparr>)) (\<lambda>_.
               andThen (onOS (os_MkdirAll workspacePath)) (\<lambda>_.
               andThen (modifyState (\<lambda>b. b\<lparr>b_pathMgr := Some (newMachinePathManager workspacePath)\<rparr>)) (\<lambda>_.
               lockWorkspace env)))) b)"

subsection \<open>Resources, root file system, mounts\<close>

definition withResources :: "u64 \<Rightarrow> u8 \<Rightarrow> (builder, unit) proc" where
  "withResources memoryInMB cpus =
     (if cpus = 0 then failWith (Errorf ''1 cpu cores is the minimum value'')
      else if memoryInMB < 512 then failWith (Errorf ''512MB of memory is the minimum value'')
      else setSpec (\<lambda>sp. sp\<lparr>MemoryInMB := memoryInMB, Cpus := cpus\<rparr>))"

definition withUserProvidedRootfs :: "string \<Rightarrow> (builder, unit) proc" where
  "withUserProvidedRootfs rootfsPath0 b =
     (if rootfsPath0 = [] then (Inl (Errorf ''rootfs path is empty''), b)
      else
        let rootfsPath = Abs (os_cwd (b_os b)) (Clean rootfsPath0)
        in andThen (wrapping ''rootfs path does not contain shell interpreter /bin/sh''
                     (onOS (os_Lstat (Join [rootfsPath, ''bin'', ''sh'']))))
             (\<lambda>_. setSpec (\<lambda>sp. sp\<lparr>RootFS := rootfsPath\<rparr>)) b)"

definition ExtractBuiltinRootfs :: "host_env \<Rightarrow> string \<Rightarrow> (OS, unit) proc" where
  "ExtractBuiltinRootfs env dstDir0 s =
     (let dstDir = Abs (os_cwd s) (Clean dstDir0)
      in andThen (os_MkdirAll dstDir) (\<lambda>_. he_extractRootfs env dstDir) s)"

definition withBuiltInAlpineRootfs :: "host_env \<Rightarrow> (builder, unit) proc" where
  "withBuiltInAlpineRootfs env b =
     (if WorkspaceDir (b_spec b) = [] then (Inl (Errorf ''workspace path is empty''), b)
      else
        let alpineRootfsDir = GetRootfsDir (pathMgr b)
        in andThen (onOS (os_MkdirAll alpineRootfsDir)) (\<lambda>_.
           andThen (onOS (ExtractBuiltinRootfs env alpineRootfsDir)) (\<lambda>_.
           withUserProvidedRootfs alpineRootfsDir)) b)"

definition withUserProvidedMounts :: "string list \<Rightarrow> (builder, unit) proc" where
  "withUserProvidedMounts dirs b =
     (if dirs = [] then (Inr (), b)
      else
        let mounts = map (\<lambda>m. m\<lparr>mnt_Source := Abs (os_cwd (b_os b)) (Clean (mnt_Source m))\<rparr>)
                       (CmdLineMountToMounts dirs)
        in setSpec (\<lambda>sp. sp\<lparr>Mounts := Mounts sp @ mounts\<rparr>) b)"

definition withMountUserHome :: "(builder, unit) proc" where
  "withMountUserHome =
     andThen (onOS os_UserHomeDir) (\<lambda>homeDir. withUserProvidedMounts [homeDir @ '':'' @ homeDir])"

subsection \<open>Guest agent, Podman, SSH, control API, proxy\<close>

definition guestAgentEnv :: "host_env \<Rightarrow> string list \<Rightarrow> string list" where
  "guestAgentEnv env extraEnvs =
     [''PATH=/usr/local/sbin:/usr/local/bin:/usr/sbin:/usr/bin:/sbin:/bin'', ''LC_ALL=C.UTF-8'',
      ''LANG=C.UTF-8'', ''TMPDIR=/tmp'', ''HOST_DOMAIN='' @ HostDomainInGVPNet,
      EnvLogLevel @ ''='' @ he_logLevel env] @ extraEnvs"

definition configureGuestAgent :: "host_env \<Rightarrow> string list \<Rightarrow> (builder, unit) proc" where
  "configureGuestAgent env extraEnvs b =
     (if WorkspaceDir (b_spec b) = [] then (Inl (Errorf ''workspace path is empty''), b)
      else
        let sock = GetIgnSocketFile (pathMgr b)
        in andThen (onOS (os_MkdirAll (Dir sock))) (\<lambda>_.
           andThen (onOS (removeIfExists sock)) (\<lambda>_.
           andThen (setSpec (\<lambda>sp. sp\<lparr>IgnitionListenSockAddr := unixURL sock\<rparr>)) (\<lambda>_ b1.
             if RootFS (b_spec b1) = [] then (Inl (Errorf ''rootfs path is empty''), b1)
             else
               let guestAgentFilePath = Join [RootFS (b_spec b1), ''.bin'', ''guest-agent'']
               in andThen (onOS (os_MkdirAll (Dir guestAgentFilePath))) (\<lambda>_.
                  andThen (wrapping ''failed to get executable path'' (lift (he_executable env))) (\<lambda>execPath.
                  andThen (wrapping ''failed to read guest-agent''
                    (onOS (os_ReadFile (Join [Dir execPath, ''..'', ''helper'', ''guest-agent''])))) (\<lambda>guestAgentBytes.
                  andThen (wrapping ''failed to write guest-agent file''
                    (onOS (os_WriteFile guestAgentFilePath guestAgentBytes))) (\<lambda>_.
                  setSpec (\<lambda>sp. sp\<lparr>GuestAgentCfg := \<lparr>ga_Workdir = ''/'', ga_Args = [],
                    ga_Env = guestAgentEnv env extraEnvs\<rparr>\<rparr>))))) b1))) b)"

definition configurePodman :: "(builder, unit) proc" where
  "configurePodman b =
     (let ps = ProxySetting (b_spec b);
          envs = (if ps_Use ps then [''http_proxy='' @ ps_HTTPProxy ps, ''https_proxy='' @ ps_HTTPSProxy ps]
                  else []);
          apiPath = GetPodmanSocketFile (pathMgr b);
          listenIP = (if VirtualNetworkMode (b_spec b) = TSI then LocalHost else UnspecifiedAddress)
      in andThen (onOS (GetAvailablePort (\<lambda>_. False) 0)) (\<lambda>port.
         andThen (setSpec (\<lambda>sp. sp\<lparr>PodmanInfo := \<lparr>HostPodmanProxyAddr = unixURL apiPath,
             GuestPodmanAPIListenAddr = JoinHostPort listenIP (Itoa (unat port)),
             GuestPodmanRunWithEnvs = envs\<rparr>\<rparr>)) (\<lambda>_.
         onOS (os_MkdirAll (Dir apiPath)))) b)"

definition configureSSH :: "host_env \<Rightarrow> (builder, unit) proc" where
  "configureSSH env b =
     (let keyPath = GetSSHPrivateKeyFile (pathMgr b); pubKeyPath = keyPath @ ''.pub''
      in andThen (onOS (os_MkdirAll (Dir keyPath))) (\<lambda>_.
         andThen (lift (he_keygen env)) (\<lambda>(privateKey, publicKey).
         andThen (onOS (os_WriteFile keyPath privateKey)) (\<lambda>_.
         andThen (onOS (os_WriteFile pubKeyPath publicKey)) (\<lambda>_.
         setSpec (\<lambda>sp. sp\<lparr>SSHInfo := \<lparr>HostSSHPrivateKeyFile = keyPath, HostSSHPublicKey = publicKey,
           HostSSHPrivateKey = privateKey, HostSSHProxyListenAddr = [], GuestSSHServerListenAddr = [],
           GuestSSHPrivateKeyFile = ''/run/dropbear/private.key'',
           GuestSSHAuthorizedKeys = ''/run/dropbear/authorized_keys'',
           GuestSSHPidFile = ''/run/dropbear/dropbear.pid''\<rparr>\<rparr>))))) b)"

definition configureVMCtlAPI :: "(builder, unit) proc" where
  "configureVMCtlAPI b =
     (let apiPath = GetVMCtlSocketFile (pathMgr b)
      in andThen (setSpec (\<lambda>sp. sp\<lparr>VMCtlAddr := unixURL apiPath\<rparr>)) (\<lambda>_.
         andThen (onOS (os_MkdirAll (Dir apiPath))) (\<lambda>_. onOS (removeIfExists apiPath))) b)"

definition applySystemProxy :: "host_env \<Rightarrow> (builder, unit) proc" where
  "applySystemProxy env b =
     (case he_sysproxy env of
        Inl e \<Rightarrow> (Inl (Wrap ''get system proxy fail'' e), b)
      | Inr None \<Rightarrow> (Inr (), b)
      | Inr (Some p) \<Rightarrow>
          let proxy = sy_render p (sy_Host p);
              proxy' = (if VirtualNetworkMode (b_spec b) = GVISOR \<and>
                          (Contains proxy ''127.0.0.1'' \<or> Contains proxy ''localhost'')
                        then sy_render p HostDomainInGVPNet else proxy)
          in setSpec (\<lambda>sp. sp\<lparr>ProxySetting := \<lparr>ps_HTTPProxy = proxy',
               ps_HTTPSProxy = proxy', ps_Use = True\<rparr>\<rparr>) b)"

definition detectTTY :: "host_env \<Rightarrow> (builder, unit) proc" where
  "detectTTY env =
     setSpec (\<lambda>sp. sp\<lparr>TTY := (case he_isTerminal env of (i, o', e) \<Rightarrow> i \<and> o' \<and> e)\<rparr>)"

subsection \<open>Network modes (network.go)\<close>

definition setGuestSSHAddr :: "string \<Rightarrow> MachineSpec \<Rightarrow> MachineSpec" where
  "setGuestSSHAddr a sp = sp\<lparr>SSHInfo := (SSHInfo sp)\<lparr>GuestSSHServerListenAddr := a\<rparr>\<rparr>"

definition gVisorConfigure :: "host_env \<Rightarrow> (builder, unit) proc" where
  "gVisorConfigure env b =
     (let pm = pathMgr b; ctl = GetGVPCtlSocketFile pm; vnet = GetVNetSocketFile pm
      in andThen (setSpec (\<lambda>sp. sp\<lparr>GVPCtlAddr := unixURL ctl,
             GVPVNetAddr := (if he_linux env then ''unix://'' else ''unixgram://'') @ vnet\<rparr>)) (\<lambda>_.
         andThen (onOS (ignoring (os_Remove ctl))) (\<lambda>_.
         andThen (onOS (ignoring (os_Remove vnet))) (\<lambda>_.
         andThen (onOS (os_MkdirAll (Dir ctl))) (\<lambda>_.
         andThen (onOS (GetAvailablePort (\<lambda>_. False) 0)) (\<lambda>port.
         setSpec (setGuestSSHAddr (JoinHostPort UnspecifiedAddress (Itoa (unat port))))))))) b)"

definition tsiConfigure :: "(builder, unit) proc" where
  "tsiConfigure =
     andThen (onOS (GetAvailablePort (\<lambda>_. False) 0)) (\<lambda>port.
       let a = JoinHostPort LocalHost (Itoa (unat port))
       in setSpec (\<lambda>sp. sp\<lparr>SSHInfo := (SSHInfo sp)\<lparr>GuestSSHServerListenAddr := a,
            HostSSHProxyListenAddr := a\<rparr>\<rparr>))"

definition getNetworkStrategy :: "host_env \<Rightarrow> VNetMode \<Rightarrow> (builder, unit) proc option" where
  "getNetworkStrategy env mode =
     (if mode = GVISOR then Some (gVisorConfigure env)
      else if mode = TSI then Some tsiConfigure else None)"

definition configureNetwork :: "host_env \<Rightarrow> VNetMode \<Rightarrow> (builder, unit) proc" where
  "configureNetwork env mode =
     (case getNetworkStrategy env mode of
        None \<Rightarrow> failWith (Errorf ''invalid network mode'')
      | Some strategy \<Rightarrow>
          andThen (setSpec (\<lambda>sp. sp\<lparr>VirtualNetworkMode := mode\<rparr>)) (\<lambda>_. strategy))"

subsection \<open>Assembly (buildMachine)\<close>

text \<open>The steps after the workspace is set up, in the order of the source.\<close>

definition configureForwards :: "Config \<Rightarrow> (builder, unit) proc" where
  "configureForwards cfg =
     andThen (wrapping ''parse unix forward rules'' (lift (parseForwardUnixRules (ForwardUnix cfg)))) (\<lambda>rules.
     andThen (wrapping ''normalize unix forward rules'' (lift (BuildUnixSocketForwardRoutes rules))) (\<lambda>_.
     setSpec (\<lambda>sp. sp\<lparr>UnixSocketForwards := rules\<rparr>)))"

definition buildSteps :: "host_env \<Rightarrow> Config \<Rightarrow> (builder, unit) proc" where
  "buildSteps env cfg =
     andThen (setSpec (\<lambda>sp. sp\<lparr>LogFile := LogTo cfg\<rparr>)) (\<lambda>_.
     andThen (wrapping ''generate ssh config'' (configureSSH env)) (\<lambda>_.
     andThen (wrapping ''set resources'' (withResources (MemoryMB cfg) (of_int (CPUs cfg)))) (\<lambda>_.
     andThen (wrapping ''configure network'' (configureNetwork env (Network cfg))) (\<lambda>_.
     andThen (if Proxy cfg then wrapping ''apply system proxy'' (applySystemProxy env) else succeed ()) (\<lambda>_.
     andThen (withBuiltInAlpineRootfs env) (\<lambda>_.
     andThen (wrapping ''mount user home'' withMountUserHome) (\<lambda>_.
     andThen (wrapping ''configure podman'' configurePodman) (\<lambda>_.
     andThen (wrapping ''attach var disk'' (withVarDisk (he_disk env) (VarDisk cfg))) (\<lambda>_.
     andThen (wrapping ''attach external raw disks'' (withUserProvidedRawDisk (he_disk env) (ExternalDisks cfg))) (\<lambda>_.
     andThen (if cfg_Mounts cfg \<noteq> [] then wrapping ''setup mounts'' (withUserProvidedMounts (cfg_Mounts cfg))
              else succeed ()) (\<lambda>_.
     andThen (configureForwards cfg) (\<lambda>_.
     andThen (wrapping ''configure guest agent'' (configureGuestAgent env (Env cfg))) (\<lambda>_.
     andThen (wrapping ''configure vmctl API'' configureVMCtlAPI) (\<lambda>_.
     detectTTY env))))))))))))))"

text \<open>The two clean-up callbacks: release and remove the lock, remove the workspace.\<close>

definition releaseLock :: "string \<Rightarrow> builder \<Rightarrow> builder" where
  "releaseLock workspacePath b =
     (let b1 = (case b_fileLock b of
                  None \<Rightarrow> b
                | Some f \<Rightarrow> b\<lparr>b_os := (b_os b)\<lparr>os_locks := removeAll f (os_locks (b_os b))\<rparr>\<rparr>)
      in b1\<lparr>b_os := snd (os_Remove (lockFile workspacePath) (b_os b1))\<rparr>)"

definition removeWorkspace :: "string \<Rightarrow> builder \<Rightarrow> builder" where
  "removeWorkspace workspacePath b = b\<lparr>b_os := snd (os_RemoveAll workspacePath (b_os b))\<rparr>"

definition machineCleanup :: "string \<Rightarrow> builder CleanupCallback" where
  "machineCleanup workspacePath =
     AddFunc (AddFunc NewCleanUp (Some (releaseLock workspacePath))) (Some (removeWorkspace workspacePath))"

definition buildMachine ::
    "host_env \<Rightarrow> Config \<Rightarrow> string \<Rightarrow> OS \<Rightarrow> builder CleanupCallback res \<times> builder" where
  "buildMachine env cfg workspacePath s =
     (let b0 = newMachineBuilder ContainerMode s
      in if cfg_RunMode cfg \<noteq> ModeContainer then (Inl (Errorf ''unsupported run mode''), b0)
         else case setupWorkspace env workspacePath b0 of
                (Inl e, b1) \<Rightarrow> (Inl (Wrap ''setup workspace'' e), snd (CleanIfErr NewCleanUp (Some e) b1))
              | (Inr _, b1) \<Rightarrow>
                  (case buildSteps env cfg b1 of
                     (Inl e, b2) \<Rightarrow>
                       (Inl e, snd (CleanIfErr (machineCleanup workspacePath) (Some e) b2))
                   | (Inr _, b2) \<Rightarrow>
                       (Inr (machineCleanup workspacePath),
                        snd (CleanIfErr (machineCleanup workspacePath) None b2))))"

subsection \<open>Convenience links (machine.go createSymlink, vm.go createUserSymlinks)\<close>

definition createSymlink :: "string \<Rightarrow> string \<Rightarrow> (OS, unit) proc" where
  "createSymlink target linkPath =
     andThen (os_MkdirAll (Dir linkPath)) (\<lambda>_.
     andThen (removeIfExists linkPath) (\<lambda>_. os_Symlink target linkPath))"

definition linkIf :: "string \<Rightarrow> string \<Rightarrow> string \<Rightarrow> (OS, unit) proc" where
  "linkIf msg target linkPath =
     (if linkPath \<noteq> [] then wrapping msg (createSymlink target linkPath) else succeed ())"

definition createUserSymlinks :: "Config \<Rightarrow> string \<Rightarrow> (OS, unit) proc" where
  "createUserSymlinks cfg sessionDir =
     (let p = newMachinePathManager sessionDir
      in andThen (linkIf ''podman proxy socket'' (GetPodmanSocketFile p) (PodmanProxyAPIFile cfg)) (\<lambda>_.
         andThen (linkIf ''vmctl socket'' (GetVMCtlSocketFile p) (ManageAPIFile cfg)) (\<lambda>_.
         andThen (linkIf ''ssh private key'' (GetSSHPrivateKeyFile p) (SSHKeyPrivateFileSymbolLinks cfg)) (\<lambda>_.
         linkIf ''ssh public key'' (GetSSHPrivateKeyFile p @ ''.pub'') (SSHKeyPublicFileSymbolLinks cfg)))))"

subsection \<open>What the steps leave alone\<close>

text \<open>The working and home directories, the faults and the locks held; for the builder also its lock, its
  path manager and the workspace directory. Only the lock and the clean-up change these.\<close>

definition osEnv :: "OS \<Rightarrow> string \<times> string res \<times> (string \<Rightarrow> string \<Rightarrow> bool) \<times> string list" where
  "osEnv s = (os_cwd s, os_home s, os_fault s, os_locks s)"

definition bEnv where
  "bEnv b = (osEnv (b_os b), b_fileLock b, b_pathMgr b, WorkspaceDir (b_spec b))"

definition keepsOS :: "(OS, 'a) proc \<Rightarrow> bool" where
  "keepsOS m \<longleftrightarrow> (\<forall>s r t. m s = (r, t) \<longrightarrow> osEnv t = osEnv s)"

definition keepsB :: "(builder, 'a) proc \<Rightarrow> bool" where
  "keepsB m \<longleftrightarrow> (\<forall>b r b'. m b = (r, b') \<longrightarrow> bEnv b' = bEnv b)"

definition env_keeps :: "host_env \<Rightarrow> bool" where
  "env_keeps env \<longleftrightarrow> (\<forall>d f. keepsOS (archive_extract (he_disk env) d f)) \<and>
     (\<forall>d. keepsOS (he_extractRootfs env d))"

named_theorems keeps_intros "operations that keep the environment"

lemma keepsOS_at: "keepsOS m \<Longrightarrow> osEnv (snd (m s)) = osEnv s"
  by (cases "m s") (simp add: keepsOS_def)

lemma keepsOS_I: "(\<And>s. osEnv (snd (m s)) = osEnv s) \<Longrightarrow> keepsOS m"
  by (metis keepsOS_def snd_conv)

lemma keepsB_at: "keepsB m \<Longrightarrow> bEnv (snd (m b)) = bEnv b"
  by (cases "m b") (simp add: keepsB_def)

lemma keepsB_I: "(\<And>b. bEnv (snd (m b)) = bEnv b) \<Longrightarrow> keepsB m"
  by (metis keepsB_def snd_conv)

lemma keepsOS_basic [keeps_intros]:
  "keepsOS (succeed a)" "keepsOS (failWith e)" "keepsOS (lift r)"
  "keepsOS m \<Longrightarrow> keepsOS (wrapping msg m)"
  "keepsOS m \<Longrightarrow> (\<And>a. keepsOS (f a)) \<Longrightarrow> keepsOS (andThen m f)"
  by (fastforce simp: keepsOS_def proc_defs split: prod.splits sum.splits)+

lemma keepsB_basic [keeps_intros]:
  "keepsB (succeed a)" "keepsB (failWith e)" "keepsB (lift r)"
  "keepsB m' \<Longrightarrow> keepsB (wrapping msg m')"
  "keepsB m' \<Longrightarrow> (\<And>a. keepsB (g a)) \<Longrightarrow> keepsB (andThen m' g)"
  "(\<And>sp. WorkspaceDir (f sp) = WorkspaceDir sp) \<Longrightarrow> keepsB (setSpec f)"
  by (fastforce simp: keepsB_def proc_defs setSpec_def bEnv_def split: prod.splits sum.splits)+

lemma keepsB_onOS [keeps_intros]: "keepsOS m \<Longrightarrow> keepsB (onOS m)"
  by (auto simp: keepsB_def keepsOS_def onOS_def bEnv_def split: prod.splits)

lemma addsDirs_osEnv: "addsDirs s t \<Longrightarrow> osEnv t = osEnv s"
  by (simp add: addsDirs_def osEnv_def)

lemma osEnv_nodes [simp]: "osEnv (setNode k n s) = osEnv s" "osEnv (delNode k s) = osEnv s"
  by (simp_all add: osEnv_def)

lemma os_Stat_same: "os_Stat p s = (r, t) \<Longrightarrow> t = s"
  by (simp add: os_Stat_def Let_def)

lemma keepsOS_calls [keeps_intros]:
  "keepsOS (os_MkdirAll p)" "keepsOS (os_Remove p)" "keepsOS (removeIfExists p)"
  "keepsOS (os_WriteFile p c)" "keepsOS (os_ReadFile p)" "keepsOS (os_Lstat p)"
  "keepsOS (os_Stat p)" "keepsOS os_UserHomeDir" "keepsOS (os_Symlink tg p)"
  "keepsOS (GetAvailablePort can pref)" "keepsOS (ignoring (os_Remove p))"
  "keepsOS (sys_Setxattr p k v)" "keepsOS (sys_Getxattr p k)"
proof -
  show "keepsOS (os_MkdirAll p)"
    unfolding keepsOS_def by (blast intro: addsDirs_osEnv os_MkdirAll_addsDirs)
  show rm: "keepsOS (os_Remove p)"
    by (rule keepsOS_I) (simp add: os_Remove_def Let_def split: option.splits)
  then show "keepsOS (removeIfExists p)" "keepsOS (ignoring (os_Remove p))"
    by (auto simp: keepsOS_def removeIfExists_def ignoring_def keepsOS_at
        split: prod.splits sum.splits if_splits)
qed (auto intro!: keepsOS_I simp: os_simps os_WriteFile_def openWrite_def os_UserHomeDir_def os_Symlink_def
      GetAvailablePort_def sys_Setxattr_def Let_def osEnv_def
      split: option.splits node.splits list.splits)

lemma keepsOS_disk [keeps_intros]:
  "keepsOS (Inspect lib p)" "keepsOS (NewUUID lib u p)" "keepsOS (SetXattr p k v ov)"
  "keepsOS (needsDiskRegeneration p v)"
proof -
  show "keepsOS (Inspect lib p)"
    by (rule keepsOS_I)
      (simp add: Inspect_def ProbeRAWDisk_def andThen_def succeed_def Let_def split: sum.splits)
  show "keepsOS (NewUUID lib u p)"
    by (rule keepsOS_I) (simp add: NewUUID_def SetUUID_def andThen_def succeed_def
        split: sum.splits option.splits node.splits)
  show "keepsOS (SetXattr p k v ov)"
    by (rule keepsOS_I) (simp add: SetXattr_def Let_def keepsOS_at keepsOS_calls(12))
  show "keepsOS (needsDiskRegeneration p v)"
    by (rule keepsOS_I) (simp add: needsDiskRegeneration_def Let_def)
qed

lemma keepsOS_applyDiskXattrs [keeps_intros]: "keepsOS (applyDiskXattrs p xs)"
proof (induction xs)
  case (Cons kv xs)
  have "keepsOS (andThen (wrapping ''setxattr'' (SetXattr p k v True)) (\<lambda>_. applyDiskXattrs p xs))" for k v
    by (intro keeps_intros Cons.IH)
  then show ?case by (cases kv) (simp add: keepsOS_def)
qed (simp add: keepsOS_def)

text \<open>An operation whose body depends on the state keeps the environment when each of its bodies
  does.\<close>

lemma keepsOS_pointwise: "(\<And>s. \<exists>m. keepsOS m \<and> f s = m s) \<Longrightarrow> keepsOS f"
  unfolding keepsOS_def by metis

lemma keepsB_pointwise: "(\<And>b. \<exists>m. keepsB m \<and> f b = m b) \<Longrightarrow> keepsB f"
  unfolding keepsB_def by metis

lemma keepsOS_generate [keeps_intros]:
  assumes "env_keeps env"
  shows "keepsOS (generateRAWDisk (he_disk env) p u xs)"
    and "keepsOS (recreateRAWDisk (he_disk env) p u xs)"
proof -
  have ar: "keepsOS (archive_extract (he_disk env) d f)" for d f
    using assms by (simp add: env_keeps_def)
  have x: "keepsOS (ExtractEmbeddedRawDisk (he_disk env) q)" for q
    by (rule keepsOS_pointwise, rule exI, rule conjI [rotated],
        simp add: ExtractEmbeddedRawDisk_def Let_def case_prod_unfold) (intro keeps_intros ar)
  show g: "keepsOS (generateRAWDisk (he_disk env) p u xs)"
    by (rule keepsOS_pointwise, rule exI, rule conjI [rotated],
        simp add: generateRAWDisk_def Let_def) (intro keeps_intros x)
  show "keepsOS (recreateRAWDisk (he_disk env) p u xs)"
    unfolding recreateRAWDisk_def by (intro keeps_intros g)
qed

lemma keepsOS_reconcile [keeps_intros]:
  assumes "env_keeps env"
  shows "keepsOS (reconcileVarRAWDisk (he_disk env) d)"
    and "keepsOS (reconcileUserProvidedRawDisk (he_disk env) d)"
proof -
  note g = keepsOS_generate [OF assms]
  let ?v = "VarDataDiskUUID" and ?x = "diskVersionXattrs (rd_Version d)" and ?lib = "he_disk env"
  have make: "keepsOS (andThen (generateRAWDisk ?lib q u x) (\<lambda>_. succeed d'))"
      "keepsOS (andThen (recreateRAWDisk ?lib q u x) (\<lambda>_. succeed d'))" for q u x and d' :: RawDisk
    by (intro keeps_intros g)+
  show "keepsOS (reconcileVarRAWDisk ?lib d)"
  proof (rule keepsOS_pointwise)
    fix s
    obtain r where r: "os_Stat (RawDiskPath d) s = (r, s)"
      using os_Stat_same by (metis prod.collapse)
    show "\<exists>m. keepsOS m \<and> reconcileVarRAWDisk ?lib d s = m s"
    proof (cases r)
      case (Inl e)
      with r show ?thesis
        using make(1) [of "RawDiskPath d" ?v ?x] keepsOS_basic(2) [of e]
        by (cases "os_IsNotExist e") (auto simp: reconcileVarRAWDisk_def Let_def failWith_def)
    next
      case (Inr n)
      show ?thesis
        by (rule exI, rule conjI [rotated], simp add: reconcileVarRAWDisk_def Let_def r Inr)
          (auto intro!: keeps_intros make g split: prod.splits)
    qed
  qed
  have new: "osEnv (snd (uuid_NewString s)) = osEnv s" for s
    by (simp add: uuid_NewString_def osEnv_def split: list.splits)
  have mk: "osEnv (snd (andThen (wrapping msg (generateRAWDisk ?lib q u x)) (\<lambda>_. succeed d') s)) = osEnv s"
    for msg q u x s and d' :: RawDisk
    by (rule keepsOS_at) (intro keeps_intros g)
  have create: "osEnv (snd (createUserProvidedRawDisk ?lib d s)) = osEnv s" for s
    using new [of s] by (simp add: createUserProvidedRawDisk_def Let_def mk case_prod_unfold)
  have handle: "keepsOS (handleExistingUserProvidedRawDisk ?lib d)"
    unfolding handleExistingUserProvidedRawDisk_def Let_def
    by (auto intro!: keeps_intros g split: prod.splits)
  show "keepsOS (reconcileUserProvidedRawDisk ?lib d)"
  proof (rule keepsOS_I)
    fix s
    obtain r where "os_Stat (RawDiskPath d) s = (r, s)"
      using os_Stat_same by (metis prod.collapse)
    then show "osEnv (snd (reconcileUserProvidedRawDisk ?lib d s)) = osEnv s"
      using create keepsOS_at [OF handle] by (simp add: reconcileUserProvidedRawDisk_def split: sum.splits)
  qed
qed

lemma keepsB_addRAWDisk: "keepsB (addRAWDiskToBlkList lib p m)"
  by (rule keepsB_pointwise, rule exI, rule conjI [rotated], simp add: addRAWDiskToBlkList_def Let_def)
    (intro keeps_intros, simp add: keepsB_def bEnv_def modifyState_def)

lemma keepsB_disks [keeps_intros]:
  assumes "env_keeps env"
  shows "keepsB (withVarDisk (he_disk env) d)"
    and "keepsB (withUserProvidedRawDisk (he_disk env) ds)"
proof -
  note rec = keepsOS_reconcile [OF assms] and add = keepsB_addRAWDisk
  have step: "keepsB (andThen (onOS (reconcileVarRAWDisk (he_disk env) d'))
      (\<lambda>d. addRAWDiskToBlkList (he_disk env) (RawDiskPath d) (rd_Mnt d)))" for d'
    by (intro keeps_intros rec add)
  show "keepsB (withVarDisk (he_disk env) d)"
    by (rule keepsB_I) (simp add: withVarDisk_def keepsB_at [OF step] split: sum.splits)
  show "keepsB (withUserProvidedRawDisk (he_disk env) ds)"
  proof (induction ds)
    case (Cons d ds)
    have step': "keepsB (andThen (onOS (reconcileUserProvidedRawDisk (he_disk env) d'))
      (\<lambda>d. andThen (addRAWDiskToBlkList (he_disk env) (RawDiskPath d) (rd_Mnt d))
        (\<lambda>_. withUserProvidedRawDisk (he_disk env) ds)))" for d'
      by (intro keeps_intros rec add Cons.IH)
    show ?case
      by (rule keepsB_I) (simp add: keepsB_at [OF step'] split: sum.splits)
  qed (simp add: keepsB_def)
qed

lemma keepsB_mounts [keeps_intros]: "keepsB (withUserProvidedMounts dirs)" "keepsB withMountUserHome"
proof -
  show m: "keepsB (withUserProvidedMounts dirs)" for dirs
    by (rule keepsB_I) (simp add: withUserProvidedMounts_def setSpec_def modifyState_def bEnv_def Let_def)
  show "keepsB withMountUserHome"
    unfolding withMountUserHome_def by (intro keeps_intros m)
qed

lemma keepsB_configure [keeps_intros]:
  "keepsB (configureSSH env)" "keepsB configurePodman" "keepsB configureVMCtlAPI"
  "keepsB (applySystemProxy env)" "keepsB (detectTTY env)" "keepsB (withResources m c)"
  "keepsB (configureForwards cfg)"
proof -
  show "keepsB (configureSSH env)"
    by (rule keepsB_pointwise, rule exI, rule conjI [rotated], simp add: configureSSH_def Let_def)
      (auto intro!: keeps_intros split: prod.splits)
  show "keepsB configurePodman"
    by (rule keepsB_I, unfold configurePodman_def Let_def, rule keepsB_at)
      (intro keeps_intros, simp)
  show "keepsB configureVMCtlAPI"
    by (rule keepsB_pointwise, rule exI, rule conjI [rotated], simp add: configureVMCtlAPI_def Let_def)
      (auto intro!: keeps_intros)
  show "keepsB (applySystemProxy env)"
    by (rule keepsB_I) (simp add: applySystemProxy_def setSpec_def modifyState_def bEnv_def Let_def
        split: sum.splits option.splits)
  show "keepsB (configureForwards cfg)"
    unfolding configureForwards_def by (auto intro!: keeps_intros)
qed (auto simp: detectTTY_def withResources_def intro!: keeps_intros)

lemma keepsB_network [keeps_intros]: "keepsB (configureNetwork env mode)"
proof -
  have "keepsB (gVisorConfigure env)"
    by (rule keepsB_I, unfold gVisorConfigure_def Let_def, rule keepsB_at)
      (intro keeps_intros, simp_all add: setGuestSSHAddr_def)
  moreover have "keepsB tsiConfigure"
    unfolding tsiConfigure_def Let_def by (auto intro!: keeps_intros)
  ultimately show ?thesis
    by (auto simp: configureNetwork_def getNetworkStrategy_def intro!: keeps_intros)
qed

lemma keepsOS_extractRootfs:
  assumes "env_keeps env"
  shows "keepsOS (ExtractBuiltinRootfs env d)"
proof -
  have r: "keepsOS (he_extractRootfs env d)" for d
    using assms by (simp add: env_keeps_def)
  show ?thesis
    by (rule keepsOS_I, unfold ExtractBuiltinRootfs_def Let_def, rule keepsOS_at)
      (intro keeps_intros r)
qed

lemma keepsB_rootfs [keeps_intros]:
  assumes "env_keeps env"
  shows "keepsB (withBuiltInAlpineRootfs env)"
proof -
  note x = keepsOS_extractRootfs [OF assms]
  have u: "keepsB (withUserProvidedRootfs p)" for p
  proof (rule keepsB_I)
    fix b
    have "keepsB (andThen (wrapping msg (onOS (os_Lstat q))) (\<lambda>_. setSpec (\<lambda>sp. sp\<lparr>RootFS := r\<rparr>)))"
      for msg q r by (intro keeps_intros) simp
    from keepsB_at [OF this] show "bEnv (snd (withUserProvidedRootfs p b)) = bEnv b"
      by (simp add: withUserProvidedRootfs_def Let_def)
  qed
  have "keepsB (andThen (onOS (os_MkdirAll d)) (\<lambda>_. andThen (onOS (ExtractBuiltinRootfs env d))
      (\<lambda>_. withUserProvidedRootfs d)))" for d
    by (intro keeps_intros x u)
  from keepsB_at [OF this] show ?thesis
    by (intro keepsB_I) (simp add: withBuiltInAlpineRootfs_def Let_def)
qed

lemma keepsB_agent [keeps_intros]: "keepsB (configureGuestAgent env extra)"
proof -
  let ?fin = "\<lambda>g. andThen (onOS (os_MkdirAll (Dir g))) (\<lambda>_.
      andThen (wrapping ''failed to get executable path'' (lift (he_executable env))) (\<lambda>execPath.
      andThen (wrapping ''failed to read guest-agent''
        (onOS (os_ReadFile (Join [Dir execPath, ''..'', ''helper'', ''guest-agent''])))) (\<lambda>bytes.
      andThen (wrapping ''failed to write guest-agent file'' (onOS (os_WriteFile g bytes))) (\<lambda>_.
      setSpec (\<lambda>sp. sp\<lparr>GuestAgentCfg := \<lparr>ga_Workdir = ''/'', ga_Args = [],
        ga_Env = guestAgentEnv env extra\<rparr>\<rparr>)))))"
  have "keepsB (?fin g)" for g by (intro keeps_intros) simp
  then have fin: "keepsB (\<lambda>b1. if RootFS (b_spec b1) = [] then (Inl (Errorf ''rootfs path is empty''), b1)
      else let g = Join [RootFS (b_spec b1), ''.bin'', ''guest-agent''] in ?fin g b1)"
    by (intro keepsB_I) (simp add: keepsB_at Let_def)
  show ?thesis
  proof (rule keepsB_I)
    fix b
    have "keepsB (andThen (onOS (os_MkdirAll (Dir sock))) (\<lambda>_.
        andThen (onOS (removeIfExists sock)) (\<lambda>_.
        andThen (setSpec (\<lambda>sp. sp\<lparr>IgnitionListenSockAddr := unixURL sock\<rparr>)) (\<lambda>_ b1.
          if RootFS (b_spec b1) = [] then (Inl (Errorf ''rootfs path is empty''), b1)
          else let g = Join [RootFS (b_spec b1), ''.bin'', ''guest-agent''] in ?fin g b1))))" for sock
      by (intro keeps_intros fin) simp
    from keepsB_at [OF this] show "bEnv (snd (configureGuestAgent env extra b)) = bEnv b"
      unfolding configureGuestAgent_def Let_def by simp
  qed
qed

lemma keepsB_buildSteps: "env_keeps env \<Longrightarrow> keepsB (buildSteps env cfg)"
  unfolding buildSteps_def by (auto intro!: keeps_intros)

subsection \<open>Clean-up of the workspace\<close>

lemma machineCleanup_run:
  "snd (DoClean (machineCleanup ws) b) = releaseLock ws (removeWorkspace ws b)"
  by (simp add: machineCleanup_def DoClean_def clean_def NewCleanUp_def AddFunc_def Add_def)

lemma os_Remove_nodes:
  "nodeAt (snd (os_Remove p s)) q = nodeAt s q \<or> nodeAt (snd (os_Remove p s)) q = None"
  by (auto simp: os_Remove_def Let_def os_simps split: option.splits)

lemma releaseLock_nodes:
  "nodeAt (b_os (releaseLock ws b)) q = nodeAt (b_os b) q \<or> nodeAt (b_os (releaseLock ws b)) q = None"
proof -
  have l: "nodeAt (s\<lparr>os_locks := l\<rparr>) q = nodeAt s q" for s l by (simp add: nodeAt_def)
  show ?thesis
  proof (cases "b_fileLock b")
    case None
    then show ?thesis
      using os_Remove_nodes [of "lockFile ws" "b_os b" q] by (simp add: releaseLock_def)
  next
    case (Some f)
    then show ?thesis
      using os_Remove_nodes [of "lockFile ws" "(b_os b)\<lparr>os_locks := removeAll f (os_locks (b_os b))\<rparr>" q]
      by (simp add: releaseLock_def l)
  qed
qed

lemma releaseLock_lock:
  assumes "b_fileLock b = Some f"
  shows "f \<notin> set (os_locks (b_os (releaseLock ws b)))"
proof -
  have "os_locks (snd (os_Remove p s)) = os_locks s" for p s
    using keepsOS_at [OF keepsOS_calls(2), of p s] by (simp add: osEnv_def)
  with assms show ?thesis by (simp add: releaseLock_def Let_def)
qed

lemma cleanup_effect:
  assumes "imagePath ws" and "ws \<noteq> ''/''" and "\<not> os_fault (b_os b) ''remove'' ws"
    and "b_fileLock b = Some f" and "q = ws \<or> under ws q"
  shows "nodeAt (b_os (snd (DoClean (machineCleanup ws) b))) q = None"
    and "f \<notin> set (os_locks (b_os (snd (DoClean (machineCleanup ws) b))))"
proof -
  obtain s1 where r: "os_RemoveAll ws (b_os b) = (Inr (), s1)"
    using assms(1,3) by (simp add: os_RemoveAll_def Let_def)
  have "q \<noteq> [sep]"
    using assms(1,2,5) by (cases ws) (auto simp: under_def HasPrefix_iff imagePath_def)
  then have "nodeAt s1 q = None"
    using os_RemoveAll_node [OF r] assms(1,5) by simp
  then show "nodeAt (b_os (snd (DoClean (machineCleanup ws) b))) q = None"
    using releaseLock_nodes [of ws "removeWorkspace ws b" q]
    by (simp add: machineCleanup_run removeWorkspace_def r)
  have "b_fileLock (removeWorkspace ws b) = Some f"
    using assms(4) by (simp add: removeWorkspace_def)
  then show "f \<notin> set (os_locks (b_os (snd (DoClean (machineCleanup ws) b))))"
    unfolding machineCleanup_run by (rule releaseLock_lock)
qed

lemma setupWorkspace_ok:
  assumes "setupWorkspace env ws b = (Inr (), b')"
  defines "w \<equiv> Abs (os_cwd (b_os b)) (Clean ws)"
  shows "b_fileLock b' = Some (lockFile w)" and "WorkspaceDir (b_spec b') = w"
    and "b_pathMgr b' = Some (newMachinePathManager w)"
    and "os_cwd (b_os b') = os_cwd (b_os b)" and "os_home (b_os b') = os_home (b_os b)" and "os_fault (b_os b') = os_fault (b_os b)"
    and "lockFile w \<in> set (os_locks (b_os b'))"
    and "b_spec b' = (b_spec b)\<lparr>WorkspaceDir := w\<rparr>"
proof -
  obtain s1 where m: "os_MkdirAll w (b_os b) = (Inr (), s1)"
    and l: "lockWorkspace env (b\<lparr>b_spec := (b_spec b)\<lparr>WorkspaceDir := w\<rparr>, b_os := s1,
        b_pathMgr := Some (newMachinePathManager w)\<rparr>) = (Inr (), b')"
    using assms(1)
    by (auto simp: setupWorkspace_def andThen_Inr_iff onOS_def os_UserHomeDir_def setSpec_def Let_def
        w_def split: if_splits prod.splits)
  have "osEnv s1 = osEnv (b_os b)" using addsDirs_osEnv os_MkdirAll_addsDirs [OF m] by blast
  with l show "b_fileLock b' = Some (lockFile w)" and "WorkspaceDir (b_spec b') = w"
    and "b_pathMgr b' = Some (newMachinePathManager w)"
    and "os_cwd (b_os b') = os_cwd (b_os b)" and "os_home (b_os b') = os_home (b_os b)" and "os_fault (b_os b') = os_fault (b_os b)"
    and "lockFile w \<in> set (os_locks (b_os b'))"
    and "b_spec b' = (b_spec b)\<lparr>WorkspaceDir := w\<rparr>"
    by (auto simp: lockWorkspace_def osEnv_def Let_def split: lockOutcome.splits option.splits)
qed

subsection \<open>Step by step\<close>

lemma onOS_Inr: "onOS m b = (Inr a, b') \<longleftrightarrow> (\<exists>s. m (b_os b) = (Inr a, s) \<and> b' = b\<lparr>b_os := s\<rparr>)"
  by (auto simp: onOS_def split: prod.splits)

lemma setSpec_Inr [simp]: "setSpec f b = (r, b') \<longleftrightarrow> r = Inr () \<and> b' = b\<lparr>b_spec := f (b_spec b)\<rparr>"
  by (auto simp: setSpec_def)

text \<open>Which part of the description a successful step fills.\<close>

lemma configureSSH_spec:
  assumes "configureSSH env b = (Inr (), b')"
  shows "\<exists>priv pub. he_keygen env = Inr (priv, pub) \<and> b_spec b' = (b_spec b)\<lparr>SSHInfo :=
    \<lparr>HostSSHPrivateKeyFile = GetSSHPrivateKeyFile (pathMgr b), HostSSHPublicKey = pub,
     HostSSHPrivateKey = priv, HostSSHProxyListenAddr = [], GuestSSHServerListenAddr = [],
     GuestSSHPrivateKeyFile = ''/run/dropbear/private.key'',
     GuestSSHAuthorizedKeys = ''/run/dropbear/authorized_keys'',
     GuestSSHPidFile = ''/run/dropbear/dropbear.pid''\<rparr>\<rparr>"
  using assms by (auto simp: configureSSH_def andThen_Inr_iff onOS_Inr Let_def)

lemma withResources_spec:
  assumes "withResources m c b = (Inr (), b')"
  shows "c \<noteq> 0 \<and> 512 \<le> m \<and> b_spec b' = (b_spec b)\<lparr>MemoryInMB := m, Cpus := c\<rparr>"
  using assms by (auto simp: withResources_def not_less split: if_splits)

definition vnetURL :: "host_env \<Rightarrow> machinePathManager \<Rightarrow> string" where
  "vnetURL env pm = (if he_linux env then ''unix://'' else ''unixgram://'') @ GetVNetSocketFile pm"

lemma configureNetwork_spec:
  assumes "configureNetwork env mode b = (Inr (), b')"
  shows "(mode = GVISOR \<or> mode = TSI) \<and> (\<exists>port hostAddr ctl vnet.
    (mode = GVISOR \<longrightarrow> vnet = vnetURL env (pathMgr b)) \<and> b_spec b' = (b_spec b)\<lparr>VirtualNetworkMode := mode, GVPCtlAddr := ctl, GVPVNetAddr := vnet,
      SSHInfo := (SSHInfo (b_spec b))\<lparr>
        GuestSSHServerListenAddr := JoinHostPort (if mode = TSI then LocalHost else UnspecifiedAddress)
          (Itoa (unat (port :: u64))),
        HostSSHProxyListenAddr := hostAddr\<rparr>\<rparr>)"
proof (cases "mode = GVISOR")
  case True
  with assms obtain port where "b_spec b' = setGuestSSHAddr (JoinHostPort UnspecifiedAddress (Itoa (unat (port :: u64))))
      ((b_spec b)\<lparr>VirtualNetworkMode := mode,
        GVPCtlAddr := unixURL (GetGVPCtlSocketFile (pathMgr b)), GVPVNetAddr := vnetURL env (pathMgr b)\<rparr>)"
    by (auto simp: configureNetwork_def getNetworkStrategy_def gVisorConfigure_def andThen_Inr_iff
        onOS_Inr Let_def pathMgr_def vnetURL_def)
  with True show ?thesis
    by (intro conjI, simp) (rule exI [of _ port],
      rule exI [of _ "HostSSHProxyListenAddr (SSHInfo (b_spec b))"],
      rule exI [of _ "unixURL (GetGVPCtlSocketFile (pathMgr b))"], rule exI [of _ "vnetURL env (pathMgr b)"],
      simp add: setGuestSSHAddr_def)
next
  case False
  with assms have m: "mode = TSI"
    by (auto simp: configureNetwork_def getNetworkStrategy_def split: if_splits)
  obtain port where "b_spec b' = (b_spec b)\<lparr>VirtualNetworkMode := mode, SSHInfo := (SSHInfo (b_spec b))\<lparr>
        GuestSSHServerListenAddr := JoinHostPort LocalHost (Itoa (unat (port :: u64))),
        HostSSHProxyListenAddr := JoinHostPort LocalHost (Itoa (unat port))\<rparr>\<rparr>"
    using assms m by (auto simp: configureNetwork_def getNetworkStrategy_def tsiConfigure_def
        andThen_Inr_iff onOS_Inr Let_def)
  with m show ?thesis
    by (intro conjI, simp) (rule exI [of _ port],
      rule exI [of _ "JoinHostPort LocalHost (Itoa (unat port))"],
      rule exI [of _ "GVPCtlAddr (b_spec b)"], rule exI [of _ "GVPVNetAddr (b_spec b)"],
      simp add: GVISOR_def TSI_def)
qed

lemma applySystemProxy_spec:
  assumes "applySystemProxy env b = (Inr (), b')"
  shows "\<exists>ps. b_spec b' = (b_spec b)\<lparr>ProxySetting := ps\<rparr>"
proof (cases "he_sysproxy env = Inr None")
  case True
  with assms show ?thesis
    by (intro exI [of _ "ProxySetting (b_spec b)"]) (simp add: applySystemProxy_def)
next
  case False
  with assms show ?thesis
    by (auto simp: applySystemProxy_def Let_def split: sum.splits option.splits)
qed

lemma keepsB_cwd: "keepsB m \<Longrightarrow> m b = (r, b') \<Longrightarrow> os_cwd (b_os b') = os_cwd (b_os b)"
  by (simp add: keepsB_def bEnv_def osEnv_def)

lemma keepsOS_cwd: "keepsOS m \<Longrightarrow> m s = (r, t) \<Longrightarrow> os_cwd t = os_cwd s"
  by (simp add: keepsOS_def osEnv_def)

lemma withBuiltInAlpineRootfs_spec:
  assumes "env_keeps env" and "withBuiltInAlpineRootfs env b = (Inr (), b')"
  shows "b_spec b' = (b_spec b)\<lparr>RootFS := Abs (os_cwd (b_os b)) (Clean (GetRootfsDir (pathMgr b)))\<rparr>"
proof -
  let ?d = "GetRootfsDir (pathMgr b)"
  obtain s t where m: "os_MkdirAll ?d (b_os b) = (Inr (), s)" and x: "ExtractBuiltinRootfs env ?d s = (Inr (), t)"
    and u: "withUserProvidedRootfs ?d (b\<lparr>b_os := t\<rparr>) = (Inr (), b')"
    using assms(2) by (auto simp: withBuiltInAlpineRootfs_def andThen_Inr_iff onOS_Inr Let_def split: if_splits)
  have "os_cwd t = os_cwd (b_os b)"
    using keepsOS_cwd [OF keepsOS_calls(1) m] keepsOS_cwd [OF keepsOS_extractRootfs [OF assms(1)] x] by simp
  with u show ?thesis
    by (auto simp: withUserProvidedRootfs_def andThen_Inr_iff onOS_Inr Let_def split: if_splits)
qed

text \<open>The directories that mount flags share, with absolute sources.\<close>

definition sharedDirs :: "string \<Rightarrow> string list \<Rightarrow> Mount list" where
  "sharedDirs cwd dirs = map (\<lambda>m. m\<lparr>mnt_Source := Abs cwd (Clean (mnt_Source m))\<rparr>) (CmdLineMountToMounts dirs)"

lemma sharedDirs_append: "sharedDirs cwd (xs @ ys) = sharedDirs cwd xs @ sharedDirs cwd ys"
  by (simp add: sharedDirs_def CmdLineMountToMounts_def mountsLoop_eq)

lemma withUserProvidedMounts_spec:
  assumes "withUserProvidedMounts dirs b = (Inr (), b')"
  shows "b_spec b' = (b_spec b)\<lparr>Mounts := Mounts (b_spec b) @
    sharedDirs (os_cwd (b_os b)) dirs\<rparr>"
  using assms by (auto simp: withUserProvidedMounts_def sharedDirs_def CmdLineMountToMounts_def Let_def split: if_splits)

lemma withMountUserHome_spec:
  assumes "withMountUserHome b = (Inr (), b')"
  shows "\<exists>home. os_home (b_os b) = Inr home \<and> b_spec b' = (b_spec b)\<lparr>Mounts := Mounts (b_spec b) @
    sharedDirs (os_cwd (b_os b)) [home @ '':'' @ home]\<rparr>"
proof -
  obtain home where "os_home (b_os b) = Inr home" "withUserProvidedMounts [home @ '':'' @ home] b = (Inr (), b')"
    using assms by (auto simp: withMountUserHome_def andThen_Inr_iff onOS_Inr os_UserHomeDir_def)
  with withUserProvidedMounts_spec [OF this(2)] show ?thesis by blast
qed

lemma configurePodman_spec:
  assumes "configurePodman b = (Inr (), b')"
  shows "\<exists>port envs. b_spec b' = (b_spec b)\<lparr>PodmanInfo :=
    \<lparr>HostPodmanProxyAddr = unixURL (GetPodmanSocketFile (pathMgr b)),
     GuestPodmanAPIListenAddr =
       JoinHostPort (if VirtualNetworkMode (b_spec b) = TSI then LocalHost else UnspecifiedAddress)
         (Itoa (unat (port :: u64))),
     GuestPodmanRunWithEnvs = envs\<rparr>\<rparr>"
  using assms unfolding configurePodman_def Let_def
  by (fastforce simp: andThen_Inr_iff onOS_Inr)

text \<open>Where a configured disk lies, and the device that stands for it. A working directory is absolute.\<close>

definition diskPath :: "string \<Rightarrow> RawDisk \<Rightarrow> string" where
  "diskPath cwd d = Abs cwd (Clean (RawDiskPath d))"

definition attaches :: "string \<Rightarrow> RawDisk \<Rightarrow> BlkDev \<Rightarrow> bool" where
  "attaches cwd d dev \<longleftrightarrow> (IsAbs cwd \<longrightarrow> bd_Path dev = diskPath cwd d) \<and> (rd_Mnt d \<noteq> [] \<longrightarrow> bd_MountTo dev = rd_Mnt d)"

lemma diskPath_twice: "IsAbs cwd \<Longrightarrow> Abs cwd (Clean (Abs cwd p)) = Abs cwd p"
  by (simp add: Clean_Abs)

lemma addRAWDisk_spec:
  assumes "addRAWDiskToBlkList lib p mnt b = (Inr (), b')"
  shows "\<exists>dev. b_spec b' = (b_spec b)\<lparr>BlkDevs := BlkDevs (b_spec b) @ [dev]\<rparr> \<and>
    (IsAbs (os_cwd (b_os b)) \<longrightarrow> bd_Path dev = Abs (os_cwd (b_os b)) (Clean p)) \<and> (mnt \<noteq> [] \<longrightarrow> bd_MountTo dev = mnt)"
proof -
  let ?p = "Abs (os_cwd (b_os b)) (Clean p)"
  obtain info s where i: "Inspect lib ?p (b_os b) = (Inr info, s)"
    and b: "b_spec b' = (b_spec b)\<lparr>BlkDevs := BlkDevs (b_spec b) @ [\<lparr>bd_FsType = bd_FsType info, bd_UUID = bd_UUID info,
      bd_Path = bd_Path info, bd_MountTo = (if mnt \<noteq> [] then mnt else bd_MountTo info)\<rparr>]\<rparr>"
    using assms by (auto simp: addRAWDiskToBlkList_def andThen_Inr_iff onOS_Inr Let_def)
  have "IsAbs (os_cwd (b_os b)) \<longrightarrow> bd_Path info = ?p"
    using i by (auto simp: Inspect_def andThen_Inr_iff Let_def)
  then show ?thesis unfolding b by auto
qed

lemma reconcileVar_keeps_spec:
  "reconcileVarRAWDisk lib d s = (Inr d', t) \<Longrightarrow> rd_Mnt d' = rd_Mnt d \<and> RawDiskPath d' = RawDiskPath d"
  by (auto simp: reconcileVarRAWDisk_def andThen_Inr_iff Let_def
      split: prod.splits sum.splits if_splits)

lemma reconcileUser_keeps_spec:
  "reconcileUserProvidedRawDisk lib d s = (Inr d', t) \<Longrightarrow>
   (rd_Mnt d \<noteq> [] \<longrightarrow> rd_Mnt d' = rd_Mnt d) \<and> RawDiskPath d' = RawDiskPath d"
  by (auto simp: reconcileUserProvidedRawDisk_def handleExistingUserProvidedRawDisk_def createUserProvidedRawDisk_def
      andThen_Inr_iff Let_def split: prod.splits sum.splits if_splits)

lemma withVarDisk_spec:
  assumes "env_keeps env" and "withVarDisk (he_disk env) d b = (Inr (), b')"
  shows "\<exists>dev. b_spec b' = (b_spec b)\<lparr>BlkDevs := BlkDevs (b_spec b) @ [dev]\<rparr> \<and> attaches (os_cwd (b_os b)) d dev"
proof -
  let ?d = "d\<lparr>RawDiskPath := diskPath (os_cwd (b_os b)) d\<rparr>"
  obtain d' s where r: "reconcileVarRAWDisk (he_disk env) ?d (b_os b) = (Inr d', s)"
    and a: "addRAWDiskToBlkList (he_disk env) (RawDiskPath d') (rd_Mnt d') (b\<lparr>b_os := s\<rparr>) = (Inr (), b')"
    using assms(2) by (auto simp: withVarDisk_def absDiskPath_def diskPath_def andThen_Inr_iff onOS_Inr split: if_splits)
  have cwd: "os_cwd s = os_cwd (b_os b)" using keepsOS_cwd [OF keepsOS_reconcile(1) [OF assms(1)] r] .
  from addRAWDisk_spec [OF a] reconcileVar_keeps_spec [OF r] cwd show ?thesis
    by (auto simp: attaches_def diskPath_def diskPath_twice)
qed

lemma withUserProvidedRawDisk_spec:
  assumes "env_keeps env"
  shows "withUserProvidedRawDisk (he_disk env) ds b = (Inr (), b') \<Longrightarrow>
    \<exists>devs. list_all2 (attaches (os_cwd (b_os b))) ds devs \<and> b_spec b' = (b_spec b)\<lparr>BlkDevs := BlkDevs (b_spec b) @ devs\<rparr>"
proof (induction ds arbitrary: b)
  case (Cons d ds)
  let ?d = "d\<lparr>RawDiskPath := diskPath (os_cwd (b_os b)) d\<rparr>" and ?lib = "he_disk env"
  have "\<exists>d' s b1. reconcileUserProvidedRawDisk ?lib ?d (b_os b) = (Inr d', s) \<and>
      addRAWDiskToBlkList ?lib (RawDiskPath d') (rd_Mnt d') (b\<lparr>b_os := s\<rparr>) = (Inr (), b1) \<and>
      withUserProvidedRawDisk ?lib ds b1 = (Inr (), b')"
    using Cons.prems by (auto simp: absDiskPath_def diskPath_def andThen_Inr_iff onOS_Inr split: if_splits)
  then obtain d' s b1 where r: "reconcileUserProvidedRawDisk ?lib ?d (b_os b) = (Inr d', s)"
    and a: "addRAWDiskToBlkList ?lib (RawDiskPath d') (rd_Mnt d') (b\<lparr>b_os := s\<rparr>) = (Inr (), b1)"
    and w: "withUserProvidedRawDisk ?lib ds b1 = (Inr (), b')" by blast
  have cwd: "os_cwd s = os_cwd (b_os b)" using keepsOS_cwd [OF keepsOS_reconcile(2) [OF assms] r] .
  have "\<exists>dev. b_spec b1 = (b_spec b)\<lparr>BlkDevs := BlkDevs (b_spec b) @ [dev]\<rparr> \<and> attaches (os_cwd (b_os b)) d dev"
    using addRAWDisk_spec [OF a] reconcileUser_keeps_spec [OF r] cwd
    by (auto simp: attaches_def diskPath_def diskPath_twice)
  then obtain dev where b1: "b_spec b1 = (b_spec b)\<lparr>BlkDevs := BlkDevs (b_spec b) @ [dev]\<rparr>"
    and dev: "attaches (os_cwd (b_os b)) d dev" by blast
  have cwd1: "os_cwd (b_os b1) = os_cwd (b_os b)"
    using keepsB_cwd [OF keepsB_addRAWDisk a] cwd by simp
  obtain devs where "list_all2 (attaches (os_cwd (b_os b))) ds devs"
    and "b_spec b' = (b_spec b1)\<lparr>BlkDevs := BlkDevs (b_spec b1) @ devs\<rparr>"
    using Cons.IH [OF w] cwd1 by auto
  with b1 dev show ?case by (intro exI [of _ "dev # devs"]) simp
qed simp

lemma configureForwards_spec:
  assumes "configureForwards cfg b = (Inr (), b')"
  shows "\<exists>rules routes. parseForwardUnixRules (ForwardUnix cfg) = Inr rules \<and>
    BuildUnixSocketForwardRoutes rules = Inr routes \<and>
    b_spec b' = (b_spec b)\<lparr>UnixSocketForwards := rules\<rparr>"
  using assms by (auto simp: configureForwards_def andThen_Inr_iff)

lemma configureGuestAgent_spec:
  assumes "configureGuestAgent env extra b = (Inr (), b')"
  shows "b_spec b' = (b_spec b)\<lparr>IgnitionListenSockAddr := unixURL (GetIgnSocketFile (pathMgr b)),
    GuestAgentCfg := \<lparr>ga_Workdir = ''/'', ga_Args = [], ga_Env = guestAgentEnv env extra\<rparr>\<rparr>"
  using assms
  by (auto simp: configureGuestAgent_def andThen_Inr_iff onOS_Inr Let_def split: if_splits)

lemma configureVMCtlAPI_spec:
  assumes "configureVMCtlAPI b = (Inr (), b')"
  shows "b_spec b' = (b_spec b)\<lparr>VMCtlAddr := unixURL (GetVMCtlSocketFile (pathMgr b))\<rparr>"
  using assms by (auto simp: configureVMCtlAPI_def andThen_Inr_iff onOS_Inr Let_def)

lemma keepsB_pathMgr: "keepsB m \<Longrightarrow> m b = (r, b') \<Longrightarrow> pathMgr b' = pathMgr b"
  by (simp add: keepsB_def bEnv_def pathMgr_def)

lemma keepsB_env: "keepsB m \<Longrightarrow> m b = (r, b') \<Longrightarrow> bEnv b' = bEnv b"
  by (simp add: keepsB_def)

lemma bEnv_parts:
  "bEnv b' = bEnv b \<Longrightarrow> pathMgr b' = pathMgr b" "bEnv b' = bEnv b \<Longrightarrow> os_cwd (b_os b') = os_cwd (b_os b)"
  "bEnv b' = bEnv b \<Longrightarrow> os_home (b_os b') = os_home (b_os b)"
  by (simp_all add: bEnv_def osEnv_def pathMgr_def)

lemma optional_proxy_spec:
  assumes "(if c then wrapping msg (applySystemProxy env) else succeed ()) b = (Inr (), b')"
  shows "\<exists>ps. b_spec b' = (b_spec b)\<lparr>ProxySetting := ps\<rparr>"
proof (cases c)
  case True
  with assms show ?thesis by (intro applySystemProxy_spec) simp
next
  case False
  with assms show ?thesis by (intro exI [of _ "ProxySetting (b_spec b)"]) simp
qed

lemma optional_mounts_spec:
  assumes "(if dirs \<noteq> [] then wrapping msg (withUserProvidedMounts dirs) else succeed ()) b = (Inr (), b')"
  shows "b_spec b' = (b_spec b)\<lparr>Mounts := Mounts (b_spec b) @ sharedDirs (os_cwd (b_os b)) dirs\<rparr>"
proof (cases "dirs = []")
  case True
  with assms show ?thesis by (simp add: sharedDirs_def CmdLineMountToMounts_def)
next
  case False
  with assms show ?thesis using withUserProvidedMounts_spec [of dirs b b'] by simp
qed

text \<open>The description after all steps, as far as it is determined by the configuration and the
  workspace.\<close>

definition describes :: "host_env \<Rightarrow> Config \<Rightarrow> OS \<Rightarrow> machinePathManager \<Rightarrow> MachineSpec \<Rightarrow> bool" where
  "describes env cfg s pm sp \<longleftrightarrow>
     MemoryInMB sp = MemoryMB cfg \<and> 512 \<le> MemoryInMB sp \<and> Cpus sp = of_int (CPUs cfg) \<and> Cpus sp \<noteq> 0 \<and>
     VirtualNetworkMode sp = Network cfg \<and> (Network cfg = GVISOR \<or> Network cfg = TSI) \<and>
     (Network cfg = GVISOR \<longrightarrow> GVPVNetAddr sp = vnetURL env pm) \<and>
     LogFile sp = LogTo cfg \<and> RootFS sp = Abs (os_cwd s) (Clean (GetRootfsDir pm)) \<and>
     he_keygen env = Inr (HostSSHPrivateKey (SSHInfo sp), HostSSHPublicKey (SSHInfo sp)) \<and>
     HostSSHPrivateKeyFile (SSHInfo sp) = GetSSHPrivateKeyFile pm \<and>
     (\<exists>port :: u64. GuestSSHServerListenAddr (SSHInfo sp) =
        JoinHostPort (if Network cfg = TSI then LocalHost else UnspecifiedAddress) (Itoa (unat port))) \<and>
     IgnitionListenSockAddr sp = unixURL (GetIgnSocketFile pm) \<and>
     VMCtlAddr sp = unixURL (GetVMCtlSocketFile pm) \<and>
     HostPodmanProxyAddr (PodmanInfo sp) = unixURL (GetPodmanSocketFile pm) \<and>
     (\<exists>port :: u64. GuestPodmanAPIListenAddr (PodmanInfo sp) =
        JoinHostPort (if Network cfg = TSI then LocalHost else UnspecifiedAddress) (Itoa (unat port))) \<and>
     parseForwardUnixRules (ForwardUnix cfg) = Inr (UnixSocketForwards sp) \<and>
     ok (BuildUnixSocketForwardRoutes (UnixSocketForwards sp)) \<and>
     list_all2 (attaches (os_cwd s)) (VarDisk cfg # ExternalDisks cfg) (BlkDevs sp) \<and>
     (\<exists>home. os_home s = Inr home \<and>
        Mounts sp = sharedDirs (os_cwd s) ((home @ '':'' @ home) # cfg_Mounts cfg)) \<and>
     GuestAgentCfg sp = \<lparr>ga_Workdir = ''/'', ga_Args = [], ga_Env = guestAgentEnv env (Env cfg)\<rparr> \<and>
     TTY sp = (case he_isTerminal env of (i, o', e) \<Rightarrow> i \<and> o' \<and> e)"

lemma describes_env:
  "os_cwd s = os_cwd t \<Longrightarrow> os_home s = os_home t \<Longrightarrow> describes env cfg s pm sp \<longleftrightarrow> describes env cfg t pm sp"
  by (simp add: describes_def)

lemma andThen_unit_iff:
  fixes m :: "('s, unit) proc"
  shows "andThen m f s = (Inr x, t) \<longleftrightarrow> (\<exists>u. m s = (Inr (), u) \<and> f () u = (Inr x, t))"
  by (simp add: andThen_Inr_iff)

lemma buildSteps_describes:
  assumes keep: "env_keeps env" and blk: "BlkDevs (b_spec b) = []" "Mounts (b_spec b) = []"
    and run: "buildSteps env cfg b = (Inr (), b')"
  shows "describes env cfg (b_os b) (pathMgr b) (b_spec b')"
proof -
  obtain b1 b2 b3 b4 b5 b6 b7 b8 b9 b10 b11 b12 b13 b14 where
    1: "b1 = b\<lparr>b_spec := (b_spec b)\<lparr>LogFile := LogTo cfg\<rparr>\<rparr>" and
    2: "configureSSH env b1 = (Inr (), b2)" and
    3: "withResources (MemoryMB cfg) (of_int (CPUs cfg)) b2 = (Inr (), b3)" and
    4: "configureNetwork env (Network cfg) b3 = (Inr (), b4)" and
    5: "(if Proxy cfg then wrapping ''apply system proxy'' (applySystemProxy env) else succeed ()) b4 = (Inr (), b5)" and
    6: "withBuiltInAlpineRootfs env b5 = (Inr (), b6)" and
    7: "withMountUserHome b6 = (Inr (), b7)" and
    8: "configurePodman b7 = (Inr (), b8)" and
    9: "withVarDisk (he_disk env) (VarDisk cfg) b8 = (Inr (), b9)" and
    10: "withUserProvidedRawDisk (he_disk env) (ExternalDisks cfg) b9 = (Inr (), b10)" and
    11: "(if cfg_Mounts cfg \<noteq> [] then wrapping ''setup mounts'' (withUserProvidedMounts (cfg_Mounts cfg))
          else succeed ()) b10 = (Inr (), b11)" and
    12: "configureForwards cfg b11 = (Inr (), b12)" and
    13: "configureGuestAgent env (Env cfg) b12 = (Inr (), b13)" and
    14: "configureVMCtlAPI b13 = (Inr (), b14)" and 15: "detectTTY env b14 = (Inr (), b')"
    using run unfolding buildSteps_def
    by (simp only: andThen_unit_iff wrapping_Inr_iff setSpec_Inr) (elim exE conjE, rule that, assumption+)
  let ?cwd = "os_cwd (b_os b)"
  have proxy: "keepsB (if Proxy cfg then wrapping ''apply system proxy'' (applySystemProxy env) else succeed ())"
    and mounts: "keepsB (if cfg_Mounts cfg \<noteq> [] then wrapping ''setup mounts'' (withUserProvidedMounts (cfg_Mounts cfg))
      else succeed ())"
    by (auto intro!: keeps_intros)
  have e1: "bEnv b1 = bEnv b" using 1 by (simp add: bEnv_def)
  note steps = keepsB_configure(1) [THEN keepsB_env, OF 2] keepsB_configure(6) [THEN keepsB_env, OF 3]
    keepsB_network [THEN keepsB_env, OF 4] proxy [THEN keepsB_env, OF 5] keepsB_rootfs [OF keep, THEN keepsB_env, OF 6]
    keepsB_mounts(2) [THEN keepsB_env, OF 7] keepsB_configure(2) [THEN keepsB_env, OF 8]
    keepsB_disks(1) [OF keep, THEN keepsB_env, OF 9] keepsB_disks(2) [OF keep, THEN keepsB_env, OF 10]
    mounts [THEN keepsB_env, OF 11] keepsB_configure(7) [THEN keepsB_env, OF 12] keepsB_agent [THEN keepsB_env, OF 13]
  have pm: "pathMgr b1 = pathMgr b" "pathMgr b3 = pathMgr b" "pathMgr b5 = pathMgr b" "pathMgr b7 = pathMgr b"
    "pathMgr b12 = pathMgr b" "pathMgr b13 = pathMgr b"
    by (rule bEnv_parts(1); simp add: steps e1)+
  have home: "os_home (b_os b6) = os_home (b_os b)" by (rule bEnv_parts(3)) (simp add: steps e1)
  have cwd: "os_cwd (b_os b5) = ?cwd" "os_cwd (b_os b6) = ?cwd" "os_cwd (b_os b8) = ?cwd" "os_cwd (b_os b9) = ?cwd"
    "os_cwd (b_os b10) = ?cwd"
    by (rule bEnv_parts(2); simp add: steps e1)+
  obtain priv pub where k: "he_keygen env = Inr (priv, pub)" and
    s2: "b_spec b2 = (b_spec b1)\<lparr>SSHInfo :=
      \<lparr>HostSSHPrivateKeyFile = GetSSHPrivateKeyFile (pathMgr b1), HostSSHPublicKey = pub,
       HostSSHPrivateKey = priv, HostSSHProxyListenAddr = [], GuestSSHServerListenAddr = [],
       GuestSSHPrivateKeyFile = ''/run/dropbear/private.key'',
       GuestSSHAuthorizedKeys = ''/run/dropbear/authorized_keys'',
       GuestSSHPidFile = ''/run/dropbear/dropbear.pid''\<rparr>\<rparr>"
    using configureSSH_spec [OF 2] by blast
  obtain dev where s9: "b_spec b9 = (b_spec b8)\<lparr>BlkDevs := BlkDevs (b_spec b8) @ [dev]\<rparr>"
    and dev: "attaches ?cwd (VarDisk cfg) dev"
    using withVarDisk_spec [OF keep 9] by (auto simp: cwd)
  obtain devs where devs: "list_all2 (attaches ?cwd) (ExternalDisks cfg) devs"
    and s10: "b_spec b10 = (b_spec b9)\<lparr>BlkDevs := BlkDevs (b_spec b9) @ devs\<rparr>"
    using withUserProvidedRawDisk_spec [OF keep 10] by (auto simp: cwd)
  obtain port hostAddr ctl vnet where net: "Network cfg = GVISOR \<or> Network cfg = TSI"
    "Network cfg = GVISOR \<longrightarrow> vnet = vnetURL env (pathMgr b)"
    and s4: "b_spec b4 = (b_spec b3)\<lparr>VirtualNetworkMode := Network cfg, GVPCtlAddr := ctl, GVPVNetAddr := vnet,
      SSHInfo := (SSHInfo (b_spec b3))\<lparr>
        GuestSSHServerListenAddr := JoinHostPort (if Network cfg = TSI then LocalHost else UnspecifiedAddress)
          (Itoa (unat (port :: u64))),
        HostSSHProxyListenAddr := hostAddr\<rparr>\<rparr>"
    using configureNetwork_spec [OF 4] unfolding pm by blast
  obtain ps h where h: "os_home (b_os b) = Inr h" and s5: "b_spec b5 = (b_spec b4)\<lparr>ProxySetting := ps\<rparr>"
    and s6: "b_spec b6 = (b_spec b5)\<lparr>RootFS := Abs ?cwd (Clean (GetRootfsDir (pathMgr b)))\<rparr>"
    and s7: "b_spec b7 = (b_spec b6)\<lparr>Mounts := Mounts (b_spec b6) @ sharedDirs ?cwd [h @ '':'' @ h]\<rparr>"
    using optional_proxy_spec [OF 5] withBuiltInAlpineRootfs_spec [OF keep 6] withMountUserHome_spec [OF 7]
    unfolding cwd pm home by blast
  obtain pport envs where s8: "b_spec b8 = (b_spec b7)\<lparr>PodmanInfo :=
      \<lparr>HostPodmanProxyAddr = unixURL (GetPodmanSocketFile (pathMgr b7)),
       GuestPodmanAPIListenAddr =
         JoinHostPort (if VirtualNetworkMode (b_spec b7) = TSI then LocalHost else UnspecifiedAddress)
           (Itoa (unat (pport :: u64))),
       GuestPodmanRunWithEnvs = envs\<rparr>\<rparr>"
    using configurePodman_spec [OF 8] by blast
  have s11: "b_spec b11 = (b_spec b10)\<lparr>Mounts := Mounts (b_spec b10) @ sharedDirs ?cwd (cfg_Mounts cfg)\<rparr>"
    using optional_mounts_spec [OF 11] unfolding cwd .
  have s15: "b_spec b' = (b_spec b14)\<lparr>TTY := (case he_isTerminal env of (i, o', e) \<Rightarrow> i \<and> o' \<and> e)\<rparr>"
    using 15 by (simp add: detectTTY_def)
  obtain rules routes where rules: "parseForwardUnixRules (ForwardUnix cfg) = Inr rules" "BuildUnixSocketForwardRoutes rules = Inr routes"
    and s12: "b_spec b12 = (b_spec b11)\<lparr>UnixSocketForwards := rules\<rparr>"
    using configureForwards_spec [OF 12] by blast
  note specs = s2 withResources_spec [OF 3, THEN conjunct2, THEN conjunct2] s4 s5 s6 s7 s8 s9 s10 s11 s12
    configureGuestAgent_spec [OF 13] configureVMCtlAPI_spec [OF 14] s15
  have res: "(of_int (CPUs cfg) :: u8) \<noteq> 0" "512 \<le> MemoryMB cfg" using withResources_spec [OF 3] by auto
  have b1: "BlkDevs (b_spec b1) = []" "Mounts (b_spec b1) = []" "LogFile (b_spec b1) = LogTo cfg" using 1 blk by simp_all
  show ?thesis
    unfolding describes_def
    by (simp only: specs pm) (simp add: k net res rules b1 dev devs h sharedDirs_append [symmetric]; blast)
qed

lemma buildMachine_ok:
  assumes "buildMachine env cfg ws s = (Inr cb, b)"
  obtains b1 where "setupWorkspace env ws (newMachineBuilder ContainerMode s) = (Inr (), b1)"
    and "buildSteps env cfg b1 = (Inr (), b)" and "cb = machineCleanup ws"
    and "cfg_RunMode cfg = ModeContainer"
  using assms
  by (auto simp: buildMachine_def CleanIfErr_def Let_def split: if_splits prod.splits sum.splits)

subsection \<open>Links\<close>

lemma createSymlink_ok:
  assumes "createSymlink target p s = (Inr (), t)" and "imagePath p"
  shows "nodeAt t p = Some (Symlink target)" and "onlyAt p s t"
proof -
  obtain s1 s2 where m: "os_MkdirAll (Dir p) s = (Inr (), s1)" and r: "removeIfExists p s1 = (Inr (), s2)"
    and l: "os_Symlink target p s2 = (Inr (), t)"
    using assms(1) by (auto simp: createSymlink_def andThen_Inr_iff)
  have t: "t = setNode p (Symlink target) s2" and n: "nodeAt s2 p = None"
    using l assms(2) by (auto simp: os_Symlink_def Let_def split: if_splits)
  have root: "p \<noteq> [sep]" using n by (auto simp: nodeAt_def)
  show "nodeAt t p = Some (Symlink target)" using t root by (simp add: os_simps)
  have "s2 = s1 \<or> s2 = delNode p s1"
    using r assms(2) by (auto simp: removeIfExists_def os_Remove_def Let_def split: if_splits option.splits)
  then have "onlyAt p s1 s2" using onlyAt_delNode [OF root] by auto
  then show "onlyAt p s t"
    using onlyAt_addsDirs [OF os_MkdirAll_addsDirs [OF m]] onlyAt_setNode [OF root] t
    by (metis onlyAt_trans)
qed

lemma linkIf_ok:
  assumes "linkIf msg target p s = (Inr (), t)" and "p \<noteq> [] \<longrightarrow> imagePath p"
  shows "p \<noteq> [] \<longrightarrow> nodeAt t p = Some (Symlink target)"
    and "q \<noteq> p \<or> p = [] \<Longrightarrow> nodeAt s q = Some n \<Longrightarrow> nodeAt t q = Some n"
  using assms createSymlink_ok [of target p s t]
  by (auto simp: linkIf_def onlyAt_def split: if_splits)

lemma distinct_filter_hd: "distinct (filter P (x # xs)) \<Longrightarrow> P x \<Longrightarrow> x \<notin> set xs"
  by auto

lemma distinct_filter_tl: "distinct (filter P (x # xs)) \<Longrightarrow> distinct (filter P xs)"
  by (simp split: if_splits)

lemma linksLoop_ok:
  assumes "linkIf m1 t1 p1 s = (Inr (), s1)" and "linkIf m2 t2 p2 s1 = (Inr (), s2)"
    and "linkIf m3 t3 p3 s2 = (Inr (), s3)" and "linkIf m4 t4 p4 s3 = (Inr (), t)"
    and "\<forall>p \<in> set [p1, p2, p3, p4]. p \<noteq> [] \<longrightarrow> imagePath p"
    and "distinct (filter (\<lambda>p. p \<noteq> []) [p1, p2, p3, p4])"
  shows "\<forall>(p, tg) \<in> set [(p1, t1), (p2, t2), (p3, t3), (p4, t4)]. p \<noteq> [] \<longrightarrow> nodeAt t p = Some (Symlink tg)"
proof -
  have i: "p1 \<noteq> [] \<longrightarrow> imagePath p1" "p2 \<noteq> [] \<longrightarrow> imagePath p2" "p3 \<noteq> [] \<longrightarrow> imagePath p3"
      "p4 \<noteq> [] \<longrightarrow> imagePath p4"
    using assms(5) unfolding list.set by blast+
  note l1 = linkIf_ok [OF assms(1) i(1)] and l2 = linkIf_ok [OF assms(2) i(2)]
    and l3 = linkIf_ok [OF assms(3) i(3)] and l4 = linkIf_ok [OF assms(4) i(4)]
  note d2 = distinct_filter_tl [OF assms(6)] and d3 = distinct_filter_tl [OF distinct_filter_tl [OF assms(6)]]
  have d: "p1 \<noteq> [] \<Longrightarrow> p1 \<noteq> p2 \<and> p1 \<noteq> p3 \<and> p1 \<noteq> p4" "p2 \<noteq> [] \<Longrightarrow> p2 \<noteq> p3 \<and> p2 \<noteq> p4"
      "p3 \<noteq> [] \<Longrightarrow> p3 \<noteq> p4"
    using distinct_filter_hd [OF assms(6)] distinct_filter_hd [OF d2] distinct_filter_hd [OF d3] by simp_all
  have "p3 \<noteq> [] \<longrightarrow> nodeAt t p3 = Some (Symlink t3)"
    using l3(1) l4(2) [of p3] d(3) by blast
  moreover have "p2 \<noteq> [] \<longrightarrow> nodeAt t p2 = Some (Symlink t2)"
    using l2(1) l3(2) [of p2] l4(2) [of p2] d(2) by blast
  moreover have "p1 \<noteq> [] \<longrightarrow> nodeAt t p1 = Some (Symlink t1)"
    using l1(1) l2(2) [of p1] l3(2) [of p1] l4(2) [of p1] d(1) by blast
  ultimately show ?thesis using l4(1) by simp
qed

subsection \<open>Properties\<close>

lemma buildMachine_describes:
  assumes "env_keeps env" and "buildMachine env cfg ws s = (Inr cb, b)"
  shows "describes env cfg s (newMachinePathManager (Abs (os_cwd s) (Clean ws))) (b_spec b) \<and>
    WorkspaceDir (b_spec b) = Abs (os_cwd s) (Clean ws)"
proof -
  let ?b0 = "newMachineBuilder ContainerMode s" and ?w = "Abs (os_cwd s) (Clean ws)"
  obtain b1 where u: "setupWorkspace env ws ?b0 = (Inr (), b1)" and st: "buildSteps env cfg b1 = (Inr (), b)"
    using assms(2) by (rule buildMachine_ok)
  have "b_os ?b0 = s" and "BlkDevs (b_spec ?b0) = []" and "Mounts (b_spec ?b0) = []"
    by (simp_all add: newMachineBuilder_def emptyMachine_def)
  with setupWorkspace_ok [OF u] have "pathMgr b1 = newMachinePathManager ?w" and "os_cwd (b_os b1) = os_cwd s" and "os_home (b_os b1) = os_home s"
    and "BlkDevs (b_spec b1) = []" and "Mounts (b_spec b1) = []" and "WorkspaceDir (b_spec b1) = ?w"
    by (simp_all add: pathMgr_def)
  moreover have "WorkspaceDir (b_spec b) = WorkspaceDir (b_spec b1)"
    using keepsB_buildSteps [OF assms(1)] st by (auto simp: keepsB_def bEnv_def)
  ultimately show ?thesis
    using buildSteps_describes [OF assms(1) _ _ st] describes_env [of "b_os b1" s] by simp
qed

text \<open>C17. A built machine matches its configuration: when \<open>buildMachine\<close> succeeds, the
  description has the configured memory (at least 512 MB) and CPUs (at least one) and network
  mode; the generated SSH key pair together with the guest's SSH address, which the network
  step adds after the key step; the addresses of the ignition, control and Podman sockets of
  this workspace; the parsed forwarding rules, for which routes exist; one device for the var disk and
  then one per external disk, at the configured paths and mount points; the home directory and the
  configured directories as shares, with absolute sources; and the guest agent's environment.\<close>

theorem built_machine_description:
  assumes "env_keeps env" and "buildMachine env cfg ws s = (Inr cb, b)"
  shows "describes env cfg s (newMachinePathManager (Abs (os_cwd s) (Clean ws))) (b_spec b) \<and>
    WorkspaceDir (b_spec b) = Abs (os_cwd s) (Clean ws)"
  using assms by (rule buildMachine_describes)

lemma failed_build_effect:
  assumes "env_keeps env" and "imagePath ws" and "ws \<noteq> ''/''" and "\<not> os_fault s ''remove'' ws"
    and "setupWorkspace env ws (newMachineBuilder ContainerMode s) = (Inr (), b1)"
    and "buildMachine env cfg ws s = (Inl e, b)" and "cfg_RunMode cfg = ModeContainer"
    and "q = ws \<or> under ws q"
  shows "nodeAt (b_os b) q = None \<and> lockFile ws \<in> set (os_locks (b_os b1)) \<and>
    lockFile ws \<notin> set (os_locks (b_os b))"
proof -
  have b0: "b_os (newMachineBuilder ContainerMode s) = s" by (simp add: newMachineBuilder_def)
  note u = setupWorkspace_ok [OF assms(5), unfolded b0]
  have w: "Abs (os_cwd s) (Clean ws) = ws" using assms(2) by simp
  obtain e' b2 where st: "buildSteps env cfg b1 = (Inl e', b2)"
    and b: "b = snd (DoClean (machineCleanup ws) b2)"
    using assms(5-7) by (auto simp: buildMachine_def CleanIfErr_def DoClean_def Let_def
        split: prod.splits sum.splits)
  have "bEnv b2 = bEnv b1"
    using keepsB_buildSteps [OF assms(1), of cfg] st by (simp add: keepsB_def)
  then have "b_fileLock b2 = Some (lockFile ws)" and "\<not> os_fault (b_os b2) ''remove'' ws"
    using u w assms(4) by (auto simp: bEnv_def osEnv_def)
  then show ?thesis
    using cleanup_effect [OF assms(2,3), of b2 "lockFile ws" q] assms(8) b u(7) w by simp
qed

text \<open>C16. A failed build leaves nothing behind: when any step after the workspace was locked
  fails, and the workspace can be removed, nothing exists any more at or below the workspace
  directory and the workspace lock is released.\<close>

theorem failed_build_cleans_up:
  assumes "env_keeps env" and "imagePath ws" and "ws \<noteq> ''/''" and "\<not> os_fault s ''remove'' ws"
    and "setupWorkspace env ws (newMachineBuilder ContainerMode s) = (Inr (), b1)"
    and "buildMachine env cfg ws s = (Inl e, b)" and "cfg_RunMode cfg = ModeContainer"
    and "q = ws \<or> under ws q"
  shows "nodeAt (b_os b) q = None \<and> lockFile ws \<in> set (os_locks (b_os b1)) \<and>
    lockFile ws \<notin> set (os_locks (b_os b))"
  using assms by (rule failed_build_effect)

definition sampleEnv :: host_env where
  "sampleEnv = \<lparr>he_disk = sampleLib, he_keygen = Inl (ErrLib ''no entropy''), he_sysproxy = Inr None,
     he_extractRootfs = (\<lambda>_ s. (Inr (), s)), he_executable = Inr ''/opt/bin/revm'', he_logLevel = ''info'',
     he_isTerminal = (False, False, False), he_lock = (\<lambda>_. Locked), he_linux = True\<rparr>"

lemma sampleEnv_keeps: "env_keeps sampleEnv"
  by (auto simp: env_keeps_def keepsOS_def sampleEnv_def sampleLib_def split: if_splits)

theorem failed_build_cleans_up_witness:
  "\<exists>e b. buildMachine sampleEnv sampleConfig ''/tmp/s'' sampleOS = (Inl e, b) \<and>
     nodeAt (b_os b) ''/tmp/s/ssh'' = None"
proof -
  let ?r = "buildMachine sampleEnv sampleConfig ''/tmp/s'' sampleOS"
  let ?u = "setupWorkspace sampleEnv ''/tmp/s'' (newMachineBuilder ContainerMode sampleOS)"
  have "\<not> ok (fst ?r)" by code_simp
  then obtain e b where r: "?r = (Inl e, b)"
    by (metis ok_simps(1) prod.collapse sum.exhaust)
  have "fst ?u = Inr ()" by code_simp
  then obtain b1 where u: "?u = (Inr (), b1)" by (metis prod.collapse)
  have pre: "imagePath ''/tmp/s''" "\<not> os_fault sampleOS ''remove'' ''/tmp/s''"
      "cfg_RunMode sampleConfig = ModeContainer" "under ''/tmp/s'' ''/tmp/s/ssh''"
    by code_simp+
  from failed_build_cleans_up [OF sampleEnv_keeps pre(1) _ pre(2) u r pre(3)] pre(4) r
  show ?thesis by auto
qed

text \<open>A build that succeeds. The hash of the mount tags and the rendering of addresses are left
  unevaluated here.\<close>

definition sampleBuildEnv :: host_env where
  "sampleBuildEnv = sampleEnv\<lparr>he_keygen := Inr (''PRIV'', ''PUB''),
     he_extractRootfs := (\<lambda>d s. (Inr (), setNode (d @ ''/bin/sh'') (File ''#!'' []) s))\<rparr>"

definition sampleBuildOS :: OS where
  "sampleBuildOS = sampleOS\<lparr>os_fs := [(''/opt'', Directory), (''/opt/helper'', Directory),
     (''/opt/helper/guest-agent'', File ''ELF'' [])]\<rparr>"

definition sampleBuildConfig :: Config where
  "sampleBuildConfig = sampleConfig\<lparr>Network := TSI, CPUs := 4, MemoryMB := 2048\<rparr>"

declare sha256_hex_def [code del]
declare unixURL_def [code del]
declare JoinHostPort_def [code del]
declare Itoa.simps [code del]

lemma sample_build_ok: "ok (fst (buildMachine sampleBuildEnv sampleBuildConfig ''/tmp/s'' sampleBuildOS))"
  by code_simp

declare sha256_hex_def [code]
declare unixURL_def [code]
declare JoinHostPort_def [code]
declare Itoa.simps [code]

theorem built_machine_description_witness:
  "\<exists>cb b. buildMachine sampleBuildEnv sampleBuildConfig ''/tmp/s'' sampleBuildOS = (Inr cb, b) \<and>
     describes sampleBuildEnv sampleBuildConfig sampleBuildOS (newMachinePathManager ''/tmp/s'') (b_spec b) \<and>
     WorkspaceDir (b_spec b) = ''/tmp/s''"
proof -
  obtain cb b where r: "buildMachine sampleBuildEnv sampleBuildConfig ''/tmp/s'' sampleBuildOS = (Inr cb, b)"
    using sample_build_ok
    by (cases "buildMachine sampleBuildEnv sampleBuildConfig ''/tmp/s'' sampleBuildOS")
      (auto simp: ok_def split: sum.splits)
  have e: "env_keeps sampleBuildEnv"
    by (simp add: env_keeps_def sampleBuildEnv_def sampleEnv_def sampleLib_def keepsOS_def osEnv_def
        setNode_def)
  have "Abs (os_cwd sampleBuildOS) (Clean ''/tmp/s'') = ''/tmp/s''" by code_simp
  then show ?thesis using built_machine_description [OF e r] r by simp
qed

text \<open>Links for external tools: after \<open>createUserSymlinks\<close> succeeds, every configured link
  path (they are different) is a symbolic link to the socket or key file of the session it
  stands for.\<close>

theorem user_links_created:
  assumes "createUserSymlinks cfg dir s = (Inr (), t)"
    and "\<forall>p \<in> set [PodmanProxyAPIFile cfg, ManageAPIFile cfg, SSHKeyPrivateFileSymbolLinks cfg,
      SSHKeyPublicFileSymbolLinks cfg]. p \<noteq> [] \<longrightarrow> imagePath p"
    and "distinct (filter (\<lambda>p. p \<noteq> []) [PodmanProxyAPIFile cfg, ManageAPIFile cfg,
      SSHKeyPrivateFileSymbolLinks cfg, SSHKeyPublicFileSymbolLinks cfg])"
  defines "pm \<equiv> newMachinePathManager dir"
  shows "\<forall>(p, tg) \<in> set [(PodmanProxyAPIFile cfg, GetPodmanSocketFile pm),
      (ManageAPIFile cfg, GetVMCtlSocketFile pm),
      (SSHKeyPrivateFileSymbolLinks cfg, GetSSHPrivateKeyFile pm),
      (SSHKeyPublicFileSymbolLinks cfg, GetSSHPrivateKeyFile pm @ ''.pub'')].
    p \<noteq> [] \<longrightarrow> nodeAt t p = Some (Symlink tg)"
proof -
  obtain s1 s2 s3 where
    "linkIf ''podman proxy socket'' (GetPodmanSocketFile pm) (PodmanProxyAPIFile cfg) s = (Inr (), s1)"
    "linkIf ''vmctl socket'' (GetVMCtlSocketFile pm) (ManageAPIFile cfg) s1 = (Inr (), s2)"
    "linkIf ''ssh private key'' (GetSSHPrivateKeyFile pm) (SSHKeyPrivateFileSymbolLinks cfg) s2 = (Inr (), s3)"
    "linkIf ''ssh public key'' (GetSSHPrivateKeyFile pm @ ''.pub'') (SSHKeyPublicFileSymbolLinks cfg) s3 = (Inr (), t)"
    using assms(1) unfolding createUserSymlinks_def pm_def Let_def andThen_unit_iff by blast
  from linksLoop_ok [OF this assms(2,3)] show ?thesis .
qed

definition sampleLinkConfig :: Config where
  "sampleLinkConfig = sampleConfig\<lparr>ManageAPIFile := ''/home/u/vmctl.sock''\<rparr>"

theorem user_links_created_witness:
  "\<exists>t. createUserSymlinks sampleLinkConfig ''/tmp/s'' sampleOS = (Inr (), t) \<and>
     nodeAt t ''/home/u/vmctl.sock'' = Some (Symlink ''/tmp/s/socks/vmctl.sock'')"
proof -
  let ?r = "createUserSymlinks sampleLinkConfig ''/tmp/s'' sampleOS"
  have "fst ?r = Inr ()" by code_simp
  then obtain t where r: "?r = (Inr (), t)" by (metis prod.collapse)
  have pre: "\<forall>p \<in> set [PodmanProxyAPIFile sampleLinkConfig, ManageAPIFile sampleLinkConfig,
      SSHKeyPrivateFileSymbolLinks sampleLinkConfig, SSHKeyPublicFileSymbolLinks sampleLinkConfig].
      p \<noteq> [] \<longrightarrow> imagePath p"
    "distinct (filter (\<lambda>p. p \<noteq> []) [PodmanProxyAPIFile sampleLinkConfig, ManageAPIFile sampleLinkConfig,
      SSHKeyPrivateFileSymbolLinks sampleLinkConfig, SSHKeyPublicFileSymbolLinks sampleLinkConfig])"
    by code_simp+
  have "ManageAPIFile sampleLinkConfig = ''/home/u/vmctl.sock''"
    "GetVMCtlSocketFile (newMachinePathManager ''/tmp/s'') = ''/tmp/s/socks/vmctl.sock''"
    by code_simp+
  with user_links_created [OF r pre] r show ?thesis by auto
qed

end
