(* ===== verification/Krun.thy ===== *)
theory Krun
  imports Machine
begin

text \<open>
  \<open>pkg/libkrun\<close>: how the hypervisor library is driven. The library is a C library outside
  the repository; what the program does with it is the sequence of calls it makes, so a call is
  a value of \<open>krunCall\<close>, the state keeps the calls made so far in order, and what a call
  returns is a parameter (\<open>ke_ret\<close>). The constants are those of \<open>include/libkrun.h\<close>.

  Most calls go through \<open>must\<close>, which panics on a non-zero result, some return an error, and
  three results are ignored. Strings cross to C through \<open>C.CString\<close>, so the library sees them up
  to their first NUL byte (\<open>cstr\<close>).
\<close>

subsection \<open>Calls\<close>

datatype krunCall =
    krun_init_log int u32 u32 u32
  | krun_create_ctx
  | krun_set_vm_config u32 u8 u32
  | krun_set_rlimits u32 "string list"
  | krun_set_root u32 string
  | krun_set_workdir u32 string
  | krun_set_exec u32 string "string list" "string list"
  | krun_disable_implicit_console u32
  | krun_add_virtio_console_multiport u32
  | krun_add_console_port_tty u32 u32 string int
  | krun_add_console_port_inout u32 u32 string int int
  | krun_disable_implicit_vsock u32
  | krun_add_vsock u32 u32
  | krun_add_vsock_port2 u32 u32 string bool
  | krun_add_net_unixstream u32 string int "u8 list" u32 u32
  | krun_add_net_unixgram u32 string int "u8 list" u32 u32
  | krun_add_disk2 u32 string string u32 bool
  | krun_add_virtiofs2 u32 string string u64
  | krun_set_gpu_options u32 u32
  | krun_check_nested_virt
  | krun_set_nested_virt u32 bool
  | krun_start_enter u32

record krun_env =
  ke_ret :: "krunCall \<Rightarrow> int"
  ke_debug :: string
  ke_linux :: bool
  ke_dup :: "int res"
  ke_pty :: "(int \<times> int) res"
  ke_logFd :: int

text \<open>The VM with its files; \<open>kv_pipes\<close> are the descriptor pairs \<open>os.Pipe\<close> returns next,
  \<open>kv_signals\<close> the names written to the signal pipe.\<close>

record krunVM =
  kv_cfg :: MachineSpec
  kv_ctxID :: u32
  kv_stdin :: "int option"
  kv_stdout :: "int option"
  kv_stderr :: "int option"
  kv_consolePty :: "(int \<times> int) option"
  kv_guestLog :: "int option"
  kv_signalPipeW :: "int option"
  kv_os :: OS
  kv_pipes :: "(int \<times> int) list"
  kv_calls :: "krunCall list"
  kv_signals :: "string list"

definition newKrun :: "MachineSpec \<Rightarrow> OS \<Rightarrow> (int \<times> int) list \<Rightarrow> krunVM" where
  "newKrun cfg os pipes = \<lparr>kv_cfg = cfg, kv_ctxID = 0, kv_stdin = None, kv_stdout = None,
     kv_stderr = None, kv_consolePty = None, kv_guestLog = None, kv_signalPipeW = None,
     kv_os = os, kv_pipes = pipes, kv_calls = [], kv_signals = []\<rparr>"

subsection \<open>Helpers (vm.go)\<close>

definition cstr :: "string \<Rightarrow> string" where
  "cstr s = takeWhile (\<lambda>c. c \<noteq> CHR 0x00) s"

definition cstrings :: "string list \<Rightarrow> string list" where
  "cstrings strs = map cstr strs"

definition logLevel :: "string \<Rightarrow> u32" where
  "logLevel env =
     (if env = ''trace'' then 5
      else if env = ''debug'' \<or> env = ''1'' then 4
      else if env = ''info'' then 3
      else if env = ''warn'' then 2
      else 1)"

definition krun :: "krun_env \<Rightarrow> krunCall \<Rightarrow> (krunVM, int) proc" where
  "krun env c v = (Inr (ke_ret env c), v\<lparr>kv_calls := kv_calls v @ [c]\<rparr>)"

definition errCode :: goerr where "errCode = ErrLib ''libkrun error''"

definition must :: "int \<Rightarrow> (krunVM, unit) proc" where
  "must ret = (if ret \<noteq> 0 then failWith (Panicked ''libkrun error'') else succeed ())"

definition retErr :: "int \<Rightarrow> (krunVM, unit) proc" where
  "retErr ret = (if ret \<noteq> 0 then failWith errCode else succeed ())"

definition mustKrun :: "krun_env \<Rightarrow> krunCall \<Rightarrow> (krunVM, unit) proc" where
  "mustKrun env c = andThen (krun env c) must"

definition tryKrun :: "krun_env \<Rightarrow> krunCall \<Rightarrow> (krunVM, unit) proc" where
  "tryKrun env c = andThen (krun env c) retErr"

definition onKrunOS :: "(OS, 'a) proc \<Rightarrow> (krunVM, 'a) proc" where
  "onKrunOS m v = (case m (kv_os v) of (r, s) \<Rightarrow> (r, v\<lparr>kv_os := s\<rparr>))"

definition krunPipe :: "(krunVM, int \<times> int) proc" where
  "krunPipe v =
     (case kv_pipes v of
        [] \<Rightarrow> (Inl (Panicked ''pipe''), v)
      | p # ps \<Rightarrow> (Inr p, v\<lparr>kv_pipes := ps\<rparr>))"

subsection \<open>Context, resources, root file system, guest agent (vm.go)\<close>

definition krunInit :: "krun_env \<Rightarrow> (krunVM, unit) proc" where
  "krunInit env =
     andThen (tryKrun env (krun_init_log (-1) (logLevel (ke_debug env)) 0 1)) (\<lambda>_.
     andThen (krun env krun_create_ctx) (\<lambda>ctxID.
       if ctxID < 0 then failWith errCode
       else modifyState (\<lambda>v. v\<lparr>kv_ctxID := of_int ctxID\<rparr>)))"

definition setResources :: "krun_env \<Rightarrow> (krunVM, unit) proc" where
  "setResources env v =
     andThen (mustKrun env (krun_set_vm_config (kv_ctxID v) (Cpus (kv_cfg v))
         (ucast (MemoryInMB (kv_cfg v))))) (\<lambda>_.
       mustKrun env (krun_set_rlimits (kv_ctxID v) (cstrings [''6=4096:8192'']))) v"

definition setRootFS :: "krun_env \<Rightarrow> (krunVM, unit) proc" where
  "setRootFS env v = mustKrun env (krun_set_root (kv_ctxID v) (cstr (RootFS (kv_cfg v)))) v"

definition setGuestAgent :: "krun_env \<Rightarrow> (krunVM, unit) proc" where
  "setGuestAgent env v =
     (let ga = GuestAgentCfg (kv_cfg v)
      in andThen (mustKrun env (krun_set_workdir (kv_ctxID v) (cstr (ga_Workdir ga)))) (\<lambda>_.
           mustKrun env (krun_set_exec (kv_ctxID v) (cstr GuestAgentPathInGuest)
             (cstrings (ga_Args ga)) (cstrings (ga_Env ga)))) v)"

definition setupGPU :: "krun_env \<Rightarrow> (krunVM, unit) proc" where
  "setupGPU env v =
     (if ke_linux env then (Inr (), v)
      else andThen (krun env (krun_set_gpu_options (kv_ctxID v) (2 ^ 6 + 2 ^ 7))) (\<lambda>_. succeed ()) v)"

definition setupNestedVirt :: "krun_env \<Rightarrow> (krunVM, unit) proc" where
  "setupNestedVirt env v =
     andThen (krun env krun_check_nested_virt) (\<lambda>r.
       if r = 1 then andThen (krun env (krun_set_nested_virt (kv_ctxID v) True)) (\<lambda>_. succeed ())
       else succeed ()) v"

subsection \<open>Console ports (console.go)\<close>

definition addMainConsole :: "krun_env \<Rightarrow> int \<Rightarrow> (krunVM, unit) proc" where
  "addMainConsole env consoleID v =
     andThen (if TTY (kv_cfg v) then lift (ke_dup env)
              else andThen (lift (ke_pty env)) (\<lambda>(master, slave).
                   andThen (modifyState (\<lambda>v. v\<lparr>kv_consolePty := Some (master, slave)\<rparr>)) (\<lambda>_.
                   succeed slave))) (\<lambda>fd.
       tryKrun env (krun_add_console_port_tty (kv_ctxID v) (of_int consoleID)
         ''default-tty-console'' fd)) v"

definition addStdioRedirect :: "krun_env \<Rightarrow> int \<Rightarrow> (krunVM, unit) proc" where
  "addStdioRedirect env consoleID v =
     andThen krunPipe (\<lambda>(stdinR, stdinW).
     andThen krunPipe (\<lambda>(stdoutR, stdoutW).
     andThen krunPipe (\<lambda>(stderrR, stderrW).
     andThen (forEach (\<lambda>(name, i, o').
         tryKrun env (krun_add_console_port_inout (kv_ctxID v) (of_int consoleID) name i o'))
       [(''krun-stdin'', stdinR, -1), (''krun-stdout'', -1, stdoutW), (''krun-stderr'', -1, stderrW)]) (\<lambda>_.
     modifyState (\<lambda>v. v\<lparr>kv_stdin := Some stdinR, kv_stdout := Some stdoutW,
       kv_stderr := Some stderrW\<rparr>))))) v"

definition addLogAndSignal :: "krun_env \<Rightarrow> int \<Rightarrow> (krunVM, unit) proc" where
  "addLogAndSignal env consoleID v =
     andThen krunPipe (\<lambda>(sigR, sigW).
     andThen (modifyState (\<lambda>v. v\<lparr>kv_signalPipeW := Some sigW\<rparr>)) (\<lambda>_.
     andThen (onKrunOS (os_OpenAppend (LogFile (kv_cfg v)))) (\<lambda>_.
     andThen (modifyState (\<lambda>v. v\<lparr>kv_guestLog := Some (ke_logFd env)\<rparr>)) (\<lambda>_.
     tryKrun env (krun_add_console_port_inout (kv_ctxID v) (of_int consoleID) ''guest-logs''
       sigR (ke_logFd env)))))) v"

definition setupConsole :: "krun_env \<Rightarrow> (krunVM, unit) proc" where
  "setupConsole env v =
     andThen (mustKrun env (krun_disable_implicit_console (kv_ctxID v))) (\<lambda>_.
     andThen (krun env (krun_add_virtio_console_multiport (kv_ctxID v))) (\<lambda>consoleID.
       if consoleID < 0 then failWith errCode
       else
         andThen (addMainConsole env consoleID) (\<lambda>_.
         andThen (if TTY (kv_cfg v) then succeed () else addStdioRedirect env consoleID) (\<lambda>_.
         addLogAndSignal env consoleID)))) v"

subsection \<open>Vsock ports (vsock.go)\<close>

definition setupVSock :: "krun_env \<Rightarrow> (krunVM, unit) proc" where
  "setupVSock env v =
     (let ctx = kv_ctxID v; cfg = kv_cfg v;
          features = (if VirtualNetworkMode cfg = TSI then 1 else 0)
      in andThen (mustKrun env (krun_disable_implicit_vsock ctx)) (\<lambda>_.
         andThen (mustKrun env (krun_add_vsock ctx features)) (\<lambda>_.
         andThen (lift (ParseUnixAddr (IgnitionListenSockAddr cfg))) (\<lambda>addr.
         andThen (tryKrun env (krun_add_vsock_port2 ctx (of_nat DefaultVSockPort)
                    (cstr (addr_Path addr)) False)) (\<lambda>_.
         andThen (lift (BuildUnixSocketForwardRoutes (UnixSocketForwards cfg))) (\<lambda>forwardRoutes.
         forEach (\<lambda>route. tryKrun env (krun_add_vsock_port2 ctx (VSockPort route)
           (cstr (HostPath route)) False)) forwardRoutes))))) v)"

subsection \<open>Network (network.go)\<close>

definition guestMAC :: "u8 list" where
  "guestMAC = [0x5a, 0x94, 0xef, 0xe4, 0x0c, 0xee]"

definition COMPAT_NET_FEATURES :: u32 where
  "COMPAT_NET_FEATURES = 1 + 2 + 2 ^ 7 + 2 ^ 10 + 2 ^ 11 + 2 ^ 14"

definition setupGVisor :: "krun_env \<Rightarrow> (krunVM, unit) proc" where
  "setupGVisor env v =
     andThen (lift (ParseUnixAddr (GVPVNetAddr (kv_cfg v)))) (\<lambda>addr.
       if ke_linux env
       then tryKrun env (krun_add_net_unixstream (kv_ctxID v) (cstr (addr_Path addr)) (-1) guestMAC
              COMPAT_NET_FEATURES 0)
       else tryKrun env (krun_add_net_unixgram (kv_ctxID v) (cstr (addr_Path addr)) (-1) guestMAC
              COMPAT_NET_FEATURES 1)) v"

definition setupNetwork :: "krun_env \<Rightarrow> (krunVM, unit) proc" where
  "setupNetwork env v =
     (if VirtualNetworkMode (kv_cfg v) = GVISOR then setupGVisor env v
      else if VirtualNetworkMode (kv_cfg v) = TSI then (Inr (), v)
      else (Inl (Errorf ''unknown network mode''), v))"

subsection \<open>Disks and shared directories (storage.go)\<close>

definition virtiofsMemWindow :: u64 where "virtiofsMemWindow = 512 * 2 ^ 20"

definition addDisk :: "krun_env \<Rightarrow> string \<Rightarrow> (krunVM, unit) proc" where
  "addDisk env path v =
     andThen (onKrunOS (os_Stat path)) (\<lambda>n.
       case n of
         File _ _ \<Rightarrow>
           andThen (onKrunOS (\<lambda>s. case uuid_NewString s of (u, s') \<Rightarrow> (Inr u, s'))) (\<lambda>id.
             tryKrun env (krun_add_disk2 (kv_ctxID v) (cstr id) (cstr path) 0 False))
       | _ \<Rightarrow> failWith (Errorf ''not a regular file'')) v"

text \<open>\<open>filepath.EvalSymlinks\<close>, for links at the last component (see \<open>Go_OS\<close>).\<close>

definition EvalSymlinks :: "string \<Rightarrow> (OS, string) proc" where
  "EvalSymlinks p s =
     (case follow maxLinks s (osKey s p) of
        None \<Rightarrow> (Inl (ErrSyscall ''ELOOP''), s)
      | Some k \<Rightarrow> (if nodeAt s k = None then Inl (absent s k) else Inr k, s))"

definition addVirtioFS :: "krun_env \<Rightarrow> string \<Rightarrow> string \<Rightarrow> (krunVM, unit) proc" where
  "addVirtioFS env tag hostPath v =
     (let absPath = Abs (os_cwd (kv_os v)) hostPath
      in andThen (onKrunOS (EvalSymlinks absPath)) (\<lambda>resolved.
         andThen (onKrunOS (os_Stat resolved)) (\<lambda>n.
           if n = Directory
           then tryKrun env (krun_add_virtiofs2 (kv_ctxID v) (cstr tag) (cstr resolved) virtiofsMemWindow)
           else failWith (Errorf ''not a directory''))) v)"

definition setupStorage :: "krun_env \<Rightarrow> (krunVM, unit) proc" where
  "setupStorage env v =
     andThen (forEach (\<lambda>d. addDisk env (bd_Path d)) (BlkDevs (kv_cfg v))) (\<lambda>_.
       forEach (\<lambda>m. addVirtioFS env (mnt_Tag m) (mnt_Source m)) (Mounts (kv_cfg v))) v"

subsection \<open>Create, Start, SendSignal and the provider (vm.go, provider.go)\<close>

definition krunCreate :: "krun_env \<Rightarrow> (krunVM, unit) proc" where
  "krunCreate env =
     andThen (krunInit env) (\<lambda>_.
     andThen (setResources env) (\<lambda>_.
     andThen (setRootFS env) (\<lambda>_.
     andThen (setupConsole env) (\<lambda>_.
     andThen (setupVSock env) (\<lambda>_.
     andThen (setupNetwork env) (\<lambda>_.
     andThen (setupStorage env) (\<lambda>_.
     andThen (setupGPU env) (\<lambda>_.
     andThen (setupNestedVirt env) (\<lambda>_.
     setGuestAgent env)))))))))"

definition krunStart :: "krun_env \<Rightarrow> (krunVM, unit) proc" where
  "krunStart env v =
     andThen (krun env (krun_start_enter (kv_ctxID v))) (\<lambda>ret.
     andThen (modifyState (\<lambda>v. v\<lparr>kv_signalPipeW := None, kv_guestLog := None, kv_consolePty := None,
        kv_stdin := None, kv_stdout := None, kv_stderr := None\<rparr>)) (\<lambda>_.
     wrapping ''VM failed'' (retErr ret))) v"

definition SendSignal :: "string \<Rightarrow> krunVM \<Rightarrow> krunVM" where
  "SendSignal name v =
     (case kv_signalPipeW v of
        None \<Rightarrow> v
      | Some _ \<Rightarrow> v\<lparr>kv_signals := kv_signals v @ [name]\<rparr>)"

definition ProviderStop :: "(krunVM, unit) proc" where
  "ProviderStop v = (Inr (), SendSignal ''terminated'' v)"

subsection \<open>The devices a sequence of calls configures\<close>

text \<open>An abstraction of the call log: what the virtual machine is made of, with every argument of the
  call except the context, the numbers of consoles and descriptors, and the random name of a disk.
  Calls that carry no part of the description (contexts, logging, limits, switches) have no device.\<close>

datatype device =
    VmConfig u8 u32
  | RootDir string
  | TtyPort string
  | PipePort string
  | VSock u32
  | VSockMap u32 string bool
  | NetPeer bool string int "u8 list" u32 u32
  | DiskFile string u32 bool
  | ShareDir string string u64
  | Workdir string
  | ExecAgent string "string list" "string list"

fun deviceOf :: "krunCall \<Rightarrow> device list" where
  "deviceOf (krun_set_vm_config ctx cpus mem) = [VmConfig cpus mem]"
| "deviceOf (krun_set_root ctx root) = [RootDir root]"
| "deviceOf (krun_add_console_port_tty ctx con name fd) = [TtyPort name]"
| "deviceOf (krun_add_console_port_inout ctx con name i out) = [PipePort name]"
| "deviceOf (krun_add_vsock ctx features) = [VSock features]"
| "deviceOf (krun_add_vsock_port2 ctx port path listen) = [VSockMap port path listen]"
| "deviceOf (krun_add_net_unixstream ctx path fd mac features flags) = [NetPeer True path fd mac features flags]"
| "deviceOf (krun_add_net_unixgram ctx path fd mac features flags) = [NetPeer False path fd mac features flags]"
| "deviceOf (krun_add_disk2 ctx ident path fmt ro) = [DiskFile path fmt ro]"
| "deviceOf (krun_add_virtiofs2 ctx tag path win) = [ShareDir tag path win]"
| "deviceOf (krun_set_workdir ctx dir) = [Workdir dir]"
| "deviceOf (krun_set_exec ctx path args envs) = [ExecAgent path args envs]"
| "deviceOf _ = []"

definition devices :: "krunCall list \<Rightarrow> device list" where
  "devices cs = concat (map deviceOf cs)"

lemma devices_simps [simp]:
  "devices [] = []" "devices (c # cs) = deviceOf c @ devices cs" "devices (cs @ ds) = devices cs @ devices ds"
  by (simp_all add: devices_def)

text \<open>The devices a description asks for, given the ignition socket, the vsock routes, the
  peer of the network and where the shared directories lead.\<close>

definition resolved :: "OS \<Rightarrow> string \<Rightarrow> string" where
  "resolved os p = (case follow maxLinks os (osKey os p) of Some k \<Rightarrow> k | None \<Rightarrow> [])"

definition consoleDevices :: "MachineSpec \<Rightarrow> device list" where
  "consoleDevices cfg = TtyPort ''default-tty-console'' #
     (if TTY cfg then [] else map PipePort [''krun-stdin'', ''krun-stdout'', ''krun-stderr'']) @
     [PipePort ''guest-logs'']"

definition netPeer :: "bool \<Rightarrow> string \<Rightarrow> device" where
  "netPeer linux path = NetPeer linux (cstr path) (-1) guestMAC COMPAT_NET_FEATURES (if linux then 0 else 1)"

definition netDevices :: "bool \<Rightarrow> MachineSpec \<Rightarrow> device list" where
  "netDevices linux cfg =
     (if VirtualNetworkMode cfg = GVISOR
      then (case ParseUnixAddr (GVPVNetAddr cfg) of
              Inr a \<Rightarrow> [netPeer linux (addr_Path a)] | Inl e \<Rightarrow> [])
      else [])"

definition vsockDevices :: "MachineSpec \<Rightarrow> Addr \<Rightarrow> UnixSocketForwardRoute list \<Rightarrow> device list" where
  "vsockDevices cfg ign routes =
     [VSock (if VirtualNetworkMode cfg = TSI then 1 else 0),
      VSockMap (of_nat DefaultVSockPort) (cstr (addr_Path ign)) False] @
     map (\<lambda>r. VSockMap (VSockPort r) (cstr (HostPath r)) False) routes"

definition storageDevices :: "OS \<Rightarrow> MachineSpec \<Rightarrow> device list" where
  "storageDevices os cfg = map (\<lambda>d. DiskFile (cstr (bd_Path d)) 0 False) (BlkDevs cfg) @
     map (\<lambda>m. ShareDir (cstr (mnt_Tag m))
       (cstr (resolved os (Abs (os_cwd os) (mnt_Source m)))) virtiofsMemWindow) (Mounts cfg)"

definition deviceTree :: "bool \<Rightarrow> OS \<Rightarrow> MachineSpec \<Rightarrow> Addr \<Rightarrow> UnixSocketForwardRoute list \<Rightarrow> device list" where
  "deviceTree linux os cfg ign routes =
     [VmConfig (Cpus cfg) (ucast (MemoryInMB cfg)), RootDir (cstr (RootFS cfg))] @
     consoleDevices cfg @ vsockDevices cfg ign routes @ netDevices linux cfg @ storageDevices os cfg @
     [Workdir (cstr (ga_Workdir (GuestAgentCfg cfg))),
      ExecAgent (cstr GuestAgentPathInGuest) (cstrings (ga_Args (GuestAgentCfg cfg)))
        (cstrings (ga_Env (GuestAgentCfg cfg)))]"

subsection \<open>What a successful step adds\<close>

named_theorems krun_ok "successful runs of the library calls"

lemma krun_Inr [krun_ok]:
  "krun env c v = (Inr r, v') \<longleftrightarrow> r = ke_ret env c \<and> v' = v\<lparr>kv_calls := kv_calls v @ [c]\<rparr>"
  by (auto simp: krun_def)

lemma mustKrun_Inr [krun_ok]:
  "mustKrun env c v = (Inr x, v') \<longleftrightarrow> ke_ret env c = 0 \<and> v' = v\<lparr>kv_calls := kv_calls v @ [c]\<rparr>"
  by (auto simp: mustKrun_def must_def krun_def andThen_def failWith_def succeed_def)

lemma tryKrun_Inr [krun_ok]:
  "tryKrun env c v = (Inr x, v') \<longleftrightarrow> ke_ret env c = 0 \<and> v' = v\<lparr>kv_calls := kv_calls v @ [c]\<rparr>"
  by (auto simp: tryKrun_def retErr_def krun_def andThen_def failWith_def succeed_def)

lemma onKrunOS_Inr [krun_ok]:
  "onKrunOS m v = (Inr a, v') \<longleftrightarrow> (\<exists>s. m (kv_os v) = (Inr a, s) \<and> v' = v\<lparr>kv_os := s\<rparr>)"
  by (auto simp: onKrunOS_def split: prod.splits)

lemma krunPipe_Inr [krun_ok]:
  "krunPipe v = (Inr a, v') \<longleftrightarrow> (\<exists>ps. kv_pipes v = a # ps \<and> v' = v\<lparr>kv_pipes := ps\<rparr>)"
  by (auto simp: krunPipe_def split: list.splits)

definition adds :: "krunVM \<Rightarrow> krunVM \<Rightarrow> device list \<Rightarrow> bool" where
  "adds v v' ds \<longleftrightarrow> kv_cfg v' = kv_cfg v \<and> devices (kv_calls v') = devices (kv_calls v) @ ds"

lemma adds_trans: "adds u v ds \<Longrightarrow> adds v w es \<Longrightarrow> adds u w (ds @ es)"
  by (simp add: adds_def)

text \<open>A loop over list elements that each add their own devices.\<close>

lemma forEach_adds:
  assumes "forEach f xs v = (Inr (), v')"
    and "\<And>x u u'. f x u = (Inr (), u') \<Longrightarrow> adds u u' (d x)"
  shows "adds v v' (concat (map d xs))"
  using assms(1)
proof (induction xs arbitrary: v)
  case Nil
  then show ?case by (simp add: adds_def succeed_def)
next
  case (Cons x xs)
  then obtain u where "f x v = (Inr (), u)" and "forEach f xs u = (Inr (), v')"
    by (auto simp: andThen_Inr_iff)
  with adds_trans [OF assms(2) Cons.IH] show ?case by simp
qed

lemma krunInit_adds: "krunInit env v = (Inr (), v') \<Longrightarrow> adds v v' []"
  by (auto simp: krunInit_def adds_def andThen_Inr_iff krun_ok failWith_def modifyState_def
      split: if_splits)

lemma setResources_adds:
  "setResources env v = (Inr (), v') \<Longrightarrow>
     adds v v' [VmConfig (Cpus (kv_cfg v)) (ucast (MemoryInMB (kv_cfg v)))]"
  by (auto simp: setResources_def adds_def andThen_Inr_iff krun_ok)

lemma setRootFS_adds:
  "setRootFS env v = (Inr (), v') \<Longrightarrow> adds v v' [RootDir (cstr (RootFS (kv_cfg v)))]"
  by (auto simp: setRootFS_def adds_def krun_ok)

lemma setGuestAgent_adds:
  "setGuestAgent env v = (Inr (), v') \<Longrightarrow>
     adds v v' [Workdir (cstr (ga_Workdir (GuestAgentCfg (kv_cfg v)))),
       ExecAgent (cstr GuestAgentPathInGuest) (cstrings (ga_Args (GuestAgentCfg (kv_cfg v))))
         (cstrings (ga_Env (GuestAgentCfg (kv_cfg v))))]"
  by (auto simp: setGuestAgent_def adds_def andThen_Inr_iff krun_ok Let_def)

lemma setupGPU_adds: "setupGPU env v = (Inr (), v') \<Longrightarrow> adds v v' []"
  by (auto simp: setupGPU_def adds_def andThen_Inr_iff krun_ok succeed_def split: if_splits)

lemma setupNestedVirt_adds: "setupNestedVirt env v = (Inr (), v') \<Longrightarrow> adds v v' []"
  by (auto simp: setupNestedVirt_def adds_def andThen_Inr_iff krun_ok succeed_def split: if_splits)

lemma addMainConsole_adds:
  "addMainConsole env con v = (Inr (), v') \<Longrightarrow> adds v v' [TtyPort ''default-tty-console'']"
  by (auto simp: addMainConsole_def adds_def andThen_Inr_iff krun_ok succeed_def lift_def
      modifyState_def split: if_splits)

lemma addStdioRedirect_adds:
  "addStdioRedirect env con v = (Inr (), v') \<Longrightarrow>
     adds v v' (map PipePort [''krun-stdin'', ''krun-stdout'', ''krun-stderr''])"
  by (auto simp: addStdioRedirect_def adds_def andThen_Inr_iff krun_ok succeed_def modifyState_def)

lemma addLogAndSignal_adds:
  "addLogAndSignal env con v = (Inr (), v') \<Longrightarrow> adds v v' [PipePort ''guest-logs'']"
  by (auto simp: addLogAndSignal_def adds_def andThen_Inr_iff krun_ok modifyState_def)

lemma setupConsole_adds:
  assumes "setupConsole env v = (Inr (), v')"
  shows "adds v v' (consoleDevices (kv_cfg v))"
proof -
  let ?con = "ke_ret env (krun_add_virtio_console_multiport (kv_ctxID v))"
  define u0 where "u0 = v\<lparr>kv_calls := kv_calls v @ [krun_disable_implicit_console (kv_ctxID v)]
    @ [krun_add_virtio_console_multiport (kv_ctxID v)]\<rparr>"
  then have u0: "adds v u0 []" by (simp add: adds_def)
  have "(if ?con < 0 then failWith errCode
       else andThen (addMainConsole env ?con) (\<lambda>_.
         andThen (if TTY (kv_cfg v) then succeed () else addStdioRedirect env ?con) (\<lambda>_.
         addLogAndSignal env ?con))) u0 = (Inr (), v')"
    using assms by (auto simp: setupConsole_def andThen_Inr_iff [of "mustKrun env c" for c]
        andThen_Inr_iff [of "krun env c" for c] krun_ok u0_def)
  then obtain u1 u2 where "addMainConsole env ?con u0 = (Inr (), u1)"
    and s: "(if TTY (kv_cfg v) then succeed () else addStdioRedirect env ?con) u1 = (Inr (), u2)"
    and "addLogAndSignal env ?con u2 = (Inr (), v')"
    by (cases "?con < 0") (auto simp only: andThen_Inr_iff failWith_def if_True if_False, auto)
  then have 1: "adds u0 u1 [TtyPort ''default-tty-console'']" and 3: "adds u2 v' [PipePort ''guest-logs'']"
    by (blast intro: addMainConsole_adds addLogAndSignal_adds)+
  have 2: "adds u1 u2 (if TTY (kv_cfg v) then []
      else map PipePort [''krun-stdin'', ''krun-stdout'', ''krun-stderr''])"
  proof (cases "TTY (kv_cfg v)")
    case True
    with s show ?thesis by (simp add: succeed_def adds_def)
  next
    case False
    with s addStdioRedirect_adds show ?thesis by auto
  qed
  from adds_trans [OF u0 adds_trans [OF 1 adds_trans [OF 2 3]]] show ?thesis
    by (simp add: consoleDevices_def)
qed

lemma setupVSock_adds:
  assumes "setupVSock env v = (Inr (), v')"
  shows "\<exists>ign routes. ParseUnixAddr (IgnitionListenSockAddr (kv_cfg v)) = Inr ign \<and>
    BuildUnixSocketForwardRoutes (UnixSocketForwards (kv_cfg v)) = Inr routes \<and>
    adds v v' (vsockDevices (kv_cfg v) ign routes)"
proof -
  let ?f = "if VirtualNetworkMode (kv_cfg v) = TSI then 1 else 0 :: u32"
  define u where "u ign = v\<lparr>kv_calls := kv_calls v @ [krun_disable_implicit_vsock (kv_ctxID v),
    krun_add_vsock (kv_ctxID v) ?f, krun_add_vsock_port2 (kv_ctxID v) (of_nat DefaultVSockPort)
      (cstr (addr_Path ign)) False]\<rparr>" for ign :: Addr
  obtain ign routes where ign: "ParseUnixAddr (IgnitionListenSockAddr (kv_cfg v)) = Inr ign"
    and routes: "BuildUnixSocketForwardRoutes (UnixSocketForwards (kv_cfg v)) = Inr routes"
    and l: "forEach (\<lambda>route. tryKrun env (krun_add_vsock_port2 (kv_ctxID v) (VSockPort route)
      (cstr (HostPath route)) False)) routes (u ign) = (Inr (), v')"
    using assms by (auto simp: setupVSock_def andThen_Inr_iff krun_ok lift_def Let_def u_def)
  have u: "adds v (u ign) [VSock ?f, VSockMap (of_nat DefaultVSockPort) (cstr (addr_Path ign)) False]"
    by (simp add: adds_def u_def)
  have "adds (u ign) v' (concat (map (\<lambda>r. [VSockMap (VSockPort r) (cstr (HostPath r)) False]) routes))"
    using l by (rule forEach_adds) (simp add: krun_ok adds_def)
  with adds_trans [OF u this] ign routes show ?thesis
    by (auto simp: vsockDevices_def)
qed

lemma setupNetwork_adds:
  assumes "setupNetwork env v = (Inr (), v')"
  shows "(VirtualNetworkMode (kv_cfg v) = GVISOR \<or> VirtualNetworkMode (kv_cfg v) = TSI) \<and>
    adds v v' (netDevices (ke_linux env) (kv_cfg v))"
  using assms
  by (cases "ke_linux env") (auto simp: setupNetwork_def setupGVisor_def netDevices_def netPeer_def andThen_Inr_iff krun_ok lift_def
      adds_def split: if_splits)

lemma addDisk_adds:
  assumes "addDisk env path v = (Inr (), v')"
  shows "adds v v' [DiskFile (cstr path) 0 False]"
proof -
  obtain n u where "onKrunOS (os_Stat path) v = (Inr n, u)"
    and n: "(case n of File _ _ \<Rightarrow> andThen (onKrunOS (\<lambda>s. case uuid_NewString s of (u, s') \<Rightarrow> (Inr u, s'))) (\<lambda>id.
          tryKrun env (krun_add_disk2 (kv_ctxID v) (cstr id) (cstr path) 0 False))
      | _ \<Rightarrow> failWith (Errorf ''not a regular file'')) u = (Inr (), v')"
    using assms by (auto simp: addDisk_def andThen_Inr_iff)
  then show ?thesis
    by (cases n) (auto simp: andThen_Inr_iff krun_ok adds_def failWith_def)
qed

lemma EvalSymlinks_Inr:
  "EvalSymlinks p s = (Inr k, t) \<longleftrightarrow> t = s \<and> follow maxLinks s (osKey s p) = Some k \<and> nodeAt s k \<noteq> None"
  by (auto simp: EvalSymlinks_def split: option.splits if_splits)

lemma os_Stat_state [simp]: "os_Stat p s = (r, t) \<Longrightarrow> t = s"
  by (simp add: os_Stat_def Let_def)

lemma addVirtioFS_adds:
  assumes "addVirtioFS env tag hostPath v = (Inr (), v')"
  shows "adds v v' [ShareDir (cstr tag) (cstr (resolved (kv_os v) (Abs (os_cwd (kv_os v)) hostPath))) virtiofsMemWindow] \<and>
    kv_os v' = kv_os v"
  using assms
  by (auto simp: addVirtioFS_def andThen_Inr_iff krun_ok adds_def failWith_def Let_def
      EvalSymlinks_Inr resolved_def dest!: os_Stat_state split: if_splits)

lemma shares_adds:
  assumes "forEach (\<lambda>m. addVirtioFS env (mnt_Tag m) (mnt_Source m)) ms v = (Inr (), v')"
  shows "adds v v' (map (\<lambda>m. ShareDir (cstr (mnt_Tag m))
      (cstr (resolved (kv_os v) (Abs (os_cwd (kv_os v)) (mnt_Source m)))) virtiofsMemWindow) ms) \<and> kv_os v' = kv_os v"
  using assms
proof (induction ms arbitrary: v)
  case Nil
  then show ?case by (simp add: adds_def succeed_def)
next
  case (Cons m ms)
  then obtain u where "addVirtioFS env (mnt_Tag m) (mnt_Source m) v = (Inr (), u)"
    and r: "forEach (\<lambda>m. addVirtioFS env (mnt_Tag m) (mnt_Source m)) ms u = (Inr (), v')"
    by (auto simp: andThen_Inr_iff)
  then have "adds v u [ShareDir (cstr (mnt_Tag m))
      (cstr (resolved (kv_os v) (Abs (os_cwd (kv_os v)) (mnt_Source m)))) virtiofsMemWindow]" and "kv_os u = kv_os v"
    using addVirtioFS_adds by blast+
  with Cons.IH [OF r] show ?case using adds_trans by fastforce
qed

lemma setupStorage_adds:
  assumes "setupStorage env v = (Inr (), v')"
  shows "adds v v' (storageDevices (kv_os v') (kv_cfg v))"
proof -
  obtain u where d: "forEach (\<lambda>d. addDisk env (bd_Path d)) (BlkDevs (kv_cfg v)) v = (Inr (), u)"
    and m: "forEach (\<lambda>m. addVirtioFS env (mnt_Tag m) (mnt_Source m)) (Mounts (kv_cfg v)) u = (Inr (), v')"
    using assms by (auto simp: setupStorage_def andThen_Inr_iff)
  have "adds v u (concat (map (\<lambda>d. [DiskFile (cstr (bd_Path d)) 0 False]) (BlkDevs (kv_cfg v))))"
    using d by (rule forEach_adds) (rule addDisk_adds)
  then show ?thesis
    using shares_adds [OF m] adds_trans by (fastforce simp: storageDevices_def)
qed

text \<open>The three last steps leave the file system alone.\<close>

lemma tail_os:
  "setupGPU env v = (Inr (), v') \<Longrightarrow> kv_os v' = kv_os v"
  "setupNestedVirt env v = (Inr (), v') \<Longrightarrow> kv_os v' = kv_os v"
  "setGuestAgent env v = (Inr (), v') \<Longrightarrow> kv_os v' = kv_os v"
  by (auto simp: setupGPU_def setupNestedVirt_def setGuestAgent_def andThen_Inr_iff krun_ok
      succeed_def Let_def split: if_splits)

lemma krunCreate_adds:
  assumes "krunCreate env v = (Inr (), v')"
  shows "\<exists>ign routes. ParseUnixAddr (IgnitionListenSockAddr (kv_cfg v)) = Inr ign \<and>
    BuildUnixSocketForwardRoutes (UnixSocketForwards (kv_cfg v)) = Inr routes \<and>
    adds v v' (deviceTree (ke_linux env) (kv_os v') (kv_cfg v) ign routes)"
proof -
  obtain v1 v2 v3 v4 v5 v6 v7 v8 v9 where r: "krunInit env v = (Inr (), v1)"
    "setResources env v1 = (Inr (), v2)" "setRootFS env v2 = (Inr (), v3)"
    "setupConsole env v3 = (Inr (), v4)" "setupVSock env v4 = (Inr (), v5)"
    "setupNetwork env v5 = (Inr (), v6)" "setupStorage env v6 = (Inr (), v7)"
    "setupGPU env v7 = (Inr (), v8)" "setupNestedVirt env v8 = (Inr (), v9)"
    "setGuestAgent env v9 = (Inr (), v')"
    using assms unfolding krunCreate_def andThen_Inr_iff by auto
  note a = krunInit_adds [OF r(1)] setResources_adds [OF r(2)] setRootFS_adds [OF r(3)]
    setupConsole_adds [OF r(4)] conjunct2 [OF setupNetwork_adds [OF r(6)]] setupStorage_adds [OF r(7)]
    setupGPU_adds [OF r(8)] setupNestedVirt_adds [OF r(9)] setGuestAgent_adds [OF r(10)]
  obtain ign routes where v: "ParseUnixAddr (IgnitionListenSockAddr (kv_cfg v4)) = Inr ign"
    "BuildUnixSocketForwardRoutes (UnixSocketForwards (kv_cfg v4)) = Inr routes"
    "adds v4 v5 (vsockDevices (kv_cfg v4) ign routes)"
    using setupVSock_adds [OF r(5)] by blast
  have "kv_os v' = kv_os v7" using tail_os r(8-10) by metis
  then show ?thesis
    using a v by (auto simp: adds_def deviceTree_def)
qed

subsection \<open>No call follows a failed one\<close>

text \<open>Contexts and consoles are numbered from zero, and the check for nesting answers 0 or 1, so these
  fail below zero; every other call fails unless it returns zero (\<open>include/libkrun.h\<close>). Of three
  calls the code does not look whether they failed: the switches for GPU and nesting, and the check
  for nesting, whose failure counts as no.\<close>

fun callFailed :: "krun_env \<Rightarrow> krunCall \<Rightarrow> bool" where
  "callFailed env krun_create_ctx = (ke_ret env krun_create_ctx < 0)"
| "callFailed env (krun_add_virtio_console_multiport ctx) =
     (ke_ret env (krun_add_virtio_console_multiport ctx) < 0)"
| "callFailed env krun_check_nested_virt = (ke_ret env krun_check_nested_virt < 0)"
| "callFailed env c = (ke_ret env c \<noteq> 0)"

fun ignoredCall :: "krunCall \<Rightarrow> bool" where
  "ignoredCall (krun_set_gpu_options ctx f) = True"
| "ignoredCall krun_check_nested_virt = True"
| "ignoredCall (krun_set_nested_virt ctx b) = True"
| "ignoredCall c = False"

definition stopsAt :: "krun_env \<Rightarrow> krunCall \<Rightarrow> bool" where
  "stopsAt env c \<longleftrightarrow> callFailed env c \<and> \<not> ignoredCall c"

definition allWell :: "krun_env \<Rightarrow> krunCall list \<Rightarrow> bool" where
  "allWell env cs = list_all (\<lambda>c. \<not> stopsAt env c) cs"

text \<open>A run adds calls of which at most the last failed, and none when it succeeds.\<close>

definition wellRun :: "krun_env \<Rightarrow> krunVM \<Rightarrow> 'a res \<times> krunVM \<Rightarrow> bool" where
  "wellRun env v p \<longleftrightarrow> (\<exists>cs. kv_calls (snd p) = kv_calls v @ cs \<and> allWell env (butlast cs) \<and>
     (ok (fst p) \<longrightarrow> allWell env cs))"

named_theorems well "runs that stop at the first failed call"

lemma allWell_append: "allWell env (cs @ ds) \<longleftrightarrow> allWell env cs \<and> allWell env ds"
  by (simp add: allWell_def)

lemma well_quiet: "kv_calls (snd p) = kv_calls v \<Longrightarrow> wellRun env v p"
  by (auto simp: wellRun_def allWell_def)

lemma well_basic [well]:
  "wellRun env v (r, v)" "wellRun env v (succeed a v)" "wellRun env v (failWith e v)"
  "wellRun env v (lift x v)" "wellRun env v (onKrunOS n v)" "wellRun env v (krunPipe v)"
  by (rule well_quiet, simp add: succeed_def failWith_def lift_def onKrunOS_def krunPipe_def
      split: prod.split list.split)+

lemma well_modify [well]: "kv_calls (f v) = kv_calls v \<Longrightarrow> wellRun env v (modifyState f v)"
  by (rule well_quiet) (simp add: modifyState_def)

lemma well_andThen:
  assumes "wellRun env v (m v)" and "\<And>a u. wellRun env u (f a u)"
  shows "wellRun env v (andThen m f v)"
proof -
  obtain cs where cs: "kv_calls (snd (m v)) = kv_calls v @ cs" "allWell env (butlast cs)"
      "ok (fst (m v)) \<Longrightarrow> allWell env cs"
    using assms(1) by (auto simp: wellRun_def)
  show ?thesis
  proof (cases "fst (m v)")
    case (Inl e)
    then have "andThen m f v = (Inl e, snd (m v))" by (cases "m v") (simp add: andThen_def)
    with cs show ?thesis by (auto simp: wellRun_def)
  next
    case (Inr a)
    then have r: "andThen m f v = f a (snd (m v))" by (cases "m v") (simp add: andThen_def)
    obtain ds where "kv_calls (snd (f a (snd (m v)))) = kv_calls (snd (m v)) @ ds"
        "allWell env (butlast ds)" "ok (fst (f a (snd (m v)))) \<Longrightarrow> allWell env ds"
      using assms(2) [of "snd (m v)" a] by (auto simp: wellRun_def)
    with cs Inr show ?thesis
      unfolding wellRun_def r
      by (intro exI [of _ "cs @ ds"]) (auto simp: allWell_append butlast_append)
  qed
qed

lemma well_if [well]:
  "(b \<Longrightarrow> wellRun env v (m v)) \<Longrightarrow> (\<not> b \<Longrightarrow> wellRun env v (n v)) \<Longrightarrow>
     wellRun env v ((if b then m else n) v)"
  "(b \<Longrightarrow> wellRun env v p) \<Longrightarrow> (\<not> b \<Longrightarrow> wellRun env v q) \<Longrightarrow> wellRun env v (if b then p else q)"
  by simp_all

lemma well_prod [well]:
  "(\<And>a b. wellRun env v (f a b v)) \<Longrightarrow> wellRun env v ((case p of (a, b) \<Rightarrow> f a b) v)"
  by (cases p) simp

text \<open>A call whose result decides: the rest runs only when the call did not fail.\<close>

lemma well_krun:
  assumes "stopsAt env c \<Longrightarrow> \<exists>e. f (ke_ret env c) = failWith e"
    and "\<And>u. wellRun env u (f (ke_ret env c) u)"
  shows "wellRun env v (andThen (krun env c) f v)"
proof -
  let ?u = "v\<lparr>kv_calls := kv_calls v @ [c]\<rparr>"
  have r: "andThen (krun env c) f v = f (ke_ret env c) ?u" by (simp add: andThen_def krun_def)
  show ?thesis
  proof (cases "stopsAt env c")
    case True
    with assms(1) show ?thesis
      unfolding wellRun_def r by (intro exI [of _ "[c]"]) (auto simp: failWith_def allWell_def)
  next
    case False
    from assms(2) [of ?u] obtain cs where "kv_calls (snd (f (ke_ret env c) ?u)) = kv_calls ?u @ cs"
      "allWell env (butlast cs)" "ok (fst (f (ke_ret env c) ?u)) \<Longrightarrow> allWell env cs"
      by (auto simp: wellRun_def)
    with False show ?thesis
      unfolding wellRun_def r by (intro exI [of _ "c # cs"]) (auto simp: allWell_def)
  qed
qed

lemma stopsAt_nonzero: "stopsAt env c \<Longrightarrow> ke_ret env c \<noteq> 0"
  by (cases "(env, c)" rule: callFailed.cases) (auto simp: stopsAt_def)

lemma well_mustKrun [well]: "wellRun env v (mustKrun env c v)"
  unfolding mustKrun_def
  by (rule well_krun) (auto simp: must_def intro: well dest: stopsAt_nonzero)

lemma well_tryKrun [well]: "wellRun env v (tryKrun env c v)"
  unfolding tryKrun_def
  by (rule well_krun) (auto simp: retErr_def intro: well dest: stopsAt_nonzero)

lemma well_forEach [well]:
  "(\<And>x u. wellRun env u (f x u)) \<Longrightarrow> wellRun env v (forEach f xs v)"
  by (induction xs arbitrary: v) (auto intro!: well well_andThen)

lemma well_init [well]: "wellRun env v (krunInit env v)"
  unfolding krunInit_def by (rule well_andThen [OF well_tryKrun]) (auto intro!: well_krun well simp: stopsAt_def)

lemma well_setters [well]:
  "wellRun env v (setResources env v)" "wellRun env v (setRootFS env v)"
  "wellRun env v (setGuestAgent env v)"
  unfolding setResources_def setRootFS_def setGuestAgent_def Let_def
  by (intro well well_andThen)+

lemma well_switches [well]:
  "wellRun env v (setupGPU env v)" "wellRun env v (setupNestedVirt env v)"
  unfolding setupGPU_def setupNestedVirt_def by (auto intro!: well well_krun simp: stopsAt_def)

lemma well_consoles [well]:
  "wellRun env v (addMainConsole env con v)" "wellRun env v (addStdioRedirect env con v)"
  "wellRun env v (addLogAndSignal env con v)"
  unfolding addMainConsole_def addStdioRedirect_def addLogAndSignal_def
  by (intro well well_andThen; simp)+

lemma well_setupConsole [well]: "wellRun env v (setupConsole env v)"
  unfolding setupConsole_def
  by (rule well_andThen [OF well_mustKrun], rule well_krun) (auto intro!: well well_andThen simp: stopsAt_def)

lemma well_setupVSock [well]: "wellRun env v (setupVSock env v)"
  unfolding setupVSock_def Let_def by (intro well well_andThen)

lemma well_setupNetwork [well]: "wellRun env v (setupNetwork env v)"
  unfolding setupNetwork_def setupGVisor_def by (intro well well_andThen)

lemma well_addDisk [well]: "wellRun env v (addDisk env p v)"
  unfolding addDisk_def
  by (rule well_andThen) (auto intro!: well well_andThen split: node.split)

lemma well_addVirtioFS [well]: "wellRun env v (addVirtioFS env t p v)"
  unfolding addVirtioFS_def Let_def by (intro well well_andThen)

lemma well_krunCreate: "wellRun env v (krunCreate env v)"
  unfolding krunCreate_def setupStorage_def by (intro well well_andThen)

subsection \<open>Properties\<close>

text \<open>C10. The hypervisor gets what the description says: when \<open>Create\<close> succeeds, the calls it
  made configure, in this order, the CPUs and memory, the root directory, the console ports, the
  vsock device with the ignition port and one port per forwarding route (the guest connects to
  the host), the network peer of the host's kind, every disk (raw and writable) and
  every shared directory (at the place its source leads to), and the guest agent; and nothing else.\<close>

theorem krun_devices:
  assumes "krunCreate env (newKrun cfg os pipes) = (Inr (), v')"
  shows "\<exists>ign routes. ParseUnixAddr (IgnitionListenSockAddr cfg) = Inr ign \<and>
    BuildUnixSocketForwardRoutes (UnixSocketForwards cfg) = Inr routes \<and>
    devices (kv_calls v') = deviceTree (ke_linux env) (kv_os v') cfg ign routes"
  using krunCreate_adds [OF assms] by (auto simp: adds_def newKrun_def)

subsection \<open>When creating succeeds\<close>

text \<open>\<open>yields p Q\<close>: the run \<open>p\<close> succeeded, in a state with \<open>Q\<close>.\<close>

definition yields :: "'a res \<times> 's \<Rightarrow> ('s \<Rightarrow> bool) \<Rightarrow> bool" where
  "yields p Q \<longleftrightarrow> (\<exists>a t. p = (Inr a, t) \<and> Q t)"

named_theorems yielding "runs that succeed"

lemma yields_andThen [yielding]:
  "yields (m v) Q \<Longrightarrow> (\<And>a u. Q u \<Longrightarrow> yields (f a u) R) \<Longrightarrow> yields (andThen m f v) R"
  by (auto simp: yields_def andThen_def)

lemma yields_basic [yielding]:
  "P v \<Longrightarrow> yields (succeed a v) P" "P v \<Longrightarrow> yields (Inr a, v) P"
  "ok r \<Longrightarrow> P v \<Longrightarrow> yields (lift r v) P" "P (f v) \<Longrightarrow> yields (modifyState f v) P"
  by (auto simp: yields_def succeed_def lift_def modifyState_def ok_iff)

lemma yields_prod [yielding]:
  "(\<And>a b. yields (f a b v) P) \<Longrightarrow> yields ((case p of (a, b) \<Rightarrow> f a b) v) P"
  by (cases p) simp

lemma yields_forEach [yielding]:
  "P v \<Longrightarrow> (\<And>x u. x \<in> set xs \<Longrightarrow> P u \<Longrightarrow> yields (f x u) P) \<Longrightarrow> yields (forEach f xs v) P"
proof (induction xs arbitrary: v)
  case (Cons x xs)
  from Cons.prems(1) have "yields (f x v) P" by (intro Cons.prems(2)) simp_all
  then show ?case unfolding forEach.simps
    by (rule yields_andThen) (use Cons in auto)
qed (simp add: yielding)

text \<open>What the steps of creating rely on: the description, the pipes still to come, the files.\<close>

definition stage :: "MachineSpec \<Rightarrow> nat \<Rightarrow> (OS \<Rightarrow> bool) \<Rightarrow> krunVM \<Rightarrow> bool" where
  "stage cfg n F v \<longleftrightarrow> kv_cfg v = cfg \<and> n \<le> length (kv_pipes v) \<and> F (kv_os v)"

definition attachable :: "MachineSpec \<Rightarrow> OS \<Rightarrow> bool" where
  "attachable cfg s \<longleftrightarrow>
     (\<forall>d \<in> set (BlkDevs cfg). \<exists>c xs. fst (os_Stat (bd_Path d) s) = Inr (File c xs)) \<and>
     (\<forall>m \<in> set (Mounts cfg). \<exists>k. fst (EvalSymlinks (Abs (os_cwd s) (mnt_Source m)) s) = Inr k \<and>
        fst (os_Stat k s) = Inr Directory)"

lemma stage_krun [yielding]:
  assumes "\<forall>c. ke_ret env c = 0" and "stage cfg n F v"
  shows "yields (krun env c v) (stage cfg n F)" "yields (mustKrun env c v) (stage cfg n F)"
    "yields (tryKrun env c v) (stage cfg n F)"
    and "(\<And>u. stage cfg n F u \<Longrightarrow> yields (f 0 u) Q) \<Longrightarrow> yields (andThen (krun env c) f v) Q"
  using assms by (auto simp: yields_def stage_def krun_def mustKrun_def tryKrun_def must_def retErr_def
      succeed_def andThen_def)

lemma stage_pipe [yielding]: "stage cfg (Suc n) F v \<Longrightarrow> yields (krunPipe v) (stage cfg n F)"
  by (auto simp: yields_def stage_def krunPipe_def Suc_le_length_iff)

text \<open>Drawing a new identifier leaves every path where it is.\<close>

lemma nodeAt_uuids: "nodeAt (s\<lparr>os_uuids := us\<rparr>) = nodeAt s"
  by (simp add: nodeAt_def fun_eq_iff)

lemma paths_uuids:
  "follow n (s\<lparr>os_uuids := us\<rparr>) k = follow n s k" "osKey (s\<lparr>os_uuids := us\<rparr>) = osKey s"
  "isDirAt (s\<lparr>os_uuids := us\<rparr>) = isDirAt s" "absent (s\<lparr>os_uuids := us\<rparr>) = absent s"
proof -
  show f: "follow n (s\<lparr>os_uuids := us\<rparr>) k = follow n s k" for n k
    by (induction n arbitrary: k) (auto simp: nodeAt_uuids split: option.splits node.splits)
  show "osKey (s\<lparr>os_uuids := us\<rparr>) = osKey s" by (simp add: osKey_def fun_eq_iff)
  show d: "isDirAt (s\<lparr>os_uuids := us\<rparr>) = isDirAt s" by (simp add: isDirAt_def f nodeAt_uuids fun_eq_iff split: option.split)
  show "absent (s\<lparr>os_uuids := us\<rparr>) = absent s" by (simp add: absent_def d nodeAt_uuids fun_eq_iff)
qed

lemma calls_uuids:
  "fst (os_Stat p (s\<lparr>os_uuids := us\<rparr>)) = fst (os_Stat p s)"
  "fst (EvalSymlinks p (s\<lparr>os_uuids := us\<rparr>)) = fst (EvalSymlinks p s)"
  by (simp_all add: os_Stat_def EvalSymlinks_def nodeAt_uuids paths_uuids Let_def split: option.split)

lemma attachable_uuids: "attachable cfg (s\<lparr>os_uuids := us\<rparr>) \<longleftrightarrow> attachable cfg s"
  by (simp add: attachable_def calls_uuids)

lemma pure_calls:
  "onKrunOS (os_Stat p) v = (fst (os_Stat p (kv_os v)), v)"
  "onKrunOS (EvalSymlinks p) v = (fst (EvalSymlinks p (kv_os v)), v)"
  by (simp_all add: onKrunOS_def os_Stat_def EvalSymlinks_def Let_def split: option.split)

lemma yields_disk:
  assumes "\<forall>c. ke_ret env c = 0" and "stage cfg n (attachable cfg) v" and "d \<in> set (BlkDevs cfg)"
  shows "yields (addDisk env (bd_Path d) v) (stage cfg n (attachable cfg))"
proof -
  obtain c xs where "fst (os_Stat (bd_Path d) (kv_os v)) = Inr (File c xs)"
    using assms(2,3) by (auto simp: stage_def attachable_def)
  then have s: "onKrunOS (os_Stat (bd_Path d)) v = (Inr (File c xs), v)"
    by (simp add: pure_calls)
  let ?new = "onKrunOS (\<lambda>s. case uuid_NewString s of (u, s') \<Rightarrow> (Inr u, s'))"
  have "yields (?new v) (stage cfg n (attachable cfg))"
    using assms(2) by (auto simp: yields_def stage_def onKrunOS_def uuid_NewString_def attachable_uuids
        split: list.splits)
  then have "yields (andThen ?new (\<lambda>id. tryKrun env (krun_add_disk2 (kv_ctxID v) (cstr id) (cstr (bd_Path d)) 0 False)) v)
      (stage cfg n (attachable cfg))"
    by (rule yields_andThen) (intro yielding assms(1))
  then show ?thesis by (simp add: addDisk_def andThen_def s)
qed

lemma yields_share:
  assumes "\<forall>c. ke_ret env c = 0" and "stage cfg n (attachable cfg) v" and "m \<in> set (Mounts cfg)"
  shows "yields (addVirtioFS env (mnt_Tag m) (mnt_Source m) v) (stage cfg n (attachable cfg))"
proof -
  obtain k where "fst (EvalSymlinks (Abs (os_cwd (kv_os v)) (mnt_Source m)) (kv_os v)) = Inr k"
    "fst (os_Stat k (kv_os v)) = Inr Directory"
    using assms(2,3) by (auto simp: stage_def attachable_def)
  then show ?thesis
    using stage_krun(3) [OF assms(1,2)] by (simp add: addVirtioFS_def andThen_def pure_calls Let_def)
qed

lemma yields_console:
  assumes "\<forall>c. ke_ret env c = 0" and "stage cfg (if TTY cfg then 1 else 4) F v"
    and "if TTY cfg then ok (ke_dup env) else ok (ke_pty env)"
    and "\<And>s. F s \<Longrightarrow> yields (os_OpenAppend (LogFile cfg) s) G"
  shows "yields (setupConsole env v) (stage cfg 0 G)"
proof -
  note a = assms(1)
  have m: "yields (modifyState f u) (stage cfg n H)"
    if "stage cfg n H u" "kv_cfg (f u) = kv_cfg u \<and> kv_pipes (f u) = kv_pipes u \<and> kv_os (f u) = kv_os u" for f u n H
    using that by (simp add: yields_def modifyState_def stage_def)
  have log: "yields (addLogAndSignal env con u) (stage cfg 0 G)" if "stage cfg (Suc 0) F u" for con u
  proof -
    have open': "yields (onKrunOS (os_OpenAppend (LogFile (kv_cfg u))) w) (stage cfg 0 G)" if "stage cfg 0 F w" for w
      using that assms(4) [of "kv_os w"] \<open>stage cfg (Suc 0) F u\<close>
      by (auto simp: yields_def onKrunOS_def stage_def split: prod.splits)
    show ?thesis unfolding addLogAndSignal_def
      by (rule yields_andThen, rule stage_pipe, rule that)
        (rule yields_prod, rule yields_andThen, erule m, simp, rule yields_andThen, erule open',
          rule yields_andThen, erule m, simp, erule stage_krun(3) [OF a])
  qed
  have main: "yields (addMainConsole env con u) (stage cfg n F)" if "stage cfg n F u" for con u n
  proof (cases "TTY cfg")
    case True
    with that assms(3) show ?thesis unfolding addMainConsole_def
      by (auto intro!: yields_andThen [of _ _ "stage cfg n F"] yields_basic(3) stage_krun a simp: stage_def)
  next
    case False
    with that assms(3) show ?thesis unfolding addMainConsole_def
      by (auto intro!: yields_andThen [of _ _ "stage cfg n F"] yields_basic stage_krun a simp: stage_def)
  qed
  have redirect: "yields (addStdioRedirect env con u) (stage cfg (Suc 0) F)" if "stage cfg 4 F u" for con u
    unfolding addStdioRedirect_def
    by (rule yields_andThen, rule stage_pipe, use that in \<open>simp add: eval_nat_numeral\<close>, rule yields_prod,
        rule yields_andThen, erule stage_pipe, rule yields_prod, rule yields_andThen, erule stage_pipe,
        rule yields_prod, rule yields_andThen, erule yields_forEach, rule yields_prod, rule yields_prod,
        erule stage_krun(3) [OF a], erule m, simp)
  have rest: "yields (if TTY cfg then succeed () u else addStdioRedirect env con u) (stage cfg (Suc 0) F)"
    if "stage cfg (if TTY cfg then 1 else 4) F u" for con u
    using that redirect by (auto intro: yields_basic)
  from assms(2) have cfg: "kv_cfg v = cfg" by (simp add: stage_def)
  show ?thesis
    unfolding setupConsole_def cfg
    by (rule yields_andThen, rule stage_krun(2) [OF a assms(2)], rule stage_krun(4) [OF a], assumption)
      (simp only: less_irrefl if_False, rule yields_andThen, erule main, rule yields_andThen, subst if_distribR, erule rest, erule log)
qed

lemma krunCreate_succeeds:
  assumes "\<forall>c. ke_ret env c = 0" and "stage cfg (if TTY cfg then 1 else 4) F v"
    and "if TTY cfg then ok (ke_dup env) else ok (ke_pty env)"
    and "\<And>s. F s \<Longrightarrow> yields (os_OpenAppend (LogFile cfg) s) (attachable cfg)"
    and "ok (ParseUnixAddr (IgnitionListenSockAddr cfg))"
    and "ok (BuildUnixSocketForwardRoutes (UnixSocketForwards cfg))"
    and "VirtualNetworkMode cfg = TSI \<or> VirtualNetworkMode cfg = GVISOR \<and> ok (ParseUnixAddr (GVPVNetAddr cfg))"
  shows "ok (fst (krunCreate env v))"
proof -
  note a = assms(1)
  have init: "yields (krunInit env v) (stage cfg (if TTY cfg then 1 else 4) F)"
    unfolding krunInit_def using assms(2)
    by (intro yields_andThen [of _ _ "stage cfg (if TTY cfg then 1 else 4) F"] stage_krun a)
      (auto simp: yields_def modifyState_def stage_def andThen_def krun_def a)
  have res: "yields (setResources env u) (stage cfg n H)" "yields (setRootFS env u) (stage cfg n H)"
    "yields (setGuestAgent env u) (stage cfg n H)" "yields (setupGPU env u) (stage cfg n H)"
    "yields (setupNestedVirt env u) (stage cfg n H)" if "stage cfg n H u" for u n H
    using that by (auto simp: setResources_def setRootFS_def setGuestAgent_def setupGPU_def setupNestedVirt_def Let_def
        intro!: yields_andThen [of _ _ "stage cfg n H"] yields_basic stage_krun a)
  have vsock: "yields (setupVSock env u) (stage cfg n H)" if "stage cfg n H u" for u n H
  proof -
    have "kv_cfg u = cfg" using that by (simp add: stage_def)
    then show ?thesis unfolding setupVSock_def Let_def using that assms(5,6)
      by (auto intro!: yields_andThen [of _ _ "stage cfg n H"] yields_basic yields_forEach stage_krun a)
  qed
  have net: "yields (setupNetwork env u) (stage cfg n H)" if "stage cfg n H u" for u n H
  proof -
    have "kv_cfg u = cfg" using that by (simp add: stage_def)
    then show ?thesis unfolding setupNetwork_def setupGVisor_def using that assms(7)
      by (auto intro!: yields_andThen [of _ _ "stage cfg n H"] yields_basic stage_krun a)
  qed
  have storage: "yields (setupStorage env u) (stage cfg n (attachable cfg))" if "stage cfg n (attachable cfg) u" for u n
  proof -
    have "kv_cfg u = cfg" using that by (simp add: stage_def)
    then show ?thesis unfolding setupStorage_def using that
      by (auto intro!: yields_andThen [of _ _ "stage cfg n (attachable cfg)"] yields_forEach yields_disk yields_share a)
  qed
  have "yields (krunCreate env v) (stage cfg 0 (attachable cfg))"
    unfolding krunCreate_def
    by (rule yields_andThen, rule init, rule yields_andThen, erule res(1), rule yields_andThen, erule res(2),
        rule yields_andThen, erule yields_console [OF a _ assms(3,4)], assumption,
        rule yields_andThen, erule vsock, rule yields_andThen, erule net, rule yields_andThen, erule storage,
        rule yields_andThen, erule res(4), rule yields_andThen, erule res(5), erule res(3))
  then show ?thesis by (auto simp: yields_def)
qed

definition sampleKrunEnv :: krun_env where
  "sampleKrunEnv = \<lparr>ke_ret = (\<lambda>_. 0), ke_debug = [], ke_linux = True, ke_dup = Inr 3,
     ke_pty = Inr (4, 5), ke_logFd = 6\<rparr>"

definition sampleKrunMachine :: MachineSpec where
  "sampleKrunMachine = emptyMachine\<lparr>MemoryInMB := 2048, Cpus := 4, RootFS := ''/r'',
     VirtualNetworkMode := TSI, IgnitionListenSockAddr := ''unix:///i'', LogFile := ''/l'',
     UnixSocketForwards := [(''/g'', ''/h'')], TTY := True\<rparr>"

definition sampleKrunOS :: OS where
  "sampleKrunOS = \<lparr>os_fs = [], os_cwd = ''/'', os_home = Inr ''/'', os_fault = (\<lambda>_ _. False),
     os_ports = [], os_uuids = [], os_locks = []\<rparr>"

lemma sample_create_ok:
  "ok (fst (krunCreate sampleKrunEnv (newKrun sampleKrunMachine sampleKrunOS [(7, 8)])))"
proof (rule krunCreate_succeeds [of _ sampleKrunMachine "\<lambda>s. s = sampleKrunOS"])
  have "ok (fst (os_OpenAppend ''/l'' sampleKrunOS))" by code_simp
  then show "yields (os_OpenAppend (LogFile sampleKrunMachine) s) (attachable sampleKrunMachine)"
    if "s = sampleKrunOS" for s
    using that by (auto simp: sampleKrunMachine_def emptyMachine_def yields_def attachable_def ok_iff) (metis prod.collapse)
  show "ok (ParseUnixAddr (IgnitionListenSockAddr sampleKrunMachine))"
    "ok (BuildUnixSocketForwardRoutes (UnixSocketForwards sampleKrunMachine))"
    by code_simp+
qed (simp_all add: sampleKrunEnv_def sampleKrunMachine_def stage_def newKrun_def)

theorem krun_devices_witness:
  "\<exists>v'. krunCreate sampleKrunEnv (newKrun sampleKrunMachine sampleKrunOS [(7, 8)]) = (Inr (), v') \<and>
     (\<exists>ign routes. BuildUnixSocketForwardRoutes [(''/g'', ''/h'')] = Inr routes \<and>
        devices (kv_calls v') = deviceTree True (kv_os v') sampleKrunMachine ign routes)"
proof -
  obtain v' where r: "krunCreate sampleKrunEnv (newKrun sampleKrunMachine sampleKrunOS [(7, 8)]) = (Inr (), v')"
    using sample_create_ok by (auto simp: ok_iff) (metis prod.collapse)
  then show ?thesis
    using krun_devices [OF r] by (auto simp: sampleKrunMachine_def emptyMachine_def sampleKrunEnv_def)
qed

text \<open>C37. The library is not driven on after a failure: whatever the library, the file system and the
  terminals answer, of the calls \<open>Create\<close> makes only the last can have failed, except for the three
  whose failure the code ignores (the switches for GPU and nesting, and the check for nesting); and
  when \<open>Create\<close> reports success, no other call has failed.\<close>

theorem krun_stops_at_first_failure:
  "case krunCreate env (newKrun cfg os pipes) of (r, v') \<Rightarrow>
     filter (\<lambda>c. callFailed env c \<and> \<not> ignoredCall c) (butlast (kv_calls v')) = [] \<and>
     filter (\<lambda>c. callFailed env c \<and> \<not> ignoredCall c) (if ok r then kv_calls v' else []) = []"
proof -
  have "filter (\<lambda>c. callFailed env c \<and> \<not> ignoredCall c) cs = []" if "allWell env cs" for cs
    using that by (auto simp: allWell_def stopsAt_def list_all_iff filter_empty_conv)
  then show ?thesis
    using well_krunCreate [of env "newKrun cfg os pipes"]
    by (auto simp: wellRun_def newKrun_def split: prod.splits)
qed

text \<open>Memory of the virtual machine: the size passed to the library is the configured number
  of megabytes modulo \<open>2 ^ 32\<close>, because the 64-bit field is converted to 32 bits; it is the
  configured number exactly when that is below \<open>2 ^ 32\<close>.\<close>

lemma krun_memory:
  assumes "krunCreate env (newKrun cfg os pipes) = (Inr (), v')"
  shows "\<exists>m. VmConfig (Cpus cfg) m \<in> set (devices (kv_calls v')) \<and>
    unat m = unat (MemoryInMB cfg) mod 2 ^ 32 \<and>
    (unat m = unat (MemoryInMB cfg) \<longleftrightarrow> unat (MemoryInMB cfg) < 2 ^ 32)"
proof -
  obtain ign routes where "devices (kv_calls v') = deviceTree (ke_linux env) (kv_os v') cfg ign routes"
    using krunCreate_adds [OF assms] by (auto simp: adds_def newKrun_def)
  moreover have "unat (ucast (MemoryInMB cfg) :: u32) = unat (MemoryInMB cfg) mod 2 ^ 32"
    by (simp add: unsigned_ucast_eq take_bit_eq_mod)
  ultimately show ?thesis
    by (intro exI [of _ "ucast (MemoryInMB cfg)"]) (auto simp: deviceTree_def mod_eq_self_iff_div_eq_0)
qed

lemma krun_memory_witness:
  "\<exists>v' m. krunCreate sampleKrunEnv (newKrun sampleKrunMachine sampleKrunOS [(7, 8)]) = (Inr (), v') \<and>
     VmConfig 4 m \<in> set (devices (kv_calls v')) \<and> unat m = 2048"
proof -
  obtain v' where r: "krunCreate sampleKrunEnv (newKrun sampleKrunMachine sampleKrunOS [(7, 8)]) = (Inr (), v')"
    using sample_create_ok by (auto simp: ok_iff) (metis prod.collapse)
  then show ?thesis
    using krun_memory [OF r] by (auto simp: sampleKrunMachine_def emptyMachine_def)
qed

end
