(* ===== verification/Krun_Memory.thy ===== *)
theory Krun_Memory
  imports Krun
begin

text \<open>
  \<open>pkg/libkrun\<close> once more, with the memory of C. \<open>Krun\<close> hands strings to the library; the code hands it
  pointers that \<open>C.CString\<close> allocates and \<open>free\<close> gives back. Here every function that
  allocates is translated with its allocations, its \<open>defer\<close>s and its frees, over a heap that records
  any use of a pointer that is not allocated. The result refines \<open>Krun\<close>: the library reads the
  same strings, and whatever fails, nothing is left on the heap and nothing is used after it was freed.
\<close>

subsection \<open>The heap of C\<close>

record cvm =
  cv_vm :: krunVM
  cv_heap :: "(nat \<times> string) list"
  cv_next :: nat
  cv_bad :: bool

definition newC :: "krunVM \<Rightarrow> cvm" where
  "newC v = \<lparr>cv_vm = v, cv_heap = [], cv_next = 0, cv_bad = False\<rparr>"

definition C_CString :: "string \<Rightarrow> (cvm, nat) proc" where
  "C_CString s w = (Inr (cv_next w), w\<lparr>cv_heap := (cv_next w, s) # cv_heap w, cv_next := Suc (cv_next w)\<rparr>)"

definition C_free :: "nat \<Rightarrow> (cvm, unit) proc" where
  "C_free p w =
     (Inr (), if map_of (cv_heap w) p = None then w\<lparr>cv_bad := True\<rparr>
              else w\<lparr>cv_heap := filter (\<lambda>(q, _). q \<noteq> p) (cv_heap w)\<rparr>)"

text \<open>What the library sees at a pointer: the bytes before the first NUL.\<close>

definition readC :: "cvm \<Rightarrow> nat \<Rightarrow> string" where
  "readC w p = (case map_of (cv_heap w) p of None \<Rightarrow> [] | Some s \<Rightarrow> cstr s)"

text \<open>A step that does not touch the heap, a call with the pointers \<open>ps\<close>, and \<open>defer d\<close> before \<open>m\<close>:
  \<open>d\<close> runs however \<open>m\<close> ends, also when it panics.\<close>

definition onC :: "(krunVM, 'a) proc \<Rightarrow> (cvm, 'a) proc" where
  "onC m w = (case m (cv_vm w) of (r, v) \<Rightarrow> (r, w\<lparr>cv_vm := v\<rparr>))"

definition krunC :: "krun_env \<Rightarrow> nat list \<Rightarrow> (string list \<Rightarrow> krunCall) \<Rightarrow> (cvm, int) proc" where
  "krunC env ps f w =
     onC (krun env (f (map (readC w) ps)))
       (if list_ex (\<lambda>p. map_of (cv_heap w) p = None) ps then w\<lparr>cv_bad := True\<rparr> else w)"

definition mustC :: "krun_env \<Rightarrow> nat list \<Rightarrow> (string list \<Rightarrow> krunCall) \<Rightarrow> (cvm, unit) proc" where
  "mustC env ps f = andThen (krunC env ps f) (\<lambda>ret. onC (must ret))"

definition tryC :: "krun_env \<Rightarrow> nat list \<Rightarrow> (string list \<Rightarrow> krunCall) \<Rightarrow> (cvm, unit) proc" where
  "tryC env ps f = andThen (krunC env ps f) (\<lambda>ret. onC (retErr ret))"

definition deferred :: "('s, unit) proc \<Rightarrow> ('s, 'a) proc \<Rightarrow> ('s, 'a) proc" where
  "deferred d m s = (case m s of (r, t) \<Rightarrow> (r, snd (d t)))"

subsection \<open>Arrays of C strings (vm.go)\<close>

text \<open>\<open>cstrings\<close>: one pointer per string and a final nil; \<open>ptr\<close> is what the library walks along up
  to the nil; \<open>free\<close> gives every pointer back and clears it.\<close>

type_synonym cstringArray = "nat option list"

fun cstringsC :: "string list \<Rightarrow> (cvm, cstringArray) proc" where
  "cstringsC [] = succeed [None]"
| "cstringsC (s # strs) =
     andThen (C_CString s) (\<lambda>p. andThen (cstringsC strs) (\<lambda>ptrs. succeed (Some p # ptrs)))"

definition arrayPtr :: "cstringArray \<Rightarrow> nat list" where
  "arrayPtr ptrs = map the (takeWhile (\<lambda>p. p \<noteq> None) ptrs)"

fun arrayFree :: "cstringArray \<Rightarrow> (cvm, unit) proc" where
  "arrayFree [] = succeed ()"
| "arrayFree (None # ptrs) = arrayFree ptrs"
| "arrayFree (Some p # ptrs) = andThen (C_free p) (\<lambda>_. arrayFree ptrs)"

subsection \<open>The functions that allocate\<close>

definition setResourcesC :: "krun_env \<Rightarrow> (cvm, unit) proc" where
  "setResourcesC env w =
     (let v = cv_vm w
      in andThen (onC (mustKrun env (krun_set_vm_config (kv_ctxID v) (Cpus (kv_cfg v))
             (ucast (MemoryInMB (kv_cfg v)))))) (\<lambda>_.
         andThen (cstringsC [''6=4096:8192'']) (\<lambda>rlimits.
         deferred (arrayFree rlimits)
           (mustC env (arrayPtr rlimits) (krun_set_rlimits (kv_ctxID v))))) w)"

definition setRootFSC :: "krun_env \<Rightarrow> (cvm, unit) proc" where
  "setRootFSC env w =
     (let v = cv_vm w
      in andThen (C_CString (RootFS (kv_cfg v))) (\<lambda>rootfs.
         deferred (C_free rootfs)
           (mustC env [rootfs] (\<lambda>xs. krun_set_root (kv_ctxID v) (hd xs)))) w)"

definition setGuestAgentC :: "krun_env \<Rightarrow> (cvm, unit) proc" where
  "setGuestAgentC env w =
     (let v = cv_vm w; ga = GuestAgentCfg (kv_cfg v)
      in andThen (C_CString (ga_Workdir ga)) (\<lambda>workdir. deferred (C_free workdir) (
           andThen (mustC env [workdir] (\<lambda>xs. krun_set_workdir (kv_ctxID v) (hd xs))) (\<lambda>_.
         andThen (C_CString GuestAgentPathInGuest) (\<lambda>exec. deferred (C_free exec) (
         andThen (cstringsC (ga_Args ga)) (\<lambda>args. deferred (arrayFree args) (
         andThen (cstringsC (ga_Env ga)) (\<lambda>envs. deferred (arrayFree envs) (
           mustC env (exec # arrayPtr args @ arrayPtr envs) (\<lambda>xs.
             krun_set_exec (kv_ctxID v) (hd xs) (take (length (arrayPtr args)) (tl xs))
               (drop (length (arrayPtr args)) (tl xs)))))))))))) w)"

definition addMainConsoleC :: "krun_env \<Rightarrow> int \<Rightarrow> (cvm, unit) proc" where
  "addMainConsoleC env consoleID w =
     (let v = cv_vm w
      in andThen (onC (if TTY (kv_cfg v) then lift (ke_dup env)
              else andThen (lift (ke_pty env)) (\<lambda>(master, slave).
                   andThen (modifyState (\<lambda>v. v\<lparr>kv_consolePty := Some (master, slave)\<rparr>)) (\<lambda>_.
                   succeed slave)))) (\<lambda>fd.
         andThen (C_CString ''default-tty-console'') (\<lambda>name. deferred (C_free name) (
           tryC env [name] (\<lambda>xs. krun_add_console_port_tty (kv_ctxID v) (of_int consoleID) (hd xs) fd)))) w)"

definition addStdioRedirectC :: "krun_env \<Rightarrow> int \<Rightarrow> (cvm, unit) proc" where
  "addStdioRedirectC env consoleID w =
     (let v = cv_vm w
      in andThen (onC krunPipe) (\<lambda>(stdinR, stdinW).
         andThen (onC krunPipe) (\<lambda>(stdoutR, stdoutW).
         andThen (onC krunPipe) (\<lambda>(stderrR, stderrW).
         andThen (forEach (\<lambda>(n, i, o').
             andThen (C_CString n) (\<lambda>name.
             andThen (krunC env [name] (\<lambda>xs.
               krun_add_console_port_inout (kv_ctxID v) (of_int consoleID) (hd xs) i o')) (\<lambda>ret.
             andThen (C_free name) (\<lambda>_. onC (retErr ret)))))
           [(''krun-stdin'', stdinR, -1), (''krun-stdout'', -1, stdoutW), (''krun-stderr'', -1, stderrW)]) (\<lambda>_.
         onC (modifyState (\<lambda>v. v\<lparr>kv_stdin := Some stdinR, kv_stdout := Some stdoutW,
           kv_stderr := Some stderrW\<rparr>)))))) w)"

definition addLogAndSignalC :: "krun_env \<Rightarrow> int \<Rightarrow> (cvm, unit) proc" where
  "addLogAndSignalC env consoleID w =
     (let v = cv_vm w
      in andThen (onC krunPipe) (\<lambda>(sigR, sigW).
         andThen (onC (modifyState (\<lambda>v. v\<lparr>kv_signalPipeW := Some sigW\<rparr>))) (\<lambda>_.
         andThen (onC (onKrunOS (os_OpenAppend (LogFile (kv_cfg v))))) (\<lambda>_.
         andThen (onC (modifyState (\<lambda>v. v\<lparr>kv_guestLog := Some (ke_logFd env)\<rparr>))) (\<lambda>_.
         andThen (C_CString ''guest-logs'') (\<lambda>name. deferred (C_free name) (
           tryC env [name] (\<lambda>xs. krun_add_console_port_inout (kv_ctxID v) (of_int consoleID) (hd xs)
             sigR (ke_logFd env)))))))) w)"

definition setupConsoleC :: "krun_env \<Rightarrow> (cvm, unit) proc" where
  "setupConsoleC env w =
     (let v = cv_vm w
      in andThen (onC (mustKrun env (krun_disable_implicit_console (kv_ctxID v)))) (\<lambda>_.
         andThen (onC (krun env (krun_add_virtio_console_multiport (kv_ctxID v)))) (\<lambda>consoleID.
           if consoleID < 0 then onC (failWith errCode)
           else
             andThen (addMainConsoleC env consoleID) (\<lambda>_.
             andThen (if TTY (kv_cfg v) then onC (succeed ()) else addStdioRedirectC env consoleID) (\<lambda>_.
             addLogAndSignalC env consoleID)))) w)"

definition setupVSockC :: "krun_env \<Rightarrow> (cvm, unit) proc" where
  "setupVSockC env w =
     (let v = cv_vm w; ctx = kv_ctxID v; cfg = kv_cfg v;
          features = (if VirtualNetworkMode cfg = TSI then 1 else 0)
      in andThen (onC (mustKrun env (krun_disable_implicit_vsock ctx))) (\<lambda>_.
         andThen (onC (mustKrun env (krun_add_vsock ctx features))) (\<lambda>_.
         andThen (onC (lift (ParseUnixAddr (IgnitionListenSockAddr cfg)))) (\<lambda>addr.
         andThen (C_CString (addr_Path addr)) (\<lambda>path. deferred (C_free path) (
         andThen (tryC env [path] (\<lambda>xs. krun_add_vsock_port2 ctx (of_nat DefaultVSockPort) (hd xs) False)) (\<lambda>_.
         andThen (onC (lift (BuildUnixSocketForwardRoutes (UnixSocketForwards cfg)))) (\<lambda>forwardRoutes.
         forEach (\<lambda>route.
             andThen (C_CString (HostPath route)) (\<lambda>path.
             andThen (krunC env [path] (\<lambda>xs. krun_add_vsock_port2 ctx (VSockPort route) (hd xs) False)) (\<lambda>ret.
             andThen (C_free path) (\<lambda>_. onC (retErr ret)))))
           forwardRoutes)))))) ) w)"

definition setupGVisorC :: "krun_env \<Rightarrow> (cvm, unit) proc" where
  "setupGVisorC env w =
     (let v = cv_vm w
      in andThen (onC (lift (ParseUnixAddr (GVPVNetAddr (kv_cfg v))))) (\<lambda>addr.
         andThen (C_CString (addr_Path addr)) (\<lambda>path. deferred (C_free path) (
           if ke_linux env
           then tryC env [path] (\<lambda>xs. krun_add_net_unixstream (kv_ctxID v) (hd xs) (-1) guestMAC COMPAT_NET_FEATURES 0)
           else tryC env [path] (\<lambda>xs. krun_add_net_unixgram (kv_ctxID v) (hd xs) (-1) guestMAC COMPAT_NET_FEATURES 1)))) w)"

definition setupNetworkC :: "krun_env \<Rightarrow> (cvm, unit) proc" where
  "setupNetworkC env w =
     (let v = cv_vm w
      in if VirtualNetworkMode (kv_cfg v) = GVISOR then setupGVisorC env w
         else if VirtualNetworkMode (kv_cfg v) = TSI then onC (succeed ()) w
         else onC (failWith (Errorf ''unknown network mode'')) w)"

definition addDiskC :: "krun_env \<Rightarrow> string \<Rightarrow> (cvm, unit) proc" where
  "addDiskC env path w =
     (let v = cv_vm w
      in andThen (onC (onKrunOS (os_Stat path))) (\<lambda>n.
         case n of
           File _ _ \<Rightarrow>
             andThen (onC (onKrunOS (\<lambda>s. case uuid_NewString s of (u, s') \<Rightarrow> (Inr u, s')))) (\<lambda>u.
             andThen (C_CString u) (\<lambda>id. deferred (C_free id) (
             andThen (C_CString path) (\<lambda>diskPath. deferred (C_free diskPath) (
               tryC env [id, diskPath] (\<lambda>xs. krun_add_disk2 (kv_ctxID v) (xs ! 0) (xs ! 1) 0 False))))))
         | _ \<Rightarrow> onC (failWith (Errorf ''not a regular file''))) w)"

definition addVirtioFSC :: "krun_env \<Rightarrow> string \<Rightarrow> string \<Rightarrow> (cvm, unit) proc" where
  "addVirtioFSC env tag hostPath w =
     (let v = cv_vm w; absPath = Abs (os_cwd (kv_os v)) hostPath
      in andThen (onC (onKrunOS (EvalSymlinks absPath))) (\<lambda>resolved.
         andThen (onC (onKrunOS (os_Stat resolved))) (\<lambda>n.
           if n = Directory
           then andThen (C_CString tag) (\<lambda>tagC. deferred (C_free tagC) (
                andThen (C_CString resolved) (\<lambda>pathC. deferred (C_free pathC) (
                  tryC env [tagC, pathC] (\<lambda>xs. krun_add_virtiofs2 (kv_ctxID v) (xs ! 0) (xs ! 1) virtiofsMemWindow)))))
           else onC (failWith (Errorf ''not a directory'')))) w)"

definition setupStorageC :: "krun_env \<Rightarrow> (cvm, unit) proc" where
  "setupStorageC env w =
     (let v = cv_vm w
      in andThen (forEach (\<lambda>d. addDiskC env (bd_Path d)) (BlkDevs (kv_cfg v))) (\<lambda>_.
         forEach (\<lambda>m. addVirtioFSC env (mnt_Tag m) (mnt_Source m)) (Mounts (kv_cfg v))) w)"

definition krunCreateC :: "krun_env \<Rightarrow> (cvm, unit) proc" where
  "krunCreateC env =
     andThen (onC (krunInit env)) (\<lambda>_.
     andThen (setResourcesC env) (\<lambda>_.
     andThen (setRootFSC env) (\<lambda>_.
     andThen (setupConsoleC env) (\<lambda>_.
     andThen (setupVSockC env) (\<lambda>_.
     andThen (setupNetworkC env) (\<lambda>_.
     andThen (setupStorageC env) (\<lambda>_.
     andThen (onC (setupGPU env)) (\<lambda>_.
     andThen (onC (setupNestedVirt env)) (\<lambda>_.
     setGuestAgentC env)))))))))"

subsection \<open>Refinement\<close>

text \<open>The run \<open>p\<close> from \<open>w\<close> does what the run \<open>q\<close> without memory does, and leaves the heap as it was.
  New blocks never get a number that is in use.\<close>

definition fresh :: "cvm \<Rightarrow> bool" where
  "fresh w \<longleftrightarrow> (\<forall>p \<in> fst ` set (cv_heap w). p < cv_next w)"

definition agrees :: "cvm \<Rightarrow> 'a res \<times> cvm \<Rightarrow> 'a res \<times> krunVM \<Rightarrow> bool" where
  "agrees w p q \<longleftrightarrow> q = (fst p, cv_vm (snd p)) \<and> cv_heap (snd p) = cv_heap w \<and>
     cv_bad (snd p) = cv_bad w \<and> fresh (snd p)"

named_theorems memory "steps that leave the heap of C as it was"

lemma agrees_onC [memory]: "fresh w \<Longrightarrow> agrees w (onC m w) (m (cv_vm w))"
  by (simp add: agrees_def onC_def fresh_def split: prod.split)

lemma agrees_andThen:
  assumes "agrees w (mc w) (m (cv_vm w))"
    and "\<And>a u. fresh u \<Longrightarrow> cv_heap u = cv_heap w \<Longrightarrow> agrees u (fc a u) (f a (cv_vm u))"
  shows "agrees w (andThen mc fc w) (andThen m f (cv_vm w))"
proof (cases "mc w")
  case (Pair r u)
  with assms(1) have q: "m (cv_vm w) = (r, cv_vm u)" "cv_heap u = cv_heap w" "cv_bad u = cv_bad w" "fresh u"
    by (auto simp: agrees_def)
  show ?thesis
    using assms(2) [OF q(4,2)] q Pair by (cases r) (auto simp: agrees_def andThen_def)
qed

lemma agrees_forEach:
  assumes "fresh w" and "\<And>x u. x \<in> set xs \<Longrightarrow> fresh u \<Longrightarrow> cv_heap u = cv_heap w \<Longrightarrow> agrees u (fc x u) (f x (cv_vm u))"
  shows "agrees w (forEach fc xs w) (forEach f xs (cv_vm w))"
  using assms
proof (induction xs arbitrary: w)
  case Nil
  then show ?case by (simp add: agrees_def succeed_def)
next
  case (Cons x xs)
  show ?case unfolding forEach.simps
    by (rule agrees_andThen) (use Cons in simp_all)
qed

text \<open>A string that is freed when the function returns.\<close>

lemma agrees_cstr:
  assumes "fresh w"
    and "\<And>p u. fresh u \<Longrightarrow> cv_vm u = cv_vm w \<Longrightarrow> map_of (cv_heap u) p = Some s \<Longrightarrow>
      (\<And>q t. map_of (cv_heap w) q = Some t \<Longrightarrow> map_of (cv_heap u) q = Some t) \<Longrightarrow>
      agrees u (bc p u) (b (cv_vm u))"
  shows "agrees w (andThen (C_CString s) (\<lambda>p. deferred (C_free p) (bc p)) w) (b (cv_vm w))"
proof -
  let ?p = "cv_next w"
  let ?u = "w\<lparr>cv_heap := (?p, s) # cv_heap w, cv_next := Suc ?p\<rparr>"
  have new: "q \<noteq> ?p" if "map_of (cv_heap w) q = Some t" for q t
    using that assms(1) by (force simp: fresh_def dest: map_of_SomeD)
  have "agrees ?u (bc ?p ?u) (b (cv_vm ?u))"
    by (rule assms(2)) (use assms(1) new in \<open>auto simp: fresh_def less_Suc_eq\<close>)
  moreover have "filter (\<lambda>(q, _). q \<noteq> ?p) (cv_heap w) = cv_heap w"
    using assms(1) by (auto simp: fresh_def filter_id_conv)
  ultimately show ?thesis
    by (cases "bc ?p ?u") (force simp: agrees_def andThen_def C_CString_def deferred_def C_free_def fresh_def)
qed

text \<open>A string that is freed right after the call.\<close>

lemma agrees_cstr_call:
  assumes "fresh w" and "f [cstr s] = c"
  shows "agrees w (andThen (C_CString s) (\<lambda>p. andThen (krunC env [p] f) (\<lambda>ret.
      andThen (C_free p) (\<lambda>_. onC (retErr ret)))) w) (tryKrun env c (cv_vm w))"
proof -
  have "filter (\<lambda>(q, _). q \<noteq> cv_next w) (cv_heap w) = cv_heap w"
    using assms(1) by (auto simp: fresh_def filter_id_conv)
  then show ?thesis
    using assms by (auto simp: agrees_def andThen_def C_CString_def krunC_def onC_def readC_def C_free_def tryKrun_def
        krun_def retErr_def fresh_def succeed_def failWith_def)
qed

text \<open>An array of strings that is freed when the function returns.\<close>

definition holds :: "cvm \<Rightarrow> nat list \<Rightarrow> string list \<Rightarrow> bool" where
  "holds u ps strs \<longleftrightarrow> list_all2 (\<lambda>p s. map_of (cv_heap u) p = Some s) ps strs"

lemma cstringsC_ok:
  assumes "fresh w"
  shows "\<exists>ps u. cstringsC strs w = (Inr (map Some ps @ [None]), u) \<and> fresh u \<and> cv_vm u = cv_vm w \<and>
    cv_bad u = cv_bad w \<and> holds u ps strs \<and> distinct ps \<and> (\<forall>p \<in> set ps. cv_next w \<le> p) \<and>
    (\<exists>new. cv_heap u = new @ cv_heap w \<and> fst ` set new = set ps)"
  using assms
proof (induction strs arbitrary: w)
  case Nil
  then show ?case by (auto simp: succeed_def holds_def)
next
  case (Cons s strs)
  let ?u = "w\<lparr>cv_heap := (cv_next w, s) # cv_heap w, cv_next := Suc (cv_next w)\<rparr>"
  have "fresh ?u" using Cons.prems by (auto simp: fresh_def less_Suc_eq)
  from Cons.IH [OF this] obtain ps t new where t: "cstringsC strs ?u = (Inr (map Some ps @ [None]), t)" "fresh t"
    "cv_vm t = cv_vm w" "cv_bad t = cv_bad w" "holds t ps strs" "distinct ps" "\<forall>p \<in> set ps. Suc (cv_next w) \<le> p"
    "cv_heap t = new @ (cv_next w, s) # cv_heap w" "fst ` set new = set ps"
    by auto
  have "map_of new (cv_next w) = None"
    using t(7,9) by (auto simp: map_of_eq_None_iff)
  then have "map_of (cv_heap t) (cv_next w) = Some s" by (simp add: t(8) map_add_def)
  with t show ?case
    by (intro exI [of _ "cv_next w # ps"] exI [of _ t] conjI exI [of _ "new @ [(cv_next w, s)]"])
      (auto simp: andThen_def C_CString_def succeed_def holds_def)
qed

lemma arrayPtr_strings [simp]: "arrayPtr (map Some ps @ [None]) = ps"
  by (induction ps) (simp_all add: arrayPtr_def)

lemma arrayFree_ok:
  assumes "distinct ps" and "\<forall>p \<in> set ps. map_of (cv_heap w) p \<noteq> None"
  shows "arrayFree (map Some ps @ [None]) w = (Inr (), w\<lparr>cv_heap := filter (\<lambda>(q, _). q \<notin> set ps) (cv_heap w)\<rparr>)"
  using assms
proof (induction ps arbitrary: w)
  case Nil
  then show ?case by (simp add: succeed_def)
next
  case (Cons p ps)
  let ?u = "w\<lparr>cv_heap := filter (\<lambda>(q, _). q \<noteq> p) (cv_heap w)\<rparr>"
  have m: "map_of (filter (\<lambda>(k, _). k \<noteq> p) xs) q = map_of xs q" if "q \<noteq> p" for q and xs :: "(nat \<times> string) list"
    using that by (induction xs) auto
  have "q \<noteq> p \<and> map_of (cv_heap w) q \<noteq> None" if "q \<in> set ps" for q
    using that Cons.prems by auto
  then have "\<forall>q \<in> set ps. map_of (cv_heap ?u) q \<noteq> None" by (simp add: m)
  from Cons.IH [OF _ this] Cons.prems show ?case
    by (auto simp: andThen_def C_free_def case_prod_beta' conj_commute)
qed

lemma agrees_cstrings:
  assumes "fresh w"
    and "\<And>ps u. fresh u \<Longrightarrow> cv_vm u = cv_vm w \<Longrightarrow> holds u ps strs \<Longrightarrow>
      (\<And>q t. map_of (cv_heap w) q = Some t \<Longrightarrow> map_of (cv_heap u) q = Some t) \<Longrightarrow>
      agrees u (bc (map Some ps @ [None]) u) (b (cv_vm u))"
  shows "agrees w (andThen (cstringsC strs) (\<lambda>ptrs. deferred (arrayFree ptrs) (bc ptrs)) w) (b (cv_vm w))"
proof -
  obtain ps u new where u: "cstringsC strs w = (Inr (map Some ps @ [None]), u)" "fresh u" "cv_vm u = cv_vm w"
    "cv_bad u = cv_bad w" "holds u ps strs" "distinct ps" "\<forall>p \<in> set ps. cv_next w \<le> p"
    "cv_heap u = new @ cv_heap w" "fst ` set new = set ps"
    using cstringsC_ok [OF assms(1), of strs] by blast
  have old: "q \<notin> set ps" if "q \<in> fst ` set (cv_heap w)" for q
    using that assms(1) u(7) by (fastforce simp: fresh_def)
  have keep: "map_of (cv_heap u) q = Some t" if "map_of (cv_heap w) q = Some t" for q t
  proof -
    have "q \<in> fst ` set (cv_heap w)" using that by (force dest: map_of_SomeD)
    with old u(9) have "q \<notin> fst ` set new" by simp
    then have "map_of new q = None" by (simp add: map_of_eq_None_iff)
    then show ?thesis using that by (simp add: u(8) map_add_def)
  qed
  obtain r t where t: "bc (map Some ps @ [None]) u = (r, t)" by fastforce
  with assms(2) [OF u(2,3,5) keep] have a: "b (cv_vm w) = (r, cv_vm t)" "cv_heap t = cv_heap u"
    "cv_bad t = cv_bad u" "fresh t"
    by (simp_all add: agrees_def u(3))
  have "\<forall>p \<in> set ps. map_of (cv_heap t) p \<noteq> None"
    using u(5) unfolding a(2) holds_def by (fastforce simp: list_all2_conv_all_nth in_set_conv_nth)
  note f = arrayFree_ok [OF u(6) this]
  have "filter (\<lambda>(q, _). q \<notin> set ps) new = []"
    using u(9) by (force simp: filter_empty_conv)
  moreover have "filter (\<lambda>(q, _). q \<notin> set ps) (cv_heap w) = cv_heap w"
    using old by (force simp: filter_id_conv)
  ultimately have "filter (\<lambda>(q, _). q \<notin> set ps) (cv_heap t) = cv_heap w"
    by (simp add: a(2) u(8))
  moreover have "fresh (t\<lparr>cv_heap := cv_heap w\<rparr>)"
    using a(4) by (auto simp: fresh_def a(2) u(8))
  ultimately show ?thesis
    using a(1,3) u(1,4) t f by (simp add: agrees_def andThen_def deferred_def)
qed

text \<open>The library reads what was written.\<close>

lemma holds_read: "holds u ps strs \<Longrightarrow> map (readC u) ps = map cstr strs"
  unfolding holds_def by (induction rule: list_all2_induct) (simp_all add: readC_def)

lemma holds_live: "holds u ps strs \<Longrightarrow> \<not> list_ex (\<lambda>p. map_of (cv_heap u) p = None) ps"
  unfolding holds_def by (induction rule: list_all2_induct) simp_all

lemma holds_keep:
  "holds w ps strs \<Longrightarrow> (\<And>q t. map_of (cv_heap w) q = Some t \<Longrightarrow> map_of (cv_heap u) q = Some t) \<Longrightarrow> holds u ps strs"
  unfolding holds_def by (erule list_all2_mono) simp

lemma holds_append: "holds u ps ss \<Longrightarrow> holds u qs ts \<Longrightarrow> holds u (ps @ qs) (ss @ ts)"
  unfolding holds_def by (rule list_all2_appendI)

lemma holds_simps [simp]:
  "holds u [] []" "holds u (p # ps) (s # strs) \<longleftrightarrow> map_of (cv_heap u) p = Some s \<and> holds u ps strs"
  by (simp_all add: holds_def)

lemma agrees_call [memory]:
  assumes "fresh u" and "holds u ps strs" and "f (map cstr strs) = c"
  shows "agrees u (mustC env ps f u) (mustKrun env c (cv_vm u))"
    and "agrees u (tryC env ps f u) (tryKrun env c (cv_vm u))"
  using assms(1,3) holds_live [OF assms(2)]
  by (auto simp: mustC_def tryC_def mustKrun_def tryKrun_def andThen_def krunC_def holds_read [OF assms(2)]
      onC_def krun_def must_def retErr_def succeed_def failWith_def agrees_def fresh_def)

lemma agrees_call1:
  assumes "fresh u" and "map_of (cv_heap u) p = Some s" and "f [cstr s] = c"
  shows "agrees u (mustC env [p] f u) (mustKrun env c (cv_vm u))"
    and "agrees u (tryC env [p] f u) (tryKrun env c (cv_vm u))"
  using assms by (auto intro!: agrees_call [where strs = "[s]"])

lemma agrees_call2:
  assumes "fresh u" and "map_of (cv_heap u) p = Some s" and "map_of (cv_heap u) q = Some t" and "f [cstr s, cstr t] = c"
  shows "agrees u (tryC env [p, q] f u) (tryKrun env c (cv_vm u))"
  using assms by (auto intro!: agrees_call [where strs = "[s, t]"])

lemma setters_memory [memory]:
  assumes "fresh w"
  shows "agrees w (setResourcesC env w) (setResources env (cv_vm w))"
    and "agrees w (setRootFSC env w) (setRootFS env (cv_vm w))"
    and "agrees w (setGuestAgentC env w) (setGuestAgent env (cv_vm w))"
proof -
  show "agrees w (setResourcesC env w) (setResources env (cv_vm w))"
    unfolding setResourcesC_def setResources_def Let_def
    by (rule agrees_andThen, rule agrees_onC, rule assms, rule agrees_cstrings, assumption,
        simp (no_asm) only: arrayPtr_strings, rule agrees_call, assumption, assumption, simp add: cstrings_def)
  show "agrees w (setRootFSC env w) (setRootFS env (cv_vm w))"
    unfolding setRootFSC_def setRootFS_def Let_def
    by (rule agrees_cstr, rule assms, rule agrees_call1, assumption, assumption, simp)
  let ?ga = "GuestAgentCfg (kv_cfg (cv_vm w))"
  show "agrees w (setGuestAgentC env w) (setGuestAgent env (cv_vm w))"
    unfolding setGuestAgentC_def setGuestAgent_def Let_def
  proof (rule agrees_cstr [OF assms], rule agrees_andThen, rule agrees_call1(1), assumption, assumption, simp)
    fix a e u x0
    assume e: "fresh u" and x0: "cv_vm x0 = cv_vm w"
    let ?call = "krun_set_exec (kv_ctxID (cv_vm w)) (cstr GuestAgentPathInGuest) (cstrings (ga_Args ?ga)) (cstrings (ga_Env ?ga))"
    show "agrees u (andThen (C_CString GuestAgentPathInGuest) (\<lambda>exec. deferred (C_free exec) (
         andThen (cstringsC (ga_Args ?ga)) (\<lambda>args. deferred (arrayFree args) (
         andThen (cstringsC (ga_Env ?ga)) (\<lambda>envs. deferred (arrayFree envs) (
           mustC env (exec # arrayPtr args @ arrayPtr envs) (\<lambda>xs.
             krun_set_exec (kv_ctxID (cv_vm w)) (hd xs) (take (length (arrayPtr args)) (tl xs))
               (drop (length (arrayPtr args)) (tl xs))))))))) u)
      (mustKrun env (krun_set_exec (kv_ctxID (cv_vm x0)) (cstr GuestAgentPathInGuest)
        (cstrings (ga_Args (GuestAgentCfg (kv_cfg (cv_vm x0))))) (cstrings (ga_Env (GuestAgentCfg (kv_cfg (cv_vm x0)))))) (cv_vm u))"
      unfolding x0
    proof (rule agrees_cstr [OF e], rule agrees_cstrings, assumption, rule agrees_cstrings, assumption, simp (no_asm) only: arrayPtr_strings)
      fix p x ps y qs z
      assume "fresh z" and "map_of (cv_heap x) p = Some GuestAgentPathInGuest" and "holds y ps (ga_Args ?ga)"
        and "holds z qs (ga_Env ?ga)"
        and "\<And>q t. map_of (cv_heap x) q = Some t \<Longrightarrow> map_of (cv_heap y) q = Some t"
        and y: "\<And>q t. map_of (cv_heap y) q = Some t \<Longrightarrow> map_of (cv_heap z) q = Some t"
      then have "holds z (p # ps @ qs) (GuestAgentPathInGuest # ga_Args ?ga @ ga_Env ?ga)"
        by (auto intro: holds_append holds_keep [OF _ y])
      moreover from \<open>holds y ps (ga_Args ?ga)\<close> have "length ps = length (ga_Args ?ga)"
        by (simp add: holds_def list_all2_lengthD)
      ultimately show "agrees z (mustC env (p # ps @ qs) (\<lambda>xs.
             krun_set_exec (kv_ctxID (cv_vm w)) (hd xs) (take (length ps) (tl xs)) (drop (length ps) (tl xs))) z)
           (mustKrun env ?call (cv_vm z))"
        using \<open>fresh z\<close>
        by (intro agrees_call [where strs = "GuestAgentPathInGuest # ga_Args ?ga @ ga_Env ?ga"]) (auto simp: cstrings_def)
    qed
  qed
qed

lemma agrees_if [memory]:
  "(b \<Longrightarrow> agrees w p q) \<Longrightarrow> (\<not> b \<Longrightarrow> agrees w p' q') \<Longrightarrow> agrees w (if b then p else p') (if b then q else q')"
  "(b \<Longrightarrow> agrees w (mc w) (m v)) \<Longrightarrow> (\<not> b \<Longrightarrow> agrees w (nc w) (n v)) \<Longrightarrow>
     agrees w ((if b then mc else nc) w) ((if b then m else n) v)"
  by simp_all

lemma agrees_prod [memory]:
  "(\<And>a b. agrees w (fc a b w) (f a b v)) \<Longrightarrow> agrees w ((case p of (a, b) \<Rightarrow> fc a b) w) ((case p of (a, b) \<Rightarrow> f a b) v)"
  by (cases p) simp

lemma consoles_memory [memory]:
  assumes "fresh w"
  shows "agrees w (addMainConsoleC env con w) (addMainConsole env con (cv_vm w))"
    and "agrees w (addStdioRedirectC env con w) (addStdioRedirect env con (cv_vm w))"
    and "agrees w (addLogAndSignalC env con w) (addLogAndSignal env con (cv_vm w))"
proof -
  show "agrees w (addMainConsoleC env con w) (addMainConsole env con (cv_vm w))"
    unfolding addMainConsoleC_def addMainConsole_def Let_def
    by (rule agrees_andThen, rule agrees_onC, rule assms, rule agrees_cstr, assumption,
        rule agrees_call1, assumption, assumption, simp add: cstr_def)
  show "agrees w (addStdioRedirectC env con w) (addStdioRedirect env con (cv_vm w))"
    unfolding addStdioRedirectC_def addStdioRedirect_def Let_def
    by (rule agrees_andThen, rule agrees_onC, rule assms, rule agrees_prod,
        rule agrees_andThen, erule agrees_onC, rule agrees_prod,
        rule agrees_andThen, erule agrees_onC, rule agrees_prod,
        rule agrees_andThen, erule agrees_forEach)
      (auto simp: cstr_def intro!: agrees_cstr_call agrees_onC)
  show "agrees w (addLogAndSignalC env con w) (addLogAndSignal env con (cv_vm w))"
    unfolding addLogAndSignalC_def addLogAndSignal_def Let_def
    by (rule agrees_andThen, rule agrees_onC, rule assms, rule agrees_prod,
        rule agrees_andThen, erule agrees_onC, rule agrees_andThen, erule agrees_onC,
        rule agrees_andThen, erule agrees_onC, rule agrees_cstr, assumption,
        rule agrees_call1, assumption, assumption, simp add: cstr_def)
qed

lemma setupConsole_memory [memory]:
  assumes "fresh w"
  shows "agrees w (setupConsoleC env w) (setupConsole env (cv_vm w))"
  unfolding setupConsoleC_def setupConsole_def Let_def
  by (rule agrees_andThen, rule agrees_onC, rule assms, rule agrees_andThen, erule agrees_onC, rule agrees_if(2),
      erule agrees_onC, rule agrees_andThen, erule consoles_memory, rule agrees_andThen, rule agrees_if(2),
      erule agrees_onC, erule consoles_memory, erule consoles_memory)

lemma setupVSock_memory [memory]:
  assumes "fresh w"
  shows "agrees w (setupVSockC env w) (setupVSock env (cv_vm w))"
  unfolding setupVSockC_def setupVSock_def Let_def
  by (rule agrees_andThen, rule agrees_onC, rule assms, rule agrees_andThen, erule agrees_onC,
      rule agrees_andThen, erule agrees_onC, rule agrees_cstr, assumption,
      rule agrees_andThen, rule agrees_call1, assumption, assumption, simp,
      rule agrees_andThen, erule agrees_onC, erule agrees_forEach, erule agrees_cstr_call, simp)

lemma setupNetwork_memory [memory]:
  assumes "fresh w"
  shows "agrees w (setupNetworkC env w) (setupNetwork env (cv_vm w))"
proof -
  have "agrees w (setupGVisorC env w) (setupGVisor env (cv_vm w))"
    unfolding setupGVisorC_def setupGVisor_def Let_def
    by (rule agrees_andThen, rule agrees_onC, rule assms, rule agrees_cstr, assumption, rule agrees_if(2))
      (rule agrees_call1, assumption, assumption, simp)+
  then show ?thesis
    using agrees_onC [OF assms, of "succeed ()"] agrees_onC [OF assms, of "failWith (Errorf ''unknown network mode'') :: (krunVM, unit) proc"]
    by (simp add: setupNetworkC_def setupNetwork_def Let_def succeed_def failWith_def)
qed

lemma addDisk_memory [memory]:
  assumes "fresh w"
  shows "agrees w (addDiskC env path w) (addDisk env path (cv_vm w))"
  unfolding addDiskC_def addDisk_def Let_def
proof (rule agrees_andThen, rule agrees_onC, rule assms)
  fix n u
  assume u: "fresh u"
  show "agrees u ((case n of
           File _ _ \<Rightarrow>
             andThen (onC (onKrunOS (\<lambda>s. case uuid_NewString s of (u, s') \<Rightarrow> (Inr u, s')))) (\<lambda>u.
             andThen (C_CString u) (\<lambda>id. deferred (C_free id) (
             andThen (C_CString path) (\<lambda>diskPath. deferred (C_free diskPath) (
               tryC env [id, diskPath] (\<lambda>xs. krun_add_disk2 (kv_ctxID (cv_vm w)) (xs ! 0) (xs ! 1) 0 False))))))
         | _ \<Rightarrow> onC (failWith (Errorf ''not a regular file''))) u)
     ((case n of
        File _ _ \<Rightarrow>
          andThen (onKrunOS (\<lambda>s. case uuid_NewString s of (u, s') \<Rightarrow> (Inr u, s'))) (\<lambda>id.
            tryKrun env (krun_add_disk2 (kv_ctxID (cv_vm w)) (cstr id) (cstr path) 0 False))
      | _ \<Rightarrow> failWith (Errorf ''not a regular file'')) (cv_vm u))"
  proof (cases n)
    case (File c xs)
    show ?thesis unfolding File node.case
      by (rule agrees_andThen, rule agrees_onC, rule u, rule agrees_cstr, assumption, rule agrees_cstr, assumption,
          rule agrees_call2, assumption, blast, assumption, simp)
  qed (simp_all add: agrees_onC [OF u])
qed

lemma addVirtioFS_memory [memory]:
  assumes "fresh w"
  shows "agrees w (addVirtioFSC env tag hostPath w) (addVirtioFS env tag hostPath (cv_vm w))"
  unfolding addVirtioFSC_def addVirtioFS_def Let_def
  by (rule agrees_andThen, rule agrees_onC, rule assms, rule agrees_andThen, erule agrees_onC, rule agrees_if(2),
      rule agrees_cstr, assumption, rule agrees_cstr, assumption,
      rule agrees_call2, assumption, blast, assumption, simp, erule agrees_onC)

lemma setupStorage_memory [memory]:
  assumes "fresh w"
  shows "agrees w (setupStorageC env w) (setupStorage env (cv_vm w))"
  unfolding setupStorageC_def setupStorage_def Let_def
  by (rule agrees_andThen, rule agrees_forEach, rule assms, erule addDisk_memory,
      erule agrees_forEach, erule addVirtioFS_memory)

lemma krunCreate_memory:
  assumes "fresh w"
  shows "agrees w (krunCreateC env w) (krunCreate env (cv_vm w))"
  unfolding krunCreateC_def krunCreate_def
  by (rule agrees_andThen, rule agrees_onC, rule assms, (rule agrees_andThen, erule memory)+, erule memory)

subsection \<open>Properties\<close>

text \<open>C15. Create manages the memory of C: with every string allocated and freed as the code does it, \<open>Create\<close>
  ends as the model that passes strings (same result, same calls with the same strings, same state);
  no pointer is used or freed when it is not allocated; and at the end, also when a call
  fails or \<open>must\<close> panics half way, every string was freed.\<close>

theorem create_memory_safe:
  "case krunCreateC env (newC v) of (r, w) \<Rightarrow> krunCreate env v = (r, cv_vm w) \<and> cv_heap w = [] \<and> \<not> cv_bad w"
  using krunCreate_memory [of "newC v" env] by (auto simp: agrees_def newC_def fresh_def split: prod.splits)

subsection \<open>Files kept from the garbage collector\<close>

text \<open>The fields of \<open>VM.files\<close> exist so that the files whose descriptors were given to the library stay
  referenced until the machine runs: Go closes a file that nothing refers to any more.\<close>

definition keptFiles :: "krunVM \<Rightarrow> int list" where
  "keptFiles v =
     concat (map (\<lambda>f. case f of None \<Rightarrow> [] | Some fd \<Rightarrow> [fd])
       [kv_stdin v, kv_stdout v, kv_stderr v, kv_guestLog v, kv_signalPipeW v]) @
     (case kv_consolePty v of None \<Rightarrow> [] | Some (master, slave) \<Rightarrow> [master, slave])"

text \<open>The read end of the signal pipe is not among them: \<open>addLogAndSignal\<close> gives its descriptor to the
  library and keeps the write end and the log file only.\<close>

lemma signal_reader_not_kept:
  assumes "addLogAndSignal env con v = (Inr (), v')" and "kv_pipes v = (sigR, sigW) # pipes"
    and "sigR \<notin> set (sigW # ke_logFd env # keptFiles v)"
  shows "krun_add_console_port_inout (kv_ctxID v) (of_int con) ''guest-logs'' sigR (ke_logFd env) \<in> set (kv_calls v') \<and>
    sigR \<notin> set (keptFiles v')"
  using assms by (cases "kv_consolePty v") (auto simp: addLogAndSignal_def andThen_Inr_iff krun_ok modifyState_def keptFiles_def
      split: option.splits)

end
