(* ===== verification/Microvm.thy ===== *)
theory Microvm
  imports Krun
begin

text \<open>
  From a configuration to a microVM: \<open>buildMachine\<close> (\<open>pkg/librevm/machine.go\<close>) followed by
  \<open>VM.Create\<close> (\<open>pkg/libkrun/vm.go\<close>). The devices of the virtual machine are computed from the
  configuration and the workspace alone, and the two steps together give exactly these.
\<close>

subsection \<open>The device tree of a configuration\<close>

definition configRoutes :: "Config \<Rightarrow> UnixSocketForwardRoute list" where
  "configRoutes cfg =
     (case parseForwardUnixRules (ForwardUnix cfg) of
        Inl e \<Rightarrow> []
      | Inr rules \<Rightarrow> (case BuildUnixSocketForwardRoutes rules of Inl e \<Rightarrow> [] | Inr rs \<Rightarrow> rs))"

definition configShares :: "OS \<Rightarrow> Config \<Rightarrow> Mount list" where
  "configShares s cfg =
     (case os_home s of
        Inl e \<Rightarrow> []
      | Inr home \<Rightarrow> sharedDirs (os_cwd s) ((home @ '':'' @ home) # cfg_Mounts cfg))"

definition configPeer :: "bool \<Rightarrow> host_env \<Rightarrow> Config \<Rightarrow> machinePathManager \<Rightarrow> device list" where
  "configPeer linux env cfg pm =
     (if Network cfg = GVISOR
      then (case ParseUnixAddr (vnetURL env pm) of
              Inl e \<Rightarrow> [] | Inr a \<Rightarrow> [netPeer linux (addr_Path a)])
      else [])"

text \<open>\<open>s\<close> is the system when the machine is built, \<open>t\<close> the one in which the links of shared
  directories are followed, \<open>w\<close> the workspace.\<close>

definition configTree :: "bool \<Rightarrow> host_env \<Rightarrow> OS \<Rightarrow> OS \<Rightarrow> Config \<Rightarrow> string \<Rightarrow> device list" where
  "configTree linux env s t cfg w =
     (let pm = newMachinePathManager w;
          tty = (case he_isTerminal env of (i, o', e) \<Rightarrow> i \<and> o' \<and> e)
      in [VmConfig (of_int (CPUs cfg)) (ucast (MemoryMB cfg)), RootDir (cstr (GetRootfsDir pm)),
          TtyPort ''default-tty-console''] @
         (if tty then [] else map PipePort [''krun-stdin'', ''krun-stdout'', ''krun-stderr'']) @
         [PipePort ''guest-logs'', VSock (if Network cfg = TSI then 1 else 0),
          VSockMap (of_nat DefaultVSockPort) (cstr (GetIgnSocketFile pm)) False] @
         map (\<lambda>r. VSockMap (VSockPort r) (cstr (HostPath r)) False) (configRoutes cfg) @
         configPeer linux env cfg pm @
         map (\<lambda>d. DiskFile (cstr (diskPath (os_cwd s) d)) 0 False) (VarDisk cfg # ExternalDisks cfg) @
         map (\<lambda>m. ShareDir (cstr (mnt_Tag m)) (cstr (resolved t (mnt_Source m))) virtiofsMemWindow) (configShares s cfg) @
         [Workdir ''/'', ExecAgent (cstr GuestAgentPathInGuest) [] (cstrings (guestAgentEnv env (Env cfg)))])"

subsection \<open>A built machine has this device tree\<close>

lemma shared_absolute: "IsAbs cwd \<Longrightarrow> m \<in> set (sharedDirs cwd dirs) \<Longrightarrow> Abs c (mnt_Source m) = mnt_Source m"
  by (auto simp: sharedDirs_def Abs_def [of c] IsAbs_Abs Clean_Abs)

lemma attached_paths:
  assumes "list_all2 (attaches cwd) ds devs" and "IsAbs cwd"
  shows "map (\<lambda>d. DiskFile (cstr (bd_Path d)) 0 False) devs = map (\<lambda>d. DiskFile (cstr (diskPath cwd d)) 0 False) ds"
  using assms(1) by (induction rule: list_all2_induct) (simp_all add: attaches_def assms(2))

lemma workspace_paths:
  assumes "IsAbs w" and "Clean w = w"
  shows "ParseUnixAddr (unixURL (GetIgnSocketFile (newMachinePathManager w))) =
      Inr \<lparr>addr_Scheme = ''unix'', addr_Host = [], addr_Port = 0, addr_Path = GetIgnSocketFile (newMachinePathManager w)\<rparr>"
    and "Abs c (Clean (GetRootfsDir (newMachinePathManager w))) = GetRootfsDir (newMachinePathManager w)"
proof -
  have dir: "workspaceDir (newMachinePathManager w) = w" using assms(2) by (simp add: newMachinePathManager_def)
  have n: "list_all nameElem [''socks'', ''ign.sock'']" "list_all nameElem [''rootfs'']" by (simp_all add: nameElem_def)
  note a = IsAbs_Join_names [OF assms(1) _ n(1)] IsAbs_Join_names [OF assms(1) _ n(2)]
  have e: "Clean (Join [w, ''socks'', ''ign.sock'']) = Join [w, ''socks'', ''ign.sock'']" "Clean (Join [w, ''rootfs'']) = Join [w, ''rootfs'']"
    using Join_names_not_Nil [OF assms(1) _ n(1)] Join_names_not_Nil [OF assms(1) _ n(2)] by (auto intro: Clean_Join)
  show "ParseUnixAddr (unixURL (GetIgnSocketFile (newMachinePathManager w))) =
      Inr \<lparr>addr_Scheme = ''unix'', addr_Host = [], addr_Port = 0, addr_Path = GetIgnSocketFile (newMachinePathManager w)\<rparr>"
    using a(1) e(1) by (intro ParseUnixAddr_unixURL) (simp add: GetIgnSocketFile_def GetSocketFile_def dir)
  show "Abs c (Clean (GetRootfsDir (newMachinePathManager w))) = GetRootfsDir (newMachinePathManager w)"
    using a(2) e(2) by (simp add: GetRootfsDir_def dir Abs_def)
qed

lemma described_tree:
  assumes d: "describes env cfg s (newMachinePathManager w) sp" and abs: "IsAbs (os_cwd s)"
    and w: "IsAbs w" "Clean w = w"
    and ign: "ParseUnixAddr (IgnitionListenSockAddr sp) = Inr ign"
    and routes: "BuildUnixSocketForwardRoutes (UnixSocketForwards sp) = Inr routes"
  shows "deviceTree linux t sp ign routes = configTree linux env s t cfg w"
proof -
  let ?pm = "newMachinePathManager w"
  have shares: "Mounts sp = configShares s cfg"
    using d by (auto simp: describes_def configShares_def)
  have "\<forall>m \<in> set (Mounts sp). Abs c (mnt_Source m) = mnt_Source m" for c
    using d abs by (auto simp: describes_def intro: shared_absolute)
  then have res: "map (\<lambda>m. ShareDir (cstr (mnt_Tag m)) (cstr (resolved t (Abs (os_cwd t) (mnt_Source m)))) virtiofsMemWindow) (Mounts sp) =
      map (\<lambda>m. ShareDir (cstr (mnt_Tag m)) (cstr (resolved t (mnt_Source m))) virtiofsMemWindow) (configShares s cfg)"
    by (simp add: shares)
  have rt: "routes = configRoutes cfg"
    using d routes by (simp add: describes_def configRoutes_def)
  have ip: "addr_Path ign = GetIgnSocketFile ?pm"
    using d ign workspace_paths(1) [OF w] by (auto simp: describes_def)
  have disks: "map (\<lambda>d. DiskFile (cstr (bd_Path d)) 0 False) (BlkDevs sp) =
      map (\<lambda>d. DiskFile (cstr (diskPath (os_cwd s) d)) 0 False) (VarDisk cfg # ExternalDisks cfg)"
    using d by (intro attached_paths [OF _ abs]) (simp add: describes_def)
  have net: "netDevices linux sp = configPeer linux env cfg ?pm"
    using d by (auto simp: describes_def netDevices_def configPeer_def split: sum.split)
  have root: "RootFS sp = GetRootfsDir ?pm"
    using d workspace_paths(2) [OF w] by (simp add: describes_def)
  show ?thesis
    using d
    by (simp add: deviceTree_def configTree_def consoleDevices_def vsockDevices_def storageDevices_def
        net disks res rt ip root describes_def Let_def cstrings_def)
      (simp add: cstr_def)
qed

subsection \<open>Properties\<close>

lemma built_tree:
  assumes "env_keeps env" and "IsAbs (os_cwd s)" and "buildMachine env cfg ws s = (Inr cb, b)"
    and "ParseUnixAddr (IgnitionListenSockAddr (b_spec b)) = Inr ign"
    and "BuildUnixSocketForwardRoutes (UnixSocketForwards (b_spec b)) = Inr routes"
  shows "deviceTree linux t (b_spec b) ign routes = configTree linux env s t cfg (Abs (os_cwd s) (Clean ws))"
  using conjunct1 [OF buildMachine_describes [OF assms(1,3)]] assms(2) IsAbs_Abs [OF assms(2)]
    Clean_Abs [OF assms(2)] assms(4,5)
  by (rule described_tree)

text \<open>C9. The user gets the machine that was configured. When a machine is built from a configuration and
  the microVM is then created from its description, whatever the file system and the terminals are by then, the
  virtual machine has exactly the devices of the configuration, in this order: the CPUs and the
  memory, the root directory and the ignition socket of the workspace, the console and log ports, a
  vsock port for every forwarding rule, the network peer in gvisor mode, the var disk and the
  external disks (raw images, writable) in their order, the home directory and the configured directories (at the place
  their links lead to), and the guest agent with the configured environment.\<close>

theorem configured_microvm:
  assumes "env_keeps env" and "IsAbs (os_cwd s)" and "buildMachine env cfg ws s = (Inr cb, b)"
    and "krunCreate kenv (newKrun (b_spec b) os pipes) = (Inr (), vm)"
  shows "devices (kv_calls vm) = configTree (ke_linux kenv) env s (kv_os vm) cfg (Abs (os_cwd s) (Clean ws))"
  using krunCreate_adds [OF assms(4)] built_tree [OF assms(1-3)]
  by (auto simp: adds_def newKrun_def)

text \<open>What the configuration needs from the file system when the microVM is created: every disk is a
  regular file, every shared directory leads to a directory.\<close>

definition disksAndShares :: "OS \<Rightarrow> Config \<Rightarrow> OS \<Rightarrow> bool" where
  "disksAndShares s cfg t \<longleftrightarrow>
     (\<forall>d \<in> set (VarDisk cfg # ExternalDisks cfg). \<exists>c xs. fst (os_Stat (diskPath (os_cwd s) d) t) = Inr (File c xs)) \<and>
     (\<forall>m \<in> set (configShares s cfg). \<exists>k. fst (EvalSymlinks (mnt_Source m) t) = Inr k \<and> fst (os_Stat k t) = Inr Directory)"

lemma described_attachable:
  assumes d: "describes env cfg s pm sp" and abs: "IsAbs (os_cwd s)" and there: "disksAndShares s cfg t"
  shows "attachable sp t"
proof -
  have "list_all2 (attaches (os_cwd s)) (VarDisk cfg # ExternalDisks cfg) (BlkDevs sp)"
    using d by (simp add: describes_def)
  then have "\<exists>r \<in> set (VarDisk cfg # ExternalDisks cfg). bd_Path dev = diskPath (os_cwd s) r"
    if "dev \<in> set (BlkDevs sp)" for dev
    using that abs by (induction rule: list_all2_induct) (auto simp: attaches_def)
  moreover have "Mounts sp = configShares s cfg" and "\<forall>m \<in> set (Mounts sp). Abs c (mnt_Source m) = mnt_Source m" for c
    using d abs by (auto simp: describes_def configShares_def intro: shared_absolute)
  ultimately show ?thesis using there unfolding attachable_def disksAndShares_def by metis
qed

lemma built_creates:
  assumes "env_keeps env" and "buildMachine env cfg ws s = (Inr cb, b)" and "IsAbs (os_cwd s)"
    and "\<forall>c. ke_ret kenv c = 0" and "ok (ke_dup kenv)" and "ok (ke_pty kenv)" and "4 \<le> length pipes"
    and "os_OpenAppend (LogTo cfg) os = (Inr (), os')" and "disksAndShares s cfg os'"
    and "Network cfg = GVISOR \<longrightarrow> ok (ParseUnixAddr (vnetURL env (newMachinePathManager (Abs (os_cwd s) (Clean ws)))))"
  shows "\<exists>vm. krunCreate kenv (newKrun (b_spec b) os pipes) = (Inr (), vm)"
proof -
  let ?w = "Abs (os_cwd s) (Clean ws)"
  note d = conjunct1 [OF buildMachine_describes [OF assms(1,2)], unfolded describes_def]
  have sock: "ok (ParseUnixAddr (IgnitionListenSockAddr (b_spec b)))"
    using d workspace_paths(1) [OF IsAbs_Abs [OF assms(3)] Clean_Abs [OF assms(3)], of "Clean ws"] by simp
  have "ok (fst (krunCreate kenv (newKrun (b_spec b) os pipes)))"
  proof (rule krunCreate_succeeds [OF assms(4) _ _ _ sock, of "\<lambda>t. t = os"])
    show "stage (b_spec b) (if TTY (b_spec b) then 1 else 4) (\<lambda>t. t = os) (newKrun (b_spec b) os pipes)"
      using assms(7) by (simp add: stage_def newKrun_def)
    show "yields (os_OpenAppend (LogFile (b_spec b)) t) (attachable (b_spec b))" if "t = os" for t
      using that d assms(8) described_attachable [OF conjunct1 [OF buildMachine_describes [OF assms(1,2)]] assms(3,9)]
      by (simp add: yields_def)
  qed (use d assms(5,6,10) in auto)
  then show ?thesis by (auto simp: ok_iff) (metis prod.collapse)
qed

text \<open>C14. A built machine can be created: for the description of every machine that was built, \<open>Create\<close>
  succeeds as soon as the library, the terminal and the pipes do their part, the log file can be
  opened, and the configured disks and directories are still there. No description that \<open>buildMachine\<close>
  produces is refused by \<open>Create\<close> for its ignition address, its forwarding rules or its network mode.\<close>

theorem built_machine_creates:
  assumes "env_keeps env" and "buildMachine env cfg ws s = (Inr cb, b)" and "IsAbs (os_cwd s)"
    and "\<forall>c. ke_ret kenv c = 0" and "ok (ke_dup kenv)" and "ok (ke_pty kenv)" and "4 \<le> length pipes"
    and "os_OpenAppend (LogTo cfg) os = (Inr (), os')" and "disksAndShares s cfg os'"
    and "Network cfg = GVISOR \<longrightarrow> ok (ParseUnixAddr (vnetURL env (newMachinePathManager (Abs (os_cwd s) (Clean ws)))))"
  shows "\<exists>vm. krunCreate kenv (newKrun (b_spec b) os pipes) = (Inr (), vm)"
  using assms by (rule built_creates)

text \<open>The condition on gvisor mode is not idle: the address of the network socket is written without
  escapes, unlike the others, and read as a URL. A percent sign in the path of the workspace makes
  the microVM look for the socket elsewhere, or not start at all.\<close>

lemma vnet_unescaped:
  "ParseUnixAddr (vnetURL sampleEnv (newMachinePathManager ''/tmp/a%41'')) =
     Inr \<lparr>addr_Scheme = ''unix'', addr_Host = [], addr_Port = 0, addr_Path = ''/tmp/aA/socks/vnet.sock''\<rparr>"
  "\<not> ok (ParseUnixAddr (vnetURL sampleEnv (newMachinePathManager ''/tmp/50%off'')))"
  by code_simp+

text \<open>A session whose home directory exists, with a log file and a forwarded socket.\<close>

definition microConfig :: Config where
  "microConfig = sampleBuildConfig\<lparr>LogTo := ''/home/u/vm.log'', ForwardUnix := [''/g.sock:/h.sock'']\<rparr>"

definition microOS :: OS where
  "microOS = sampleBuildOS\<lparr>os_fs := os_fs sampleBuildOS @ [(''/home'', Directory), (''/home/u'', Directory)]\<rparr>"

declare sha256_hex_def [code del]
declare unixURL_def [code del]
declare JoinHostPort_def [code del]
declare Itoa.simps [code del]

lemma micro_build:
  "case buildMachine sampleBuildEnv microConfig ''/tmp/s'' microOS of
     (Inl e, b) \<Rightarrow> False
   | (Inr cb, b) \<Rightarrow>
       (case os_OpenAppend ''/home/u/vm.log'' (b_os b) of
          (Inl e, t) \<Rightarrow> False
        | (Inr u, t) \<Rightarrow>
            (case fst (os_Stat (diskPath ''/work'' (VarDisk microConfig)) t) of Inr (File c xs) \<Rightarrow> True | _ \<Rightarrow> False) \<and>
            fst (EvalSymlinks ''/home/u'' t) = Inr ''/home/u'' \<and> fst (os_Stat ''/home/u'' t) = Inr Directory)"
  by code_simp

lemma micro_shares: "map mnt_Source (configShares microOS microConfig) = [''/home/u'']"
  by code_simp

declare sha256_hex_def [code]
declare unixURL_def [code]
declare JoinHostPort_def [code]
declare Itoa.simps [code]

definition microKrun :: krun_env where
  "microKrun = \<lparr>ke_ret = (\<lambda>_. 0), ke_debug = [], ke_linux = True, ke_dup = Inr 3, ke_pty = Inr (4, 5), ke_logFd = 6\<rparr>"

definition micro_pipes :: "(int \<times> int) list" where
  "micro_pipes = [(10, 11), (12, 13), (14, 15), (16, 17)]"

lemma micro_built:
  obtains cb b t where "buildMachine sampleBuildEnv microConfig ''/tmp/s'' microOS = (Inr cb, b)"
    and "os_OpenAppend (LogTo microConfig) (b_os b) = (Inr (), t)" and "disksAndShares microOS microConfig t"
proof -
  obtain cb b t where b: "buildMachine sampleBuildEnv microConfig ''/tmp/s'' microOS = (Inr cb, b)"
    and t: "os_OpenAppend ''/home/u/vm.log'' (b_os b) = (Inr (), t)"
    and d: "\<exists>c xs. fst (os_Stat (diskPath ''/work'' (VarDisk microConfig)) t) = Inr (File c xs)"
    and m: "fst (EvalSymlinks ''/home/u'' t) = Inr ''/home/u''" "fst (os_Stat ''/home/u'' t) = Inr Directory"
    using micro_build by (auto split: prod.splits sum.splits node.splits)
  have "ExternalDisks microConfig = []" "LogTo microConfig = ''/home/u/vm.log''" "os_cwd microOS = ''/work''"
    by code_simp+
  moreover have "mnt_Source m = ''/home/u''" if "m \<in> set (configShares microOS microConfig)" for m
    using imageI [OF that, of mnt_Source] micro_shares by (metis empty_iff empty_set insertE list.simps(15) set_map)
  ultimately show thesis using b t d m by (intro that [of cb b t]) (auto simp: disksAndShares_def)
qed

lemma micro_keeps: "env_keeps sampleBuildEnv"
  by (simp add: env_keeps_def sampleBuildEnv_def sampleEnv_def sampleLib_def keepsOS_def osEnv_def setNode_def)

theorem built_machine_creates_witness:
  "\<exists>cb b vm. buildMachine sampleBuildEnv microConfig ''/tmp/s'' microOS = (Inr cb, b) \<and>
     krunCreate microKrun (newKrun (b_spec b) (b_os b) micro_pipes) = (Inr (), vm)"
proof -
  obtain cb b t where b: "buildMachine sampleBuildEnv microConfig ''/tmp/s'' microOS = (Inr cb, b)"
    and t: "os_OpenAppend (LogTo microConfig) (b_os b) = (Inr (), t)" "disksAndShares microOS microConfig t"
    by (rule micro_built)
  have "IsAbs (os_cwd microOS)" "Network microConfig \<noteq> GVISOR" by code_simp+
  then show ?thesis
    using built_machine_creates [OF micro_keeps b _ _ _ _ _ t, of microKrun micro_pipes] b
    by (simp add: microKrun_def micro_pipes_def)
qed

lemma micro_create:
  obtains cb b vm where "buildMachine sampleBuildEnv microConfig ''/tmp/s'' microOS = (Inr cb, b)"
    and "krunCreate microKrun (newKrun (b_spec b) (b_os b) micro_pipes) = (Inr (), vm)"
proof -
  obtain cb b t where b: "buildMachine sampleBuildEnv microConfig ''/tmp/s'' microOS = (Inr cb, b)"
    and t: "os_OpenAppend (LogTo microConfig) (b_os b) = (Inr (), t)" "disksAndShares microOS microConfig t"
    by (rule micro_built)
  have "IsAbs (os_cwd microOS)" "Network microConfig \<noteq> GVISOR" by code_simp+
  then obtain vm where "krunCreate microKrun (newKrun (b_spec b) (b_os b) micro_pipes) = (Inr (), vm)"
    using built_creates [OF micro_keeps b _ _ _ _ _ t, of microKrun micro_pipes]
    by (auto simp: microKrun_def micro_pipes_def)
  with b show thesis by (rule that)
qed

theorem configured_microvm_witness:
  "\<exists>cb b vm. buildMachine sampleBuildEnv microConfig ''/tmp/s'' microOS = (Inr cb, b) \<and>
     krunCreate microKrun (newKrun (b_spec b) (b_os b) micro_pipes) = (Inr (), vm) \<and>
     devices (kv_calls vm) = configTree True sampleBuildEnv microOS (kv_os vm) microConfig ''/tmp/s'' \<and>
     take 7 (devices (kv_calls vm)) = [VmConfig 4 2048, RootDir ''/tmp/s/rootfs'', TtyPort ''default-tty-console'',
       PipePort ''krun-stdin'', PipePort ''krun-stdout'', PipePort ''krun-stderr'', PipePort ''guest-logs'']"
proof -
  obtain cb b vm where b: "buildMachine sampleBuildEnv microConfig ''/tmp/s'' microOS = (Inr cb, b)"
    and vm: "krunCreate microKrun (newKrun (b_spec b) (b_os b) micro_pipes) = (Inr (), vm)"
    by (rule micro_create)
  have p: "IsAbs (os_cwd microOS)" "Abs (os_cwd microOS) (Clean ''/tmp/s'') = ''/tmp/s''" by code_simp+
  have "cstr (GetRootfsDir (newMachinePathManager ''/tmp/s'')) = ''/tmp/s/rootfs''" by code_simp
  moreover have "ke_linux microKrun" by (simp add: microKrun_def)
  ultimately show ?thesis using configured_microvm [OF micro_keeps p(1) b vm] b vm
    by (auto simp: p(2) configTree_def Let_def sampleBuildEnv_def sampleEnv_def microConfig_def sampleBuildConfig_def)
qed

end
