(* ===== verification/Packaging.thy ===== *)
theory Packaging
  imports Go_OS
begin

text \<open>
  The release build, \<open>scripts/build.go\<close>: which commands it runs, in which order, with which arguments
  and environment, and where it stops. The state is the operating system and the commands run so
  far, each with whether it succeeded; what a command does and prints is the parameter \<open>build_env\<close>.
  \<open>logrus.Fatalf\<close> ends the program: it is the error of the modelled procedure.
\<close>

subsection \<open>Commands\<close>

record command =
  cmd_dir :: "string option"
  cmd_env :: "string list"
  cmd_args :: "string list"

record build =
  bw_os :: OS
  bw_ran :: "(command \<times> bool) list"

record build_env =
  be_run :: "command \<Rightarrow> OS \<Rightarrow> bool \<times> OS"
  be_output :: "string list \<Rightarrow> OS \<Rightarrow> string option"
  be_getenv :: "string \<Rightarrow> string"
  be_glob :: "string \<Rightarrow> OS \<Rightarrow> string list"
  be_goos :: string
  be_goarch :: string
  be_date :: string

definition execute :: "build_env \<Rightarrow> command \<Rightarrow> (build, unit) proc" where
  "execute env c w =
     (case be_run env c (bw_os w) of
        (r, s) \<Rightarrow> (if r then Inr () else Inl (Errorf ''command failed''),
                  w\<lparr>bw_os := s, bw_ran := bw_ran w @ [(c, r)]\<rparr>))"

definition runCommand :: "build_env \<Rightarrow> string list \<Rightarrow> string list \<Rightarrow> (build, unit) proc" where
  "runCommand env vars args = execute env \<lparr>cmd_dir = None, cmd_env = vars, cmd_args = args\<rparr>"

definition runIn :: "build_env \<Rightarrow> string \<Rightarrow> string list \<Rightarrow> string list \<Rightarrow> (build, unit) proc" where
  "runIn env dir vars args = execute env \<lparr>cmd_dir = Some dir, cmd_env = vars, cmd_args = args\<rparr>"

definition runQuiet :: "build_env \<Rightarrow> string \<Rightarrow> string list \<Rightarrow> build \<Rightarrow> string" where
  "runQuiet env fallback args w =
     (case be_output env args (bw_os w) of None \<Rightarrow> fallback | Some out \<Rightarrow> TrimSpace out)"

definition pathThere :: "string \<Rightarrow> build \<Rightarrow> bool" where
  "pathThere path w \<longleftrightarrow> ok (fst (os_Stat path (bw_os w)))"

definition onBuildOS :: "(OS, 'a) proc \<Rightarrow> (build, 'a) proc" where
  "onBuildOS m w = (case m (bw_os w) of (r, s) \<Rightarrow> (r, w\<lparr>bw_os := s\<rparr>))"

definition ignoring :: "(build, 'a) proc \<Rightarrow> (build, unit) proc" where
  "ignoring m w = (Inr (), snd (m w))"

definition mkdirAll :: "string \<Rightarrow> (build, unit) proc" where
  "mkdirAll path = wrapping ''mkdir'' (onBuildOS (os_MkdirAll path))"

definition removeAllAt :: "string \<Rightarrow> (build, unit) proc" where
  "removeAllAt path = wrapping ''rm -rf'' (onBuildOS (os_RemoveAll path))"

subsection \<open>The builder\<close>

record buildDirs =
  pk_dirty :: bool
  pk_goos :: string
  pk_goarch :: string
  pk_workspace :: string
  pk_outDir :: string
  pk_binDir :: string
  pk_libDir :: string
  pk_helperDir :: string
  pk_depsDir :: string
  pk_staticDir :: string
  pk_pkgCfgDir :: string
  pk_homebrew :: string

definition newBuilder :: "build_env \<Rightarrow> bool \<Rightarrow> build \<Rightarrow> buildDirs" where
  "newBuilder env dirty w =
     (let workspace = os_cwd (bw_os w);
          homebrew0 = be_getenv env ''HOMEBREW_PREFIX'';
          outDir = Join [workspace, ''out'']
      in \<lparr>pk_dirty = dirty, pk_goos = be_goos env,
          pk_goarch = runQuiet env (be_goarch env) [''uname'', ''-m''] w,
          pk_workspace = workspace, pk_outDir = outDir, pk_binDir = Join [outDir, ''bin''],
          pk_libDir = Join [outDir, ''lib''], pk_helperDir = Join [outDir, ''helper''],
          pk_depsDir = ''/tmp/.deps'', pk_staticDir = Join [workspace, ''pkg'', ''static_resources''],
          pk_pkgCfgDir = [], pk_homebrew = (if homebrew0 = [] then ''/opt/homebrew'' else homebrew0)\<rparr>)"

definition initEnv :: "build_env \<Rightarrow> buildDirs \<Rightarrow> (build, buildDirs) proc" where
  "initEnv env b =
     andThen (removeAllAt (pk_outDir b)) (\<lambda>_.
     andThen (forEach mkdirAll [pk_binDir b, pk_libDir b, pk_helperDir b]) (\<lambda>_ w.
       (Inr (if pk_goos b = ''darwin''
             then b\<lparr>pk_pkgCfgDir :=
               Join [runQuiet env [] [''brew'', ''--prefix'', ''libarchive''] w, ''lib'', ''pkgconfig''] @ '':'' @
               Join [runQuiet env [] [''brew'', ''--prefix'', ''e2fsprogs''] w, ''lib'', ''pkgconfig'']\<rparr>
             else b), w)))"

definition buildGuestAgent :: "build_env \<Rightarrow> buildDirs \<Rightarrow> (build, unit) proc" where
  "buildGuestAgent env b =
     runIn env (Join [pk_workspace b, ''cmd'', ''guest-agent''])
       [''CGO_ENABLED=0'', ''GOOS=linux'', ''GOARCH=arm64'']
       [''go'', ''build'', ''-ldflags=-s -w'', ''-o'', Join [pk_helperDir b, ''guest-agent''], ''main.go'']"

text \<open>A word in the single quotes of a shell command.\<close>

definition quoted :: "string \<Rightarrow> string" where
  "quoted s = [CHR 0x27] @ s @ [CHR 0x27]"

subsection \<open>Fetching what is not built (fetchDeps)\<close>

definition assetsBase :: string where
  "assetsBase = ''https://github.com/oomol-lab/ovm-next-deps/releases/download/v2.0.16''"

definition fetchAsset :: "build_env \<Rightarrow> string \<Rightarrow> string \<Rightarrow> (build, unit) proc" where
  "fetchAsset env url dest =
     andThen (mkdirAll dest) (\<lambda>_.
       runCommand env [] [''sh'', ''-c'', ''wget -qO- '' @ quoted url @ '' | bsdtar --zstd -x -f - -C '' @ quoted dest])"

definition assetURL :: "buildDirs \<Rightarrow> string \<Rightarrow> string" where
  "assetURL b name =
     assetsBase @ ''/'' @ name @ (if pk_goos b = ''darwin'' then ''-Darwin-arm64'' else ''-Linux-aarch64'') @ ''.tar.zst''"

definition fetchLibs :: "build_env \<Rightarrow> buildDirs \<Rightarrow> (build, unit) proc" where
  "fetchLibs env b w =
     (if pk_dirty b \<and> pathThere (pk_depsDir b) w then succeed () w
      else andThen (removeAllAt (pk_depsDir b)) (\<lambda>_.
           andThen (mkdirAll (pk_depsDir b)) (\<lambda>_.
             forEach (\<lambda>name. fetchAsset env (assetURL b name) (Join [pk_depsDir b, name])) [''libkrun'', ''libkrunfw'']))
           w)"

definition linkLib :: "buildDirs \<Rightarrow> string \<Rightarrow> (build, unit) proc" where
  "linkLib b name w =
     (let lib64 = Join [pk_depsDir b, name, ''lib64'']; lib = Join [pk_depsDir b, name, ''lib'']
      in if pathThere lib64 w \<and> \<not> pathThere lib w
         then ignoring (onBuildOS (os_Symlink ''lib64'' lib)) w else succeed () w)"

definition fetchRootfs :: "build_env \<Rightarrow> buildDirs \<Rightarrow> (build, unit) proc" where
  "fetchRootfs env b w =
     (let rootfsCache = Join [pk_depsDir b, ''rootfs'', ''rootfs.tar.zst'']
      in andThen
           (if pk_dirty b \<and> pathThere rootfsCache w then succeed ()
            else andThen (mkdirAll (Dir rootfsCache)) (\<lambda>_.
              runCommand env [] [''wget'', ''-qO'', rootfsCache, assetsBase @ ''/alpine-rootfs-Linux-aarch64.tar.zst'']))
           (\<lambda>_. runCommand env [] [''cp'', ''-av'', rootfsCache, Join [pk_staticDir b, ''rootfs'', ''rootfs.tar.zst'']])
         w)"

definition fetchDeps :: "build_env \<Rightarrow> buildDirs \<Rightarrow> (build, unit) proc" where
  "fetchDeps env b =
     andThen (fetchLibs env b) (\<lambda>_.
     andThen (if pk_goos b = ''linux'' then forEach (linkLib b) [''libkrun'', ''libkrunfw''] else succeed ()) (\<lambda>_.
       fetchRootfs env b))"

subsection \<open>The program (buildTarget)\<close>

definition buildTarget :: "build_env \<Rightarrow> buildDirs \<Rightarrow> (build, unit) proc" where
  "buildTarget env b w =
     (let version = runQuiet env ''unknown'' [''git'', ''-C'', pk_workspace b, ''describe'', ''--tags'', ''--abbrev=0''] w;
          commit = runQuiet env ''unknown'' [''git'', ''-C'', pk_workspace b, ''rev-parse'', ''--short'', ''HEAD''] w;
          ldflags = ''-X linuxvm/pkg/define.Version='' @ version @ '' -X linuxvm/pkg/define.CommitID='' @ commit @
            '' -X linuxvm/pkg/define.BuildDate='' @ be_date env
      in runCommand env
           [if pk_goos b = ''darwin'' then ''PKG_CONFIG_PATH='' @ pk_pkgCfgDir b else ''CGO_ENABLED=1'']
           [''go'', ''build'', ''-ldflags='' @ ldflags, ''-o'', Join [pk_binDir b, ''ovm''],
            Join [pk_workspace b, ''cmd'', ''revm'']] w)"

subsection \<open>Libraries on macOS (relocateLibsDarwin)\<close>

definition codesign :: "build_env \<Rightarrow> string \<Rightarrow> string \<Rightarrow> string list" where
  "codesign env path entitlements =
     (let v = be_getenv env ''MACOS_CODESIGN_IDENTITY''
      in [''codesign'', ''--force''] @
         (if v \<noteq> [] then [''--sign'', v, ''--options=runtime'', ''--timestamp''] else [''--sign'', ''-'']) @
         (if entitlements \<noteq> [] then [''--entitlements'', entitlements] else []) @ [path])"

record dylibFixup =
  df_dylib :: string
  df_changes :: "(string \<times> string) list"
  df_setID :: bool

definition fixups :: "string \<Rightarrow> dylibFixup list" where
  "fixups hp =
     (let epoxy = (hp @ ''/opt/libepoxy/lib/libepoxy.0.dylib'', ''@loader_path/libepoxy.0.dylib'');
          virgl = (hp @ ''/opt/virglrenderer/lib/libvirglrenderer.1.dylib'', ''@loader_path/libvirglrenderer.1.dylib'');
          vulkan = (hp @ ''/opt/molten-vk/lib/libMoltenVK.dylib'', ''@loader_path/libMoltenVK.dylib'')
      in [\<lparr>df_dylib = ''libkrun.1.dylib'', df_changes = [epoxy, virgl, vulkan], df_setID = False\<rparr>,
          \<lparr>df_dylib = ''libkrunfw.5.dylib'', df_changes = [epoxy, virgl, vulkan], df_setID = False\<rparr>,
          \<lparr>df_dylib = ''libvirglrenderer.1.dylib'', df_changes = [epoxy, vulkan], df_setID = True\<rparr>,
          \<lparr>df_dylib = ''libepoxy.0.dylib'', df_changes = [], df_setID = True\<rparr>,
          \<lparr>df_dylib = ''libMoltenVK.dylib'', df_changes = [], df_setID = True\<rparr>])"

definition fixupCommands :: "build_env \<Rightarrow> string \<Rightarrow> dylibFixup \<Rightarrow> string list list" where
  "fixupCommands env lib f =
     (let p = Join [lib, df_dylib f]
      in map (\<lambda>(old, new). [''install_name_tool'', ''-change'', old, new, p]) (df_changes f) @
         (if df_setID f then [[''install_name_tool'', ''-id'', ''@loader_path/'' @ df_dylib f, p]] else []) @
         [codesign env p []])"

definition copyCommands :: "buildDirs \<Rightarrow> string list list" where
  "copyCommands b =
     [''sh'', ''-c'', ''cp -av '' @ pk_depsDir b @ ''/libkrun/lib/*.dylib '' @ pk_depsDir b @ ''/libkrunfw/lib/*.dylib '' @
        quoted (pk_libDir b @ ''/'')] #
     map (\<lambda>l. [''cp'', ''-av'', pk_homebrew b @ l, pk_libDir b @ ''/''])
       [''/opt/libepoxy/lib/libepoxy.0.dylib'', ''/opt/virglrenderer/lib/libvirglrenderer.1.dylib'',
        ''/opt/molten-vk/lib/libMoltenVK.dylib'']"

definition signCommands :: "build_env \<Rightarrow> buildDirs \<Rightarrow> string list list" where
  "signCommands env b =
     (let ovmBinPath = Join [pk_binDir b, ''ovm'']
      in concat (map (fixupCommands env (pk_libDir b)) (fixups (pk_homebrew b))) @
         map (\<lambda>name. [''install_name_tool'', ''-change'', name, ''@loader_path/../lib/'' @ name, ovmBinPath])
           [''libkrun.1.dylib'', ''libkrunfw.5.dylib''] @
         [codesign env ovmBinPath (Join [pk_workspace b, ''ovm.entitlements''])])"

definition relocateLibsDarwin :: "build_env \<Rightarrow> buildDirs \<Rightarrow> (build, unit) proc" where
  "relocateLibsDarwin env b =
     andThen (forEach (runCommand env []) (copyCommands b)) (\<lambda>_.
     andThen (removeAllAt (Join [pk_libDir b, ''pkgconfig''])) (\<lambda>_.
       forEach (runCommand env []) (signCommands env b)))"

subsection \<open>Libraries on Linux (relocateLibsLinux)\<close>

definition copySoDep :: "build_env \<Rightarrow> buildDirs \<Rightarrow> string \<Rightarrow> (build, unit) proc" where
  "copySoDep env b line w =
     (let lib = TrimSpace line; base = Base lib
      in if lib = [] \<or> HasPrefix base ''ld-linux'' \<or> pathThere (Join [pk_libDir b, base]) w then succeed () w
         else runCommand env [] [''cp'', ''-Lv'', lib, pk_libDir b @ ''/''] w)"

definition collectSoDeps :: "build_env \<Rightarrow> buildDirs \<Rightarrow> string \<Rightarrow> (build, unit) proc" where
  "collectSoDeps env b binary w =
     (case be_output env [''sh'', ''-c'', ''LD_LIBRARY_PATH='' @ quoted (pk_libDir b) @ '' ldd '' @ quoted binary @
             '' | grep -o '' @ quoted ''/.* ''] (bw_os w) of
        None \<Rightarrow> succeed () w
      | Some out \<Rightarrow> forEach (copySoDep env b) (Split out (CHR 0x0A)) w)"

definition isArm :: "buildDirs \<Rightarrow> bool" where
  "isArm b \<longleftrightarrow> pk_goarch b = ''aarch64'' \<or> pk_goarch b = ''arm64''"

definition relocateLibsLinux :: "build_env \<Rightarrow> buildDirs \<Rightarrow> (build, unit) proc" where
  "relocateLibsLinux env b =
     (let lib = pk_libDir b; ovmBinPath = Join [pk_binDir b, ''ovm'']
      in andThen (forEach (\<lambda>d. runCommand env [] [''sh'', ''-c'', ''cp -av '' @ pk_depsDir b @ ''/'' @ d @
           ''/lib64/*.so* '' @ quoted (lib @ ''/'')]) [''libkrun'', ''libkrunfw'']) (\<lambda>_.
         andThen (collectSoDeps env b ovmBinPath) (\<lambda>_.
         andThen (runCommand env [] [''cp'', ''-Lv'', if isArm b then ''/lib/ld-linux-aarch64.so.1''
           else ''/lib/x86_64-linux-gnu/ld-linux-x86-64.so.2'', lib @ ''/'']) (\<lambda>_.
         andThen (runCommand env [] [''patchelf'', ''--set-rpath'', ''$ORIGIN/../lib'', ovmBinPath]) (\<lambda>_ w.
           forEach (\<lambda>sf. runCommand env [] [''patchelf'', ''--set-rpath'', ''$ORIGIN'', sf])
             (be_glob env (Join [lib, ''libkrun*.so.*.*'']) (bw_os w)) w)))))"

definition launcherScript :: "buildDirs \<Rightarrow> string" where
  "launcherScript b =
     (let nl = [CHR 0x0A]; q = [CHR 0x22];
          ldName = (if isArm b then ''ld-linux-aarch64.so.1'' else ''ld-linux-x86-64.so.2'')
      in ''#!/bin/sh'' @ nl @
         ''DIR='' @ q @ ''$(cd '' @ q @ ''$(dirname '' @ q @ ''$0'' @ q @ '')'' @ q @ '' && pwd)'' @ q @ nl @
         ''exec '' @ q @ ''$DIR/lib/'' @ ldName @ q @ '' --library-path '' @ q @ ''$DIR/lib'' @ q @ '' '' @
         q @ ''$DIR/bin/revm'' @ q @ '' '' @ q @ ''$@'' @ q @ nl)"

definition writeLinuxLauncher :: "buildDirs \<Rightarrow> (build, unit) proc" where
  "writeLinuxLauncher b =
     wrapping ''write revm.sh'' (onBuildOS (os_WriteFile (Join [pk_outDir b, ''revm.sh'']) (launcherScript b)))"

definition relocateLibs :: "build_env \<Rightarrow> buildDirs \<Rightarrow> (build, unit) proc" where
  "relocateLibs env b =
     (if pk_goos b = ''darwin'' then relocateLibsDarwin env b
      else andThen (relocateLibsLinux env b) (\<lambda>_. writeLinuxLauncher b))"

subsection \<open>Lint, package, main\<close>

definition lint :: "build_env \<Rightarrow> buildDirs \<Rightarrow> (build, unit) proc" where
  "lint env b =
     runCommand env (if pk_goos b = ''darwin'' then [''PKG_CONFIG_PATH='' @ pk_pkgCfgDir b] else [])
       [''golangci-lint'', ''run'']"

definition packageTar :: "build_env \<Rightarrow> buildDirs \<Rightarrow> (build, unit) proc" where
  "packageTar env b =
     andThen (runCommand env [] [''bsdtar'', ''-czf'',
       Join [pk_workspace b, ''ovm-'' @ pk_goos b @ ''-'' @ pk_goarch b @ ''.tar.gz''], ''-C'', pk_outDir b, ''.'']) (\<lambda>_.
       ignoring (onBuildOS (os_WriteFile (Join [pk_staticDir b, ''rootfs'', ''rootfs.tar.zst'']) [])))"

definition build_main :: "build_env \<Rightarrow> bool \<Rightarrow> (build, unit) proc" where
  "build_main env dirty w =
     andThen (initEnv env (newBuilder env dirty w)) (\<lambda>b.
     andThen (buildGuestAgent env b) (\<lambda>_.
     andThen (fetchDeps env b) (\<lambda>_.
     andThen (buildTarget env b) (\<lambda>_.
     andThen (relocateLibs env b) (\<lambda>_.
     andThen (lint env b) (\<lambda>_.
       packageTar env b)))))) w"

subsection \<open>Nothing is run after a failed command\<close>

definition stopsAtFailure :: "(build, 'a) proc \<Rightarrow> bool" where
  "stopsAtFailure m \<longleftrightarrow> (\<forall>w. \<exists>new. bw_ran (snd (m w)) = bw_ran w @ new \<and> list_all snd (butlast new) \<and>
     (ok (fst (m w)) \<longrightarrow> list_all snd new))"

lemma stops_quiet: "(\<And>w. bw_ran (snd (m w)) = bw_ran w) \<Longrightarrow> stopsAtFailure m"
  by (auto simp: stopsAtFailure_def)

lemma stops_execute [intro]: "stopsAtFailure (runCommand env vars args)" "stopsAtFailure (runIn env dir vars args)"
  by (auto simp: stopsAtFailure_def runCommand_def runIn_def execute_def split: prod.split)

lemma stops_files [intro]:
  "stopsAtFailure (succeed x)" "stopsAtFailure (mkdirAll p)" "stopsAtFailure (removeAllAt p)"
  "stopsAtFailure (ignoring (onBuildOS m))" "stopsAtFailure (writeLinuxLauncher b)"
  by (rule stops_quiet, simp add: succeed_def mkdirAll_def removeAllAt_def writeLinuxLauncher_def wrapping_def
      ignoring_def onBuildOS_def split: prod.split sum.split)+

lemma stops_andThen [intro]:
  assumes "stopsAtFailure m" and "\<And>a. stopsAtFailure (f a)"
  shows "stopsAtFailure (andThen m f)"
  unfolding stopsAtFailure_def
proof
  fix w
  obtain r w1 where m: "m w = (r, w1)" by fastforce
  obtain n1 where n1: "bw_ran w1 = bw_ran w @ n1" "list_all snd (butlast n1)" "ok r \<longrightarrow> list_all snd n1"
    using assms(1) m unfolding stopsAtFailure_def by (metis fst_conv snd_conv)
  show "\<exists>new. bw_ran (snd (andThen m f w)) = bw_ran w @ new \<and> list_all snd (butlast new) \<and>
      (ok (fst (andThen m f w)) \<longrightarrow> list_all snd new)"
  proof (cases r)
    case (Inl e)
    then show ?thesis using n1 m by (auto simp: andThen_def)
  next
    case (Inr a)
    obtain n2 where "bw_ran (snd (f a w1)) = bw_ran w1 @ n2" "list_all snd (butlast n2)"
      "ok (fst (f a w1)) \<longrightarrow> list_all snd n2"
      using assms(2) unfolding stopsAtFailure_def by blast
    with n1 m Inr show ?thesis
      by (intro exI [of _ "n1 @ n2"]) (auto simp: andThen_def butlast_append)
  qed
qed

lemma stops_forEach [intro]: "(\<And>x. stopsAtFailure (f x)) \<Longrightarrow> stopsAtFailure (forEach f xs)"
  by (induction xs) auto

lemma stops_if: "stopsAtFailure m \<Longrightarrow> stopsAtFailure n \<Longrightarrow> stopsAtFailure (\<lambda>w. if P w then m w else n w)"
  by (simp add: stopsAtFailure_def)

lemma stops_choice: "(\<And>x. stopsAtFailure (m x)) \<Longrightarrow> stopsAtFailure (\<lambda>w. m (g w) w)"
  unfolding stopsAtFailure_def by metis

lemmas stops_rules = stops_andThen stops_forEach stops_execute stops_files

lemma stops_fetchDeps: "stopsAtFailure (fetchDeps env b)"
proof -
  have "stopsAtFailure (fetchAsset env u d)" for u d unfolding fetchAsset_def by (intro stops_rules)
  then have libs: "stopsAtFailure (fetchLibs env b)"
    unfolding fetchLibs_def [abs_def] by (intro stops_if stops_rules)
  have link: "stopsAtFailure (linkLib b n)" for n
    unfolding linkLib_def [abs_def] Let_def by (intro stops_if stops_rules)
  have rootfs: "stopsAtFailure (fetchRootfs env b)"
  proof -
    let ?cache = "Join [pk_depsDir b, ''rootfs'', ''rootfs.tar.zst'']"
    let ?m = "\<lambda>q. andThen (if q then succeed () else andThen (mkdirAll (Dir ?cache)) (\<lambda>_. runCommand env []
        [''wget'', ''-qO'', ?cache, assetsBase @ ''/alpine-rootfs-Linux-aarch64.tar.zst'']))
      (\<lambda>_. runCommand env [] [''cp'', ''-av'', ?cache, Join [pk_staticDir b, ''rootfs'', ''rootfs.tar.zst'']])"
    have "stopsAtFailure (?m q)" for q by (cases q) (simp_all add: stops_rules)
    moreover have "fetchRootfs env b = (\<lambda>w. ?m (pk_dirty b \<and> pathThere ?cache w) w)"
      by (simp only: fun_eq_iff fetchRootfs_def Let_def simp_thms)
    ultimately show ?thesis
      by (simp only:) (rule stops_choice [where m = ?m and g = "\<lambda>w. pk_dirty b \<and> pathThere ?cache w"])
  qed
  show ?thesis
    unfolding fetchDeps_def by (cases "pk_goos b = ''linux''") (simp_all add: stops_andThen libs rootfs stops_forEach link stops_files)
qed

lemma stops_relocateLibs: "stopsAtFailure (relocateLibs env b)"
proof -
  have "stopsAtFailure (copySoDep env b l)" for l
    unfolding copySoDep_def [abs_def] Let_def by (intro stops_if stops_rules)
  then have "stopsAtFailure (case out of None \<Rightarrow> succeed () | Some out \<Rightarrow> forEach (copySoDep env b) (Split out c))" for out c
    by (cases out) (simp_all add: stops_rules)
  then have "stopsAtFailure (\<lambda>w. (case f w of None \<Rightarrow> succeed () | Some out \<Rightarrow> forEach (copySoDep env b) (Split out c)) w)" for f c
    by (rule stops_choice)
  moreover have "collectSoDeps env b x = (\<lambda>w. (case be_output env [''sh'', ''-c'',
      ''LD_LIBRARY_PATH='' @ quoted (pk_libDir b) @ '' ldd '' @ quoted x @ '' | grep -o '' @ quoted ''/.* ''] (bw_os w) of
        None \<Rightarrow> succeed () | Some out \<Rightarrow> forEach (copySoDep env b) (Split out (CHR 0x0A))) w)" for x
    by (simp add: fun_eq_iff collectSoDeps_def split: option.split)
  ultimately have deps: "stopsAtFailure (collectSoDeps env b x)" for x by simp
  have patch: "stopsAtFailure (\<lambda>w. forEach (\<lambda>sf. runCommand env [] (c sf)) (xs w) w)" for c and xs :: "build \<Rightarrow> string list"
    by (rule stops_choice) (intro stops_rules)
  have "stopsAtFailure (relocateLibsLinux env b)"
    unfolding relocateLibsLinux_def Let_def by (intro patch deps stops_rules)
  moreover have "stopsAtFailure (relocateLibsDarwin env b)"
    unfolding relocateLibsDarwin_def by (intro stops_rules)
  ultimately show ?thesis unfolding relocateLibs_def by (simp add: stops_rules)
qed

text \<open>The build runs no command after one that failed; when it reports success, all succeeded.\<close>

theorem build_stops_at_failure:
  "\<exists>new. bw_ran (snd (build_main env dirty w)) = bw_ran w @ new \<and> list_all snd (butlast new) \<and>
     (ok (fst (build_main env dirty w)) \<longrightarrow> list_all snd new)"
proof -
  have asks: "stopsAtFailure (\<lambda>w. (Inr (f w), w))" for f :: "build \<Rightarrow> buildDirs"
    by (rule stops_quiet) simp
  have "stopsAtFailure (initEnv env b)" for b
    unfolding initEnv_def by (intro stops_andThen stops_forEach stops_files asks)
  moreover have "stopsAtFailure (buildTarget env b)" for b
    unfolding buildTarget_def [abs_def] Let_def by (rule stops_choice) (rule stops_execute)
  ultimately have "stopsAtFailure (andThen (initEnv env b0) (\<lambda>b. andThen (buildGuestAgent env b) (\<lambda>_.
      andThen (fetchDeps env b) (\<lambda>_. andThen (buildTarget env b) (\<lambda>_. andThen (relocateLibs env b) (\<lambda>_.
      andThen (lint env b) (\<lambda>_. packageTar env b)))))))" for b0
    unfolding buildGuestAgent_def lint_def packageTar_def
    by (intro stops_fetchDeps stops_relocateLibs stops_rules)
  from this [of "newBuilder env dirty w"] show ?thesis
    unfolding stopsAtFailure_def build_main_def by blast
qed

subsection \<open>Signing\<close>

text \<open>macOS refuses a binary that was changed after it was signed: every command that changes a file is followed
  by one that signs it.\<close>

fun signedAfter :: "string list list \<Rightarrow> bool" where
  "signedAfter [] = True"
| "signedAfter (c # cs) =
     ((hd c = ''install_name_tool'' \<longrightarrow> list_ex (\<lambda>d. hd d = ''codesign'' \<and> last d = last c) cs) \<and> signedAfter cs)"

lemma signedAfter_other: "list_all (\<lambda>c. hd c \<noteq> ''install_name_tool'') cs \<Longrightarrow> signedAfter (cs @ ds) \<longleftrightarrow> signedAfter ds"
  by (induction cs) auto

lemma signedAfter_block: "signedAfter cs \<Longrightarrow> signedAfter ds \<Longrightarrow> signedAfter (cs @ ds)"
  by (induction cs) (auto simp: list_ex_iff)

lemma codesign_ends: "hd (codesign env p e) = ''codesign''" "last (codesign env p e) = p"
  by (simp_all add: codesign_def Let_def)

lemma signedAfter_changes:
  "hd c = ''codesign'' \<Longrightarrow> \<forall>x \<in> set xs. last x = last c \<Longrightarrow> signedAfter (xs @ [c])"
  by (induction xs) auto

lemma signedAfter_plan: "signedAfter (copyCommands b @ signCommands env b)"
proof -
  have "signedAfter (fixupCommands env lib f)" for lib f
    unfolding fixupCommands_def Let_def append_assoc [symmetric]
    by (rule signedAfter_changes) (auto simp: codesign_ends split: if_splits)
  then have "signedAfter (concat (map (fixupCommands env lib) fs))" for lib fs
    by (induction fs) (auto intro: signedAfter_block)
  moreover have "signedAfter (map (\<lambda>name. [''install_name_tool'', ''-change'', name, g name, p]) ns @ [codesign env p e])"
    for g p ns e by (rule signedAfter_changes) (auto simp: codesign_ends)
  ultimately have "signedAfter (signCommands env b)"
    unfolding signCommands_def Let_def by (blast intro: signedAfter_block)
  moreover have "list_all (\<lambda>c. hd c \<noteq> ''install_name_tool'') (copyCommands b)" by (simp add: copyCommands_def)
  ultimately show ?thesis by (simp add: signedAfter_other)
qed

lemma forEach_commands:
  "forEach (runCommand env []) cs w = (Inr (), w') \<Longrightarrow>
   map (cmd_args \<circ> fst) (bw_ran w') = map (cmd_args \<circ> fst) (bw_ran w) @ cs"
proof (induction cs arbitrary: w)
  case (Cons c cs)
  then obtain w1 where "runCommand env [] c w = (Inr (), w1)" and r: "forEach (runCommand env []) cs w1 = (Inr (), w')"
    by (auto simp: andThen_Inr_iff)
  then have "bw_ran w1 = bw_ran w @ [(\<lparr>cmd_dir = None, cmd_env = [], cmd_args = c\<rparr>, True)]"
    by (auto simp: runCommand_def execute_def split: prod.splits if_splits)
  with Cons.IH [OF r] show ?case by simp
qed (simp add: succeed_def)

theorem darwin_signed_last:
  assumes "relocateLibsDarwin env b w = (Inr (), w')"
  shows "\<exists>cs. map (cmd_args \<circ> fst) (bw_ran w') = map (cmd_args \<circ> fst) (bw_ran w) @ cs \<and> signedAfter cs"
proof -
  obtain w1 w2 where r: "forEach (runCommand env []) (copyCommands b) w = (Inr (), w1)"
      "removeAllAt (Join [pk_libDir b, ''pkgconfig'']) w1 = (Inr (), w2)"
      "forEach (runCommand env []) (signCommands env b) w2 = (Inr (), w')"
    using assms by (auto simp: relocateLibsDarwin_def andThen_Inr_iff)
  have "bw_ran w2 = bw_ran w1"
    using r(2) by (auto simp: removeAllAt_def wrapping_def onBuildOS_def split: prod.splits)
  then show ?thesis
    using forEach_commands [OF r(1)] forEach_commands [OF r(3)] signedAfter_plan [of b env] by auto
qed

subsection \<open>The launcher\<close>

text \<open>The launcher for Linux starts \<open>bin/revm\<close>, the build writes \<open>bin/ovm\<close>.\<close>

lemma within_append:
  "\<exists>pre post. s @ y = pre @ s @ post"
  "\<exists>pre post. y = pre @ s @ post \<Longrightarrow> \<exists>pre post. x @ y = pre @ s @ post"
  by (metis append_Nil, metis append_assoc)

lemma launcher_target:
  "\<exists>pre post. launcherScript b = pre @ ''$DIR/bin/revm'' @ post"
  "cmd_args (fst (last (bw_ran (snd (buildTarget env b w))))) ! 4 = Join [pk_binDir b, ''ovm'']"
proof -
  show "\<exists>pre post. launcherScript b = pre @ ''$DIR/bin/revm'' @ post"
    unfolding launcherScript_def Let_def append_assoc by (rule within_append(1) | rule within_append(2))+
  show "cmd_args (fst (last (bw_ran (snd (buildTarget env b w))))) ! 4 = Join [pk_binDir b, ''ovm'']"
    by (simp add: buildTarget_def Let_def runCommand_def execute_def split: prod.split)
qed

end
