(* ===== verification/Session_Lock.thy ===== *)
theory Session_Lock
  imports Prelude
begin

text \<open>
  Sessions of one name compete for one lock file (\<open>lock\<close> and the clean-up of \<open>buildMachine\<close> in
  \<open>pkg/librevm/machine.go\<close>). The lock is \<open>flock(2)\<close> as the library uses it: opening creates the file
  when the path names none, and the lock belongs to the file that was opened, not to the path. The
  kernel's part is \<open>lw_owner\<close>, which process holds the lock of which file; a process that ends, in
  whatever way, loses its locks. The program's part is the order of its steps: a session locks,
  works, removes its workspace, unlocks, and then removes the path of the lock, and other sessions
  act between these.

  \<open>Machine\<close> describes one session; here any number of processes take their steps in any order.
\<close>

subsection \<open>The processes\<close>

text \<open>Where a session is in the code. \<open>Leaving\<close>: the context was cancelled while the goroutine is in
  \<open>Lock\<close>, and \<open>Unlock\<close> waits for it on the mutex of the lock. \<open>Stray\<close>: the context was cancelled
  before the goroutine came to \<open>Lock\<close>; \<open>Unlock\<close> found nothing, and a lock that is taken now is kept
  until the process exits.\<close>

datatype lockPhase =
    NotStarted
  | Blocked nat
  | InUse nat
  | RemovingWorkspace nat
  | Unlocking nat
  | RemovingPath
  | Leaving nat
  | Stray
  | StrayBlocked nat
  | StrayHolds nat
  | LockDone

text \<open>The file the path names, the next fresh file, the owners of the locks, and where each session is.\<close>

record lockWorld =
  lw_path :: "nat option"
  lw_next :: nat
  lw_owner :: "nat \<Rightarrow> nat option"
  lw_phase :: "nat \<Rightarrow> lockPhase"

text \<open>The file a session works with: in use, or while its workspace is removed.\<close>

fun workingOn :: "lockPhase \<Rightarrow> nat option" where
  "workingOn (InUse f) = Some f"
| "workingOn (RemovingWorkspace f) = Some f"
| "workingOn _ = None"

fun openedFile :: "lockPhase \<Rightarrow> nat option" where
  "openedFile (Blocked f) = Some f"
| "openedFile (InUse f) = Some f"
| "openedFile (RemovingWorkspace f) = Some f"
| "openedFile (Unlocking f) = Some f"
| "openedFile (Leaving f) = Some f"
| "openedFile (StrayBlocked f) = Some f"
| "openedFile (StrayHolds f) = Some f"
| "openedFile _ = None"

definition setPhase :: "nat \<Rightarrow> lockPhase \<Rightarrow> lockWorld \<Rightarrow> lockWorld" where
  "setPhase p ph w = w\<lparr>lw_phase := (lw_phase w)(p := ph)\<rparr>"

definition setOwner :: "nat \<Rightarrow> nat option \<Rightarrow> lockWorld \<Rightarrow> lockWorld" where
  "setOwner f o' w = w\<lparr>lw_owner := (lw_owner w)(f := o')\<rparr>"

definition openLockFile :: "nat \<Rightarrow> (nat \<Rightarrow> lockPhase) \<Rightarrow> lockWorld \<Rightarrow> lockWorld" where
  "openLockFile p next w =
     (case lw_path w of
        Some f \<Rightarrow> setPhase p (next f) w
      | None \<Rightarrow> setPhase p (next (lw_next w)) (w\<lparr>lw_path := Some (lw_next w), lw_next := Suc (lw_next w)\<rparr>))"

text \<open>The end of a process: the kernel releases its locks.\<close>

definition processEnds :: "nat \<Rightarrow> lockWorld \<Rightarrow> lockWorld" where
  "processEnds p w =
     setPhase p LockDone (w\<lparr>lw_owner := (\<lambda>f. if lw_owner w f = Some p then None else lw_owner w f)\<rparr>)"

inductive lock_step :: "lockWorld \<Rightarrow> lockWorld \<Rightarrow> bool" where
  opens: "lw_phase w p = NotStarted \<Longrightarrow> lock_step w (openLockFile p Blocked w)"
| locks: "lw_phase w p = Blocked f \<Longrightarrow> lw_owner w f = None \<Longrightarrow>
    lock_step w (setPhase p (InUse f) (setOwner f (Some p) w))"
| cleans: "lw_phase w p = InUse f \<Longrightarrow> lock_step w (setPhase p (RemovingWorkspace f) w)"
| workspace_gone: "lw_phase w p = RemovingWorkspace f \<Longrightarrow> lock_step w (setPhase p (Unlocking f) w)"
| unlocks: "lw_phase w p = Unlocking f \<Longrightarrow> lock_step w (setPhase p RemovingPath (setOwner f None w))"
| removes_path: "lw_phase w p = RemovingPath \<Longrightarrow> lock_step w (setPhase p LockDone (w\<lparr>lw_path := None\<rparr>))"
| cancelled: "lw_phase w p = Blocked f \<Longrightarrow> lock_step w (setPhase p (Leaving f) w)"
| leaves: "lw_phase w p = Leaving f \<Longrightarrow> lw_owner w f = None \<Longrightarrow> lock_step w (setPhase p LockDone w)"
| cancelled_early: "lw_phase w p = NotStarted \<Longrightarrow> lock_step w (setPhase p Stray w)"
| stray_opens: "lw_phase w p = Stray \<Longrightarrow> lock_step w (openLockFile p StrayBlocked w)"
| stray_locks: "lw_phase w p = StrayBlocked f \<Longrightarrow> lw_owner w f = None \<Longrightarrow>
    lock_step w (setPhase p (StrayHolds f) (setOwner f (Some p) w))"
| dies: "lw_phase w p \<noteq> NotStarted \<Longrightarrow> lock_step w (processEnds p w)"

definition lockStart :: lockWorld where
  "lockStart = \<lparr>lw_path = None, lw_next = 0, lw_owner = (\<lambda>_. None), lw_phase = (\<lambda>_. NotStarted)\<rparr>"

inductive lock_reachable :: "lockWorld \<Rightarrow> bool" where
  lock_starts: "lock_reachable lockStart"
| lock_goes_on: "lock_reachable w \<Longrightarrow> lock_step w w' \<Longrightarrow> lock_reachable w'"

subsection \<open>A session has its lock while it works\<close>

fun lockHeld :: "lockPhase \<Rightarrow> nat option" where
  "lockHeld (InUse f) = Some f"
| "lockHeld (RemovingWorkspace f) = Some f"
| "lockHeld (Unlocking f) = Some f"
| "lockHeld (StrayHolds f) = Some f"
| "lockHeld _ = None"

definition ownsLock :: "nat \<Rightarrow> lockWorld \<Rightarrow> bool" where
  "ownsLock p w \<longleftrightarrow> (\<forall>f. lockHeld (lw_phase w p) = Some f \<longrightarrow> lw_owner w f = Some p)"

lemma working_held: "workingOn ph = Some f \<Longrightarrow> lockHeld ph = Some f"
  by (cases ph) auto

lemmas lock_defs = openLockFile_def processEnds_def setPhase_def setOwner_def

text \<open>A step of another process touches no lock that is owned.\<close>

lemma ownsLock_step: "lock_step w w' \<Longrightarrow> (\<And>r. ownsLock r w) \<Longrightarrow> ownsLock p w'"
proof (induction rule: lock_step.induct)
  case (unlocks w q f)
  then have "lw_owner w f = Some q" unfolding ownsLock_def by (metis lockHeld.simps(3))
  with unlocks(2) [of p] show ?case by (auto simp: ownsLock_def lock_defs)
next
  case (dies w q)
  from dies(2) [of p] show ?case by (auto simp: ownsLock_def lock_defs)
next
  case (opens w q)
  from opens(2) [of p] show ?case by (auto simp: ownsLock_def lock_defs split: option.split)
next
  case (stray_opens w q)
  from stray_opens(2) [of p] show ?case by (auto simp: ownsLock_def lock_defs split: option.split)
next
  case (locks w q f)
  from locks(2) locks(3) [of p] show ?case by (auto simp: ownsLock_def lock_defs)
next
  case (stray_locks w q f)
  from stray_locks(2) stray_locks(3) [of p] show ?case by (auto simp: ownsLock_def lock_defs)
next
  case (cleans w q f)
  with cleans(2) [of p] show ?case by (auto simp: ownsLock_def lock_defs)
next
  case (workspace_gone w q f)
  with workspace_gone(2) [of p] show ?case by (auto simp: ownsLock_def lock_defs)
next
  case (removes_path w q)
  from removes_path(2) [of p] show ?case by (auto simp: ownsLock_def lock_defs)
next
  case (cancelled w q f)
  from cancelled(2) [of p] show ?case by (auto simp: ownsLock_def lock_defs)
next
  case (leaves w q f)
  from leaves(3) [of p] show ?case by (auto simp: ownsLock_def lock_defs)
next
  case (cancelled_early w q)
  from cancelled_early(2) [of p] show ?case by (auto simp: ownsLock_def lock_defs)
qed

lemma ownsLock_reachable: "lock_reachable w \<Longrightarrow> ownsLock p w"
proof (induction arbitrary: p rule: lock_reachable.induct)
  case lock_starts
  show ?case by (simp add: ownsLock_def lockStart_def)
next
  case (lock_goes_on w w')
  then show ?case using ownsLock_step by blast
qed

subsection \<open>Two sessions\<close>

text \<open>Of two sessions, one that has opened a file has the file of the path, unless the other is done
  (only a session that is done has removed the path).\<close>

definition sameFile :: "nat \<Rightarrow> nat \<Rightarrow> lockWorld \<Rightarrow> bool" where
  "sameFile p q w \<longleftrightarrow>
     (\<forall>f. openedFile (lw_phase w p) = Some f \<and> lw_phase w q \<noteq> LockDone \<longrightarrow> lw_path w = Some f)"

definition onlyTwo :: "nat \<Rightarrow> nat \<Rightarrow> lockWorld \<Rightarrow> bool" where
  "onlyTwo p q w \<longleftrightarrow> (\<forall>r. r \<noteq> p \<and> r \<noteq> q \<longrightarrow> lw_phase w r = NotStarted)"

lemma started_stays: "lock_step w w' \<Longrightarrow> lw_phase w' r = NotStarted \<Longrightarrow> lw_phase w r = NotStarted"
  by (induction rule: lock_step.induct) (auto simp: lock_defs split: if_splits option.splits)

text \<open>Which process moved, and how the path changed.\<close>

lemma lock_mover:
  assumes "lock_step w w'"
  obtains m where "lw_phase w m \<noteq> LockDone" and "\<And>r. r \<noteq> m \<Longrightarrow> lw_phase w' r = lw_phase w r"
    and "lw_path w' = lw_path w \<or> lw_path w = None \<or> lw_phase w' m = LockDone"
    and "\<And>f. openedFile (lw_phase w' m) = Some f \<Longrightarrow>
      lw_path w' = Some f \<or> openedFile (lw_phase w m) = Some f \<and> lw_path w' = lw_path w"
    and "lw_phase w' m \<noteq> NotStarted"
  | m where "w' = processEnds m w" and "lw_phase w m = LockDone"
  using assms
proof cases
  case (dies p)
  show thesis
  proof (cases "lw_phase w p = LockDone")
    case True
    with dies that(2) show thesis by blast
  next
    case False
    with dies show thesis by (intro that(1) [of p]) (auto simp: lock_defs)
  qed
next
  case (opens p)
  then show thesis by (intro that(1) [of p]) (auto simp: lock_defs split: option.splits)
next
  case (stray_opens p)
  then show thesis by (intro that(1) [of p]) (auto simp: lock_defs split: option.splits)
next
  case (locks p f)
  then show thesis by (intro that(1) [of p]) (auto simp: lock_defs)
next
  case (cleans p f)
  then show thesis by (intro that(1) [of p]) (auto simp: lock_defs)
next
  case (workspace_gone p f)
  then show thesis by (intro that(1) [of p]) (auto simp: lock_defs)
next
  case (unlocks p f)
  then show thesis by (intro that(1) [of p]) (auto simp: lock_defs)
next
  case (removes_path p)
  then show thesis by (intro that(1) [of p]) (auto simp: lock_defs)
next
  case (cancelled p f)
  then show thesis by (intro that(1) [of p]) (auto simp: lock_defs)
next
  case (leaves p f)
  then show thesis by (intro that(1) [of p]) (auto simp: lock_defs)
next
  case (cancelled_early p)
  then show thesis by (intro that(1) [of p]) (auto simp: lock_defs)
next
  case (stray_locks p f)
  then show thesis by (intro that(1) [of p]) (auto simp: lock_defs)
qed

lemma sameFile_step:
  assumes "lock_step w w'" and "p \<noteq> q" and "onlyTwo p q w'" and "sameFile p q w"
  shows "sameFile p q w'"
  using assms(1)
proof (cases rule: lock_mover)
  case (1 m)
  have "m = p \<or> m = q" using assms(3) 1(5) unfolding onlyTwo_def by blast
  then show ?thesis
  proof
    assume m: "m = p"
    then have "lw_phase w' q = lw_phase w q" using 1(2) assms(2) by simp
    then show ?thesis using 1(4) assms(4) unfolding sameFile_def m by metis
  next
    assume m: "m = q"
    then have "lw_phase w' p = lw_phase w p" using 1(2) assms(2) by simp
    then show ?thesis using 1(1,3) assms(4) unfolding sameFile_def m by (metis option.distinct(1))
  qed
next
  case (2 m)
  have "lw_phase w' r = lw_phase w r" for r using 2 by (simp add: lock_defs)
  moreover have "lw_path w' = lw_path w" using 2 by (simp add: lock_defs)
  ultimately show ?thesis using assms(4) by (simp add: sameFile_def)
qed

lemma sameFile_reachable:
  assumes "lock_reachable w" and "p \<noteq> q"
  shows "onlyTwo p q w \<longrightarrow> sameFile p q w"
  using assms(1)
proof (induction rule: lock_reachable.induct)
  case lock_starts
  show ?case by (simp add: sameFile_def lockStart_def)
next
  case (lock_goes_on w w')
  show ?case
  proof
    assume two: "onlyTwo p q w'"
    then have "onlyTwo p q w" using started_stays [OF lock_goes_on(2)] unfolding onlyTwo_def by blast
    with lock_goes_on two assms(2) show "sameFile p q w'" using sameFile_step by blast
  qed
qed

lemma working_opened: "workingOn ph = Some f \<Longrightarrow> openedFile ph = Some f"
  by (cases ph) auto

lemma two_apart:
  assumes "lock_reachable w" and "p \<noteq> q" and "onlyTwo p q w"
  shows "workingOn (lw_phase w p) = None \<or> workingOn (lw_phase w q) = None"
proof (rule ccontr)
  assume "\<not> ?thesis"
  then obtain f g where f: "workingOn (lw_phase w p) = Some f" and g: "workingOn (lw_phase w q) = Some g" by auto
  have "onlyTwo q p w" using assms(3) unfolding onlyTwo_def by blast
  then have "sameFile p q w" "sameFile q p w"
    using sameFile_reachable [OF assms(1,2)] sameFile_reachable [OF assms(1) assms(2) [symmetric]] assms(3) by auto
  moreover have "lw_phase w p \<noteq> LockDone" "lw_phase w q \<noteq> LockDone" using f g by auto
  ultimately have "f = g" using working_opened [OF f] working_opened [OF g] unfolding sameFile_def by auto
  then show False
    using ownsLock_reachable [OF assms(1), of p] ownsLock_reachable [OF assms(1), of q] working_held [OF f]
      working_held [OF g] assms(2) unfolding ownsLock_def by auto
qed

text \<open>C36. The lock keeps two sessions of the same name apart. In every reachable state of any number of
  sessions, cancelled and dying ones included, a session that works, or is still removing its
  workspace, owns the lock of the file it opened; and when only two sessions take part, they are
  never both in that part, so that neither removes the workspace the other is using. (With a third
  session this is not so, \<open>session_lock_race\<close>: the path is removed after the lock is released, so
  two sessions may lock two different files.)\<close>

theorem session_lock_exclusive:
  assumes "lock_reachable w"
  shows "(\<forall>p f. workingOn (lw_phase w p) = Some f \<longrightarrow> lw_owner w f = Some p) \<and>
    (\<forall>p q. p \<noteq> q \<and> (\<forall>r. r \<noteq> p \<and> r \<noteq> q \<longrightarrow> lw_phase w r = NotStarted) \<longrightarrow>
       workingOn (lw_phase w p) = None \<or> workingOn (lw_phase w q) = None)"
proof (intro conjI allI impI)
  show "lw_owner w f = Some p" if "workingOn (lw_phase w p) = Some f" for p f
    using ownsLock_reachable [OF assms, of p] working_held [OF that] by (simp add: ownsLock_def)
  show "workingOn (lw_phase w p) = None \<or> workingOn (lw_phase w q) = None"
    if "p \<noteq> q \<and> (\<forall>r. r \<noteq> p \<and> r \<noteq> q \<longrightarrow> lw_phase w r = NotStarted)" for p q
    using that by (intro two_apart [OF assms]) (simp_all add: onlyTwo_def)
qed

subsection \<open>The race of unlocking and removing\<close>

text \<open>Session 1 waits on the file of session 0. Session 0 unlocks, session 1 gets its lock, session 0
  removes the path, session 2 creates a new file and locks that: both run, and whichever ends
  first removes the workspace of the other.\<close>

definition raceUsed :: lockWorld where
  "raceUsed = setPhase 0 (InUse 0) (setOwner 0 (Some 0) (openLockFile 0 Blocked lockStart))"

definition raceOpened :: lockWorld where
  "raceOpened = openLockFile 1 Blocked raceUsed"

definition raceTaken :: lockWorld where
  "raceTaken = setPhase 1 (InUse 0) (setOwner 0 (Some 1) (setPhase 0 RemovingPath (setOwner 0 None
     (setPhase 0 (Unlocking 0) (setPhase 0 (RemovingWorkspace 0) raceOpened)))))"

definition raceRemoved :: lockWorld where
  "raceRemoved = setPhase 0 LockDone (raceTaken\<lparr>lw_path := None\<rparr>)"

definition raceLost :: lockWorld where
  "raceLost = setPhase 2 (InUse 1) (setOwner 1 (Some 2) (openLockFile 2 Blocked raceRemoved))"

lemmas race_defs = raceLost_def raceRemoved_def raceTaken_def raceOpened_def raceUsed_def lock_defs lockStart_def

lemma raceOpened_reachable: "lock_reachable raceOpened"
  unfolding raceOpened_def raceUsed_def
  by (rule lock_starts lock_goes_on [OF _ lock_step.opens] lock_goes_on [OF _ lock_step.locks] |
      simp add: race_defs)+

lemma raceTaken_reachable: "lock_reachable raceTaken"
  unfolding raceTaken_def
  by (rule raceOpened_reachable lock_goes_on [OF _ lock_step.locks] lock_goes_on [OF _ lock_step.unlocks]
      lock_goes_on [OF _ lock_step.cleans] lock_goes_on [OF _ lock_step.workspace_gone] | simp add: race_defs)+

lemma raceLost_reachable: "lock_reachable raceLost"
  unfolding raceLost_def raceRemoved_def
  by (rule raceTaken_reachable lock_goes_on [OF _ lock_step.locks] lock_goes_on [OF _ lock_step.opens]
      lock_goes_on [OF _ lock_step.removes_path] | simp add: race_defs)+

lemma session_lock_race:
  "\<exists>w. lock_reachable w \<and> lw_phase w 1 = InUse 0 \<and> lw_phase w 2 = InUse 1"
  using raceLost_reachable by (intro exI [of _ raceLost]) (simp add: race_defs)

theorem session_lock_exclusive_witness:
  "lock_reachable raceOpened \<and> lw_phase raceOpened 0 = InUse 0 \<and> workingOn (lw_phase raceOpened 1) = None \<and>
     lw_owner raceOpened 0 = Some 0"
proof -
  have others: "\<forall>r. r \<noteq> 0 \<and> r \<noteq> 1 \<longrightarrow> lw_phase raceOpened r = NotStarted" by (simp add: race_defs)
  have use: "lw_phase raceOpened 0 = InUse 0" by (simp add: race_defs)
  note exclusive = session_lock_exclusive [OF raceOpened_reachable]
  from exclusive [THEN conjunct1, rule_format, of 0 0] have "lw_owner raceOpened 0 = Some 0" by (simp add: use)
  moreover from exclusive [THEN conjunct2, rule_format, of 0 1] others
  have "workingOn (lw_phase raceOpened 1) = None" by (simp add: use)
  ultimately show ?thesis using raceOpened_reachable use by blast
qed

end
