(* ===== verification/Go_Json.thy ===== *)
theory Go_Json
  imports Go_Url "HOL-Library.Char_ord" "HOL-Library.List_Lexorder"
begin

text \<open>
  The part of Go's \<open>encoding/json\<close> the program uses: values, their compact text as
  \<open>json.Marshal\<close> writes it (with HTML escaping), a parser for JSON text, and the rules by which
  struct fields are written (\<open>omitempty\<close>) and read (keys match up to case, the last occurrence
  wins, \<open>null\<close> leaves a field alone, a value of the wrong type is an error).

  Strings are byte strings. Bytes from 128 on are copied as they are; the replacement of invalid
  UTF-8 and the escapes of U+2028 and U+2029 are outside the model, so the round trips are stated
  for ASCII text. A number is kept as its literal, as the decoder keeps it until it knows the type
  of the field.
\<close>

datatype json =
    JNull
  | JBool bool
  | JNum string
  | JStr string
  | JArr "json list"
  | JObj "(string \<times> json) list"

subsection \<open>Text\<close>

definition lowHex :: "nat \<Rightarrow> char" where
  "lowHex n = (if n < 10 then char_of (48 + n) else char_of (87 + n))"

definition jsonEscape :: "char \<Rightarrow> string" where
  "jsonEscape c =
     (if c = CHR 0x22 then [CHR 0x5C, CHR 0x22]
      else if c = CHR 0x5C then [CHR 0x5C, CHR 0x5C]
      else if c = CHR 0x08 then [CHR 0x5C, CHR ''b'']
      else if c = CHR 0x0C then [CHR 0x5C, CHR ''f'']
      else if c = CHR 0x0A then [CHR 0x5C, CHR ''n'']
      else if c = CHR 0x0D then [CHR 0x5C, CHR ''r'']
      else if c = CHR 0x09 then [CHR 0x5C, CHR ''t'']
      else if (of_char c :: nat) < 32 \<or> c \<in> {CHR ''<'', CHR ''>'', CHR ''&''}
      then [CHR 0x5C, CHR ''u'', CHR ''0'', CHR ''0'', lowHex (of_char c div 16), lowHex (of_char c mod 16)]
      else [c])"

definition jsonString :: "string \<Rightarrow> string" where
  "jsonString s = [CHR 0x22] @ concat (map jsonEscape s) @ [CHR 0x22]"

fun jsonText :: "json \<Rightarrow> string" where
  "jsonText JNull = ''null''"
| "jsonText (JBool b) = (if b then ''true'' else ''false'')"
| "jsonText (JNum lit) = lit"
| "jsonText (JStr s) = jsonString s"
| "jsonText (JArr vs) = ''['' @ JoinWith (CHR '','') (map jsonText vs) @ '']''"
| "jsonText (JObj kvs) =
     ''{'' @ JoinWith (CHR '','') (map (\<lambda>(k, v). jsonString k @ '':'' @ jsonText v) kvs) @ ''}''"

subsection \<open>Parsing\<close>

definition isJsonSpace :: "char \<Rightarrow> bool" where
  "isJsonSpace c \<longleftrightarrow> c \<in> {CHR '' '', CHR 0x09, CHR 0x0A, CHR 0x0D}"

definition skipSpace :: "string \<Rightarrow> string" where
  "skipSpace s = dropWhile isJsonSpace s"

text \<open>A code point below \<open>0x10000\<close> in UTF-8.\<close>

definition utf8 :: "nat \<Rightarrow> string" where
  "utf8 u =
     (if u < 128 then [char_of u]
      else if u < 2048 then [char_of (192 + u div 64), char_of (128 + u mod 64)]
      else [char_of (224 + u div 4096), char_of (128 + u div 64 mod 64), char_of (128 + u mod 64)])"

definition utf8Pair :: "nat \<Rightarrow> nat \<Rightarrow> string" where
  "utf8Pair hi lo =
     (let u = 65536 + (hi - 55296) * 1024 + (lo - 56320)
      in [char_of (240 + u div 262144), char_of (128 + u div 4096 mod 64),
          char_of (128 + u div 64 mod 64), char_of (128 + u mod 64)])"

definition isHex4 :: "char \<Rightarrow> char \<Rightarrow> char \<Rightarrow> char \<Rightarrow> bool" where
  "isHex4 a b c d \<longleftrightarrow> isHex a \<and> isHex b \<and> isHex c \<and> isHex d"

definition hex4 :: "char \<Rightarrow> char \<Rightarrow> char \<Rightarrow> char \<Rightarrow> nat" where
  "hex4 a b c d = ((unhex a * 16 + unhex b) * 16 + unhex c) * 16 + unhex d"

definition isHighSurrogate :: "nat \<Rightarrow> bool" where
  "isHighSurrogate u \<longleftrightarrow> 55296 \<le> u \<and> u < 56320"

definition isLowSurrogate :: "nat \<Rightarrow> bool" where
  "isLowSurrogate u \<longleftrightarrow> 56320 \<le> u \<and> u < 57344"

text \<open>\<open>\<backslash>uXXXX\<close>: a surrogate that is not half of a pair becomes U+FFFD.\<close>

definition unescapeU :: "nat \<Rightarrow> string" where
  "unescapeU u = (if isHighSurrogate u \<or> isLowSurrogate u then utf8 65533 else utf8 u)"

definition simpleEscape :: "char \<Rightarrow> char option" where
  "simpleEscape c =
     (if c = CHR 0x22 \<or> c = CHR 0x5C \<or> c = CHR ''/'' then Some c
      else if c = CHR ''b'' then Some (CHR 0x08)
      else if c = CHR ''f'' then Some (CHR 0x0C)
      else if c = CHR ''n'' then Some (CHR 0x0A)
      else if c = CHR ''r'' then Some (CHR 0x0D)
      else if c = CHR ''t'' then Some (CHR 0x09)
      else None)"

text \<open>The body of a string literal after the opening quote.\<close>

fun parseStr :: "string \<Rightarrow> (string \<times> string) option" where
  "parseStr [] = None"
| "parseStr (c # cs) =
     (if c = CHR 0x22 then Some ([], cs)
      else if c = CHR 0x5C then
        (case cs of
           [] \<Rightarrow> None
         | e # r \<Rightarrow>
             if e = CHR ''u'' then
               (case r of
                  a # b # x # d # r4 \<Rightarrow>
                    if \<not> isHex4 a b x d then None
                    else map_option (\<lambda>(s, rest). (unescapeU (hex4 a b x d) @ s, rest)) (parseStr r4)
                | _ \<Rightarrow> None)
             else
               (case simpleEscape e of
                  None \<Rightarrow> None
                | Some z \<Rightarrow> map_option (\<lambda>(s, rest). (z # s, rest)) (parseStr r)))
      else if (of_char c :: nat) < 32 then None
      else map_option (\<lambda>(s, rest). (c # s, rest)) (parseStr cs))"

text \<open>A number literal: sign, integer part, fraction, exponent.\<close>

definition takeDigits :: "string \<Rightarrow> string \<times> string" where
  "takeDigits s = (takeWhile isDigit s, dropWhile isDigit s)"

definition parseInt :: "string \<Rightarrow> (string \<times> string) option" where
  "parseInt s =
     (case s of
        [] \<Rightarrow> None
      | c # cs \<Rightarrow>
          if c = CHR ''0'' then Some ([c], cs)
          else if isDigit c then Some (takeDigits s) else None)"

definition parseFrac :: "string \<Rightarrow> (string \<times> string) option" where
  "parseFrac s =
     (case s of
        c # cs \<Rightarrow>
          if c = CHR ''.''
          then (case takeDigits cs of (ds, r) \<Rightarrow> if ds = [] then None else Some (c # ds, r))
          else Some ([], s)
      | [] \<Rightarrow> Some ([], s))"

definition parseExp :: "string \<Rightarrow> (string \<times> string) option" where
  "parseExp s =
     (case s of
        c # cs \<Rightarrow>
          if c = CHR ''e'' \<or> c = CHR ''E''
          then (case cs of
                  g # gs \<Rightarrow>
                    let (sg, t) = (if g = CHR ''+'' \<or> g = CHR ''-'' then ([g], gs) else ([], cs));
                        (ds, r) = takeDigits t
                    in if ds = [] then None else Some (c # sg @ ds, r)
                | [] \<Rightarrow> None)
          else Some ([], s)
      | [] \<Rightarrow> Some ([], s))"

definition parseNum :: "string \<Rightarrow> (string \<times> string) option" where
  "parseNum s =
     (let (sg, t) = (case s of c # cs \<Rightarrow> if c = CHR ''-'' then ([c], cs) else ([], s) | [] \<Rightarrow> ([], s))
      in case parseInt t of
           None \<Rightarrow> None
         | Some (i, t1) \<Rightarrow>
             (case parseFrac t1 of
                None \<Rightarrow> None
              | Some (f, t2) \<Rightarrow>
                  (case parseExp t2 of
                     None \<Rightarrow> None
                   | Some (e, t3) \<Rightarrow> Some (sg @ i @ f @ e, t3))))"

text \<open>Values, the elements of an array after its opening bracket, and the members of an object
  after its opening brace. The fuel bounds the calls; the length of the text is enough, because
  every call but the last reads at least one byte.\<close>

fun parseVal :: "nat \<Rightarrow> string \<Rightarrow> (json \<times> string) option"
  and parseElems :: "nat \<Rightarrow> string \<Rightarrow> (json list \<times> string) option"
  and parseMembers :: "nat \<Rightarrow> string \<Rightarrow> ((string \<times> json) list \<times> string) option" where
  "parseVal 0 s = None"
| "parseVal (Suc n) s =
     (case skipSpace s of
        [] \<Rightarrow> None
      | c # cs \<Rightarrow>
          if c = CHR 0x22 then map_option (\<lambda>(t, r). (JStr t, r)) (parseStr cs)
          else if c = CHR ''['' then
            (case skipSpace cs of
               x # r \<Rightarrow>
                 if x = CHR '']'' then Some (JArr [], r)
                 else map_option (\<lambda>(vs, r). (JArr vs, r)) (parseElems n cs)
             | [] \<Rightarrow> None)
          else if c = CHR ''{'' then
            (case skipSpace cs of
               x # r \<Rightarrow>
                 if x = CHR ''}'' then Some (JObj [], r)
                 else map_option (\<lambda>(kvs, r). (JObj kvs, r)) (parseMembers n cs)
             | [] \<Rightarrow> None)
          else if HasPrefix (c # cs) ''true'' then Some (JBool True, drop 3 cs)
          else if HasPrefix (c # cs) ''false'' then Some (JBool False, drop 4 cs)
          else if HasPrefix (c # cs) ''null'' then Some (JNull, drop 3 cs)
          else map_option (\<lambda>(l, r). (JNum l, r)) (parseNum (c # cs)))"
| "parseElems 0 s = None"
| "parseElems (Suc n) s =
     (case parseVal n s of
        None \<Rightarrow> None
      | Some (v, r) \<Rightarrow>
          (case skipSpace r of
             c # cs \<Rightarrow>
               if c = CHR '']'' then Some ([v], cs)
               else if c = CHR '','' then map_option (\<lambda>(vs, r). (v # vs, r)) (parseElems n cs)
               else None
           | [] \<Rightarrow> None))"
| "parseMembers 0 s = None"
| "parseMembers (Suc n) s =
     (case skipSpace s of
        q # s1 \<Rightarrow>
          if q \<noteq> CHR 0x22 then None
          else (case parseStr s1 of
             None \<Rightarrow> None
           | Some (k, s2) \<Rightarrow>
               (case skipSpace s2 of
                  col # s3 \<Rightarrow>
                    if col \<noteq> CHR '':'' then None
                    else (case parseVal n s3 of
                       None \<Rightarrow> None
                     | Some (v, r) \<Rightarrow>
                         (case skipSpace r of
                            c # cs \<Rightarrow>
                              if c = CHR ''}'' then Some ([(k, v)], cs)
                              else if c = CHR '','' then
                                map_option (\<lambda>(kvs, r). ((k, v) # kvs, r)) (parseMembers n cs)
                              else None
                          | [] \<Rightarrow> None))
                | [] \<Rightarrow> None))
      | [] \<Rightarrow> None)"

text \<open>\<open>json.Unmarshal\<close>: one value and nothing but space after it; \<open>Decoder.Decode\<close> reads one
  value and ignores the rest.\<close>

definition json_Unmarshal :: "string \<Rightarrow> json res" where
  "json_Unmarshal s =
     (case parseVal (Suc (length s)) s of
        None \<Rightarrow> Inl (Errorf ''invalid JSON'')
      | Some (v, r) \<Rightarrow> if skipSpace r = [] then Inr v else Inl (Errorf ''invalid JSON''))"

definition json_Decode :: "string \<Rightarrow> json res" where
  "json_Decode s =
     (case parseVal (Suc (length s)) s of
        None \<Rightarrow> Inl (Errorf ''invalid JSON'') | Some (v, r) \<Rightarrow> Inr v)"

subsection \<open>Printed text parses back\<close>

definition ascii :: "string \<Rightarrow> bool" where
  "ascii s \<longleftrightarrow> list_all (\<lambda>c. (of_char c :: nat) < 128) s"

text \<open>Integer literals as \<open>strconv\<close> writes them.\<close>

definition digitLit :: "string \<Rightarrow> bool" where
  "digitLit ds \<longleftrightarrow> ds \<noteq> [] \<and> list_all isDigit ds \<and> (hd ds = CHR ''0'' \<longrightarrow> tl ds = [])"

definition intLit :: "string \<Rightarrow> bool" where
  "intLit lit \<longleftrightarrow> digitLit (case lit of c # cs \<Rightarrow> if c = CHR ''-'' then cs else lit | [] \<Rightarrow> lit)"

fun plainJson :: "json \<Rightarrow> bool" where
  "plainJson (JNum lit) = intLit lit"
| "plainJson (JStr s) = ascii s"
| "plainJson (JArr vs) = list_all plainJson vs"
| "plainJson (JObj kvs) = list_all (\<lambda>(k, v). ascii k \<and> plainJson v) kvs"
| "plainJson _ = True"

definition delim :: "string \<Rightarrow> bool" where
  "delim s \<longleftrightarrow> (case s of [] \<Rightarrow> True | c # _ \<Rightarrow> c \<in> {CHR '','', CHR '']'', CHR ''}'', CHR 0x0A})"

lemma lowHex_round_trip: "n < 16 \<Longrightarrow> isHex (lowHex n) \<and> unhex (lowHex n) = n"
proof -
  assume "n < 16"
  then have "n \<in> set [0..<16]" by simp
  then show ?thesis
    by (simp add: isHex_def unhex_def lowHex_def upt_rec Let_def) auto
qed

lemma unescape_low:
  assumes "(of_char c :: nat) < 128"
  shows "unescapeU (hex4 (CHR ''0'') (CHR ''0'') (lowHex (of_char c div 16)) (lowHex (of_char c mod 16))) = [c]"
    and "isHex4 (CHR ''0'') (CHR ''0'') (lowHex (of_char c div 16)) (lowHex (of_char c mod 16))"
proof -
  let ?n = "of_char c :: nat"
  have h: "?n div 16 < 16" "?n mod 16 < 16" using assms by auto
  have "unhex (CHR ''0'') = 0" "isHex (CHR ''0'')" by (simp_all add: unhex_def isHex_def)
  with lowHex_round_trip [OF h(1)] lowHex_round_trip [OF h(2)]
  have "hex4 (CHR ''0'') (CHR ''0'') (lowHex (?n div 16)) (lowHex (?n mod 16)) = ?n"
    and i: "isHex4 (CHR ''0'') (CHR ''0'') (lowHex (?n div 16)) (lowHex (?n mod 16))"
    by (simp_all add: hex4_def isHex4_def)
  with assms show "unescapeU (hex4 (CHR ''0'') (CHR ''0'') (lowHex (?n div 16)) (lowHex (?n mod 16))) = [c]"
    by (simp add: unescapeU_def utf8_def isHighSurrogate_def isLowSurrogate_def)
  from i show "isHex4 (CHR ''0'') (CHR ''0'') (lowHex (?n div 16)) (lowHex (?n mod 16))" .
qed

lemma jsonEscape_short:
  "c \<in> {CHR 0x22, CHR 0x5C, CHR 0x08, CHR 0x0C, CHR 0x0A, CHR 0x0D, CHR 0x09} \<Longrightarrow>
     \<exists>z. jsonEscape c = [CHR 0x5C, z] \<and> simpleEscape z = Some c \<and> z \<noteq> CHR ''u''"
  by (auto simp: jsonEscape_def simpleEscape_def)

lemma jsonEscape_rest:
  "c \<notin> {CHR 0x22, CHR 0x5C, CHR 0x08, CHR 0x0C, CHR 0x0A, CHR 0x0D, CHR 0x09} \<Longrightarrow>
     jsonEscape c = (if (of_char c :: nat) < 32 \<or> c \<in> {CHR ''<'', CHR ''>'', CHR ''&''}
       then [CHR 0x5C, CHR ''u'', CHR ''0'', CHR ''0'', lowHex (of_char c div 16), lowHex (of_char c mod 16)]
       else [c])"
  by (simp add: jsonEscape_def)

lemma parseStr_escape:
  "parseStr (jsonEscape c @ t) = map_option (\<lambda>(s, rest). (c # s, rest)) (parseStr t)"
proof -
  consider (short) z where "jsonEscape c = [CHR 0x5C, z]" "simpleEscape z = Some c" "z \<noteq> CHR ''u''"
    | (unicode) "(of_char c :: nat) < 128"
        "jsonEscape c = [CHR 0x5C, CHR ''u'', CHR ''0'', CHR ''0'', lowHex (of_char c div 16),
          lowHex (of_char c mod 16)]"
    | (same) "jsonEscape c = [c]" "c \<noteq> CHR 0x22" "c \<noteq> CHR 0x5C" "\<not> (of_char c :: nat) < 32"
  proof (cases "c \<in> {CHR 0x22, CHR 0x5C, CHR 0x08, CHR 0x0C, CHR 0x0A, CHR 0x0D, CHR 0x09}")
    case True
    with jsonEscape_short short show thesis by blast
  next
    case False
    note e = jsonEscape_rest [OF False]
    show thesis
    proof (cases "(of_char c :: nat) < 32 \<or> c \<in> {CHR ''<'', CHR ''>'', CHR ''&''}")
      case True
      with e unicode show thesis by auto
    next
      case nope: False
      then have "jsonEscape c = [c]" using e by (simp only: if_False)
      with nope False same show thesis by blast
    qed
  qed
  then show ?thesis
  proof cases
    case unicode
    from unescape_low [OF this(1)] show ?thesis
      unfolding unicode(2) by (simp add: map_option_case split: option.split)
  qed simp_all
qed

lemma parseStr_print: "parseStr (concat (map jsonEscape s) @ [CHR 0x22] @ rest) = Some (s, rest)"
proof (induction s)
  case (Cons c s)
  then show ?case
    using parseStr_escape [of c "concat (map jsonEscape s) @ [CHR 0x22] @ rest"] by simp
qed simp

lemma takeDigits_append:
  "list_all isDigit ds \<Longrightarrow> delim rest \<Longrightarrow> takeDigits (ds @ rest) = (ds, rest)"
  by (induction ds) (auto simp: takeDigits_def delim_def isDigit_def split: list.splits)

lemma parse_tail: "delim rest \<Longrightarrow> parseFrac rest = Some ([], rest) \<and> parseExp rest = Some ([], rest)"
  by (auto simp: delim_def parseFrac_def parseExp_def split: list.splits)

lemma parseInt_lit:
  assumes "digitLit ds" and "delim rest"
  shows "parseInt (ds @ rest) = Some (ds, rest)"
proof -
  from assms(1) obtain c cs where d: "ds = c # cs" by (auto simp: digitLit_def neq_Nil_conv)
  show ?thesis
  proof (cases "c = CHR ''0''")
    case True
    with assms(1) d show ?thesis by (simp add: digitLit_def parseInt_def)
  next
    case False
    with assms d takeDigits_append [of ds rest] show ?thesis
      by (simp add: digitLit_def parseInt_def)
  qed
qed

lemma digitLit_head: "digitLit (c # cs) \<Longrightarrow> isDigit c"
  by (simp add: digitLit_def)

lemma parseNum_lit:
  assumes "intLit lit" and "delim rest"
  shows "parseNum (lit @ rest) = Some (lit, rest)"
proof -
  have "lit \<noteq> []" using assms(1) by (auto simp: intLit_def digitLit_def)
  then obtain c cs where l: "lit = c # cs" by (cases lit) auto
  note t = parse_tail [OF assms(2)]
  show ?thesis
  proof (cases "c = CHR ''-''")
    case True
    with assms(1) l have "digitLit cs" by (simp add: intLit_def)
    from parseInt_lit [OF this assms(2)] show ?thesis
      using True l t by (simp add: parseNum_def)
  next
    case False
    with assms(1) l have "digitLit lit" by (simp add: intLit_def)
    from parseInt_lit [OF this assms(2)] show ?thesis
      using False l t by (simp add: parseNum_def)
  qed
qed

lemma Itoa_digitLit: "digitLit (Itoa n)"
proof (induction n rule: Itoa.induct)
  case (1 n)
  show ?case
  proof (cases "n < 10")
    case True
    then show ?thesis by (simp add: Itoa.simps [of n] digitLit_def isDigit_digitChar)
  next
    case False
    then have h: "digitLit (Itoa (n div 10))" and e: "Itoa n = Itoa (n div 10) @ [digitChar (n mod 10)]"
      using 1 by (simp_all add: Itoa.simps [of n])
    have "hd (Itoa (n div 10)) \<noteq> CHR ''0''"
    proof
      assume z: "hd (Itoa (n div 10)) = CHR ''0''"
      with h have "Itoa (n div 10) = ''0''" by (cases "Itoa (n div 10)") (auto simp: digitLit_def)
      moreover have "digitsVal ''0'' = 0" by (simp add: digitsVal_def)
      ultimately have "n div 10 = 0" by (metis digitsVal_Itoa)
      with False show False by simp
    qed
    with h e show ?thesis by (simp add: digitLit_def isDigit_digitChar)
  qed
qed

lemma intLit_Itoa [simp]: "intLit (Itoa n)"
proof -
  obtain c cs where "Itoa n = c # cs" by (cases "Itoa n") auto
  moreover from this Itoa_digitLit [of n] have "c \<noteq> CHR ''-''"
    by (auto simp: isDigit_def dest!: digitLit_head)
  ultimately show ?thesis using Itoa_digitLit [of n] by (simp add: intLit_def)
qed

text \<open>How the text of a value begins.\<close>

lemma jsonText_start:
  "plainJson v \<Longrightarrow> \<exists>c cs. jsonText v = c # cs \<and> \<not> isJsonSpace c \<and> c \<noteq> CHR '']'' \<and> c \<noteq> CHR ''}''"
proof (cases v)
  case (JNum lit)
  assume "plainJson v"
  with JNum have "intLit lit" by simp
  then obtain c cs where "lit = c # cs" "c = CHR ''-'' \<or> isDigit c"
    by (cases lit) (auto simp: intLit_def digitLit_def split: if_splits)
  with JNum show ?thesis by (auto simp: isJsonSpace_def isDigit_def)
qed (auto simp: isJsonSpace_def jsonString_def)

lemma skipSpace_text: "plainJson v \<Longrightarrow> skipSpace (jsonText v @ r) = jsonText v @ r"
  using jsonText_start [of v] by (auto simp: skipSpace_def)

lemma skipSpace_keep: "\<not> isJsonSpace c \<Longrightarrow> skipSpace (c # s) = c # s"
  by (simp add: skipSpace_def)

definition memberText :: "string \<times> json \<Rightarrow> string" where
  "memberText kv = (case kv of (k, v) \<Rightarrow> jsonString k @ '':'' @ jsonText v)"

lemma jsonText_obj:
  "jsonText (JObj kvs) = ''{'' @ JoinWith (CHR '','') (map memberText kvs) @ ''}''"
  by (simp add: memberText_def cong: map_cong)

lemma memberText_start: "\<exists>cs. memberText kv = CHR 0x22 # cs"
  by (cases kv) (auto simp: memberText_def jsonString_def)

lemma JoinWith_split:
  "JoinWith c (p # ps) = p @ (if ps = [] then [] else c # JoinWith c ps)"
  by (cases ps) auto

text \<open>The statement for one value, used as induction hypothesis on the parts.\<close>

definition parsesBack :: "json \<Rightarrow> bool" where
  "parsesBack v \<longleftrightarrow> (\<forall>n rest. length (jsonText v) \<le> n \<longrightarrow> delim rest \<longrightarrow>
     parseVal n (jsonText v @ rest) = Some (v, rest))"

lemma parsesBackD:
  "parsesBack v \<Longrightarrow> length (jsonText v) \<le> n \<Longrightarrow> delim rest \<Longrightarrow>
     parseVal n (jsonText v @ rest) = Some (v, rest)"
  by (simp add: parsesBack_def)

lemma parseElems_print:
  assumes "vs \<noteq> []" and "\<And>v. v \<in> set vs \<Longrightarrow> parsesBack v"
    and "length (JoinWith (CHR '','') (map jsonText vs)) < n"
  shows "parseElems n (JoinWith (CHR '','') (map jsonText vs) @ CHR '']'' # rest) = Some (vs, rest)"
  using assms
proof (induction vs arbitrary: n)
  case (Cons v vs)
  let ?r = "(if vs = [] then [] else CHR '','' # JoinWith (CHR '','') (map jsonText vs)) @ CHR '']'' # rest"
  have t: "JoinWith (CHR '','') (map jsonText (v # vs)) @ CHR '']'' # rest = jsonText v @ ?r"
    by (simp add: JoinWith_split)
  obtain m where n: "n = Suc m" using Cons.prems(3) by (cases n) auto
  have len: "length (jsonText v) \<le> m"
    using Cons.prems(3) by (simp add: n JoinWith_split split: if_splits)
  have d: "delim ?r" by (auto simp: delim_def)
  have v: "parseVal m (jsonText v @ ?r) = Some (v, ?r)"
    by (rule parsesBackD [OF Cons.prems(2) len d]) simp
  show ?case
  proof (cases "vs = []")
    case True
    with v show ?thesis unfolding t n by (simp add: skipSpace_keep isJsonSpace_def)
  next
    case False
    have "length (JoinWith (CHR '','') (map jsonText vs)) < m"
      using Cons.prems(3) False by (simp add: n JoinWith_split)
    with Cons.IH Cons.prems(2) False
    have "parseElems m (JoinWith (CHR '','') (map jsonText vs) @ CHR '']'' # rest) = Some (vs, rest)"
      by simp
    with v False show ?thesis unfolding t n by (simp add: skipSpace_keep isJsonSpace_def)
  qed
qed simp

lemma parseMembers_print:
  assumes "kvs \<noteq> []" and "\<And>k v. (k, v) \<in> set kvs \<Longrightarrow> parsesBack v"
    and "length (JoinWith (CHR '','') (map memberText kvs)) < n"
  shows "parseMembers n (JoinWith (CHR '','') (map memberText kvs) @ CHR ''}'' # rest) = Some (kvs, rest)"
  using assms
proof (induction kvs arbitrary: n)
  case (Cons kv kvs)
  obtain k v where kv: "kv = (k, v)" by (cases kv)
  let ?r = "(if kvs = [] then [] else CHR '','' # JoinWith (CHR '','') (map memberText kvs)) @ CHR ''}'' # rest"
  let ?k = "concat (map jsonEscape k)"
  have t: "JoinWith (CHR '','') (map memberText (kv # kvs)) @ CHR ''}'' # rest =
      CHR 0x22 # ?k @ [CHR 0x22] @ CHR '':'' # jsonText v @ ?r"
    by (simp add: JoinWith_split kv memberText_def jsonString_def)
  obtain m where n: "n = Suc m" using Cons.prems(3) by (cases n) auto
  have len: "length (jsonText v) \<le> m"
    using Cons.prems(3) by (simp add: n JoinWith_split kv memberText_def split: if_splits)
  have d: "delim ?r" by (auto simp: delim_def)
  have v: "parseVal m (jsonText v @ ?r) = Some (v, ?r)"
    by (rule parsesBackD [OF Cons.prems(2) [of k] len d]) (simp add: kv)
  note key = parseStr_print [of k "CHR '':'' # jsonText v @ ?r"]
  show ?case
  proof (cases "kvs = []")
    case True
    with v key show ?thesis unfolding t n by (simp add: kv skipSpace_keep isJsonSpace_def)
  next
    case False
    have "length (JoinWith (CHR '','') (map memberText kvs)) < m"
      using Cons.prems(3) False by (simp add: n JoinWith_split)
    then have "parseMembers m (JoinWith (CHR '','') (map memberText kvs) @ CHR ''}'' # rest) = Some (kvs, rest)"
      by (intro Cons.IH [OF False]) (auto intro: Cons.prems(2))
    with v key False show ?thesis unfolding t n by (simp add: kv skipSpace_keep isJsonSpace_def)
  qed
qed simp

lemma parsesBackI:
  assumes "plainJson v"
    and "\<And>m rest. length (jsonText v) \<le> Suc m \<Longrightarrow> delim rest \<Longrightarrow>
      parseVal (Suc m) (jsonText v @ rest) = Some (v, rest)"
  shows "parsesBack v"
  unfolding parsesBack_def
proof (intro allI impI)
  fix n rest assume n: "length (jsonText v) \<le> n" and r: "delim rest"
  obtain c cs where "jsonText v = c # cs" using jsonText_start [OF assms(1)] by blast
  with n obtain m where "n = Suc m" by (cases n) auto
  with assms(2) n r show "parseVal n (jsonText v @ rest) = Some (v, rest)" by blast
qed

lemma intLit_start:
  assumes "intLit lit"
  obtains c cs where "lit = c # cs" and "c = CHR ''-'' \<or> isDigit c"
  using assms by (cases lit) (auto simp: intLit_def digitLit_def split: if_splits)

lemma parseVal_print: "plainJson v \<Longrightarrow> parsesBack v"
proof (induction v)
  case JNull
  show ?case by (rule parsesBackI) (simp_all add: skipSpace_keep isJsonSpace_def)
next
  case (JBool b)
  show ?case by (rule parsesBackI) (simp_all add: skipSpace_keep isJsonSpace_def)
next
  case (JNum lit)
  then have l: "intLit lit" by simp
  obtain c cs where c: "lit = c # cs" "c = CHR ''-'' \<or> isDigit c" by (rule intLit_start [OF l])
  then have "c \<notin> {CHR 0x22, CHR ''['', CHR ''{'', CHR ''t'', CHR ''f'', CHR ''n''}" "\<not> isJsonSpace c"
    by (auto simp: isDigit_def isJsonSpace_def)
  with c(1) parseNum_lit [OF l] show ?case
    by (intro parsesBackI JNum.prems) (simp add: skipSpace_keep)
next
  case (JStr s)
  show ?case
    by (intro parsesBackI JStr.prems)
      (use parseStr_print in \<open>simp add: jsonString_def skipSpace_keep isJsonSpace_def\<close>)
next
  case (JArr vs)
  have p: "parsesBack v" if "v \<in> set vs" for v
    using JArr that by (auto simp: list_all_iff)
  show ?case
  proof (intro parsesBackI JArr.prems)
    fix m rest assume len: "length (jsonText (JArr vs)) \<le> Suc m"
    show "parseVal (Suc m) (jsonText (JArr vs) @ rest) = Some (JArr vs, rest)"
    proof (cases vs)
      case Nil
      then show ?thesis by (simp add: skipSpace_keep isJsonSpace_def)
    next
      case (Cons v vs')
      let ?body = "JoinWith (CHR '','') (map jsonText vs)"
      have "plainJson v" using JArr.prems Cons by simp
      then obtain c cs where "?body @ CHR '']'' # rest = c # cs" "\<not> isJsonSpace c" "c \<noteq> CHR '']''"
        using jsonText_start [of v] Cons by (auto simp: JoinWith_split)
      moreover have "parseElems m (?body @ CHR '']'' # rest) = Some (vs, rest)"
        using p Cons len by (intro parseElems_print) auto
      ultimately show ?thesis by (simp add: skipSpace_keep isJsonSpace_def)
    qed
  qed
next
  case (JObj kvs)
  have p: "parsesBack v" if "(k, v) \<in> set kvs" for k v
    using JObj.IH [OF that, of v] JObj.prems that by (auto simp: list_all_iff)
  show ?case
  proof (intro parsesBackI JObj.prems)
    fix m rest assume len: "length (jsonText (JObj kvs)) \<le> Suc m"
    show "parseVal (Suc m) (jsonText (JObj kvs) @ rest) = Some (JObj kvs, rest)"
    proof (cases kvs)
      case Nil
      then show ?thesis by (simp add: skipSpace_keep isJsonSpace_def)
    next
      case (Cons kv kvs')
      let ?body = "JoinWith (CHR '','') (map memberText kvs)"
      obtain cs where "?body @ CHR ''}'' # rest = CHR 0x22 # cs"
        using memberText_start [of kv] Cons by (auto simp: JoinWith_split)
      moreover have "parseMembers m (?body @ CHR ''}'' # rest) = Some (kvs, rest)"
        using p Cons len by (intro parseMembers_print) (auto simp: jsonText_obj simp del: jsonText.simps)
      ultimately show ?thesis
        by (simp add: jsonText_obj skipSpace_keep isJsonSpace_def del: jsonText.simps)
    qed
  qed
qed

lemma unmarshal_text:
  assumes "plainJson v"
  shows "json_Unmarshal (jsonText v) = Inr v" and "json_Decode (jsonText v) = Inr v"
proof -
  have "parseVal (Suc (length (jsonText v))) (jsonText v @ []) = Some (v, [])"
    by (rule parsesBackD [OF parseVal_print [OF assms]]) (simp_all add: delim_def)
  then show "json_Unmarshal (jsonText v) = Inr v" and "json_Decode (jsonText v) = Inr v"
    by (simp_all add: json_Unmarshal_def json_Decode_def skipSpace_def del: parseVal.simps)
qed

text \<open>\<open>json.Encoder\<close> ends a value with a newline.\<close>

definition json_Encode :: "json \<Rightarrow> string" where
  "json_Encode v = jsonText v @ [CHR 0x0A]"

lemma unmarshal_encoded:
  assumes "plainJson v"
  shows "json_Unmarshal (json_Encode v) = Inr v"
proof -
  have "parseVal (Suc (length (json_Encode v))) (jsonText v @ [CHR 0x0A]) = Some (v, [CHR 0x0A])"
    by (rule parsesBackD [OF parseVal_print [OF assms]]) (simp_all add: delim_def json_Encode_def)
  then show ?thesis
    by (simp add: json_Unmarshal_def json_Encode_def skipSpace_def isJsonSpace_def del: parseVal.simps)
qed

subsection \<open>Struct fields\<close>

text \<open>Writing: a field is its name and its value, absent when \<open>omitempty\<close> drops it.\<close>

type_synonym jfield = "string \<times> json option"

definition obj :: "jfield list \<Rightarrow> json" where
  "obj fs = JObj (concat (map (\<lambda>(k, v). case v of None \<Rightarrow> [] | Some j \<Rightarrow> [(k, j)]) fs))"

definition omitStr :: "string \<Rightarrow> json option" where
  "omitStr s = (if s = [] then None else Some (JStr s))"

definition omitBool :: "bool \<Rightarrow> json option" where
  "omitBool b = (if b then Some (JBool True) else None)"

definition omitNat :: "nat \<Rightarrow> json option" where
  "omitNat n = (if n = 0 then None else Some (JNum (Itoa n)))"

definition omitInt :: "int \<Rightarrow> json option" where
  "omitInt n = (if n = 0 then None
     else Some (JNum ((if n < 0 then ''-'' else []) @ Itoa (nat \<bar>n\<bar>))))"

definition omitList :: "('a \<Rightarrow> json) \<Rightarrow> 'a list \<Rightarrow> json option" where
  "omitList f xs = (if xs = [] then None else Some (JArr (map f xs)))"

text \<open>A Go map is written with its keys in byte order; \<open>nil\<close> maps are not told from empty ones.\<close>

definition sortedMap :: "(string \<times> string) list \<Rightarrow> (string \<times> string) list" where
  "sortedMap m = map (\<lambda>k. (k, case map_of m k of Some v \<Rightarrow> v | None \<Rightarrow> [])) (sort (map fst m))"

definition jsonMap :: "(string \<times> string) list \<Rightarrow> json" where
  "jsonMap m = JObj (map (\<lambda>(k, v). (k, JStr v)) (sortedMap m))"

text \<open>Reading.\<close>

fun lookupFold :: "string \<Rightarrow> (string \<times> json) list \<Rightarrow> json option" where
  "lookupFold k [] = None"
| "lookupFold k ((k', v) # kvs) =
     (case lookupFold k kvs of Some j \<Rightarrow> Some j | None \<Rightarrow> if EqualFold k' k then Some v else None)"

definition fieldOf :: "string \<Rightarrow> (json \<Rightarrow> 'a res) \<Rightarrow> 'a \<Rightarrow> (string \<times> json) list \<Rightarrow> 'a res" where
  "fieldOf k dec zero kvs =
     (case lookupFold k kvs of None \<Rightarrow> Inr zero | Some JNull \<Rightarrow> Inr zero | Some j \<Rightarrow> dec j)"

definition typeError :: goerr where "typeError = Errorf ''json: cannot unmarshal''"

definition decStr :: "json \<Rightarrow> string res" where
  "decStr j = (case j of JStr s \<Rightarrow> Inr s | _ \<Rightarrow> Inl typeError)"

definition decBool :: "json \<Rightarrow> bool res" where
  "decBool j = (case j of JBool b \<Rightarrow> Inr b | _ \<Rightarrow> Inl typeError)"

definition decUint :: "nat \<Rightarrow> json \<Rightarrow> nat res" where
  "decUint bits j =
     (case j of
        JNum lit \<Rightarrow> (case ParseUint bits lit of Inl e \<Rightarrow> Inl typeError | Inr n \<Rightarrow> Inr n)
      | _ \<Rightarrow> Inl typeError)"

definition decInt :: "json \<Rightarrow> int res" where
  "decInt j =
     (case j of
        JNum lit \<Rightarrow> (case Atoi lit of Inl e \<Rightarrow> Inl typeError | Inr n \<Rightarrow> Inr n)
      | _ \<Rightarrow> Inl typeError)"

fun decAll :: "(json \<Rightarrow> 'a res) \<Rightarrow> json list \<Rightarrow> 'a list res" where
  "decAll dec [] = Inr []"
| "decAll dec (j # js) =
     (case dec j of
        Inl e \<Rightarrow> Inl e
      | Inr x \<Rightarrow> (case decAll dec js of Inl e \<Rightarrow> Inl e | Inr xs \<Rightarrow> Inr (x # xs)))"

definition decList :: "(json \<Rightarrow> 'a res) \<Rightarrow> json \<Rightarrow> 'a list res" where
  "decList dec j = (case j of JArr js \<Rightarrow> decAll dec js | _ \<Rightarrow> Inl typeError)"

fun decPairs :: "(string \<times> json) list \<Rightarrow> (string \<times> string) list res" where
  "decPairs [] = Inr []"
| "decPairs ((k, j) # kvs) =
     (case decStr j of
        Inl e \<Rightarrow> Inl e
      | Inr v \<Rightarrow> (case decPairs kvs of
           Inl e \<Rightarrow> Inl e
         | Inr m \<Rightarrow> Inr (if k \<in> fst ` set m then m else (k, v) # m)))"

definition decMap :: "json \<Rightarrow> (string \<times> string) list res" where
  "decMap j = (case j of JObj kvs \<Rightarrow> decPairs kvs | _ \<Rightarrow> Inl typeError)"

definition decObj :: "((string \<times> json) list \<Rightarrow> 'a res) \<Rightarrow> json \<Rightarrow> 'a res" where
  "decObj f j = (case j of JObj kvs \<Rightarrow> f kvs | _ \<Rightarrow> Inl typeError)"

subsection \<open>Fields written are fields read\<close>

lemma lookupFold_append:
  "lookupFold k (a @ b) = (case lookupFold k b of Some j \<Rightarrow> Some j | None \<Rightarrow> lookupFold k a)"
  by (induction a) (auto split: option.splits)

definition keysApart :: "jfield list \<Rightarrow> bool" where
  "keysApart fs \<longleftrightarrow> distinct (map (\<lambda>(k, v). ToLower k) fs)"

lemma lookupFold_absent:
  assumes "ToLower k \<notin> set (map (\<lambda>(k, v). ToLower k) fs)"
  shows "lookupFold k (concat (map (\<lambda>(k, v). case v of None \<Rightarrow> [] | Some j \<Rightarrow> [(k, j)]) fs)) = None"
  using assms by (induction fs) (auto simp: EqualFold_def lookupFold_append split: option.splits)

lemma lookupFold_obj:
  assumes "keysApart fs" and "map_of fs k = Some v"
  shows "lookupFold k (concat (map (\<lambda>(k, v). case v of None \<Rightarrow> [] | Some j \<Rightarrow> [(k, j)]) fs)) = v"
  using assms
proof (induction fs)
  case (Cons f fs)
  obtain k' v' where f: "f = (k', v')" by (cases f)
  show ?case
  proof (cases "k' = k")
    case True
    with Cons.prems f have "ToLower k \<notin> set (map (\<lambda>(k, v). ToLower k) fs)" and "v' = v"
      by (auto simp: keysApart_def)
    with lookupFold_absent [of k fs] True f show ?thesis
      by (auto simp: lookupFold_append EqualFold_def split: option.splits)
  next
    case False
    with Cons f have l: "lookupFold k (concat (map (\<lambda>(k, v). case v of None \<Rightarrow> [] | Some j \<Rightarrow> [(k, j)]) fs)) = v"
      and m: "map_of fs k = Some v" by (auto simp: keysApart_def)
    from map_of_SomeD [OF m] have "ToLower k \<in> set (map (\<lambda>(k, v). ToLower k) fs)" by force
    with Cons.prems(1) f have "ToLower k' \<noteq> ToLower k" by (auto simp: keysApart_def)
    with l f show ?thesis
      by (auto simp: lookupFold_append EqualFold_def split: option.splits)
  qed
qed simp

text \<open>Reading one field of a written object: the decoder meets the field's own value.\<close>

definition readOf :: "(json \<Rightarrow> 'a res) \<Rightarrow> 'a \<Rightarrow> json option \<Rightarrow> 'a res" where
  "readOf dec zero v =
     (case v of None \<Rightarrow> Inr zero | Some JNull \<Rightarrow> Inr zero | Some j \<Rightarrow> dec j)"

definition fieldNames :: "jfield list \<Rightarrow> string list" where
  "fieldNames fs = map fst fs"

primrec hasName :: "string \<Rightarrow> string list \<Rightarrow> bool" where
  "hasName k [] = False"
| "hasName k (n # ns) = (k = n \<or> hasName k ns)"

lemma hasName_fields: "hasName k (fieldNames fs) \<longleftrightarrow> k \<in> fst ` set fs"
  by (induction fs) (auto simp: fieldNames_def)

lemma fieldOf_obj:
  assumes "keysApart fs" and "hasName k (fieldNames fs)"
  shows "fieldOf k dec zero (concat (map (\<lambda>(k, v). case v of None \<Rightarrow> [] | Some j \<Rightarrow> [(k, j)]) fs)) =
    readOf dec zero (the (map_of fs k))"
proof -
  obtain v where "map_of fs k = Some v"
    using assms(2) by (cases "map_of fs k") (auto simp: map_of_eq_None_iff hasName_fields)
  with lookupFold_obj [OF assms(1) this] show ?thesis by (simp add: fieldOf_def readOf_def)
qed

lemma decObj_obj: "decObj f (obj fs) = f (concat (map (\<lambda>(k, v). case v of None \<Rightarrow> [] | Some j \<Rightarrow> [(k, j)]) fs))"
  by (simp add: decObj_def obj_def)

lemma obj_not_null [simp]: "obj fs \<noteq> JNull" "readOf dec zero (Some (obj fs)) = dec (obj fs)"
  by (simp_all add: obj_def readOf_def)

lemma readOf_str [simp]:
  "readOf decStr [] (omitStr s) = Inr s" "readOf decStr zero (Some (JStr s)) = Inr s"
  by (auto simp: readOf_def omitStr_def decStr_def)

lemma readOf_bool [simp]:
  "readOf decBool False (omitBool b) = Inr b" "readOf decBool zero (Some (JBool b)) = Inr b"
  by (auto simp: readOf_def omitBool_def decBool_def)

lemma readOf_nat [simp]: "n < 2 ^ bits \<Longrightarrow> readOf (decUint bits) 0 (omitNat n) = Inr n"
  by (auto simp: readOf_def omitNat_def decUint_def ParseUint_Itoa)

lemma readOf_int [simp]:
  assumes "- (2 ^ 63) \<le> n" and "n < 2 ^ 63"
  shows "readOf decInt 0 (omitInt n) = Inr n"
proof -
  consider "n = 0" | "0 < n" | "n < 0" by linarith
  then show ?thesis
  proof cases
    case 2
    with assms(2) have "nat n < 2 ^ 63" by (simp add: nat_less_iff)
    with 2 Atoi_Itoa [of "nat n"] show ?thesis by (simp add: readOf_def omitInt_def decInt_def)
  next
    case 3
    with assms(1) have "Atoi (''-'' @ Itoa (nat (- n))) = Inr n"
      by (simp add: Atoi_def Let_def Itoa_digits)
    with 3 show ?thesis by (simp add: readOf_def omitInt_def decInt_def)
  qed (simp add: readOf_def omitInt_def)
qed

lemma decAll_map: "(\<And>x. x \<in> set xs \<Longrightarrow> dec (f x) = Inr x) \<Longrightarrow> decAll dec (map f xs) = Inr xs"
  by (induction xs) simp_all

lemma readOf_list [simp]:
  "(\<And>x. x \<in> set xs \<Longrightarrow> dec (f x) = Inr x) \<Longrightarrow> readOf (decList dec) [] (omitList f xs) = Inr xs"
  by (auto simp: readOf_def omitList_def decList_def decAll_map)

lemma decStr_JStr [simp]: "decStr (JStr s) = Inr s"
  by (simp add: decStr_def)

lemma sortedMap_keys: "map fst (sortedMap m) = sort (map fst m)"
  by (simp add: sortedMap_def comp_def)

lemma sortedMap_map_of: "map_of (sortedMap m) = map_of m"
proof (rule ext)
  fix k
  show "map_of (sortedMap m) k = map_of m k"
  proof (cases "k \<in> fst ` set m")
    case True
    then obtain v where "map_of m k = Some v" by (cases "map_of m k") (auto simp: map_of_eq_None_iff)
    with True show ?thesis by (simp add: sortedMap_def map_of_map_restrict restrict_map_def)
  next
    case False
    then show ?thesis
      by (simp add: sortedMap_def map_of_map_restrict restrict_map_def map_of_eq_None_iff [symmetric])
  qed
qed

lemma readOf_map [simp]:
  assumes "distinct (map fst m)"
  shows "readOf decMap zero (Some (jsonMap m)) = Inr (sortedMap m)"
proof -
  have "decPairs (map (\<lambda>(k, v). (k, JStr v)) xs) = Inr xs" if "distinct (map fst xs)"
    for xs :: "(string \<times> string) list"
    using that by (induction xs) auto
  moreover have "distinct (map fst (sortedMap m))" using assms by (simp add: sortedMap_keys)
  ultimately show ?thesis by (simp add: readOf_def jsonMap_def decMap_def)
qed

text \<open>Texts of written objects are plain when their field values are.\<close>

definition plainVal :: "json option \<Rightarrow> bool" where
  "plainVal v = (case v of None \<Rightarrow> True | Some j \<Rightarrow> plainJson j)"

lemma plain_obj:
  "list_all (\<lambda>(k, v). ascii k \<and> plainVal v) fs \<Longrightarrow> plainJson (obj fs)"
  by (induction fs) (auto simp: obj_def plainVal_def split: option.splits)

lemma plainVal_simps [simp]:
  "plainVal None" "plainVal (Some j) = plainJson j"
  "plainVal (omitStr s) = ascii s" "plainVal (omitBool b)" "plainVal (omitNat n)"
  "plainVal (omitList f xs) = list_all (\<lambda>x. plainJson (f x)) xs"
  by (simp_all add: plainVal_def omitStr_def omitBool_def omitNat_def omitList_def ascii_def list_all_iff)

lemma intLit_neg [simp]: "intLit (CHR ''-'' # Itoa n)"
  using Itoa_digitLit [of n] by (simp add: intLit_def)

lemma plainVal_int [simp]: "plainVal (omitInt n)"
  by (simp add: plainVal_def omitInt_def)

lemma plain_jsonMap [simp]:
  "list_all (\<lambda>(k, v). ascii k \<and> ascii v) m \<Longrightarrow> plainJson (jsonMap m)"
  by (auto simp: jsonMap_def sortedMap_def list_all_iff ascii_def split: option.split
      dest!: map_of_SomeD [OF sym])

end
