(* ===== verification/Wire.thy ===== *)
theory Wire
  imports Go_Json Config
begin

text \<open>
  The JSON forms of the program's data: \<open>define.Machine\<close> as the ignition server sends it to the
  guest (\<open>pkg/define/struct.go\<close>, with the tags of its fields) and the configuration file of
  \<open>pkg/librevm/config.go\<close> (\<open>WriteCfg\<close>, \<open>LoadFile\<close>). For each struct there is the list of its
  fields with the values written, the encoder and the decoder; the tags are pairwise different up
  to case, so that every field reads its own value.
\<close>

definition bindR :: "'a res \<Rightarrow> ('a \<Rightarrow> 'b res) \<Rightarrow> 'b res" where
  "bindR m f = (case m of Inl e \<Rightarrow> Inl e | Inr x \<Rightarrow> f x)"

lemma bindR_simps [simp]: "bindR (Inl e) f = Inl e" "bindR (Inr x) f = f x"
  by (simp_all add: bindR_def)

definition decU64 :: "json \<Rightarrow> u64 res" where
  "decU64 j = bindR (decUint 64 j) (\<lambda>n. Inr (of_nat n))"

definition decU8 :: "json \<Rightarrow> u8 res" where
  "decU8 j = bindR (decUint 8 j) (\<lambda>n. Inr (of_nat n))"

lemma readOf_bind:
  "readOf (\<lambda>j. bindR (dec j) (\<lambda>n. Inr (f n))) (f zero) v = bindR (readOf dec zero v) (\<lambda>n. Inr (f n))"
  by (auto simp: readOf_def split: option.split json.split)

lemma readOf_u64 [simp]: "readOf decU64 0 (omitNat (unat x)) = Inr x"
proof -
  have "unat x < 2 ^ 64" using unsigned_less [of x] by simp
  then show ?thesis
    using readOf_bind [of "decUint 64" "of_nat :: nat \<Rightarrow> u64" 0 "omitNat (unat x)"] by (simp add: decU64_def [abs_def])
qed

lemma readOf_u8 [simp]: "readOf decU8 0 (omitNat (unat x)) = Inr x"
proof -
  have "unat x < 2 ^ 8" using unsigned_less [of x] by simp
  then show ?thesis
    using readOf_bind [of "decUint 8" "of_nat :: nat \<Rightarrow> u8" 0 "omitNat (unat x)"] by (simp add: decU8_def [abs_def])
qed

subsection \<open>Parts of the machine description\<close>

definition mountFields :: "Mount \<Rightarrow> jfield list" where
  "mountFields m =
     [(''readOnly'', Some (JBool (mnt_ReadOnly m))),
      (''source'', Some (JStr (mnt_Source m))),
      (''tag'', Some (JStr (mnt_Tag m))),
      (''target'', Some (JStr (mnt_Target m))),
      (''type'', Some (JStr (mnt_Type m))),
      (''opts'', Some (JStr (mnt_Opts m))),
      (''uuid'', Some (JStr (mnt_UUID m)))]"

definition encMount :: "Mount \<Rightarrow> json" where
  "encMount m = obj (mountFields m)"

definition decMount :: "json \<Rightarrow> Mount res" where
  "decMount = decObj (\<lambda>kvs.
     bindR (fieldOf ''readOnly'' decBool False kvs) (\<lambda>x0.
     bindR (fieldOf ''source'' decStr [] kvs) (\<lambda>x1.
     bindR (fieldOf ''tag'' decStr [] kvs) (\<lambda>x2.
     bindR (fieldOf ''target'' decStr [] kvs) (\<lambda>x3.
     bindR (fieldOf ''type'' decStr [] kvs) (\<lambda>x4.
     bindR (fieldOf ''opts'' decStr [] kvs) (\<lambda>x5.
     bindR (fieldOf ''uuid'' decStr [] kvs) (\<lambda>x6.
     Inr \<lparr>mnt_ReadOnly = x0, mnt_Source = x1, mnt_Tag = x2, mnt_Target = x3, mnt_Type = x4,
       mnt_Opts = x5, mnt_UUID = x6\<rparr>))))))))"

lemma mountFields_apart: "keysApart (mountFields m)"
  by (simp add: mountFields_def keysApart_def ToLower_def lowerChar_def)

lemma mountFields_names [simp]:
  "fieldNames (mountFields m) =
    [''readOnly'', ''source'', ''tag'', ''target'', ''type'', ''opts'', ''uuid'']"
  by (simp add: mountFields_def fieldNames_def)

lemma mount_read [simp]: "decMount (encMount m) = Inr m"
  unfolding decMount_def encMount_def decObj_obj
  by (simp add: fieldOf_obj [OF mountFields_apart])
     (simp add: mountFields_def)

lemma mount_field [simp]: "readOf decMount zero (Some (encMount m)) = Inr m"
  using mount_read [of m] by (simp add: encMount_def)

definition blkDevFields :: "BlkDev \<Rightarrow> jfield list" where
  "blkDevFields m =
     [(''fsType'', omitStr (bd_FsType m)),
      (''UUID'', omitStr (bd_UUID m)),
      (''path'', omitStr (bd_Path m)),
      (''mountTo'', omitStr (bd_MountTo m))]"

definition encBlkDev :: "BlkDev \<Rightarrow> json" where
  "encBlkDev m = obj (blkDevFields m)"

definition decBlkDev :: "json \<Rightarrow> BlkDev res" where
  "decBlkDev = decObj (\<lambda>kvs.
     bindR (fieldOf ''fsType'' decStr [] kvs) (\<lambda>x0.
     bindR (fieldOf ''UUID'' decStr [] kvs) (\<lambda>x1.
     bindR (fieldOf ''path'' decStr [] kvs) (\<lambda>x2.
     bindR (fieldOf ''mountTo'' decStr [] kvs) (\<lambda>x3.
     Inr \<lparr>bd_FsType = x0, bd_UUID = x1, bd_Path = x2, bd_MountTo = x3\<rparr>)))))"

lemma blkDevFields_apart: "keysApart (blkDevFields m)"
  by (simp add: blkDevFields_def keysApart_def ToLower_def lowerChar_def)

lemma blkDevFields_names [simp]:
  "fieldNames (blkDevFields m) =
    [''fsType'', ''UUID'', ''path'', ''mountTo'']"
  by (simp add: blkDevFields_def fieldNames_def)

lemma blkDev_read [simp]: "decBlkDev (encBlkDev m) = Inr m"
  unfolding decBlkDev_def encBlkDev_def decObj_obj
  by (simp add: fieldOf_obj [OF blkDevFields_apart])
     (simp add: blkDevFields_def)

lemma blkDev_field [simp]: "readOf decBlkDev zero (Some (encBlkDev m)) = Inr m"
  using blkDev_read [of m] by (simp add: encBlkDev_def)

definition cmdlineFields :: "Cmdline \<Rightarrow> jfield list" where
  "cmdlineFields m =
     [(''envs'', omitList JStr (cl_Envs m)),
      (''bin'', omitStr (cl_Bin m)),
      (''args'', omitList JStr (cl_Args m)),
      (''workdir'', omitStr (cl_WorkDir m))]"

definition encCmdline :: "Cmdline \<Rightarrow> json" where
  "encCmdline m = obj (cmdlineFields m)"

definition decCmdline :: "json \<Rightarrow> Cmdline res" where
  "decCmdline = decObj (\<lambda>kvs.
     bindR (fieldOf ''envs'' (decList decStr) [] kvs) (\<lambda>x0.
     bindR (fieldOf ''bin'' decStr [] kvs) (\<lambda>x1.
     bindR (fieldOf ''args'' (decList decStr) [] kvs) (\<lambda>x2.
     bindR (fieldOf ''workdir'' decStr [] kvs) (\<lambda>x3.
     Inr \<lparr>cl_Envs = x0, cl_Bin = x1, cl_Args = x2, cl_WorkDir = x3\<rparr>)))))"

lemma cmdlineFields_apart: "keysApart (cmdlineFields m)"
  by (simp add: cmdlineFields_def keysApart_def ToLower_def lowerChar_def)

lemma cmdlineFields_names [simp]:
  "fieldNames (cmdlineFields m) =
    [''envs'', ''bin'', ''args'', ''workdir'']"
  by (simp add: cmdlineFields_def fieldNames_def)

lemma cmdline_read [simp]: "decCmdline (encCmdline m) = Inr m"
  unfolding decCmdline_def encCmdline_def decObj_obj
  by (simp add: fieldOf_obj [OF cmdlineFields_apart])
     (simp add: cmdlineFields_def)

lemma cmdline_field [simp]: "readOf decCmdline zero (Some (encCmdline m)) = Inr m"
  using cmdline_read [of m] by (simp add: encCmdline_def)

definition sSHInfoFields :: "SSHInfo \<Rightarrow> jfield list" where
  "sSHInfoFields m =
     [(''hostSSHKeyFile'', omitStr (HostSSHPrivateKeyFile m)),
      (''sshPublicKey'', omitStr (HostSSHPublicKey m)),
      (''sshPrivateKey'', omitStr (HostSSHPrivateKey m)),
      (''hostSSHProxyListenAddr'', omitStr (HostSSHProxyListenAddr m)),
      (''guestSSHServerListenAddr'', omitStr (GuestSSHServerListenAddr m)),
      (''guestSSHPrivateKeyFile'', omitStr (GuestSSHPrivateKeyFile m)),
      (''guestSSHAuthorizedKeys'', omitStr (GuestSSHAuthorizedKeys m)),
      (''guestSSHPidFile'', omitStr (GuestSSHPidFile m))]"

definition encSSHInfo :: "SSHInfo \<Rightarrow> json" where
  "encSSHInfo m = obj (sSHInfoFields m)"

definition decSSHInfo :: "json \<Rightarrow> SSHInfo res" where
  "decSSHInfo = decObj (\<lambda>kvs.
     bindR (fieldOf ''hostSSHKeyFile'' decStr [] kvs) (\<lambda>x0.
     bindR (fieldOf ''sshPublicKey'' decStr [] kvs) (\<lambda>x1.
     bindR (fieldOf ''sshPrivateKey'' decStr [] kvs) (\<lambda>x2.
     bindR (fieldOf ''hostSSHProxyListenAddr'' decStr [] kvs) (\<lambda>x3.
     bindR (fieldOf ''guestSSHServerListenAddr'' decStr [] kvs) (\<lambda>x4.
     bindR (fieldOf ''guestSSHPrivateKeyFile'' decStr [] kvs) (\<lambda>x5.
     bindR (fieldOf ''guestSSHAuthorizedKeys'' decStr [] kvs) (\<lambda>x6.
     bindR (fieldOf ''guestSSHPidFile'' decStr [] kvs) (\<lambda>x7.
     Inr \<lparr>HostSSHPrivateKeyFile = x0, HostSSHPublicKey = x1, HostSSHPrivateKey = x2,
       HostSSHProxyListenAddr = x3, GuestSSHServerListenAddr = x4,
       GuestSSHPrivateKeyFile = x5, GuestSSHAuthorizedKeys = x6, GuestSSHPidFile = x7\<rparr>)))))))))"

lemma sSHInfoFields_apart: "keysApart (sSHInfoFields m)"
  by (simp add: sSHInfoFields_def keysApart_def ToLower_def lowerChar_def)

lemma sSHInfoFields_names [simp]:
  "fieldNames (sSHInfoFields m) =
    [''hostSSHKeyFile'', ''sshPublicKey'', ''sshPrivateKey'', ''hostSSHProxyListenAddr'',
     ''guestSSHServerListenAddr'', ''guestSSHPrivateKeyFile'', ''guestSSHAuthorizedKeys'',
     ''guestSSHPidFile'']"
  by (simp add: sSHInfoFields_def fieldNames_def)

lemma sSHInfo_read [simp]: "decSSHInfo (encSSHInfo m) = Inr m"
  unfolding decSSHInfo_def encSSHInfo_def decObj_obj
  by (simp add: fieldOf_obj [OF sSHInfoFields_apart])
     (simp add: sSHInfoFields_def)

lemma sSHInfo_field [simp]: "readOf decSSHInfo zero (Some (encSSHInfo m)) = Inr m"
  using sSHInfo_read [of m] by (simp add: encSSHInfo_def)

definition proxySettingFields :: "ProxySetting \<Rightarrow> jfield list" where
  "proxySettingFields m =
     [(''httpProxy'', omitStr (ps_HTTPProxy m)),
      (''httpsProxy'', omitStr (ps_HTTPSProxy m)),
      (''use'', omitBool (ps_Use m))]"

definition encProxySetting :: "ProxySetting \<Rightarrow> json" where
  "encProxySetting m = obj (proxySettingFields m)"

definition decProxySetting :: "json \<Rightarrow> ProxySetting res" where
  "decProxySetting = decObj (\<lambda>kvs.
     bindR (fieldOf ''httpProxy'' decStr [] kvs) (\<lambda>x0.
     bindR (fieldOf ''httpsProxy'' decStr [] kvs) (\<lambda>x1.
     bindR (fieldOf ''use'' decBool False kvs) (\<lambda>x2.
     Inr \<lparr>ps_HTTPProxy = x0, ps_HTTPSProxy = x1, ps_Use = x2\<rparr>))))"

lemma proxySettingFields_apart: "keysApart (proxySettingFields m)"
  by (simp add: proxySettingFields_def keysApart_def ToLower_def lowerChar_def)

lemma proxySettingFields_names [simp]:
  "fieldNames (proxySettingFields m) =
    [''httpProxy'', ''httpsProxy'', ''use'']"
  by (simp add: proxySettingFields_def fieldNames_def)

lemma proxySetting_read [simp]: "decProxySetting (encProxySetting m) = Inr m"
  unfolding decProxySetting_def encProxySetting_def decObj_obj
  by (simp add: fieldOf_obj [OF proxySettingFields_apart])
     (simp add: proxySettingFields_def)

lemma proxySetting_field [simp]: "readOf decProxySetting zero (Some (encProxySetting m)) = Inr m"
  using proxySetting_read [of m] by (simp add: encProxySetting_def)

definition podmanInfoFields :: "PodmanInfo \<Rightarrow> jfield list" where
  "podmanInfoFields m =
     [(''hostPodmanProxyAddr'', omitStr (HostPodmanProxyAddr m)),
      (''guestPodmanAPIListenAddr'', omitStr (GuestPodmanAPIListenAddr m)),
      (''guestPodmanRunWithEnvs'', omitList JStr (GuestPodmanRunWithEnvs m))]"

definition encPodmanInfo :: "PodmanInfo \<Rightarrow> json" where
  "encPodmanInfo m = obj (podmanInfoFields m)"

definition decPodmanInfo :: "json \<Rightarrow> PodmanInfo res" where
  "decPodmanInfo = decObj (\<lambda>kvs.
     bindR (fieldOf ''hostPodmanProxyAddr'' decStr [] kvs) (\<lambda>x0.
     bindR (fieldOf ''guestPodmanAPIListenAddr'' decStr [] kvs) (\<lambda>x1.
     bindR (fieldOf ''guestPodmanRunWithEnvs'' (decList decStr) [] kvs) (\<lambda>x2.
     Inr \<lparr>HostPodmanProxyAddr = x0, GuestPodmanAPIListenAddr = x1, GuestPodmanRunWithEnvs = x2\<rparr>))))"

lemma podmanInfoFields_apart: "keysApart (podmanInfoFields m)"
  by (simp add: podmanInfoFields_def keysApart_def ToLower_def lowerChar_def)

lemma podmanInfoFields_names [simp]:
  "fieldNames (podmanInfoFields m) =
    [''hostPodmanProxyAddr'', ''guestPodmanAPIListenAddr'', ''guestPodmanRunWithEnvs'']"
  by (simp add: podmanInfoFields_def fieldNames_def)

lemma podmanInfo_read [simp]: "decPodmanInfo (encPodmanInfo m) = Inr m"
  unfolding decPodmanInfo_def encPodmanInfo_def decObj_obj
  by (simp add: fieldOf_obj [OF podmanInfoFields_apart])
     (simp add: podmanInfoFields_def)

lemma podmanInfo_field [simp]: "readOf decPodmanInfo zero (Some (encPodmanInfo m)) = Inr m"
  using podmanInfo_read [of m] by (simp add: encPodmanInfo_def)

definition guestAgentCfgFields :: "GuestAgentCfg \<Rightarrow> jfield list" where
  "guestAgentCfgFields m =
     [(''workdir'', omitStr (ga_Workdir m)),
      (''args'', omitList JStr (ga_Args m)),
      (''env'', omitList JStr (ga_Env m))]"

definition encGuestAgentCfg :: "GuestAgentCfg \<Rightarrow> json" where
  "encGuestAgentCfg m = obj (guestAgentCfgFields m)"

definition decGuestAgentCfg :: "json \<Rightarrow> GuestAgentCfg res" where
  "decGuestAgentCfg = decObj (\<lambda>kvs.
     bindR (fieldOf ''workdir'' decStr [] kvs) (\<lambda>x0.
     bindR (fieldOf ''args'' (decList decStr) [] kvs) (\<lambda>x1.
     bindR (fieldOf ''env'' (decList decStr) [] kvs) (\<lambda>x2.
     Inr \<lparr>ga_Workdir = x0, ga_Args = x1, ga_Env = x2\<rparr>))))"

lemma guestAgentCfgFields_apart: "keysApart (guestAgentCfgFields m)"
  by (simp add: guestAgentCfgFields_def keysApart_def ToLower_def lowerChar_def)

lemma guestAgentCfgFields_names [simp]:
  "fieldNames (guestAgentCfgFields m) =
    [''workdir'', ''args'', ''env'']"
  by (simp add: guestAgentCfgFields_def fieldNames_def)

lemma guestAgentCfg_read [simp]: "decGuestAgentCfg (encGuestAgentCfg m) = Inr m"
  unfolding decGuestAgentCfg_def encGuestAgentCfg_def decObj_obj
  by (simp add: fieldOf_obj [OF guestAgentCfgFields_apart])
     (simp add: guestAgentCfgFields_def)

lemma guestAgentCfg_field [simp]: "readOf decGuestAgentCfg zero (Some (encGuestAgentCfg m)) = Inr m"
  using guestAgentCfg_read [of m] by (simp add: encGuestAgentCfg_def)

subsection \<open>The machine description\<close>

text \<open>\<open>IgnitionServerCfg\<close> is a struct of one field.\<close>

definition decIgnition :: "json \<Rightarrow> string res" where
  "decIgnition = decObj (fieldOf ''ListenSockAddr'' decStr [])"

lemma ignition_read [simp]: "decIgnition (obj [(''ListenSockAddr'', omitStr a)]) = Inr a"
  unfolding decIgnition_def decObj_obj
  using fieldOf_obj [of "[(''ListenSockAddr'', omitStr a)]" "''ListenSockAddr''" decStr "[]"]
  by (simp add: keysApart_def fieldNames_def)

definition machineFields :: "MachineSpec \<Rightarrow> jfield list" where
  "machineFields m =
     [(''workspaceDir'', omitStr (WorkspaceDir m)),
      (''memoryInMB'', omitNat (unat (MemoryInMB m))),
      (''cpus'', omitNat (unat (Cpus m))),
      (''rootFS'', omitStr (RootFS m)),
      (''blkDevs'', omitList encBlkDev (BlkDevs m)),
      (''GVPCtlAddr'', omitStr (GVPCtlAddr m)),
      (''GVPVNetAddr'', omitStr (GVPVNetAddr m)),
      (''virtualNetworkMode'', omitStr (VirtualNetworkMode m)),
      (''logFile'', omitStr (LogFile m)),
      (''mounts'', omitList encMount (Mounts m)),
      (''sshInfo'', Some (encSSHInfo (SSHInfo m))),
      (''podmanInfo'', Some (encPodmanInfo (PodmanInfo m))),
      (''vmCtlAddr'', omitStr (VMCtlAddr m)),
      (''runMode'', omitStr (spec_RunMode m)),
      (''ignitionServerCfg'', Some (obj [(''ListenSockAddr'', omitStr (IgnitionListenSockAddr m))])),
      (''guestAgentCfg'', Some (encGuestAgentCfg (GuestAgentCfg m))),
      (''cmdline'', Some (encCmdline (spec_Cmdline m))),
      (''systemProxy'', Some (encProxySetting (ProxySetting m))),
      (''UnixSocketForwards'', Some (jsonMap (UnixSocketForwards m))),
      (''TTY'', Some (JBool (TTY m)))]"

definition encMachine :: "MachineSpec \<Rightarrow> json" where
  "encMachine m = obj (machineFields m)"

definition decMachine :: "json \<Rightarrow> MachineSpec res" where
  "decMachine = decObj (\<lambda>kvs.
     bindR (fieldOf ''workspaceDir'' decStr [] kvs) (\<lambda>x0.
     bindR (fieldOf ''memoryInMB'' decU64 0 kvs) (\<lambda>x1.
     bindR (fieldOf ''cpus'' decU8 0 kvs) (\<lambda>x2.
     bindR (fieldOf ''rootFS'' decStr [] kvs) (\<lambda>x3.
     bindR (fieldOf ''blkDevs'' (decList decBlkDev) [] kvs) (\<lambda>x4.
     bindR (fieldOf ''GVPCtlAddr'' decStr [] kvs) (\<lambda>x5.
     bindR (fieldOf ''GVPVNetAddr'' decStr [] kvs) (\<lambda>x6.
     bindR (fieldOf ''virtualNetworkMode'' decStr [] kvs) (\<lambda>x7.
     bindR (fieldOf ''logFile'' decStr [] kvs) (\<lambda>x8.
     bindR (fieldOf ''mounts'' (decList decMount) [] kvs) (\<lambda>x9.
     bindR (fieldOf ''sshInfo'' decSSHInfo emptySSHInfo kvs) (\<lambda>x10.
     bindR (fieldOf ''podmanInfo'' decPodmanInfo (PodmanInfo emptyMachine) kvs) (\<lambda>x11.
     bindR (fieldOf ''vmCtlAddr'' decStr [] kvs) (\<lambda>x12.
     bindR (fieldOf ''runMode'' decStr [] kvs) (\<lambda>x13.
     bindR (fieldOf ''ignitionServerCfg'' decIgnition [] kvs) (\<lambda>x14.
     bindR (fieldOf ''guestAgentCfg'' decGuestAgentCfg (GuestAgentCfg emptyMachine) kvs) (\<lambda>x15.
     bindR (fieldOf ''cmdline'' decCmdline (spec_Cmdline emptyMachine) kvs) (\<lambda>x16.
     bindR (fieldOf ''systemProxy'' decProxySetting (ProxySetting emptyMachine) kvs) (\<lambda>x17.
     bindR (fieldOf ''UnixSocketForwards'' decMap [] kvs) (\<lambda>x18.
     bindR (fieldOf ''TTY'' decBool False kvs) (\<lambda>x19.
     Inr \<lparr>WorkspaceDir = x0, MemoryInMB = x1, Cpus = x2, RootFS = x3, BlkDevs = x4,
       GVPCtlAddr = x5, GVPVNetAddr = x6, VirtualNetworkMode = x7, LogFile = x8,
       Mounts = x9, SSHInfo = x10, PodmanInfo = x11, VMCtlAddr = x12, spec_RunMode = x13,
       IgnitionListenSockAddr = x14, GuestAgentCfg = x15, spec_Cmdline = x16,
       ProxySetting = x17, UnixSocketForwards = x18, TTY = x19\<rparr>)))))))))))))))))))))"

lemma machineFields_apart: "keysApart (machineFields m)"
  by (simp add: machineFields_def keysApart_def ToLower_def lowerChar_def)

lemma machineFields_names [simp]:
  "fieldNames (machineFields m) =
    [''workspaceDir'', ''memoryInMB'', ''cpus'', ''rootFS'', ''blkDevs'', ''GVPCtlAddr'',
     ''GVPVNetAddr'', ''virtualNetworkMode'', ''logFile'', ''mounts'', ''sshInfo'',
     ''podmanInfo'', ''vmCtlAddr'', ''runMode'', ''ignitionServerCfg'', ''guestAgentCfg'',
     ''cmdline'', ''systemProxy'', ''UnixSocketForwards'', ''TTY'']"
  by (simp add: machineFields_def fieldNames_def)

lemma machine_read:
  assumes "distinct (map fst (UnixSocketForwards m))"
  shows "decMachine (encMachine m) =
    Inr (m\<lparr>UnixSocketForwards := sortedMap (UnixSocketForwards m)\<rparr>)"
  unfolding decMachine_def encMachine_def decObj_obj
  by (simp add: fieldOf_obj [OF machineFields_apart])
     (simp add: machineFields_def assms)

subsection \<open>The configuration file\<close>

definition rawDiskFields :: "RawDisk \<Rightarrow> jfield list" where
  "rawDiskFields m =
     [(''rawDiskPath'', omitStr (RawDiskPath m)),
      (''uuid'', omitStr (rd_UUID m)),
      (''mnt'', omitStr (rd_Mnt m)),
      (''version'', omitStr (rd_Version m))]"

definition encRawDisk :: "RawDisk \<Rightarrow> json" where
  "encRawDisk m = obj (rawDiskFields m)"

definition decRawDisk :: "json \<Rightarrow> RawDisk res" where
  "decRawDisk = decObj (\<lambda>kvs.
     bindR (fieldOf ''rawDiskPath'' decStr [] kvs) (\<lambda>x0.
     bindR (fieldOf ''uuid'' decStr [] kvs) (\<lambda>x1.
     bindR (fieldOf ''mnt'' decStr [] kvs) (\<lambda>x2.
     bindR (fieldOf ''version'' decStr [] kvs) (\<lambda>x3.
     Inr \<lparr>RawDiskPath = x0, rd_UUID = x1, rd_Mnt = x2, rd_Version = x3\<rparr>)))))"

lemma rawDiskFields_apart: "keysApart (rawDiskFields m)"
  by (simp add: rawDiskFields_def keysApart_def ToLower_def lowerChar_def)

lemma rawDiskFields_names [simp]:
  "fieldNames (rawDiskFields m) =
    [''rawDiskPath'', ''uuid'', ''mnt'', ''version'']"
  by (simp add: rawDiskFields_def fieldNames_def)

lemma rawDisk_read [simp]: "decRawDisk (encRawDisk m) = Inr m"
  unfolding decRawDisk_def encRawDisk_def decObj_obj
  by (simp add: fieldOf_obj [OF rawDiskFields_apart])
     (simp add: rawDiskFields_def)

lemma rawDisk_field [simp]: "readOf decRawDisk zero (Some (encRawDisk m)) = Inr m"
  using rawDisk_read [of m] by (simp add: encRawDisk_def)

definition configFields :: "Config \<Rightarrow> jfield list" where
  "configFields m =
     [(''runMode'', omitStr (cfg_RunMode m)),
      (''sessionID'', omitStr (SessionID m)),
      (''cpus'', omitInt (CPUs m)),
      (''memoryMB'', omitNat (unat (MemoryMB m))),
      (''workdir'', omitStr (WorkDir m)),
      (''env'', omitList JStr (Env m)),
      (''varDisk'', Some (encRawDisk (VarDisk m))),
      (''externalDisks'', omitList encRawDisk (ExternalDisks m)),
      (''network'', omitStr (Network m)),
      (''mounts'', omitList JStr (cfg_Mounts m)),
      (''forwardUnix'', omitList JStr (ForwardUnix m)),
      (''podmanProxyAPIFile'', omitStr (PodmanProxyAPIFile m)),
      (''manageAPIFile'', omitStr (ManageAPIFile m)),
      (''SSHKeyPrivateFileSymbolLinks'', omitStr (SSHKeyPrivateFileSymbolLinks m)),
      (''SSHKeyPublicFileSymbolLinks'', omitStr (SSHKeyPublicFileSymbolLinks m)),
      (''proxy'', omitBool (Proxy m)),
      (''logLevel'', omitStr (LogLevel m)),
      (''logTo'', omitStr (LogTo m)),
      (''reportURL'', omitStr (ReportURL m))]"

definition encConfig :: "Config \<Rightarrow> json" where
  "encConfig m = obj (configFields m)"

definition decConfig :: "json \<Rightarrow> Config res" where
  "decConfig = decObj (\<lambda>kvs.
     bindR (fieldOf ''runMode'' decStr [] kvs) (\<lambda>x0.
     bindR (fieldOf ''sessionID'' decStr [] kvs) (\<lambda>x1.
     bindR (fieldOf ''cpus'' decInt 0 kvs) (\<lambda>x2.
     bindR (fieldOf ''memoryMB'' decU64 0 kvs) (\<lambda>x3.
     bindR (fieldOf ''workdir'' decStr [] kvs) (\<lambda>x4.
     bindR (fieldOf ''env'' (decList decStr) [] kvs) (\<lambda>x5.
     bindR (fieldOf ''varDisk'' decRawDisk emptyRawDisk kvs) (\<lambda>x6.
     bindR (fieldOf ''externalDisks'' (decList decRawDisk) [] kvs) (\<lambda>x7.
     bindR (fieldOf ''network'' decStr [] kvs) (\<lambda>x8.
     bindR (fieldOf ''mounts'' (decList decStr) [] kvs) (\<lambda>x9.
     bindR (fieldOf ''forwardUnix'' (decList decStr) [] kvs) (\<lambda>x10.
     bindR (fieldOf ''podmanProxyAPIFile'' decStr [] kvs) (\<lambda>x11.
     bindR (fieldOf ''manageAPIFile'' decStr [] kvs) (\<lambda>x12.
     bindR (fieldOf ''SSHKeyPrivateFileSymbolLinks'' decStr [] kvs) (\<lambda>x13.
     bindR (fieldOf ''SSHKeyPublicFileSymbolLinks'' decStr [] kvs) (\<lambda>x14.
     bindR (fieldOf ''proxy'' decBool False kvs) (\<lambda>x15.
     bindR (fieldOf ''logLevel'' decStr [] kvs) (\<lambda>x16.
     bindR (fieldOf ''logTo'' decStr [] kvs) (\<lambda>x17.
     bindR (fieldOf ''reportURL'' decStr [] kvs) (\<lambda>x18.
     Inr \<lparr>cfg_RunMode = x0, SessionID = x1, CPUs = x2, MemoryMB = x3, WorkDir = x4, Env = x5,
       VarDisk = x6, ExternalDisks = x7, Network = x8, cfg_Mounts = x9, ForwardUnix = x10,
       PodmanProxyAPIFile = x11, ManageAPIFile = x12, SSHKeyPrivateFileSymbolLinks = x13,
       SSHKeyPublicFileSymbolLinks = x14, Proxy = x15, LogLevel = x16, LogTo = x17,
       ReportURL = x18\<rparr>))))))))))))))))))))"

lemma configFields_apart: "keysApart (configFields m)"
  by (simp add: configFields_def keysApart_def ToLower_def lowerChar_def)

lemma configFields_names [simp]:
  "fieldNames (configFields m) =
    [''runMode'', ''sessionID'', ''cpus'', ''memoryMB'', ''workdir'', ''env'', ''varDisk'',
     ''externalDisks'', ''network'', ''mounts'', ''forwardUnix'', ''podmanProxyAPIFile'',
     ''manageAPIFile'', ''SSHKeyPrivateFileSymbolLinks'', ''SSHKeyPublicFileSymbolLinks'',
     ''proxy'', ''logLevel'', ''logTo'', ''reportURL'']"
  by (simp add: configFields_def fieldNames_def)

lemma config_read:
  assumes "- (2 ^ 63) \<le> CPUs m" and "CPUs m < 2 ^ 63"
  shows "decConfig (encConfig m) = Inr m"
  unfolding decConfig_def encConfig_def decObj_obj
  by (simp add: fieldOf_obj [OF configFields_apart])
     (simp add: configFields_def readOf_int [OF assms])

end
