(* ===== verification/Config_File.thy ===== *)
theory Config_File
  imports Wire
begin

text \<open>
  Files and messages in JSON: \<open>WriteCfg\<close>, \<open>LoadFile\<close>, \<open>Load\<close> and \<open>loadJSON\<close> of
  \<open>pkg/librevm/config.go\<close>, and the custom \<open>MarshalJSON\<close>/\<open>UnmarshalJSON\<close> of
  \<open>define.Machine\<close>. The TOML decoder is a library outside the repository and a parameter.
\<close>

subsection \<open>The machine description as text\<close>

definition machine_Marshal :: "MachineSpec \<Rightarrow> string" where
  "machine_Marshal m = jsonText (encMachine m)"

definition machine_Unmarshal :: "string \<Rightarrow> MachineSpec res" where
  "machine_Unmarshal s = bindR (json_Unmarshal s) decMachine"

text \<open>Every string of the description is ASCII text.\<close>

definition asciiMachine :: "MachineSpec \<Rightarrow> bool" where
  "asciiMachine m = plainJson (encMachine m)"

subsection \<open>The configuration file\<close>

definition WriteCfg :: "Config \<Rightarrow> string \<Rightarrow> (OS, unit) proc" where
  "WriteCfg c path =
     andThen (wrapping ''create config directory'' (os_MkdirAll (Dir path))) (\<lambda>_.
       wrapping ''write config file'' (os_WriteFile path (jsonText (encConfig c))))"

definition loadJSON :: "string \<Rightarrow> Config res" where
  "loadJSON text = wrapErr ''decode json config'' (bindR (json_Decode text) decConfig)"

definition Load :: "(string \<Rightarrow> Config res) \<Rightarrow> string \<Rightarrow> Config res" where
  "Load toml text = wrapErr ''decode toml config'' (toml text)"

definition LoadFile :: "(string \<Rightarrow> Config res) \<Rightarrow> string \<Rightarrow> (OS, Config) proc" where
  "LoadFile toml path s =
     (case os_ReadFile path s of
        (Inl e, _) \<Rightarrow> (Inl e, s)
      | (Inr text, _) \<Rightarrow>
          let ext = ToLower (Ext path)
          in (if ext = ''.toml'' then Load toml text
              else if ext = ''.json'' then loadJSON text
              else Inl (Errorf ''unsupported config format''), s))"

definition asciiConfig :: "Config \<Rightarrow> bool" where
  "asciiConfig c = plainJson (encConfig c)"

subsection \<open>Properties\<close>

lemma machine_text_round_trip:
  assumes "distinct (map fst (UnixSocketForwards m))" and "asciiMachine m"
  shows "machine_Unmarshal (machine_Marshal m) =
    Inr (m\<lparr>UnixSocketForwards := sortedMap (UnixSocketForwards m)\<rparr>)"
  using machine_read [OF assms(1)] unmarshal_text [of "encMachine m"] assms(2)
  by (simp add: machine_Unmarshal_def machine_Marshal_def asciiMachine_def)

text \<open>C24. The machine description survives the wire: what the guest decodes from the JSON text of
  a description is that description, with the forwarding map in key order, whatever its fields
  hold (numbers at their full width, empty and non-empty lists, quotes, backslashes, control
  characters and HTML characters in strings).\<close>

theorem machine_json_round_trip:
  assumes "distinct (map fst (UnixSocketForwards m))" and "asciiMachine m"
  shows "\<exists>m'. machine_Unmarshal (machine_Marshal m) = Inr m' \<and>
    m'\<lparr>UnixSocketForwards := []\<rparr> = m\<lparr>UnixSocketForwards := []\<rparr> \<and>
    map_of (UnixSocketForwards m') = map_of (UnixSocketForwards m)"
  by (simp add: machine_text_round_trip [OF assms] sortedMap_map_of)

definition sampleWireMachine :: MachineSpec where
  "sampleWireMachine = emptyMachine\<lparr>MemoryInMB := 4096, Cpus := 2, RootFS := ''/a<b>'',
     Mounts := [\<lparr>mnt_ReadOnly = True, mnt_Source = ''/h'', mnt_Tag = ''t'', mnt_Target = ''/g'',
       mnt_Type = ''virtiofs'', mnt_Opts = [], mnt_UUID = []\<rparr>],
     UnixSocketForwards := [(''/b'', ''/y''), (''/a'', ''/x'')], TTY := True\<rparr>"

theorem machine_json_round_trip_witness:
  "\<exists>m'. machine_Unmarshal (machine_Marshal sampleWireMachine) = Inr m' \<and>
     MemoryInMB m' = 4096 \<and> map_of (UnixSocketForwards m') ''/a'' = Some ''/x''"
proof -
  have "distinct (map fst (UnixSocketForwards sampleWireMachine))"
    by (simp add: sampleWireMachine_def)
  moreover have "asciiMachine sampleWireMachine"
    by (simp add: asciiMachine_def sampleWireMachine_def emptyMachine_def encMachine_def
        machineFields_def encMount_def mountFields_def encSSHInfo_def sSHInfoFields_def
        emptySSHInfo_def encPodmanInfo_def podmanInfoFields_def encGuestAgentCfg_def
        guestAgentCfgFields_def encCmdline_def cmdlineFields_def encProxySetting_def
        proxySettingFields_def ascii_def plain_obj)
  ultimately obtain m' where m: "machine_Unmarshal (machine_Marshal sampleWireMachine) = Inr m'"
    "m'\<lparr>UnixSocketForwards := []\<rparr> = sampleWireMachine\<lparr>UnixSocketForwards := []\<rparr>"
    "map_of (UnixSocketForwards m') = map_of (UnixSocketForwards sampleWireMachine)"
    using machine_json_round_trip by blast
  have "MemoryInMB m' = MemoryInMB sampleWireMachine"
    using arg_cong [OF m(2), of MemoryInMB] by simp
  with m(1,3) show ?thesis by (simp add: sampleWireMachine_def)
qed

lemma written_config_loads:
  assumes "WriteCfg c path s = (Inr (), t)" and "ToLower (Ext path) = ''.json''"
    and "asciiConfig c" and "- (2 ^ 63) \<le> CPUs c" and "CPUs c < 2 ^ 63"
  shows "LoadFile toml path t = (Inr c, t)"
proof -
  obtain u where "os_WriteFile path (jsonText (encConfig c)) u = (Inr (), t)"
    using assms(1) by (auto simp: WriteCfg_def andThen_Inr_iff)
  from write_then_read [OF this] show ?thesis
    using unmarshal_text [of "encConfig c"] assms(2,3) config_read [OF assms(4,5)]
    by (simp add: LoadFile_def Let_def loadJSON_def asciiConfig_def)
qed

text \<open>C30. A configuration file that was written is loaded back: after a successful \<open>WriteCfg\<close> to a
  path ending in \<open>.json\<close> (in any case), \<open>LoadFile\<close> returns the same configuration, through
  symbolic links too.\<close>

theorem config_file_round_trip:
  assumes "WriteCfg c path s = (Inr (), t)" and "ToLower (Ext path) = ''.json''"
    and "asciiConfig c" and "- (2 ^ 63) \<le> CPUs c" and "CPUs c < 2 ^ 63"
  shows "LoadFile toml path t = (Inr c, t)"
  using assms by (rule written_config_loads)

theorem config_file_round_trip_witness:
  "\<exists>t. WriteCfg (emptyConfig\<lparr>CPUs := 4, Env := [''A=1'']\<rparr>) ''/vm.json'' sampleOS = (Inr (), t) \<and>
     LoadFile (\<lambda>_. Inl typeError) ''/vm.json'' t = (Inr (emptyConfig\<lparr>CPUs := 4, Env := [''A=1'']\<rparr>), t)"
proof -
  let ?c = "emptyConfig\<lparr>CPUs := 4, Env := [''A=1'']\<rparr>"
  have "osKey sampleOS ''/vm.json'' = ''/vm.json''"
    and "follow maxLinks sampleOS ''/vm.json'' = Some ''/vm.json''"
    and "nodeAt sampleOS ''/vm.json'' = None" and "isDirAt sampleOS (Dir ''/vm.json'')"
    and "\<not> os_fault sampleOS ''open'' ''/vm.json''"
    and "Dir ''/vm.json'' = ''/''" and "dirChain (osKey sampleOS ''/'') = []"
    by code_simp+
  then have "ok (fst (WriteCfg ?c ''/vm.json'' sampleOS))"
    by (simp add: WriteCfg_def proc_defs os_WriteFile_def openWrite_def os_MkdirAll_def)
  then obtain t where "WriteCfg ?c ''/vm.json'' sampleOS = (Inr (), t)"
    by (auto simp: ok_iff) (metis prod.collapse)
  moreover have "ToLower (Ext ''/vm.json'') = ''.json''" by code_simp
  moreover have "asciiConfig ?c"
    by (simp add: asciiConfig_def encConfig_def configFields_def encRawDisk_def rawDiskFields_def
        emptyConfig_def emptyRawDisk_def ascii_def plain_obj)
  ultimately show ?thesis
    using config_file_round_trip [of ?c "''/vm.json''" sampleOS t "\<lambda>_. Inl typeError"] by simp
qed

end
