(* ===== verification/Poll.thy ===== *)
theory Poll
  imports Prelude
begin

text \<open>
  Loops that wait. The program polls in two shapes, both with a \<open>time.Ticker\<close> and a context:

  \<^item> \<open>for { select { case <-ctx.Done(): return ...; case <-ticker.C: probe; if ok { return } } }\<close>
    (\<open>tickLoop\<close>), and
  \<^item> \<open>for { probe; if ok { return }; select { case <-ctx.Done(): return ...; case <-ticker.C: } }\<close>
    (\<open>retryLoop\<close>).

  Time is the number of \<open>select\<close>s passed: \<open>wake i\<close> is what the \<open>i\<close>-th one chooses, and a
  probe is a step on the world that knows when it runs. A loop that is never cancelled and never
  succeeds does not return, which is the value \<open>None\<close>; that a loop returns is proved from the
  context being cancelled at some time or a probe succeeding.

  The interface \<open>waiting\<close> says what a loop made of turns promises; both shapes, and the loops
  of the program built from them, are interpretations.
\<close>

datatype wake = Ticked | DoneCtx

type_synonym schedule = "nat \<Rightarrow> wake"
type_synonym ('w, 'r) probe = "nat \<Rightarrow> 'w \<Rightarrow> 'r option \<times> 'w"

text \<open>The result: what the probe found (\<open>None\<close> when cancelled), the time, the world.\<close>

type_synonym ('w, 'r) waited = "('r option \<times> nat \<times> 'w) option"

partial_function (option) tickLoop ::
    "schedule \<Rightarrow> ('w, 'r) probe \<Rightarrow> nat \<Rightarrow> 'w \<Rightarrow> ('w, 'r) waited" where
  "tickLoop wake probe i w =
     (case wake i of
        DoneCtx \<Rightarrow> Some (None, Suc i, w)
      | Ticked \<Rightarrow>
          (case probe i w of
             (Some r, w') \<Rightarrow> Some (Some r, Suc i, w')
           | (None, w') \<Rightarrow> tickLoop wake probe (Suc i) w'))"

partial_function (option) retryLoop ::
    "schedule \<Rightarrow> ('w, 'r) probe \<Rightarrow> nat \<Rightarrow> 'w \<Rightarrow> ('w, 'r) waited" where
  "retryLoop wake probe i w =
     (case probe i w of
        (Some r, w') \<Rightarrow> Some (Some r, i, w')
      | (None, w') \<Rightarrow>
          (case wake i of
             DoneCtx \<Rightarrow> Some (None, Suc i, w')
           | Ticked \<Rightarrow> retryLoop wake probe (Suc i) w'))"

text \<open>The first shape with a probe that does not watch the context and may block for good: at a tick
  where \<open>hangs\<close> holds, the loop never returns, cancelled or not.\<close>

partial_function (option) hangingLoop ::
    "schedule \<Rightarrow> (nat \<Rightarrow> bool) \<Rightarrow> ('w, 'r) probe \<Rightarrow> nat \<Rightarrow> 'w \<Rightarrow> ('w, 'r) waited" where
  "hangingLoop wake hangs probe i w =
     (case wake i of
        DoneCtx \<Rightarrow> Some (None, Suc i, w)
      | Ticked \<Rightarrow>
          if hangs i then None
          else (case probe i w of
                  (Some r, w') \<Rightarrow> Some (Some r, Suc i, w')
                | (None, w') \<Rightarrow> hangingLoop wake hangs probe (Suc i) w'))"

declare tickLoop.simps [code]
declare retryLoop.simps [code]
declare hangingLoop.simps [code]

text \<open>One turn of each shape: \<open>Some\<close> result when the loop ends in it.\<close>

definition tickTurn :: "schedule \<Rightarrow> ('w, 'r) probe \<Rightarrow> nat \<Rightarrow> 'w \<Rightarrow> ('r option \<times> nat) option \<times> 'w" where
  "tickTurn wake probe i w =
     (case wake i of
        DoneCtx \<Rightarrow> (Some (None, Suc i), w)
      | Ticked \<Rightarrow>
          (case probe i w of
             (Some r, w') \<Rightarrow> (Some (Some r, Suc i), w')
           | (None, w') \<Rightarrow> (None, w')))"

definition retryTurn :: "schedule \<Rightarrow> ('w, 'r) probe \<Rightarrow> nat \<Rightarrow> 'w \<Rightarrow> ('r option \<times> nat) option \<times> 'w" where
  "retryTurn wake probe i w =
     (case probe i w of
        (Some r, w') \<Rightarrow> (Some (Some r, i), w')
      | (None, w') \<Rightarrow>
          (case wake i of
             DoneCtx \<Rightarrow> (Some (None, Suc i), w')
           | Ticked \<Rightarrow> (None, w')))"

subsection \<open>The contract of a waiting loop\<close>

locale waiting =
  fixes loop :: "nat \<Rightarrow> 'w \<Rightarrow> ('w, 'r) waited"
    and turn :: "nat \<Rightarrow> 'w \<Rightarrow> ('r option \<times> nat) option \<times> 'w"
    and wake :: schedule
  assumes loop_stop: "turn i w = (Some (x, j), w') \<Longrightarrow> loop i w = Some (x, j, w')"
    and loop_next: "turn i w = (None, w') \<Longrightarrow> loop i w = loop (Suc i) w'"
    and turn_done: "wake i = DoneCtx \<Longrightarrow> fst (turn i w) \<noteq> None"
    and turn_time: "turn i w = (Some (x, j), w') \<Longrightarrow> i \<le> j \<and> j \<le> Suc i"
    and turn_fail: "turn i w = (Some (None, j), w') \<Longrightarrow> wake i = DoneCtx"
begin

text \<open>The world after \<open>n\<close> turns that did not end the loop.\<close>

primrec after :: "nat \<Rightarrow> nat \<Rightarrow> 'w \<Rightarrow> 'w option" where
  "after 0 i w = Some w"
| "after (Suc n) i w =
     (case turn i w of (None, w') \<Rightarrow> after n (Suc i) w' | (Some _, _) \<Rightarrow> None)"

lemma loop_after: "after n i w = Some w' \<Longrightarrow> loop i w = loop (i + n) w'"
proof (induction n arbitrary: i w)
  case (Suc n)
  then obtain u where "turn i w = (None, u)" and "after n (Suc i) u = Some w'"
    by (auto split: prod.splits option.splits)
  with Suc.IH [of "Suc i" u] show ?case by (simp add: loop_next)
qed simp

text \<open>The loop returns as soon as some turn ends it.\<close>

lemma returns_at:
  assumes "after n i w = Some w'" and "turn (i + n) w' = (Some (x, j), w'')"
  shows "loop i w = Some (x, j, w'')"
  using loop_after [OF assms(1)] loop_stop [OF assms(2)] by simp

text \<open>A context that is cancelled at some time makes the loop end by then, in the first turn
  that ends.\<close>

lemma ends_when_done:
  "wake (i + n) = DoneCtx \<Longrightarrow> \<exists>m u x j w'. m \<le> n \<and> after m i w = Some u \<and>
     turn (i + m) u = (Some (x, j), w') \<and> loop i w = Some (x, j, w')"
proof (induction n arbitrary: i w)
  case 0
  then obtain x j w' where "turn i w = (Some (x, j), w')"
    using turn_done [of i w] by (cases "turn i w") auto
  with loop_stop show ?case by (intro exI [of _ 0]) auto
next
  case (Suc n)
  show ?case
  proof (cases "fst (turn i w)")
    case None
    then obtain u where t: "turn i w = (None, u)" by (cases "turn i w") auto
    from Suc.prems have "wake (Suc i + n) = DoneCtx" by simp
    then obtain m u' x j w' where "m \<le> n" "after m (Suc i) u = Some u'"
      "turn (Suc i + m) u' = (Some (x, j), w')" "loop (Suc i) u = Some (x, j, w')"
      using Suc.IH [of "Suc i" u] by blast
    with t loop_next [OF t] show ?thesis by (intro exI [of _ "Suc m"]) auto
  next
    case (Some p)
    then obtain x j w' where "turn i w = (Some (x, j), w')" by (cases "turn i w", cases p) auto
    with loop_stop show ?thesis by (intro exI [of _ 0]) auto
  qed
qed

corollary returns_when_done:
  assumes "wake (i + n) = DoneCtx"
  shows "\<exists>x j w'. loop i w = Some (x, j, w') \<and> i \<le> j \<and> j \<le> Suc (i + n)"
proof -
  obtain m u x j w' where "m \<le> n" "turn (i + m) u = (Some (x, j), w')" "loop i w = Some (x, j, w')"
    using ends_when_done [OF assms, of w] by blast
  with turn_time [of "i + m" u x j w'] show ?thesis by fastforce
qed

text \<open>Returning without success means that the context was cancelled.\<close>

corollary failure_is_cancellation:
  assumes "wake (i + n) = DoneCtx" and "loop i w = Some (None, j, w')"
  shows "\<exists>m \<le> n. wake (i + m) = DoneCtx \<and> j \<le> Suc (i + m)"
proof -
  obtain m u where "m \<le> n" "turn (i + m) u = (Some (None, j), w')"
    using ends_when_done [OF assms(1), of w] assms(2) by auto
  with turn_fail turn_time show ?thesis by blast
qed

end

lemma waiting_tick: "waiting (tickLoop wake probe) (tickTurn wake probe) wake"
proof (unfold_locales, goal_cases)
  case (1 i w x j w')
  then show ?case
    by (subst tickLoop.simps) (auto simp: tickTurn_def split: wake.splits prod.splits option.splits)
next
  case (2 i w w')
  then show ?case
    by (subst tickLoop.simps) (auto simp: tickTurn_def split: wake.splits prod.splits option.splits)
qed (auto simp: tickTurn_def split: wake.splits prod.splits option.splits)

lemma waiting_retry: "waiting (retryLoop wake probe) (retryTurn wake probe) wake"
proof (unfold_locales, goal_cases)
  case (1 i w x j w')
  then show ?case
    by (subst retryLoop.simps) (auto simp: retryTurn_def split: wake.splits prod.splits option.splits)
next
  case (2 i w w')
  then show ?case
    by (subst retryLoop.simps) (auto simp: retryTurn_def split: wake.splits prod.splits option.splits)
qed (auto simp: retryTurn_def split: wake.splits prod.splits option.splits)

interpretation tick: waiting "tickLoop wake probe" "tickTurn wake probe" wake
  for wake and probe :: "('w, 'r) probe"
  by (rule waiting_tick)

interpretation retry: waiting "retryLoop wake probe" "retryTurn wake probe" wake
  for wake and probe :: "('w, 'r) probe"
  by (rule waiting_retry)

text \<open>A loop whose probe succeeds from some time on, in worlds that the failing probes lead to,
  succeeds by then, if its context lives that long.\<close>

lemma tick_succeeds:
  assumes keeps: "\<And>j w. Q w \<Longrightarrow> Q (snd (probe j w))"
    and up: "\<And>j w. up \<le> j \<Longrightarrow> Q w \<Longrightarrow> fst (probe j w) \<noteq> None"
    and alive: "\<And>j. j \<le> max i up \<Longrightarrow> wake j = Ticked"
    and start: "Q w"
  shows "\<exists>r j w'. tickLoop wake probe i w = Some (Some r, j, w') \<and> i < j \<and> j \<le> Suc (max i up) \<and> Q w'"
  using alive start
proof (induction "up - i" arbitrary: i w)
  case 0
  then obtain r w' where p: "probe i w = (Some r, w')"
    using up [of i w] by (cases "probe i w") fastforce
  moreover from p keeps [OF \<open>Q w\<close>, of i] have "Q w'" by simp
  moreover have "wake i = Ticked" using 0 by simp
  ultimately show ?case using 0 by (subst tickLoop.simps) simp
next
  case (Suc n)
  have w: "wake i = Ticked" using Suc.prems(1) by simp
  obtain x w' where p: "probe i w = (x, w')" by fastforce
  with keeps [OF Suc.prems(2), of i] have q: "Q w'" by simp
  show ?case
  proof (cases x)
    case (Some r)
    with p w q show ?thesis by (subst tickLoop.simps) simp
  next
    case None
    have "n = up - Suc i" using Suc(2) by simp
    moreover have "\<And>j. j \<le> max (Suc i) up \<Longrightarrow> wake j = Ticked" using Suc(2) Suc.prems(1) by simp
    ultimately obtain r j u where "tickLoop wake probe (Suc i) w' = Some (Some r, j, u)"
      "Suc i < j" "j \<le> Suc (max (Suc i) up)" "Q u"
      using Suc.hyps(1) [of "Suc i" w'] q by blast
    with None p w Suc(2) show ?thesis by (subst tickLoop.simps) auto
  qed
qed

text \<open>What a probe keeps the loop keeps, and a result of the loop is a result of a probe.\<close>

lemma retry_result:
  assumes "retryLoop wake probe i w = Some (x, j, w')"
    and keeps: "\<And>j w. Q w \<Longrightarrow> Q (snd (probe j w))"
  shows "Q w \<longrightarrow> Q w' \<and> (\<forall>r. x = Some r \<longrightarrow> (\<exists>k u. Q u \<and> probe k u = (Some r, w')))"
proof -
  define R where "R = (x, j, w')"
  have "retryLoop wake probe i w = Some R" using assms(1) R_def by simp
  then have "probe = probe \<longrightarrow> Q w \<longrightarrow>
      Q (snd (snd R)) \<and> (\<forall>r. fst R = Some r \<longrightarrow> (\<exists>k u. Q u \<and> probe k u = (Some r, snd (snd R))))"
  proof (rule retryLoop.raw_induct [where P = "\<lambda>wk pr i w R. pr = probe \<longrightarrow> Q w \<longrightarrow>
      Q (snd (snd R)) \<and> (\<forall>r. fst R = Some r \<longrightarrow> (\<exists>k u. Q u \<and> probe k u = (Some r, snd (snd R))))",
      rotated], intro impI)
    fix loop and wk :: schedule and pr i w R
    assume IH: "\<And>wk pr i w R. loop wk pr i w = Some R \<Longrightarrow> pr = probe \<longrightarrow> Q w \<longrightarrow>
        Q (snd (snd R)) \<and> (\<forall>r. fst R = Some r \<longrightarrow> (\<exists>k u. Q u \<and> probe k u = (Some r, snd (snd R))))"
      and body: "(case pr i w of (None, w') \<Rightarrow>
            (case wk i of Ticked \<Rightarrow> loop wk pr (Suc i) w' | DoneCtx \<Rightarrow> Some (None, Suc i, w'))
          | (Some r, w') \<Rightarrow> Some (Some r, i, w')) = Some R"
      and pr: "pr = probe" and q: "Q w"
    obtain y u where p: "probe i w = (y, u)" by fastforce
    with keeps [OF q, of i] have u: "Q u" by simp
    show "Q (snd (snd R)) \<and> (\<forall>r. fst R = Some r \<longrightarrow> (\<exists>k u. Q u \<and> probe k u = (Some r, snd (snd R))))"
    proof (cases y)
      case (Some r)
      with p q have found: "\<exists>k v. Q v \<and> probe k v = (Some r, u)" by blast
      from Some body pr p have "R = (Some r, i, u)" by simp
      with u found show ?thesis by simp
    next
      case None
      show ?thesis
      proof (cases "wk i")
        case Ticked
        with body pr p None have "loop wk probe (Suc i) u = Some R" by simp
        from IH [OF this] u show ?thesis by simp
      next
        case DoneCtx
        with body pr p None u show ?thesis by auto
      qed
    qed
  qed
  then show ?thesis by (simp add: R_def)
qed

text \<open>A loop that hangs at no tick is the loop without hanging.\<close>

lemma hanging_to_tick:
  assumes "hangingLoop wake hangs probe i w = Some R"
  shows "tickLoop wake probe i w = Some R"
  using assms
proof (rule hangingLoop.raw_induct [where P = "\<lambda>wake hangs probe i w R. tickLoop wake probe i w = Some R", rotated])
  fix loop and wake :: schedule and hangs probe i w R
  assume IH: "\<And>wake hangs probe i w R. loop wake hangs probe i w = Some R \<Longrightarrow> tickLoop wake probe i w = Some R"
    and body: "(case wake i of
        Ticked \<Rightarrow> if hangs i then None
          else (case probe i w of (None, w') \<Rightarrow> loop wake hangs probe (Suc i) w' | (Some r, w') \<Rightarrow> Some (Some r, Suc i, w'))
      | DoneCtx \<Rightarrow> Some (None, Suc i, w)) = Some R"
  show "tickLoop wake probe i w = Some R"
    using body IH by (subst tickLoop.simps) (auto split: wake.splits prod.splits option.splits if_splits)
qed

lemma tick_to_hanging:
  assumes "tickLoop wake probe i w = Some R"
  shows "(\<forall>j. wake j = Ticked \<longrightarrow> \<not> hangs j) \<longrightarrow> hangingLoop wake hangs probe i w = Some R"
  using assms
proof (rule tickLoop.raw_induct [where P = "\<lambda>wake probe i w R. (\<forall>j. wake j = Ticked \<longrightarrow> \<not> hangs j) \<longrightarrow>
    hangingLoop wake hangs probe i w = Some R", rotated], intro impI)
  fix loop and wake :: schedule and probe i w R
  assume IH: "\<And>wake probe i w R. loop wake probe i w = Some R \<Longrightarrow>
      (\<forall>j. wake j = Ticked \<longrightarrow> \<not> hangs j) \<longrightarrow> hangingLoop wake hangs probe i w = Some R"
    and body: "(case wake i of
        Ticked \<Rightarrow> (case probe i w of (None, w') \<Rightarrow> loop wake probe (Suc i) w' | (Some r, w') \<Rightarrow> Some (Some r, Suc i, w'))
      | DoneCtx \<Rightarrow> Some (None, Suc i, w)) = Some R"
    and free: "\<forall>j. wake j = Ticked \<longrightarrow> \<not> hangs j"
  show "hangingLoop wake hangs probe i w = Some R"
    using body IH free by (subst hangingLoop.simps) (auto split: wake.splits prod.splits option.splits)
qed

lemma hangs_nowhere:
  assumes "\<forall>j. wake j = Ticked \<longrightarrow> \<not> hangs j"
  shows "hangingLoop wake hangs probe i w = tickLoop wake probe i w"
proof (cases "tickLoop wake probe i w")
  case None
  then show ?thesis using hanging_to_tick by (cases "hangingLoop wake hangs probe i w") fastforce+
next
  case (Some R)
  with tick_to_hanging [OF Some] assms show ?thesis by simp
qed

end
