(* ===== verification/Relay.thy ===== *)
theory Relay
  imports Network "HOL-Library.Sublist"
begin

text \<open>
  Forwarding a connection: \<open>relayBidirectional\<close> of the guest
  (\<open>cmd/guest-agent/pkg/service/unix_forwarder.go\<close>), \<open>proxy\<close> with the \<open>LocalForwarder\<close> of the
  host (\<open>pkg/network/forwarder.go\<close>), and the tunnel through gvproxy (\<open>pkg/gvproxy/tunnel.go\<close>).

  Two goroutines copy, one in each direction, and run at the same time as whoever cancels the
  context: the model is a step relation in which every interleaving of chunks, ends of stream, failures and
  cancellation is a run. The interface \<open>relaying\<close> says what one step may do to the bytes; all
  three relations are interpretations. The extended interface \<open>lossless_relay\<close> adds that nothing is
  lost but by a failure or a cancellation; the tunnel through gvproxy does not satisfy it.
\<close>

subsection \<open>The state of a relay\<close>

datatype dir = ToRight | ToLeft

text \<open>Per direction: the bytes still to come from the source, the bytes written to the destination,
  whether its copy has finished, and whether a peer or the network failed it. Then: whether the
  context is done, whether the connections are open on this side, and whether the handler has
  returned.\<close>

record relay =
  rl_rem :: "dir \<Rightarrow> string"
  rl_del :: "dir \<Rightarrow> string"
  rl_fin :: "dir \<Rightarrow> bool"
  rl_fault :: "dir \<Rightarrow> bool"
  rl_ctxDone :: bool
  rl_open :: bool
  rl_returned :: bool

definition relayStart :: "(dir \<Rightarrow> string) \<Rightarrow> relay" where
  "relayStart streams = \<lparr>rl_rem = streams, rl_del = (\<lambda>_. []), rl_fin = (\<lambda>_. False),
     rl_fault = (\<lambda>_. False), rl_ctxDone = False, rl_open = True, rl_returned = False\<rparr>"

definition copiesDone :: "relay \<Rightarrow> bool" where
  "copiesDone s \<longleftrightarrow> rl_fin s ToRight \<and> rl_fin s ToLeft"

text \<open>One \<open>io.Copy\<close>, in pieces: a chunk is read and written; the stream ends; a peer or the network
  fails; or the copy finds its connections closed by this side. The write side is shut down after it.\<close>

inductive copyStep :: "dir \<Rightarrow> relay \<Rightarrow> relay \<Rightarrow> bool" for d where
  chunk: "\<not> rl_fin s d \<Longrightarrow> rl_open s \<Longrightarrow> rl_rem s d = xs @ ys \<Longrightarrow> xs \<noteq> [] \<Longrightarrow>
    copyStep d s (s\<lparr>rl_rem := (rl_rem s)(d := ys), rl_del := (rl_del s)(d := rl_del s d @ xs)\<rparr>)"
| ended: "\<not> rl_fin s d \<Longrightarrow> rl_open s \<Longrightarrow> rl_rem s d = [] \<Longrightarrow>
    copyStep d s (s\<lparr>rl_fin := (rl_fin s)(d := True)\<rparr>)"
| failed: "\<not> rl_fin s d \<Longrightarrow> rl_open s \<Longrightarrow>
    copyStep d s (s\<lparr>rl_fin := (rl_fin s)(d := True), rl_fault := (rl_fault s)(d := True)\<rparr>)"
| closed: "\<not> rl_fin s d \<Longrightarrow> \<not> rl_open s \<Longrightarrow> copyStep d s (s\<lparr>rl_fin := (rl_fin s)(d := True)\<rparr>)"

subsection \<open>The three relays\<close>

text \<open>The guest waits for the context or for both copies, then closes both connections.\<close>

inductive relayBidirectional :: "relay \<Rightarrow> relay \<Rightarrow> bool" where
  copy: "copyStep d s t \<Longrightarrow> relayBidirectional s t"
| cancel: "\<not> rl_ctxDone s \<Longrightarrow> relayBidirectional s (s\<lparr>rl_ctxDone := True\<rparr>)"
| return: "\<not> rl_returned s \<Longrightarrow> rl_ctxDone s \<or> copiesDone s \<Longrightarrow>
    relayBidirectional s (s\<lparr>rl_open := False, rl_returned := True\<rparr>)"

text \<open>The host closes both connections from a goroutine when the context is done, and returns,
  closing them too, when both copies have finished.\<close>

inductive proxy :: "relay \<Rightarrow> relay \<Rightarrow> bool" where
  copy: "copyStep d s t \<Longrightarrow> proxy s t"
| cancel: "\<not> rl_ctxDone s \<Longrightarrow> proxy s (s\<lparr>rl_ctxDone := True\<rparr>)"
| close: "rl_ctxDone s \<Longrightarrow> rl_open s \<Longrightarrow> proxy s (s\<lparr>rl_open := False\<rparr>)"
| return: "\<not> rl_returned s \<Longrightarrow> copiesDone s \<Longrightarrow>
    proxy s (s\<lparr>rl_open := False, rl_returned := True\<rparr>)"

text \<open>The gvproxy tunnel of the host closes both connections completely as soon as one copy ends,
  and returns when both have ended.\<close>

inductive bidirectionalCopy :: "relay \<Rightarrow> relay \<Rightarrow> bool" where
  chunk: "\<not> rl_fin s d \<Longrightarrow> rl_open s \<Longrightarrow> rl_rem s d = xs @ ys \<Longrightarrow> xs \<noteq> [] \<Longrightarrow>
    bidirectionalCopy s (s\<lparr>rl_rem := (rl_rem s)(d := ys), rl_del := (rl_del s)(d := rl_del s d @ xs)\<rparr>)"
| ended: "\<not> rl_fin s d \<Longrightarrow> rl_open s \<Longrightarrow> rl_rem s d = [] \<Longrightarrow>
    bidirectionalCopy s (s\<lparr>rl_fin := (rl_fin s)(d := True), rl_open := False\<rparr>)"
| failed: "\<not> rl_fin s d \<Longrightarrow> rl_open s \<Longrightarrow>
    bidirectionalCopy s (s\<lparr>rl_fin := (rl_fin s)(d := True), rl_fault := (rl_fault s)(d := True), rl_open := False\<rparr>)"
| closed: "\<not> rl_fin s d \<Longrightarrow> \<not> rl_open s \<Longrightarrow> bidirectionalCopy s (s\<lparr>rl_fin := (rl_fin s)(d := True)\<rparr>)"
| return: "\<not> rl_returned s \<Longrightarrow> copiesDone s \<Longrightarrow>
    bidirectionalCopy s (s\<lparr>rl_open := False, rl_returned := True\<rparr>)"

subsection \<open>Listening (forwarder.go, tunnel.go)\<close>

text \<open>\<open>net.Listen("unix", p)\<close>: binding makes the socket file, which must not exist.\<close>

definition net_ListenUnix :: "string \<Rightarrow> (OS, unit) proc" where
  "net_ListenUnix p s =
     (let k = osKey s p
      in if p = [] \<or> os_fault s ''bind'' k then (Inl (ErrSyscall ''bind''), s)
         else if nodeAt s k \<noteq> None then (Inl (ErrSyscall ''EADDRINUSE''), s)
         else if isDirAt s (Dir k) then (Inr (), setNode k SocketNode s)
         else (Inl (absent s k), s))"

definition os_Chmod :: "string \<Rightarrow> (OS, unit) proc" where
  "os_Chmod p s =
     (case os_Stat p s of
        (Inl e, _) \<Rightarrow> (Inl e, s)
      | (Inr _, _) \<Rightarrow> if os_fault s ''chmod'' (osKey s p) then (Inl (ErrSyscall ''chmod''), s) else (Inr (), s))"

text \<open>What \<open>Accept\<close> returns, one after another; the list may end while the loop still waits.\<close>

datatype accepted = Accepted nat | ListenerClosed | AcceptError

text \<open>The connections handed to a goroutine each, and whether the loop has returned.\<close>

fun acceptLoop :: "accepted list \<Rightarrow> nat list \<times> bool" where
  "acceptLoop [] = ([], False)"
| "acceptLoop (Accepted c # as) = (case acceptLoop as of (cs, r) \<Rightarrow> (c # cs, r))"
| "acceptLoop (ListenerClosed # as) = ([], True)"
| "acceptLoop (AcceptError # as) = acceptLoop as"

record LocalForwarder =
  lf_UnixSockAddr :: string
  lf_Target :: string
  lf_Timeout :: nat

text \<open>\<open>Run\<close>: each connection is handed to \<open>handleConn\<close> with the forwarder.\<close>

definition LocalForwarder_Run :: "LocalForwarder \<Rightarrow> accepted list \<Rightarrow> (OS, (nat \<times> LocalForwarder) list \<times> bool) proc" where
  "LocalForwarder_Run f as =
     andThen (lift (url_Parse (lf_UnixSockAddr f))) (\<lambda>u.
     andThen (ignoring (os_Remove (u_Path u))) (\<lambda>_.
     andThen (net_ListenUnix (u_Path u)) (\<lambda>_.
     andThen (os_Chmod (u_Path u)) (\<lambda>_.
       succeed (case acceptLoop as of (cs, r) \<Rightarrow> (map (\<lambda>c. (c, f)) cs, r))))))"

text \<open>A connection: the dialled target, or none when dialling fails (the connection is closed).\<close>

definition handleConn :: "(string \<Rightarrow> nat \<Rightarrow> unit res) \<Rightarrow> LocalForwarder \<Rightarrow> (dir \<Rightarrow> string) \<Rightarrow> relay option" where
  "handleConn dial f streams =
     (case dial (lf_Target f) (lf_Timeout f) of
        Inl _ \<Rightarrow> None
      | Inr _ \<Rightarrow> Some (relayStart streams))"

text \<open>The tunnel from a unix socket of the host to a port of the guest (tunnel.go).\<close>

definition parseUnixSocketPath :: "string \<Rightarrow> string res" where
  "parseUnixSocketPath address =
     (case ParseUnixAddr address of
        Inl e \<Rightarrow> Inl e
      | Inr a \<Rightarrow> if addr_Path a = [] then Inl (Errorf ''empty socket path'') else Inr (addr_Path a))"

definition createUnixListenerSockFile :: "string \<Rightarrow> (OS, unit) proc" where
  "createUnixListenerSockFile path =
     andThen (ignoring (os_Remove path)) (\<lambda>_.
     andThen (wrapping ''listen'' (net_ListenUnix path)) (\<lambda>_.
       ignoring (os_Chmod path)))"

text \<open>An error of \<open>Accept\<close> comes with whether the context is done. The result is the error the loop
  returns with, if it does.\<close>

fun tunnelAcceptLoop :: "(accepted \<times> bool) list \<Rightarrow> nat list \<times> goerr option" where
  "tunnelAcceptLoop [] = ([], None)"
| "tunnelAcceptLoop ((Accepted c, _) # as) =
     (case tunnelAcceptLoop as of (cs, r) \<Rightarrow> (c # cs, r))"
| "tunnelAcceptLoop ((a, ctxDone) # as) =
     (if ctxDone then ([], Some ErrCanceled)
      else if a = ListenerClosed then ([], Some (Errorf ''listener closed''))
      else tunnelAcceptLoop as)"

text \<open>Each connection is handed to \<open>handleTunnelConn\<close> with the socket of gvproxy and the target.\<close>

definition TunnelHostUnixToGuest ::
    "string \<Rightarrow> string \<Rightarrow> string \<Rightarrow> u16 \<Rightarrow> (accepted \<times> bool) list
      \<Rightarrow> (OS, (nat \<times> string \<times> string \<times> u16) list \<times> goerr option) proc" where
  "TunnelHostUnixToGuest gvproxyCtl listenAddr targetIP targetPort as =
     andThen (wrapping ''invalid gvproxy socket address'' (lift (parseUnixSocketPath gvproxyCtl))) (\<lambda>gvproxyPath.
     andThen (wrapping ''invalid listen socket address'' (lift (parseUnixSocketPath listenAddr))) (\<lambda>listenPath.
     andThen (createUnixListenerSockFile listenPath) (\<lambda>_.
       succeed (case tunnelAcceptLoop as of
         (cs, r) \<Rightarrow> (map (\<lambda>c. (c, gvproxyPath, targetIP, targetPort)) cs, r)))))"

text \<open>One connection: dial gvproxy, ask it for the target, copy. \<open>None\<close>: closed without copying.\<close>

definition handleTunnelConn ::
    "(string \<Rightarrow> unit res) \<Rightarrow> (string \<Rightarrow> u16 \<Rightarrow> unit res) \<Rightarrow> string \<Rightarrow> string \<Rightarrow> u16 \<Rightarrow> (dir \<Rightarrow> string)
      \<Rightarrow> relay option" where
  "handleTunnelConn dial tunnel gvproxyPath targetIP targetPort streams =
     (case dial gvproxyPath of
        Inl _ \<Rightarrow> None
      | Inr _ \<Rightarrow>
          (case tunnel targetIP targetPort of
             Inl _ \<Rightarrow> None
           | Inr _ \<Rightarrow> Some (relayStart streams)))"

subsection \<open>What every relay keeps\<close>

text \<open>A measure that every step decreases.\<close>

definition relayWork :: "relay \<Rightarrow> nat" where
  "relayWork s = (\<Sum>d \<leftarrow> [ToRight, ToLeft]. length (rl_rem s d) + (if rl_fin s d then 0 else 1)) +
     (if rl_ctxDone s then 0 else 1) + (if rl_open s then 1 else 0) + (if rl_returned s then 0 else 1)"

text \<open>Bytes arrive in order and none is made up; a handler that returned has closed the connections.\<close>

definition inOrder :: "(dir \<Rightarrow> string) \<Rightarrow> relay \<Rightarrow> bool" where
  "inOrder streams s \<longleftrightarrow>
     (\<forall>d. rl_del s d @ rl_rem s d = streams d) \<and> (rl_returned s \<longrightarrow> \<not> rl_open s)"

text \<open>This side closes the connections only when cancelled or when both copies have finished, a handler
  that is not cancelled waits for both, and a copy that has finished without a failure or a
  cancellation has nothing left.\<close>

definition lossless :: "relay \<Rightarrow> bool" where
  "lossless s \<longleftrightarrow>
     (\<not> rl_open s \<or> rl_returned s \<longrightarrow> rl_ctxDone s \<or> copiesDone s) \<and>
     (\<forall>d. rl_fin s d \<and> \<not> rl_fault s d \<and> \<not> rl_ctxDone s \<longrightarrow> rl_rem s d = [])"

locale relaying =
  fixes step :: "relay \<Rightarrow> relay \<Rightarrow> bool"
  assumes step_inOrder: "inOrder streams s \<Longrightarrow> step s t \<Longrightarrow> inOrder streams t"
    and step_work: "step s t \<Longrightarrow> relayWork t < relayWork s"
    and progress: "\<not> rl_returned s \<Longrightarrow> \<exists>t. step s t \<and> rl_fault t = rl_fault s \<and> rl_ctxDone t = rl_ctxDone s"
begin

lemma run_inOrder: "step\<^sup>*\<^sup>* (relayStart streams) s \<Longrightarrow> inOrder streams s"
proof (induction rule: rtranclp_induct)
  case base
  show ?case by (simp add: inOrder_def relayStart_def)
qed (rule step_inOrder)

lemma run_prefix:
  assumes "step\<^sup>*\<^sup>* (relayStart streams) s"
  shows "\<forall>d. prefix (rl_del s d) (streams d)" and "rl_returned s \<Longrightarrow> \<not> rl_open s"
proof -
  note o = run_inOrder [OF assms, unfolded inOrder_def]
  from o show "\<forall>d. prefix (rl_del s d) (streams d)" by (metis prefixI)
  from o show "rl_returned s \<Longrightarrow> \<not> rl_open s" by blast
qed

lemma run_short: "(step ^^ n) s t \<Longrightarrow> n + relayWork t \<le> relayWork s"
proof (induction n arbitrary: t)
  case (Suc n)
  then obtain u where "(step ^^ n) s u" and "step u t" by auto
  with Suc.IH [of u] step_work [of u t] show ?case by simp
qed simp

lemma run_bound:
  assumes "(step ^^ n) (relayStart streams) s"
  shows "n \<le> length (streams ToRight) + length (streams ToLeft) + 5"
  using run_short [OF assms] by (simp add: relayWork_def relayStart_def)

end

locale lossless_relay = relaying +
  assumes step_lossless: "lossless s \<Longrightarrow> step s t \<Longrightarrow> lossless t"
begin

lemma run_lossless: "step\<^sup>*\<^sup>* (relayStart streams) s \<Longrightarrow> lossless s"
proof (induction rule: rtranclp_induct)
  case base
  show ?case by (simp add: lossless_def relayStart_def)
qed (rule step_lossless)

lemma run_delivers:
  assumes "step\<^sup>*\<^sup>* (relayStart streams) s" and "rl_returned s" and "\<not> rl_ctxDone s" and "\<not> rl_fault s d"
  shows "rl_del s d = streams d"
proof -
  have l: "lossless s" by (rule run_lossless [OF assms(1)])
  with assms(2,3) have "rl_fin s d" by (cases d) (auto simp: lossless_def copiesDone_def)
  with l assms(3,4) have "rl_rem s d = []" by (simp add: lossless_def)
  with run_inOrder [OF assms(1)] show ?thesis unfolding inOrder_def by (metis append_Nil2)
qed

end

lemma copyStep_inOrder:
  assumes "copyStep d s t" and "inOrder streams s"
  shows "inOrder streams t"
proof -
  have "rl_del s d @ rl_rem s d = streams d" using assms(2) by (simp add: inOrder_def)
  with assms show ?thesis by cases (auto simp: inOrder_def)
qed

lemma copyStep_lossless: "copyStep d s t \<Longrightarrow> lossless s \<Longrightarrow> lossless t"
  by (erule copyStep.cases; cases d) (auto simp: lossless_def copiesDone_def)

lemma copyStep_work: "copyStep d s t \<Longrightarrow> relayWork t < relayWork s"
  by (cases d; erule copyStep.cases) (auto simp: relayWork_def)

text \<open>A copy that has not finished goes on, with neither a failure nor a cancellation.\<close>

lemma copyStep_progress:
  assumes "\<not> rl_fin s d"
  shows "\<exists>t. copyStep d s t \<and> rl_fault t = rl_fault s \<and> rl_ctxDone t = rl_ctxDone s"
proof (cases "rl_open s")
  case True
  then show ?thesis
    using copyStep.chunk [OF assms, of "rl_rem s d" "[]"] copyStep.ended [OF assms] by (cases "rl_rem s d = []") auto
next
  case False
  with copyStep.closed [OF assms] show ?thesis by auto
qed

interpretation guest_relay: lossless_relay relayBidirectional
proof
  show "inOrder streams t" if "inOrder streams s" "relayBidirectional s t" for streams s t
    using that(2)
  proof cases
    case (copy d)
    with that(1) show ?thesis by (rule copyStep_inOrder [rotated])
  qed (use that(1) in \<open>auto simp: inOrder_def\<close>)
  show "lossless t" if "lossless s" "relayBidirectional s t" for s t
    using that(2)
  proof cases
    case (copy d)
    with that(1) show ?thesis by (rule copyStep_lossless [rotated])
  qed (use that(1) in \<open>auto simp: lossless_def copiesDone_def\<close>)
  show "relayWork t < relayWork s" if "relayBidirectional s t" for s t
    using that
  proof cases
    case (copy d)
    then show ?thesis by (rule copyStep_work)
  qed (auto simp: relayWork_def)
  show "\<exists>t. relayBidirectional s t \<and> rl_fault t = rl_fault s \<and> rl_ctxDone t = rl_ctxDone s" if "\<not> rl_returned s" for s
  proof (cases "copiesDone s")
    case True
    show ?thesis by (rule exI, rule conjI, rule relayBidirectional.return [OF that]) (simp_all add: True)
  next
    case False
    then obtain d where "\<not> rl_fin s d" by (auto simp: copiesDone_def)
    with copyStep_progress show ?thesis by (blast intro: relayBidirectional.copy)
  qed
qed

interpretation host_relay: lossless_relay proxy
proof
  show "inOrder streams t" if "inOrder streams s" "proxy s t" for streams s t
    using that(2)
  proof cases
    case (copy d)
    with that(1) show ?thesis by (rule copyStep_inOrder [rotated])
  qed (use that(1) in \<open>auto simp: inOrder_def\<close>)
  show "lossless t" if "lossless s" "proxy s t" for s t
    using that(2)
  proof cases
    case (copy d)
    with that(1) show ?thesis by (rule copyStep_lossless [rotated])
  qed (use that(1) in \<open>auto simp: lossless_def copiesDone_def\<close>)
  show "relayWork t < relayWork s" if "proxy s t" for s t
    using that
  proof cases
    case (copy d)
    then show ?thesis by (rule copyStep_work)
  qed (auto simp: relayWork_def)
  show "\<exists>t. proxy s t \<and> rl_fault t = rl_fault s \<and> rl_ctxDone t = rl_ctxDone s" if "\<not> rl_returned s" for s
  proof (cases "copiesDone s")
    case True
    show ?thesis by (rule exI, rule conjI, rule proxy.return [OF that True]) simp_all
  next
    case False
    then obtain d where "\<not> rl_fin s d" by (auto simp: copiesDone_def)
    with copyStep_progress show ?thesis by (blast intro: proxy.copy)
  qed
qed

interpretation tunnel_relay: relaying bidirectionalCopy
proof
  show "inOrder streams t" if "inOrder streams s" "bidirectionalCopy s t" for streams s t
    using that(2)
  proof cases
    case (chunk d xs ys)
    moreover have "rl_del s d @ rl_rem s d = streams d" using that(1) by (simp add: inOrder_def)
    ultimately show ?thesis using that(1) by (auto simp: inOrder_def)
  qed (use that(1) in \<open>auto simp: inOrder_def\<close>)
  show "relayWork t < relayWork s" if "bidirectionalCopy s t" for s t
    using that
  proof cases
    case (chunk d xs ys)
    then show ?thesis by (cases d) (auto simp: relayWork_def)
  next
    case (ended d)
    then show ?thesis by (cases d) (auto simp: relayWork_def)
  next
    case (failed d)
    then show ?thesis by (cases d) (auto simp: relayWork_def)
  next
    case (closed d)
    then show ?thesis by (cases d) (auto simp: relayWork_def)
  qed (auto simp: relayWork_def)
  show "\<exists>t. bidirectionalCopy s t \<and> rl_fault t = rl_fault s \<and> rl_ctxDone t = rl_ctxDone s" if "\<not> rl_returned s" for s
  proof (cases "copiesDone s")
    case True
    show ?thesis by (rule exI, rule conjI, rule bidirectionalCopy.return [OF that True]) simp_all
  next
    case False
    then obtain d where d: "\<not> rl_fin s d" by (auto simp: copiesDone_def)
    consider "rl_open s" "rl_rem s d = []" | "rl_open s" "rl_rem s d \<noteq> []" | "\<not> rl_open s" by blast
    then show ?thesis
    proof cases
      case 1 with bidirectionalCopy.ended [OF d] show ?thesis by auto
    next
      case 2 with bidirectionalCopy.chunk [OF d, of "rl_rem s d" "[]"] show ?thesis by auto
    next
      case 3 with bidirectionalCopy.closed [OF d] show ?thesis by auto
    qed
  qed
qed

subsection \<open>The tunnel\<close>

text \<open>What remains of losslessness for the tunnel: of two directions without a failure, one is complete.\<close>

definition oneComplete :: "relay \<Rightarrow> bool" where
  "oneComplete s \<longleftrightarrow> (rl_open s \<longrightarrow> (\<forall>d. \<not> rl_fin s d)) \<and> (\<not> rl_open s \<longrightarrow> (\<exists>d. rl_fault s d \<or> rl_rem s d = []))"

lemma tunnel_oneComplete: "bidirectionalCopy\<^sup>*\<^sup>* (relayStart streams) s \<Longrightarrow> oneComplete s"
proof (induction rule: rtranclp_induct)
  case base
  show ?case by (simp add: oneComplete_def relayStart_def)
next
  case (step s t)
  from step(2) show ?case
  proof cases
    case (ended d) with step(3) show ?thesis by (auto simp: oneComplete_def)
  qed (use step(3) in \<open>auto simp: oneComplete_def copiesDone_def\<close>)
qed

lemma tunnel_delivers:
  assumes "(bidirectionalCopy ^^ n) (relayStart streams) s"
  shows "(\<forall>d. prefix (rl_del s d) (streams d)) \<and>
    (rl_returned s \<longrightarrow> \<not> rl_open s \<and> (\<exists>d. rl_fault s d \<or> rl_del s d = streams d)) \<and>
    (\<not> rl_returned s \<longrightarrow> (\<exists>t. bidirectionalCopy s t \<and> rl_fault t = rl_fault s)) \<and>
    n \<le> length (streams ToRight) + length (streams ToLeft) + 5"
proof -
  have run: "bidirectionalCopy\<^sup>*\<^sup>* (relayStart streams) s" using assms by (rule relpowp_imp_rtranclp)
  have "\<exists>d. rl_fault s d \<or> rl_del s d = streams d" if "\<not> rl_open s"
    using tunnel_oneComplete [OF run] tunnel_relay.run_inOrder [OF run] that
    unfolding oneComplete_def inOrder_def by (metis append_Nil2)
  with tunnel_relay.run_prefix [OF run] tunnel_relay.progress [of s] tunnel_relay.run_bound [OF assms]
  show ?thesis by blast
qed

text \<open>The tunnel does not keep half-closed connections: a client that ends its request and then
  waits for the answer, with nobody cancelling and no failure, may get nothing.\<close>

lemma tunnel_truncates:
  "\<exists>s. bidirectionalCopy\<^sup>*\<^sup>* (relayStart (\<lambda>d. if d = ToRight then [] else ''answer'')) s \<and>
     rl_returned s \<and> \<not> rl_ctxDone s \<and> (\<forall>d. \<not> rl_fault s d) \<and> rl_del s ToLeft = []"
proof -
  let ?s0 = "relayStart (\<lambda>d. if d = ToRight then [] else ''answer'')"
  let ?s1 = "?s0\<lparr>rl_fin := (rl_fin ?s0)(ToRight := True), rl_open := False\<rparr>"
  let ?s2 = "?s1\<lparr>rl_fin := (rl_fin ?s1)(ToLeft := True)\<rparr>"
  let ?s3 = "?s2\<lparr>rl_open := False, rl_returned := True\<rparr>"
  have "bidirectionalCopy ?s0 ?s1" by (rule bidirectionalCopy.ended) (simp_all add: relayStart_def)
  moreover have "bidirectionalCopy ?s1 ?s2" by (rule bidirectionalCopy.closed) (simp_all add: relayStart_def)
  moreover have "bidirectionalCopy ?s2 ?s3"
    by (rule bidirectionalCopy.return) (simp_all add: relayStart_def copiesDone_def)
  ultimately have "bidirectionalCopy\<^sup>*\<^sup>* ?s0 ?s3" by (meson converse_rtranclp_into_rtranclp rtranclp.rtrancl_refl)
  then show ?thesis by (intro exI [of _ ?s3]) (simp add: relayStart_def)
qed

subsection \<open>Properties\<close>

text \<open>C21. Forwarded connections lose nothing and end: the relays of the guest's socket forwarder and of
  the host's local forwarder, in every interleaving of the two copies, of failures of a peer or the
  network, and of cancellation. They write to each side a prefix of what the other side sent. When a
  relay has returned, both connections are closed, and if the context was not cancelled, every
  direction that no failure met is complete: nothing is lost because the other direction ended
  first. A relay that has not returned can go on without any failure or cancellation, and no run has
  more steps than there are bytes, plus five; so it returns. (The tunnel through gvproxy promises
  less, see \<open>tunnel_delivers\<close> and \<open>tunnel_truncates\<close>.)\<close>

theorem relay_delivers:
  assumes "step \<in> {relayBidirectional, proxy}"
    and "(step ^^ n) (relayStart streams) s"
  shows "(\<forall>d. prefix (rl_del s d) (streams d)) \<and>
    (rl_returned s \<longrightarrow> \<not> rl_open s) \<and>
    (\<forall>d. rl_returned s \<and> \<not> rl_ctxDone s \<and> \<not> rl_fault s d \<longrightarrow> rl_del s d = streams d) \<and>
    (\<not> rl_returned s \<longrightarrow> (\<exists>t. step s t \<and> rl_fault t = rl_fault s \<and> rl_ctxDone t = rl_ctxDone s)) \<and>
    n \<le> length (streams ToRight) + length (streams ToLeft) + 5"
proof -
  have l: "lossless_relay step" using assms(1) guest_relay.lossless_relay_axioms host_relay.lossless_relay_axioms
    by blast
  then have r: "relaying step" by (rule lossless_relay.axioms)
  have run: "step\<^sup>*\<^sup>* (relayStart streams) s" using assms(2) by (rule relpowp_imp_rtranclp)
  show ?thesis
    using relaying.run_prefix [OF r run] lossless_relay.run_delivers [OF l run] relaying.progress [OF r, of s]
      relaying.run_bound [OF r assms(2)] by blast
qed

theorem relay_delivers_witness:
  "\<exists>s. (proxy ^^ 4) (relayStart (\<lambda>d. if d = ToRight then ''ab'' else [])) s \<and>
     rl_returned s \<and> rl_del s ToRight = ''ab''"
proof -
  let ?streams = "\<lambda>d. if d = ToRight then ''ab'' else []"
  let ?s0 = "relayStart ?streams"
  let ?s1 = "?s0\<lparr>rl_rem := (rl_rem ?s0)(ToRight := []), rl_del := (rl_del ?s0)(ToRight := ''ab'')\<rparr>"
  let ?s2 = "?s1\<lparr>rl_fin := (rl_fin ?s1)(ToRight := True)\<rparr>"
  let ?s3 = "?s2\<lparr>rl_fin := (rl_fin ?s2)(ToLeft := True)\<rparr>"
  let ?s4 = "?s3\<lparr>rl_open := False, rl_returned := True\<rparr>"
  have "proxy ?s0 ?s1"
    using copyStep.chunk [of ?s0 ToRight "''ab''" "[]"] by (intro proxy.copy) (simp add: relayStart_def)
  moreover have "proxy ?s1 ?s2"
    by (rule proxy.copy [OF copyStep.ended [of ?s1 ToRight]]) (simp_all add: relayStart_def)
  moreover have "proxy ?s2 ?s3"
    by (rule proxy.copy [OF copyStep.ended [of ?s2 ToLeft]]) (simp_all add: relayStart_def)
  moreover have "proxy ?s3 ?s4"
    by (intro proxy.return) (simp_all add: relayStart_def copiesDone_def)
  ultimately have run: "(proxy ^^ 4) ?s0 ?s4"
    by (auto simp: numeral_eq_Suc relcompp_apply)
  from relay_delivers [of proxy 4 ?streams ?s4] run
  have "rl_del ?s4 ToRight = ''ab''" by (simp add: relayStart_def)
  with run show ?thesis by (intro exI [of _ ?s4]) simp
qed

end
