(* ===== verification/Ignition.thy ===== *)
theory Ignition
  imports Config_File Poll Relay
begin

text \<open>
  The ignition server of the host, \<open>pkg/service/ignition/server.go\<close>, on the unix-socket HTTP server
  of \<open>pkg/http/http.go\<close>, and the client that attaches to a running machine through it
  (\<open>Attach\<close> in \<open>pkg/librevm/vm_access.go\<close>).

  A request is its method, path and body; a handler returns a response and the new state. The
  state is the machine description and the readiness signals. \<open>jsonpatch.MergePatch\<close> is a library
  outside the repository and a parameter. A handler that would panic is \<open>None\<close>; that this never
  happens is proved.
\<close>

subsection \<open>The HTTP server (http.go)\<close>

record httpIn =
  hi_method :: string
  hi_path :: string
  hi_body :: "string res"

record httpOut =
  ho_code :: nat
  ho_body :: string

definition writeJSON :: "nat \<Rightarrow> json \<Rightarrow> httpOut" where
  "writeJSON code v = \<lparr>ho_code = code, ho_body = json_Encode v\<rparr>"

text \<open>\<open>Serve\<close> up to the point where it listens: the path of the socket. \<open>ended\<close> is how serving ends:
  by an error of the server or by the context (\<open>None\<close>).\<close>

definition httpListen :: "string \<Rightarrow> (OS, string) proc" where
  "httpListen listener =
     andThen (wrapping ''failed to parse unix socket address'' (lift (ParseUnixAddr listener))) (\<lambda>addr.
     andThen (ignoring (os_Remove (addr_Path addr))) (\<lambda>_.
     andThen (wrapping ''failed to listen'' (net_ListenUnix (addr_Path addr))) (\<lambda>_.
       succeed (addr_Path addr))))"

definition httpServe :: "string \<Rightarrow> goerr option \<Rightarrow> (OS, unit) proc" where
  "httpServe listener ended =
     andThen (httpListen listener) (\<lambda>path.
     andThen (ignoring (os_Remove path)) (\<lambda>_.
       failWith (case ended of Some e \<Rightarrow> Wrap ''httpserver error'' e | None \<Rightarrow> ErrCanceled)))"

subsection \<open>Handlers (server.go)\<close>

record ignServer =
  ig_spec :: MachineSpec
  ig_ready :: Readiness

definition NewServer :: "MachineSpec \<Rightarrow> Readiness \<Rightarrow> ignServer" where
  "NewServer m r = \<lparr>ig_spec = m, ig_ready = r\<rparr>"

definition ign_handleHealth :: "httpIn \<Rightarrow> httpOut" where
  "ign_handleHealth r = (if hi_method r \<noteq> ''GET'' then writeJSON 405 JNull else writeJSON 200 JNull)"

text \<open>\<open>err.Error()\<close>; the messages of errors that libraries and the operating system make are their
  class.\<close>

fun errString :: "goerr \<Rightarrow> string" where
  "errString (Errorf m) = m"
| "errString (Wrap m e) = m @ '': '' @ errString e"
| "errString (ErrLib m) = m"
| "errString (ErrSyscall m) = m"
| "errString (Panicked m) = m"
| "errString ErrCanceled = ''context canceled''"
| "errString (ErrNotExist p) = p @ '': no such file or directory''"
| "errString (ErrExit n) = ''exit status''"
| "errString (ErrExecNotFound p) = p @ '': executable file not found''"

definition errText :: "goerr \<Rightarrow> json" where
  "errText e = JStr (errString e)"

definition ign_handleVMConfig :: "(string \<Rightarrow> string \<Rightarrow> string res) \<Rightarrow> httpIn \<Rightarrow> ignServer \<Rightarrow> httpOut \<times> ignServer" where
  "ign_handleVMConfig mergePatch r s =
     (if hi_method r = ''GET'' then (writeJSON 200 (encMachine (ig_spec s)), s)
      else if hi_method r = ''PATCH'' then
        (case hi_body r of
           Inl e \<Rightarrow> (writeJSON 400 (errText e), s)
         | Inr body \<Rightarrow>
             (case mergePatch (machine_Marshal (ig_spec s)) body of
                Inl e \<Rightarrow> (writeJSON 400 (errText e), s)
              | Inr merged \<Rightarrow>
                  (case machine_Unmarshal merged of
                     Inl e \<Rightarrow> (writeJSON 500 (errText e), s)
                   | Inr m \<Rightarrow> (writeJSON 200 JNull, s\<lparr>ig_spec := m\<rparr>))))
      else (writeJSON 405 JNull, s))"

definition ign_handleReady :: "string \<Rightarrow> httpIn \<Rightarrow> ignServer \<Rightarrow> (httpOut \<times> ignServer) option" where
  "ign_handleReady service r s =
     (if hi_method r \<noteq> ''POST'' then Some (writeJSON 405 JNull, s)
      else
        let signalled = map_option (\<lambda>(_, rd). (writeJSON 200 JNull, s\<lparr>ig_ready := rd\<rparr>))
        in if service = ServiceNameSSH then signalled (SignalSSHReady (ig_ready s))
           else if service = ServiceNamePodman then signalled (SignalPodmanAPIProxyReady (ig_ready s))
           else if service = ServiceNameGuestNetwork then signalled (SignalVNetGuestReady (ig_ready s))
           else Some (writeJSON 404 JNull, s))"

text \<open>What \<open>http.ServeMux\<close> answers before it looks for a pattern: \<open>*\<close> is a bad request, and a path that
  is not clean is redirected to the clean one (except for \<open>CONNECT\<close>). The path is that of the URL
  after unescaping; an escaped separator or dot in it is not modelled.\<close>

definition muxPath :: "string \<Rightarrow> string" where
  "muxPath p =
     (let p' = (if IsAbs p then p else sep # p); np = Clean p'
      in if last p' = sep \<and> np \<noteq> ''/'' then np @ ''/'' else np)"

definition htmlEscape :: "string \<Rightarrow> string" where
  "htmlEscape s = concat (map (\<lambda>c. if c = CHR ''&'' then ''&amp;'' else [c]) s)"

definition muxEarly :: "httpIn \<Rightarrow> httpOut option" where
  "muxEarly r =
     (if hi_path r = ''*'' then Some \<lparr>ho_code = 400, ho_body = []\<rparr>
      else if hi_method r \<noteq> ''CONNECT'' \<and> muxPath (hi_path r) \<noteq> hi_path r then
        Some \<lparr>ho_code = 301, ho_body =
          (if hi_method r = ''GET''
           then ''<a href='' @ [CHR 0x22] @ htmlEscape (escapePath (muxPath (hi_path r))) @ [CHR 0x22] @
             ''>Moved Permanently</a>.'' @ [CHR 0x0A, CHR 0x0A]
           else [])\<rparr>
      else None)"

text \<open>\<open>Mux\<close>: the patterns \<open>/healthz\<close>, \<open>/vmconfig\<close> and \<open>/ready/{service}\<close>, where the wildcard is
  one non-empty path segment. Anything else is not found.\<close>

definition ign_serve :: "(string \<Rightarrow> string \<Rightarrow> string res) \<Rightarrow> httpIn \<Rightarrow> ignServer \<Rightarrow> (httpOut \<times> ignServer) option" where
  "ign_serve mergePatch r s =
     (case muxEarly r of
        Some out \<Rightarrow> Some (out, s)
      | None \<Rightarrow>
          let service = drop (length ''/ready/'') (hi_path r)
          in if hi_path r = ''/healthz'' then Some (ign_handleHealth r, s)
             else if hi_path r = ''/vmconfig'' then Some (ign_handleVMConfig mergePatch r s)
             else if HasPrefix (hi_path r) ''/ready/'' \<and> service \<noteq> [] \<and> sep \<notin> set service
             then ign_handleReady service r s
             else Some (\<lparr>ho_code = 404, ho_body = ''404 page not found'' @ [CHR 0x0A]\<rparr>, s))"

lemma mux_clean: "muxPath (hi_path r) = hi_path r \<Longrightarrow> hi_path r \<noteq> ''*'' \<Longrightarrow> muxEarly r = None"
  by (simp add: muxEarly_def)

text \<open>The paths of the server's patterns are clean.\<close>

lemma ign_paths_clean:
  "muxPath ''/healthz'' = ''/healthz''" "muxPath ''/vmconfig'' = ''/vmconfig''"
  "muxPath (''/ready/'' @ ServiceNameSSH) = ''/ready/'' @ ServiceNameSSH"
  "muxPath (''/ready/'' @ ServiceNamePodman) = ''/ready/'' @ ServiceNamePodman"
  "muxPath (''/ready/'' @ ServiceNameGuestNetwork) = ''/ready/'' @ ServiceNameGuestNetwork"
  by code_simp+

lemma known_paths_served:
  "hi_path r = ''/healthz'' \<Longrightarrow> muxEarly r = None" "hi_path r = ''/vmconfig'' \<Longrightarrow> muxEarly r = None"
  "n \<in> {ServiceNameSSH, ServiceNamePodman, ServiceNameGuestNetwork} \<Longrightarrow> hi_path r = ''/ready/'' @ n \<Longrightarrow> muxEarly r = None"
  using ign_paths_clean by (auto intro!: mux_clean)

subsection \<open>Waiting for the network (server.go)\<close>

definition signalVNetHost :: "ignServer \<Rightarrow> ignServer" where
  "signalVNetHost s =
     (case SignalVNetHostReady (ig_ready s) of None \<Rightarrow> s | Some (_, r) \<Rightarrow> s\<lparr>ig_ready := r\<rparr>)"

definition tapProbe :: "(nat \<Rightarrow> transport) \<Rightarrow> string \<Rightarrow> (ignServer, unit) probe" where
  "tapProbe gvproxy path i s =
     (case httpDo (gvproxy i) (HttpGet (NewUnixClient path [WithTimeout 100]) ''/services/forwarder/all'') of
        Inl _ \<Rightarrow> (None, s)
      | Inr resp \<Rightarrow> if StatusCode resp = 200 then (Some (), signalVNetHost s) else (None, s))"

definition waitGvisorVSockTapOnline ::
    "schedule \<Rightarrow> (nat \<Rightarrow> transport) \<Rightarrow> nat \<Rightarrow> ignServer \<Rightarrow> (unit res \<times> nat \<times> ignServer) option" where
  "waitGvisorVSockTapOnline wake gvproxy i s =
     (case ParseUnixAddr (GVPCtlAddr (ig_spec s)) of
        Inl e \<Rightarrow> Some (Inl (Wrap ''parse gvproxy control address'' e), i, s)
      | Inr addr \<Rightarrow>
          map_option (\<lambda>(r, x). (case r of None \<Rightarrow> Inl ErrCanceled | Some _ \<Rightarrow> Inr (), x))
            (tickLoop wake (tapProbe gvproxy (addr_Path addr)) i s))"

definition waitVirtualNetworkOnline ::
    "schedule \<Rightarrow> (nat \<Rightarrow> transport) \<Rightarrow> nat \<Rightarrow> ignServer \<Rightarrow> (unit res \<times> nat \<times> ignServer) option" where
  "waitVirtualNetworkOnline wake gvproxy i s =
     (if VirtualNetworkMode (ig_spec s) = TSI then Some (Inr (), i, signalVNetHost s)
      else if VirtualNetworkMode (ig_spec s) = GVISOR then waitGvisorVSockTapOnline wake gvproxy i s
      else Some (Inl (Errorf ''unknown virtual network mode''), i, s))"

subsection \<open>Attaching to a running machine (vm\_access.go)\<close>

definition AttachWorkspaceDir :: "transport \<Rightarrow> string \<Rightarrow> MachineSpec res" where
  "AttachWorkspaceDir peer workspace =
     (case httpDo peer (HttpGet (NewUnixClient (ignitionSockFile workspace) []) ''/vmconfig'') of
        Inl e \<Rightarrow> Inl (Wrap ''fetch vm config'' e)
      | Inr resp \<Rightarrow>
          if StatusCode resp \<noteq> 200 then Inl (Errorf ''ignition server returned status'')
          else wrapErr ''decode vm config''
                 (case resp_body resp of
                    Inl e \<Rightarrow> Inl e
                  | Inr body \<Rightarrow> bindR (json_Decode body) decMachine))"

definition Attach :: "transport \<Rightarrow> string res \<Rightarrow> string \<Rightarrow> MachineSpec res" where
  "Attach peer home sessionName =
     (if sessionName = [] then Inl (Errorf ''session name must not be empty'')
      else AttachWorkspaceDir peer (getSessionDir home sessionName))"

subsection \<open>The server as a peer\<close>

text \<open>What arrives of a request on the socket: its method and the path of its URL.\<close>

definition received :: "HttpRequest \<Rightarrow> httpIn" where
  "received r = \<lparr>hi_method = hr_method r,
     hi_path = (case url_Parse (hr_url r) of Inl _ \<Rightarrow> [] | Inr u \<Rightarrow> u_Path u), hi_body = Inr (hr_body r)\<rparr>"

definition ignPeer :: "(string \<Rightarrow> string \<Rightarrow> string res) \<Rightarrow> ignServer \<Rightarrow> transport" where
  "ignPeer mergePatch s r =
     (case ign_serve mergePatch (received r) s of
        None \<Rightarrow> Inl (ErrLib ''EOF'')
      | Some (out, _) \<Rightarrow> Inr \<lparr>StatusCode = ho_code out, resp_body = Inr (ho_body out)\<rparr>)"

text \<open>The state after a sequence of requests.\<close>

fun ignAfter :: "(string \<Rightarrow> string \<Rightarrow> string res) \<Rightarrow> httpIn list \<Rightarrow> ignServer \<Rightarrow> ignServer option" where
  "ignAfter mergePatch [] s = Some s"
| "ignAfter mergePatch (r # rs) s =
     (case ign_serve mergePatch r s of None \<Rightarrow> None | Some (_, s') \<Rightarrow> ignAfter mergePatch rs s')"

subsection \<open>What requests do to the server\<close>

definition reportOf :: "string \<Rightarrow> httpIn \<Rightarrow> bool" where
  "reportOf service r \<longleftrightarrow> hi_method r = ''POST'' \<and> hi_path r = ''/ready/'' @ service"

definition isPatch :: "httpIn \<Rightarrow> bool" where
  "isPatch r \<longleftrightarrow> hi_method r = ''PATCH'' \<and> hi_path r = ''/vmconfig''"

lemma service_of_path: "HasPrefix p ''/ready/'' \<longleftrightarrow> p = ''/ready/'' @ drop (length ''/ready/'') p"
  by (metis HasPrefix_append HasPrefix_iff append_eq_conv_conj)

lemma service_names [simp]:
  "ServiceNameSSH \<noteq> []" "ServiceNamePodman \<noteq> []" "ServiceNameGuestNetwork \<noteq> []"
  "sep \<notin> set ServiceNameSSH" "sep \<notin> set ServiceNamePodman" "sep \<notin> set ServiceNameGuestNetwork"
  "ServiceNameSSH \<noteq> ServiceNamePodman" "ServiceNameSSH \<noteq> ServiceNameGuestNetwork"
  "ServiceNamePodman \<noteq> ServiceNameGuestNetwork" "ServiceNamePodman \<noteq> ServiceNameSSH"
  "ServiceNameGuestNetwork \<noteq> ServiceNameSSH" "ServiceNameGuestNetwork \<noteq> ServiceNamePodman"
  by (simp_all add: ServiceNameSSH_def ServiceNamePodman_def ServiceNameGuestNetwork_def)

text \<open>The effect of one report on one signal.\<close>

lemma ready_effect:
  assumes "readiness_ok (ig_ready s)" and "hi_method r = ''POST''"
  shows "\<exists>out s'. ign_handleReady service r s = Some (out, s') \<and> readiness_ok (ig_ready s') \<and>
    ig_spec s' = ig_spec s \<and>
    chan_closed (SSHReady (ig_ready s')) = (chan_closed (SSHReady (ig_ready s)) \<or> service = ServiceNameSSH) \<and>
    chan_closed (PodmanReady (ig_ready s')) = (chan_closed (PodmanReady (ig_ready s)) \<or> service = ServiceNamePodman) \<and>
    chan_closed (VNetGuestReady (ig_ready s')) =
      (chan_closed (VNetGuestReady (ig_ready s)) \<or> service = ServiceNameGuestNetwork) \<and>
    VNetHostReady (ig_ready s') = VNetHostReady (ig_ready s) \<and>
    ho_code out = (if service \<in> {ServiceNameSSH, ServiceNamePodman, ServiceNameGuestNetwork} then 200 else 404)"
proof -
  consider "service = ServiceNameSSH" | "service = ServiceNamePodman" | "service = ServiceNameGuestNetwork"
    | "service \<notin> {ServiceNameSSH, ServiceNamePodman, ServiceNameGuestNetwork}" by blast
  then show ?thesis
  proof cases
    case 1
    obtain b rd where "SignalSSHReady (ig_ready s) = Some (b, rd)" "chan_closed (SSHReady rd)" "readiness_ok rd"
      using ssh_signal.signal_closes [OF assms(1)] by metis
    with 1 assms(2) signal_frames(1) [of "ig_ready s" b rd] show ?thesis
      by (auto simp: ign_handleReady_def Let_def writeJSON_def)
  next
    case 2
    obtain b rd where "SignalPodmanAPIProxyReady (ig_ready s) = Some (b, rd)" "chan_closed (PodmanReady rd)" "readiness_ok rd"
      using podman_signal.signal_closes [OF assms(1)] by metis
    with 2 assms(2) signal_frames(2) [of "ig_ready s" b rd] show ?thesis
      by (auto simp: ign_handleReady_def Let_def writeJSON_def)
  next
    case 3
    obtain b rd where "SignalVNetGuestReady (ig_ready s) = Some (b, rd)" "chan_closed (VNetGuestReady rd)" "readiness_ok rd"
      using vnetguest_signal.signal_closes [OF assms(1)] by metis
    with 3 assms(2) signal_frames(4) [of "ig_ready s" b rd] show ?thesis
      by (auto simp: ign_handleReady_def Let_def writeJSON_def)
  next
    case 4
    with assms show ?thesis by (auto simp: ign_handleReady_def Let_def writeJSON_def)
  qed
qed

lemma vmconfig_effect:
  "\<exists>out s'. ign_handleVMConfig mp r s = (out, s') \<and> ig_ready s' = ig_ready s \<and>
    (hi_method r \<noteq> ''PATCH'' \<longrightarrow> ig_spec s' = ig_spec s)"
  by (auto simp: ign_handleVMConfig_def split: sum.split)

lemma served_effect:
  assumes "readiness_ok (ig_ready s)" and served: "muxEarly r = None"
  shows "\<exists>out s'. ign_serve mp r s = Some (out, s') \<and> readiness_ok (ig_ready s') \<and>
    (\<not> isPatch r \<longrightarrow> ig_spec s' = ig_spec s) \<and>
    chan_closed (SSHReady (ig_ready s')) = (chan_closed (SSHReady (ig_ready s)) \<or> reportOf ServiceNameSSH r) \<and>
    chan_closed (PodmanReady (ig_ready s')) = (chan_closed (PodmanReady (ig_ready s)) \<or> reportOf ServiceNamePodman r) \<and>
    chan_closed (VNetGuestReady (ig_ready s')) =
      (chan_closed (VNetGuestReady (ig_ready s)) \<or> reportOf ServiceNameGuestNetwork r) \<and>
    VNetHostReady (ig_ready s') = VNetHostReady (ig_ready s)"
proof -
  let ?service = "drop (length ''/ready/'') (hi_path r)"
  consider (health) "hi_path r = ''/healthz''" | (config) "hi_path r = ''/vmconfig''"
    | (report) "hi_path r = ''/ready/'' @ ?service" "?service \<noteq> []" "sep \<notin> set ?service" "hi_method r = ''POST''"
    | (other) "hi_path r \<noteq> ''/healthz''" "hi_path r \<noteq> ''/vmconfig''"
        "\<not> (hi_path r = ''/ready/'' @ ?service \<and> ?service \<noteq> [] \<and> sep \<notin> set ?service \<and> hi_method r = ''POST'')"
    by blast
  then show ?thesis
  proof cases
    case health
    with assms served show ?thesis by (simp add: ign_serve_def reportOf_def)
  next
    case config
    with assms vmconfig_effect [of mp r s] show ?thesis
      by (auto simp: ign_serve_def reportOf_def isPatch_def)
  next
    case report
    have "ign_serve mp r s = ign_handleReady ?service r s"
      using report served service_of_path [of "hi_path r"] by (auto simp: ign_serve_def Let_def)
    moreover have "reportOf n r \<longleftrightarrow> ?service = n" for n
      using report(1,4) unfolding reportOf_def by (metis same_append_eq)
    moreover have "\<not> isPatch r" using report(4) by (simp add: isPatch_def)
    ultimately show ?thesis using ready_effect [OF assms(1) report(4), of ?service] by auto
  next
    case other
    have "\<not> reportOf n r" if "n \<noteq> []" "sep \<notin> set n" for n
      using other(3) that unfolding reportOf_def by auto
    with other assms show ?thesis
      by (auto simp: ign_serve_def Let_def ign_handleReady_def service_of_path [of "hi_path r"])
  qed
qed

lemma serve_effect:
  assumes "readiness_ok (ig_ready s)"
  shows "\<exists>out s'. ign_serve mp r s = Some (out, s') \<and> readiness_ok (ig_ready s') \<and>
    (\<not> isPatch r \<longrightarrow> ig_spec s' = ig_spec s) \<and>
    chan_closed (SSHReady (ig_ready s')) = (chan_closed (SSHReady (ig_ready s)) \<or> reportOf ServiceNameSSH r) \<and>
    chan_closed (PodmanReady (ig_ready s')) = (chan_closed (PodmanReady (ig_ready s)) \<or> reportOf ServiceNamePodman r) \<and>
    chan_closed (VNetGuestReady (ig_ready s')) =
      (chan_closed (VNetGuestReady (ig_ready s)) \<or> reportOf ServiceNameGuestNetwork r) \<and>
    VNetHostReady (ig_ready s') = VNetHostReady (ig_ready s)"
proof (cases "muxEarly r")
  case (Some out)
  then have "\<not> reportOf n r" if "n \<in> {ServiceNameSSH, ServiceNamePodman, ServiceNameGuestNetwork}" for n
    using known_paths_served(3) [OF that, of r] by (auto simp: reportOf_def)
  with Some assms show ?thesis by (simp add: ign_serve_def)
qed (rule served_effect [OF assms])

lemma after_effect:
  assumes "readiness_ok (ig_ready s)"
  shows "\<exists>t. ignAfter mp rs s = Some t \<and> readiness_ok (ig_ready t) \<and>
    (list_all (\<lambda>r. \<not> isPatch r) rs \<longrightarrow> ig_spec t = ig_spec s) \<and>
    chan_closed (SSHReady (ig_ready t)) =
      (chan_closed (SSHReady (ig_ready s)) \<or> list_ex (reportOf ServiceNameSSH) rs) \<and>
    chan_closed (PodmanReady (ig_ready t)) =
      (chan_closed (PodmanReady (ig_ready s)) \<or> list_ex (reportOf ServiceNamePodman) rs) \<and>
    chan_closed (VNetGuestReady (ig_ready t)) =
      (chan_closed (VNetGuestReady (ig_ready s)) \<or> list_ex (reportOf ServiceNameGuestNetwork) rs) \<and>
    VNetHostReady (ig_ready t) = VNetHostReady (ig_ready s)"
  using assms
proof (induction rs arbitrary: s)
  case (Cons r rs)
  obtain out u where u: "ign_serve mp r s = Some (out, u)" "readiness_ok (ig_ready u)"
    "\<not> isPatch r \<longrightarrow> ig_spec u = ig_spec s"
    "chan_closed (SSHReady (ig_ready u)) = (chan_closed (SSHReady (ig_ready s)) \<or> reportOf ServiceNameSSH r)"
    "chan_closed (PodmanReady (ig_ready u)) = (chan_closed (PodmanReady (ig_ready s)) \<or> reportOf ServiceNamePodman r)"
    "chan_closed (VNetGuestReady (ig_ready u)) =
      (chan_closed (VNetGuestReady (ig_ready s)) \<or> reportOf ServiceNameGuestNetwork r)"
    "VNetHostReady (ig_ready u) = VNetHostReady (ig_ready s)"
    using serve_effect [OF Cons.prems, of mp r] by blast
  from Cons.IH [OF u(2)] obtain t where t: "ignAfter mp rs u = Some t" "readiness_ok (ig_ready t)"
    "list_all (\<lambda>r. \<not> isPatch r) rs \<longrightarrow> ig_spec t = ig_spec u"
    "chan_closed (SSHReady (ig_ready t)) =
      (chan_closed (SSHReady (ig_ready u)) \<or> list_ex (reportOf ServiceNameSSH) rs)"
    "chan_closed (PodmanReady (ig_ready t)) =
      (chan_closed (PodmanReady (ig_ready u)) \<or> list_ex (reportOf ServiceNamePodman) rs)"
    "chan_closed (VNetGuestReady (ig_ready t)) =
      (chan_closed (VNetGuestReady (ig_ready u)) \<or> list_ex (reportOf ServiceNameGuestNetwork) rs)"
    "VNetHostReady (ig_ready t) = VNetHostReady (ig_ready u)" by blast
  have "ignAfter mp (r # rs) s = Some t" using t(1) u(1) by simp
  then show ?case
    by (rule exI [of _ t, OF conjI]) (simp add: t(2,4-7) u(4-7), use t(3) u(3) in simp)
qed simp

text \<open>C11. The ignition server over any sequence of requests, from a fresh machine: no request makes a
  handler panic; the SSH, podman and guest-network signals are given exactly when a report for
  them was posted, once for all, and no request gives the host-network signal; and the machine
  description is what it was unless a patch was sent.\<close>

theorem ignition_signals:
  "\<exists>t. ignAfter mp rs (NewServer m NewReadiness) = Some t \<and> readiness_ok (ig_ready t) \<and>
    (list_all (\<lambda>r. \<not> isPatch r) rs \<longrightarrow> ig_spec t = m) \<and>
    chan_closed (SSHReady (ig_ready t)) = list_ex (reportOf ServiceNameSSH) rs \<and>
    chan_closed (PodmanReady (ig_ready t)) = list_ex (reportOf ServiceNamePodman) rs \<and>
    chan_closed (VNetGuestReady (ig_ready t)) = list_ex (reportOf ServiceNameGuestNetwork) rs \<and>
    \<not> chan_closed (VNetHostReady (ig_ready t))"
proof -
  have "readiness_ok (ig_ready (NewServer m NewReadiness))" by (simp add: NewServer_def)
  from after_effect [OF this, of mp rs] show ?thesis
    by (auto simp: NewServer_def NewReadiness_def newLatch_def)
qed

definition sampleReports :: "httpIn list" where
  "sampleReports = [\<lparr>hi_method = ''GET'', hi_path = ''/vmconfig'', hi_body = Inr []\<rparr>,
     \<lparr>hi_method = ''POST'', hi_path = ''/ready/ssh'', hi_body = Inr []\<rparr>,
     \<lparr>hi_method = ''POST'', hi_path = ''/ready/ssh'', hi_body = Inr []\<rparr>,
     \<lparr>hi_method = ''GET'', hi_path = ''/ready/podman'', hi_body = Inr []\<rparr>]"

theorem ignition_signals_witness:
  "\<exists>t. ignAfter (\<lambda>_ b. Inr b) sampleReports (NewServer emptyMachine NewReadiness) = Some t \<and>
     ig_spec t = emptyMachine \<and> chan_closed (SSHReady (ig_ready t)) \<and> \<not> chan_closed (PodmanReady (ig_ready t))"
proof -
  have "list_all (\<lambda>r. \<not> isPatch r) sampleReports" and "list_ex (reportOf ServiceNameSSH) sampleReports"
    and "\<not> list_ex (reportOf ServiceNamePodman) sampleReports"
    by (simp_all add: sampleReports_def isPatch_def reportOf_def ServiceNameSSH_def ServiceNamePodman_def)
  with ignition_signals [of "\<lambda>_ b. Inr b" sampleReports emptyMachine] show ?thesis by blast
qed

subsection \<open>Reading the description through the server\<close>

lemma get_config:
  assumes "hi_method r = ''GET''" and "hi_path r = ''/vmconfig''"
  shows "ign_serve mp r s = Some (\<lparr>ho_code = 200, ho_body = json_Encode (encMachine (ig_spec s))\<rparr>, s)"
  using assms known_paths_served(2) [of r] by (simp add: ign_serve_def ign_handleVMConfig_def writeJSON_def)

text \<open>The description as its reader sees it: the forwarding map in key order.\<close>

definition readBack :: "MachineSpec \<Rightarrow> MachineSpec" where
  "readBack m = m\<lparr>UnixSocketForwards := sortedMap (UnixSocketForwards m)\<rparr>"

lemma served_text:
  assumes "distinct (map fst (UnixSocketForwards m))" and "asciiMachine m"
  shows "machine_Unmarshal (json_Encode (encMachine m)) = Inr (readBack m)"
    and "bindR (json_Decode (json_Encode (encMachine m))) decMachine = Inr (readBack m)"
proof -
  have u: "json_Unmarshal (json_Encode (encMachine m)) = Inr (encMachine m)"
    using unmarshal_encoded assms(2) by (simp add: asciiMachine_def)
  then have "json_Decode (json_Encode (encMachine m)) = Inr (encMachine m)"
    by (auto simp: json_Unmarshal_def json_Decode_def split: option.splits if_splits)
  with u machine_read [OF assms(1)]
  show "machine_Unmarshal (json_Encode (encMachine m)) = Inr (readBack m)"
    and "bindR (json_Decode (json_Encode (encMachine m))) decMachine = Inr (readBack m)"
    by (simp_all add: machine_Unmarshal_def readBack_def)
qed

lemma attach_reads:
  assumes "distinct (map fst (UnixSocketForwards (ig_spec s)))" and "asciiMachine (ig_spec s)"
  shows "AttachWorkspaceDir (ignPeer mp s) workspace = Inr (readBack (ig_spec s))"
proof -
  have u: "ok (url_Parse ''http://unix/vmconfig'')" "Clean ''//vmconfig'' = ''/vmconfig''"
    and p: "received \<lparr>hr_dial = d, hr_timeout = t, hr_method = ''GET'', hr_url = ''http://unix/vmconfig'',
      hr_rawQuery = [], hr_headers = [], hr_body = []\<rparr> =
      \<lparr>hi_method = ''GET'', hi_path = ''/vmconfig'', hi_body = Inr []\<rparr>" for d t
  proof -
    show "ok (url_Parse ''http://unix/vmconfig'')" "Clean ''//vmconfig'' = ''/vmconfig''" by code_simp+
    have "(case url_Parse ''http://unix/vmconfig'' of Inl _ \<Rightarrow> [] | Inr u \<Rightarrow> u_Path u) = ''/vmconfig''" by code_simp
    then show "received \<lparr>hr_dial = d, hr_timeout = t, hr_method = ''GET'', hr_url = ''http://unix/vmconfig'',
      hr_rawQuery = [], hr_headers = [], hr_body = []\<rparr> =
      \<lparr>hi_method = ''GET'', hi_path = ''/vmconfig'', hi_body = Inr []\<rparr>" by (simp add: received_def)
  qed
  let ?r = "HttpGet (NewUnixClient (ignitionSockFile workspace) []) ''/vmconfig''"
  have "wireRequest ?r = \<lparr>hr_dial = DialUnix (ignitionSockFile workspace), hr_timeout = 2000,
      hr_method = ''GET'', hr_url = ''http://unix/vmconfig'', hr_rawQuery = [], hr_headers = [], hr_body = []\<rparr>"
    and "buildURL ?r = ''http://unix/vmconfig''"
    using u(2) by (simp_all add: wireRequest_def buildURL_def HttpGet_def NewRequest_def NewUnixClient_def
        applyOptions_def defaultConfig_def)
  then show ?thesis
    using u(1) p get_config served_text(2) [OF assms]
    by (auto simp: AttachWorkspaceDir_def httpDo_def ok_iff ignPeer_def)
qed

end
