(* ===== verification/Ssh.thy ===== *)
theory Ssh
  imports Machine
begin

text \<open>
  \<open>pkg/ssh/ssh.go\<close>, \<open>pkg/service/ssh\<close> and the access methods of
  \<open>pkg/librevm/vm_access.go\<close>: the SSH client to the guest, who dials where, and what becomes
  of connections and of the terminal.

  What the network, the SSH library (golang.org/x/crypto/ssh), the gvproxy transport and the
  terminal answer is the parameter \<open>ssh_env\<close>. The world keeps every connection ever opened
  with whether it is still open, and whether the terminal is in raw mode. A \<open>select\<close> between
  \<open>ctx.Done()\<close> and the end of the remote command is an optional result: \<open>None\<close> when the
  context wins.
\<close>

subsection \<open>The world\<close>

datatype sshEndpoint = DirectTcp string | ViaTunnel string string int

record sshConn =
  sc_endpoint :: sshEndpoint
  sc_user :: string
  sc_open :: bool

record sshWorld =
  sw_os :: OS
  sw_conns :: "sshConn list"
  sw_raw :: bool

record ssh_env =
  se_parseKey :: "string \<Rightarrow> string res"
  se_dialTCP :: "string \<Rightarrow> nat \<Rightarrow> unit res"
  se_dialUnix :: "string \<Rightarrow> nat \<Rightarrow> unit res"
  se_tunnel :: "string \<Rightarrow> int \<Rightarrow> unit res"
  se_handshake :: "sshEndpoint \<Rightarrow> string \<Rightarrow> string \<Rightarrow> unit res"
  se_session :: "unit res"
  se_run :: "string \<Rightarrow> (string \<times> unit res) option"
  se_isTerminal :: bool
  se_size :: "(nat \<times> nat) res"
  se_pty :: "nat \<Rightarrow> nat \<Rightarrow> unit res"
  se_makeRaw :: "unit res"
  se_shell :: "unit res"
  se_wait :: "unit res option"

definition openConn :: "sshEndpoint \<Rightarrow> string \<Rightarrow> (sshWorld, nat) proc" where
  "openConn e user w = (Inr (length (sw_conns w)),
     w\<lparr>sw_conns := sw_conns w @ [\<lparr>sc_endpoint = e, sc_user = user, sc_open = True\<rparr>]\<rparr>)"

definition closeConn :: "nat \<Rightarrow> sshWorld \<Rightarrow> sshWorld" where
  "closeConn i w =
     (if i < length (sw_conns w)
      then w\<lparr>sw_conns := (sw_conns w)[i := (sw_conns w ! i)\<lparr>sc_open := False\<rparr>]\<rparr> else w)"

subsection \<open>Options and dialling (ssh.go)\<close>

record sshOptions =
  so_user :: string
  so_privateKeyPath :: string
  so_tunnelSocket :: string
  so_dialTimeout :: nat
  so_keepalive :: nat

datatype sshOption =
    SshUser string | SshPrivateKey string | SshTunnel string | SshTimeout nat | SshKeepalive nat

fun applySshOption :: "sshOptions \<Rightarrow> sshOption \<Rightarrow> sshOptions" where
  "applySshOption o' (SshUser user) = o'\<lparr>so_user := user\<rparr>"
| "applySshOption o' (SshPrivateKey path) = o'\<lparr>so_privateKeyPath := path\<rparr>"
| "applySshOption o' (SshTunnel socketPath) = o'\<lparr>so_tunnelSocket := socketPath\<rparr>"
| "applySshOption o' (SshTimeout d) = o'\<lparr>so_dialTimeout := d\<rparr>"
| "applySshOption o' (SshKeepalive d) = o'\<lparr>so_keepalive := d\<rparr>"

definition defaultSshOptions :: sshOptions where
  "defaultSshOptions = \<lparr>so_user = ''root'', so_privateKeyPath = [], so_tunnelSocket = [],
     so_dialTimeout = 5000, so_keepalive = 5000\<rparr>"

text \<open>\<open>fmt.Sscanf(port, "%d", &n)\<close>: leading spaces, a sign, digits; what follows is ignored.\<close>

definition SscanfInt :: "string \<Rightarrow> int res" where
  "SscanfInt s =
     (let t = dropWhile (\<lambda>c. c = CHR '' '') s;
          neg = (case t of c # _ \<Rightarrow> c = CHR ''-'' | [] \<Rightarrow> False);
          u = (case t of c # cs \<Rightarrow> if c = CHR ''-'' \<or> c = CHR ''+'' then cs else t | [] \<Rightarrow> t);
          ds = takeWhile isDigit u
      in if ds = [] then Inl (Errorf ''expected integer'')
         else case Atoi ((if neg then ''-'' else []) @ ds) of Inl e \<Rightarrow> Inl e | Inr n \<Rightarrow> Inr n)"

definition dialDirect :: "ssh_env \<Rightarrow> string \<Rightarrow> string \<Rightarrow> nat \<Rightarrow> (sshWorld, nat) proc" where
  "dialDirect env user address timeout =
     andThen (wrapping ''dial'' (lift (se_dialTCP env address timeout))) (\<lambda>_.
       openConn (DirectTcp address) user)"

definition dialTunnel :: "ssh_env \<Rightarrow> string \<Rightarrow> string \<Rightarrow> string \<Rightarrow> nat \<Rightarrow> (sshWorld, nat) proc" where
  "dialTunnel env user socket address timeout =
     andThen (wrapping ''invalid address'' (lift (SplitHostPort address))) (\<lambda>(host, port).
     andThen (wrapping ''invalid port'' (lift (SscanfInt port))) (\<lambda>portNum.
     andThen (wrapping ''dial gvproxy'' (lift (se_dialUnix env socket timeout))) (\<lambda>_.
     andThen (openConn (ViaTunnel socket host portNum) user) (\<lambda>conn w.
       case se_tunnel env host portNum of
         Inl e \<Rightarrow> (Inl (Wrap ''establish tunnel'' e), closeConn conn w)
       | Inr _ \<Rightarrow> (Inr conn, w)))))"

text \<open>A client: its connection, its options and whether \<open>Close\<close> ran. The keep-alive loop runs
  as long as the client is open and its requests succeed.\<close>

record sshClient =
  cl_conn :: nat
  cl_opts :: sshOptions
  cl_closed :: bool
  cl_keepalive :: bool

text \<open>\<open>se_handshake\<close> is the outcome of a handshake that ends. \<open>ssh.NewClientConn\<close> sets no deadline and does
  not look at the context, so a peer that takes the connection and then stays silent blocks
  \<open>Dial\<close> for good; that run is not a value here. \<open>Guest_Wait\<close> models it for the readiness probe
  (\<open>IsSSHReadyOn\<close>, \<open>ssh_probe_hangs\<close>).\<close>

definition sshDial :: "ssh_env \<Rightarrow> string \<Rightarrow> sshOption list \<Rightarrow> (sshWorld, sshClient) proc" where
  "sshDial env address opts w =
     (let o' = foldl applySshOption defaultSshOptions opts
      in if so_privateKeyPath o' = [] then (Inl (Errorf ''private key path is required''), w)
         else case os_ReadFile (so_privateKeyPath o') (sw_os w) of
                (Inl e, _) \<Rightarrow> (Inl (Wrap ''read private key'' e), w)
              | (Inr keyData, _) \<Rightarrow>
                  andThen (wrapping ''parse private key'' (lift (se_parseKey env keyData))) (\<lambda>signer.
                  andThen (if so_tunnelSocket o' \<noteq> []
                           then dialTunnel env (so_user o') (so_tunnelSocket o') address (so_dialTimeout o')
                           else dialDirect env (so_user o') address (so_dialTimeout o')) (\<lambda>conn w1.
                    case se_handshake env (sc_endpoint (sw_conns w1 ! conn)) (so_user o') signer of
                      Inl e \<Rightarrow> (Inl (Wrap ''ssh handshake'' e), closeConn conn w1)
                    | Inr _ \<Rightarrow> (Inr \<lparr>cl_conn = conn, cl_opts = o', cl_closed = False,
                                     cl_keepalive = 0 < so_keepalive o'\<rparr>, w1))) w)"

definition sshClose :: "sshClient \<Rightarrow> sshWorld \<Rightarrow> sshClient \<times> sshWorld" where
  "sshClose c w =
     (if cl_closed c then (c, w)
      else (c\<lparr>cl_closed := True, cl_keepalive := False\<rparr>, closeConn (cl_conn c) w))"

definition ErrClientClosed :: goerr where "ErrClientClosed = Errorf ''ssh client is closed''"

text \<open>One turn of the keep-alive loop: closed, or a tick and whether the request succeeded.\<close>

definition keepaliveTurn :: "sshClient \<Rightarrow> bool \<Rightarrow> sshClient" where
  "keepaliveTurn c requestOk =
     (if cl_closed c \<or> \<not> requestOk then c\<lparr>cl_keepalive := False\<rparr> else c)"

subsection \<open>Commands and shells (ssh.go)\<close>

definition sshRunWith :: "ssh_env \<Rightarrow> sshClient \<Rightarrow> string \<Rightarrow> unit res" where
  "sshRunWith env c cmd =
     (if cl_closed c then Inl ErrClientClosed
      else case se_session env of
             Inl e \<Rightarrow> Inl (Wrap ''create session'' e)
           | Inr _ \<Rightarrow>
               (case se_run env cmd of None \<Rightarrow> Inl ErrCanceled | Some (out, r) \<Rightarrow> r))"

definition sshRun :: "ssh_env \<Rightarrow> sshClient \<Rightarrow> string \<Rightarrow> unit res" where
  "sshRun env c cmd = (if cl_closed c then Inl ErrClientClosed else sshRunWith env c cmd)"

definition sshOutput :: "ssh_env \<Rightarrow> sshClient \<Rightarrow> string \<Rightarrow> string res" where
  "sshOutput env c cmd =
     (if cl_closed c then Inl ErrClientClosed
      else case se_session env of
             Inl e \<Rightarrow> Inl (Wrap ''create session'' e)
           | Inr _ \<Rightarrow>
               (case se_run env cmd of
                  None \<Rightarrow> Inl ErrCanceled
                | Some (out, Inl e) \<Rightarrow> Inl e
                | Some (out, Inr _) \<Rightarrow> Inr out))"

text \<open>\<open>ShellWith\<close>: the terminal is put into raw mode after the PTY is granted; the deferred
  function restores the state it had.\<close>

definition ShellWith :: "ssh_env \<Rightarrow> sshClient \<Rightarrow> bool \<Rightarrow> (sshWorld, unit) proc" where
  "ShellWith env c stdinIsFile w =
     (if cl_closed c then (Inl ErrClientClosed, w)
      else case se_session env of
             Inl e \<Rightarrow> (Inl (Wrap ''create session'' e), w)
           | Inr _ \<Rightarrow>
               let tty = (stdinIsFile \<and> se_isTerminal env);
                   (width, height) = (case se_size env of
                      Inr (w', h) \<Rightarrow> if tty then (w', h) else (80, 24) | Inl _ \<Rightarrow> (80, 24));
                   shell = (\<lambda>w. (case se_shell env of
                      Inl e \<Rightarrow> (Inl (Wrap ''start shell'' e), w)
                    | Inr _ \<Rightarrow> ((case se_wait env of None \<Rightarrow> Inl ErrCanceled | Some r \<Rightarrow> r), w)))
               in case se_pty env height width of
                    Inl e \<Rightarrow> (Inl (Wrap ''request pty'' e), w)
                  | Inr _ \<Rightarrow>
                      if tty
                      then (case se_makeRaw env of
                              Inl e \<Rightarrow> (Inl (Wrap ''set raw mode'' e), w)
                            | Inr _ \<Rightarrow>
                                let old = sw_raw w; (r, w') = shell (w\<lparr>sw_raw := True\<rparr>)
                                in (r, w'\<lparr>sw_raw := old\<rparr>))
                      else shell w)"

definition sshShell :: "ssh_env \<Rightarrow> sshClient \<Rightarrow> (sshWorld, unit) proc" where
  "sshShell env c = ShellWith env c True"

subsection \<open>The client of a machine (pkg/service/ssh)\<close>

definition MakeSSHClient :: "ssh_env \<Rightarrow> MachineSpec \<Rightarrow> (sshWorld, sshClient) proc" where
  "MakeSSHClient env vmc w =
     (let dialOpts = [SshUser DefaultGuestUser, SshPrivateKey (HostSSHPrivateKeyFile (SSHInfo vmc)),
                      SshTimeout 2000, SshKeepalive 2000]
      in if VirtualNetworkMode vmc = GVISOR
         then case ParseUnixAddr (GVPCtlAddr vmc) of
                Inl e \<Rightarrow> (Inl e, w)
              | Inr gvCtlAddr \<Rightarrow>
                  let portStr = (case SplitHostPort (GuestSSHServerListenAddr (SSHInfo vmc)) of
                                   Inr (_, p) \<Rightarrow> p | Inl _ \<Rightarrow> [])
                  in sshDial env (JoinHostPort GuestIP portStr)
                       (dialOpts @ [SshTunnel (addr_Path gvCtlAddr)]) w
         else sshDial env (GuestSSHServerListenAddr (SSHInfo vmc)) dialOpts w)"

text \<open>\<open>client, err := MakeSSHClient(...); if err != nil { return err }; defer client.Close();
  return f(client)\<close>, the frame of every access method.\<close>

definition withClient ::
    "ssh_env \<Rightarrow> MachineSpec \<Rightarrow> string \<Rightarrow> (sshClient \<Rightarrow> (sshWorld, 'a) proc) \<Rightarrow> (sshWorld, 'a) proc" where
  "withClient env vmc msg f w =
     (case MakeSSHClient env vmc w of
        (Inl e, w1) \<Rightarrow> (Inl (if msg = [] then e else Wrap msg e), w1)
      | (Inr c, w1) \<Rightarrow> (case f c w1 of (r, w2) \<Rightarrow> (r, snd (sshClose c w2))))"

text \<open>The goroutine of \<open>GuestExec\<close>: the command runs and the client is closed after it.\<close>

definition GuestExec :: "ssh_env \<Rightarrow> (string list \<Rightarrow> string) \<Rightarrow> MachineSpec \<Rightarrow> string \<Rightarrow> string list \<Rightarrow>
    (sshWorld, unit res) proc" where
  "GuestExec env quote vmc bin args w =
     (case MakeSSHClient env vmc w of
        (Inl e, w1) \<Rightarrow> (Inl e, w1)
      | (Inr c, w1) \<Rightarrow> (Inr (sshRunWith env c (quote (bin # args))), snd (sshClose c w1)))"

subsection \<open>Access methods (vm_access.go, vm.go)\<close>

definition attachedRun :: "ssh_env \<Rightarrow> (string list \<Rightarrow> string) \<Rightarrow> MachineSpec \<Rightarrow> string list \<Rightarrow>
    (sshWorld, unit) proc" where
  "attachedRun env quote vmc cmdline0 =
     (let cmdline = (if cmdline0 = [] then [Join [''/'', ''bin'', ''sh'']] else cmdline0)
      in withClient env vmc [] (\<lambda>c w. (sshRun env c (quote cmdline), w)))"

definition attachedShell :: "ssh_env \<Rightarrow> MachineSpec \<Rightarrow> (sshWorld, unit) proc" where
  "attachedShell env vmc = withClient env vmc [] (sshShell env)"

definition vmExec :: "ssh_env \<Rightarrow> (string list \<Rightarrow> string) \<Rightarrow> MachineSpec \<Rightarrow> string \<Rightarrow> string list \<Rightarrow>
    (sshWorld, string) proc" where
  "vmExec env quote vmc name args =
     withClient env vmc ''ssh connect'' (\<lambda>c w. (sshOutput env c (quote (name # args)), w))"

definition vmExecWith :: "ssh_env \<Rightarrow> (string list \<Rightarrow> string) \<Rightarrow> MachineSpec \<Rightarrow> string \<Rightarrow> string list \<Rightarrow>
    (sshWorld, unit) proc" where
  "vmExecWith env quote vmc name args =
     withClient env vmc ''ssh connect'' (\<lambda>c w. (sshRunWith env c (quote (name # args)), w))"

definition vmShell :: "ssh_env \<Rightarrow> MachineSpec \<Rightarrow> (sshWorld, unit) proc" where
  "vmShell env vmc = withClient env vmc ''ssh connect'' (sshShell env)"

text \<open>\<open>bytes.TrimRight(out, " \t\r\n")\<close>.\<close>

definition trimRightWs :: "string \<Rightarrow> string" where
  "trimRightWs s = rev (dropWhile (\<lambda>c. c \<in> set [CHR '' '', CHR 0x09, CHR 0x0D, CHR 0x0A]) (rev s))"

definition vmExecOutput :: "ssh_env \<Rightarrow> (string list \<Rightarrow> string) \<Rightarrow> MachineSpec \<Rightarrow> string \<Rightarrow> string list \<Rightarrow>
    (sshWorld, string) proc" where
  "vmExecOutput env quote vmc name args =
     andThen (vmExec env quote vmc name args) (\<lambda>out. succeed (trimRightWs out))"

definition execIgnoreErr :: "ssh_env \<Rightarrow> (string list \<Rightarrow> string) \<Rightarrow> MachineSpec \<Rightarrow> string list \<Rightarrow>
    sshWorld \<Rightarrow> sshWorld" where
  "execIgnoreErr env quote vmc cmdline w =
     snd (withClient env vmc [] (\<lambda>c w. (sshRun env c (quote cmdline), w)) w)"

subsection \<open>The built-in agent (oo_ssh_agent.go)\<close>

text \<open>\<open>upstreamSocket\<close> is what the agent library reports; \<open>ag_serve\<close> how serving ends, \<open>None\<close>
  when the context ended it.\<close>

record OOSSHAgentService =
  ag_upstreamSocket :: string
  ag_localSocket :: string

definition OOSSHAgentGuestSocket :: string where
  "OOSSHAgentGuestSocket = ''/opt/ssh_auth/oo-ssh-agent.sock''"

definition NewOOSSHAgentService :: "string \<Rightarrow> string \<Rightarrow> OOSSHAgentService" where
  "NewOOSSHAgentService upstream localSocketPath =
     \<lparr>ag_upstreamSocket = upstream, ag_localSocket = localSocketPath\<rparr>"

definition agentEnabled :: "OOSSHAgentService option \<Rightarrow> bool" where
  "agentEnabled a = (case a of None \<Rightarrow> False | Some ag \<Rightarrow> ag_upstreamSocket ag \<noteq> [])"

definition LocalSocketPath :: "OOSSHAgentService option \<Rightarrow> string" where
  "LocalSocketPath a = (case a of None \<Rightarrow> [] | Some ag \<Rightarrow> ag_localSocket ag)"

definition ForwardSpec :: "OOSSHAgentService option \<Rightarrow> string" where
  "ForwardSpec a = OOSSHAgentGuestSocket @ '':'' @ LocalSocketPath a"

definition agentRun :: "(OS, unit res option) proc \<Rightarrow> OOSSHAgentService option \<Rightarrow> (OS, unit) proc" where
  "agentRun serve a s =
     (case a of
        None \<Rightarrow> (Inr (), s)
      | Some ag \<Rightarrow>
          if \<not> agentEnabled a then (Inr (), s)
          else if ag_localSocket ag = [] then (Inl (Errorf ''local SSH agent socket path is empty''), s)
          else andThen (wrapping ''create ssh agent socket dir'' (os_MkdirAll (Dir (ag_localSocket ag)))) (\<lambda>_.
               andThen (wrapping ''remove stale ssh agent socket'' (removeIfExists (ag_localSocket ag))) (\<lambda>_ s1.
                 case serve s1 of
                   (r, s2) \<Rightarrow>
                     ((case r of Inl e \<Rightarrow> Inl e | Inr None \<Rightarrow> Inr () | Inr (Some x) \<Rightarrow> x),
                      snd (os_Remove (ag_localSocket ag) s2)))) s)"

subsection \<open>Connections and the terminal\<close>

text \<open>What an operation may leave: it opened connections, all closed again; the terminal mode is
  the one it found; the files are untouched.\<close>

definition tidy :: "sshWorld \<Rightarrow> sshWorld \<Rightarrow> bool" where
  "tidy w w' \<longleftrightarrow> (\<exists>new. sw_conns w' = sw_conns w @ new \<and> list_all (\<lambda>c. \<not> sc_open c) new) \<and>
     sw_raw w' = sw_raw w \<and> sw_os w' = sw_os w"

lemma tidy_refl [simp]: "tidy w w"
  by (simp add: tidy_def)

definition endpointOf :: "sshOptions \<Rightarrow> string \<Rightarrow> sshEndpoint \<Rightarrow> bool" where
  "endpointOf o' address e \<longleftrightarrow>
     (if so_tunnelSocket o' = [] then e = DirectTcp address
      else \<exists>host port n. SplitHostPort address = Inr (host, port) \<and> SscanfInt port = Inr n \<and>
        e = ViaTunnel (so_tunnelSocket o') host n)"

text \<open>Opening a connection, with the new connection at the end of the list.\<close>

definition opened :: "sshWorld \<Rightarrow> sshEndpoint \<Rightarrow> string \<Rightarrow> sshWorld" where
  "opened w e user = w\<lparr>sw_conns := sw_conns w @ [\<lparr>sc_endpoint = e, sc_user = user, sc_open = True\<rparr>]\<rparr>"

lemma closeConn_opened:
  "closeConn (length (sw_conns w)) (opened w e user) =
     w\<lparr>sw_conns := sw_conns w @ [\<lparr>sc_endpoint = e, sc_user = user, sc_open = False\<rparr>]\<rparr>"
  by (simp add: closeConn_def opened_def)

lemma tidy_closed [simp]: "tidy w (closeConn (length (sw_conns w)) (opened w e user))"
  by (simp add: closeConn_opened tidy_def)

lemma openConn_opened [simp]: "openConn e user w = (Inr (length (sw_conns w)), opened w e user)"
  by (simp add: openConn_def opened_def)

text \<open>The outcome of dialling: a failure leaves things tidy, a success one open connection.\<close>

definition dialOutcome :: "sshOptions \<Rightarrow> string \<Rightarrow> sshWorld \<Rightarrow> nat res \<times> sshWorld \<Rightarrow> bool" where
  "dialOutcome o' address w p \<longleftrightarrow>
     (case p of
        (Inl e, w') \<Rightarrow> tidy w w'
      | (Inr conn, w') \<Rightarrow> conn = length (sw_conns w) \<and>
          (\<exists>ep. endpointOf o' address ep \<and> w' = opened w ep (so_user o')))"

lemma dial_outcome:
  "dialOutcome o' address w
     ((if so_tunnelSocket o' \<noteq> []
       then dialTunnel env (so_user o') (so_tunnelSocket o') address (so_dialTimeout o')
       else dialDirect env (so_user o') address (so_dialTimeout o')) w)"
proof (cases "so_tunnelSocket o' = []")
  case True
  then show ?thesis
    by (auto simp: dialOutcome_def dialDirect_def andThen_def wrapping_def lift_def endpointOf_def
        wrapErr_def split: sum.splits)
next
  case False
  then show ?thesis
    by (auto simp: dialOutcome_def dialTunnel_def andThen_def wrapping_def lift_def endpointOf_def
        wrapErr_def split: sum.splits prod.splits)
qed

lemma sshDial_cases:
  assumes "sshDial env address opts w = (r, w')"
  defines "o' \<equiv> foldl applySshOption defaultSshOptions opts"
  shows "case r of
      Inl e \<Rightarrow> tidy w w'
    | Inr c \<Rightarrow> cl_conn c = length (sw_conns w) \<and> \<not> cl_closed c \<and> cl_opts c = o' \<and>
        (\<exists>ep. endpointOf o' address ep \<and> w' = opened w ep (so_user o'))"
proof -
  let ?dial = "if so_tunnelSocket o' \<noteq> []
    then dialTunnel env (so_user o') (so_tunnelSocket o') address (so_dialTimeout o')
    else dialDirect env (so_user o') address (so_dialTimeout o')"
  consider (early) e where "r = Inl e" "w' = w"
    | (dial) signer where "andThen ?dial (\<lambda>conn w1.
          case se_handshake env (sc_endpoint (sw_conns w1 ! conn)) (so_user o') signer of
            Inl e \<Rightarrow> (Inl (Wrap ''ssh handshake'' e), closeConn conn w1)
          | Inr _ \<Rightarrow> (Inr \<lparr>cl_conn = conn, cl_opts = o', cl_closed = False,
                           cl_keepalive = 0 < so_keepalive o'\<rparr>, w1)) w = (r, w')"
    using assms(1)
    unfolding sshDial_def Let_def o'_def [symmetric]
    by (cases "so_privateKeyPath o' = []") (auto simp: andThen_def [of "wrapping m n" for m n]
        wrapping_def lift_def wrapErr_def split: prod.splits sum.splits)
  then show ?thesis
  proof cases
    case early
    then show ?thesis by simp
  next
    case dial
    then show ?thesis
      using dial_outcome [of o' address w env]
      by (cases "?dial w")
        (auto simp: andThen_def dialOutcome_def split: sum.splits)
  qed
qed

lemma MakeSSHClient_cases:
  assumes "MakeSSHClient env vmc w = (r, w')"
  shows "case r of Inl e \<Rightarrow> tidy w w'
    | Inr c \<Rightarrow> cl_conn c = length (sw_conns w) \<and> \<not> cl_closed c \<and>
        (\<exists>ep. w' = opened w ep (so_user (cl_opts c)))"
  using assms
  by (auto simp: MakeSSHClient_def Let_def dest!: sshDial_cases split: if_splits sum.splits)

lemma ShellWith_world [simp]: "snd (ShellWith env c f w) = w"
  by (simp add: ShellWith_def Let_def split: sum.split prod.split option.split)

lemma withClient_tidy:
  assumes "\<And>c u. snd (f c u) = u"
  shows "tidy w (snd (withClient env vmc msg f w))"
proof (cases "MakeSSHClient env vmc w")
  case (Pair r w1)
  show ?thesis
  proof (cases r)
    case (Inl e)
    with Pair MakeSSHClient_cases [OF Pair] show ?thesis by (simp add: withClient_def)
  next
    case (Inr c)
    with MakeSSHClient_cases [OF Pair] obtain ep where c: "cl_conn c = length (sw_conns w)"
      "\<not> cl_closed c" "w1 = opened w ep (so_user (cl_opts c))" by auto
    have "snd (withClient env vmc msg f w) = closeConn (length (sw_conns w)) w1"
      using Pair Inr c assms [of c w1] by (auto simp: withClient_def sshClose_def split: prod.split)
    with c show ?thesis by simp
  qed
qed

lemma GuestExec_tidy: "tidy w (snd (GuestExec env quote vmc bin args w))"
proof -
  have "snd (GuestExec env quote vmc bin args w) = snd (withClient env vmc [] (\<lambda>c u. (Inr (), u)) w)"
    by (simp add: GuestExec_def withClient_def split: prod.split sum.split)
  then show ?thesis using withClient_tidy [of "\<lambda>c u. (Inr (), u)"] by simp
qed

lemma SscanfInt_Itoa: "n < 2 ^ 63 \<Longrightarrow> SscanfInt (Itoa n) = Inr (int n)"
proof -
  assume n: "n < 2 ^ 63"
  obtain c cs where d: "Itoa n = c # cs" using Itoa_not_Nil by (cases "Itoa n") auto
  with Itoa_digits [of n] have c: "isDigit c" "list_all isDigit (Itoa n)" by auto
  then have "c \<noteq> CHR '' ''" "c \<noteq> CHR ''-''" "c \<noteq> CHR ''+''" by (auto simp: isDigit_def)
  moreover have "\<forall>x \<in> set cs. isDigit x" using c(2) d by (simp add: list_all_iff)
  then have "takeWhile isDigit cs = cs" by (rule takeWhile_eq_all_conv [THEN iffD2])
  ultimately show ?thesis
    using d c Atoi_Itoa [OF n] by (simp add: SscanfInt_def Let_def del: takeWhile_eq_all_conv)
qed

subsection \<open>Properties\<close>


text \<open>Where the client connects: for a machine whose SSH server listens on
  \<open>ip:port\<close> and whose gvproxy control address is that of the path \<open>ctl\<close>, a successful
  \<open>MakeSSHClient\<close> has one open connection as the guest's user: in gvisor mode through the control
  socket to the guest's address and that port, in every other mode directly to the listen
  address.\<close>

theorem ssh_client_endpoint:
  assumes "MakeSSHClient env vmc w = (Inr c, w')"
    and "GuestSSHServerListenAddr (SSHInfo vmc) = JoinHostPort ip (Itoa port)"
    and "GVPCtlAddr vmc = unixURL ctl" and "IsAbs ctl" and "plainHost ip" and "port < 65536"
  shows "cl_conn c = length (sw_conns w) \<and> sw_conns w' = sw_conns w @
    [\<lparr>sc_endpoint = (if VirtualNetworkMode vmc = GVISOR then ViaTunnel ctl GuestIP (int port)
        else DirectTcp (JoinHostPort ip (Itoa port))), sc_user = ''root'', sc_open = True\<rparr>]"
proof (cases "VirtualNetworkMode vmc = GVISOR")
  case False
  with assms(1,2) show ?thesis
    by (auto simp: MakeSSHClient_def Let_def endpointOf_def opened_def defaultSshOptions_def
        DefaultGuestUser_def dest!: sshDial_cases)
next
  case True
  have "plainHost GuestIP" by code_simp
  then have g: "SplitHostPort (JoinHostPort GuestIP (Itoa port)) = Inr (GuestIP, Itoa port)"
    by (rule host_port_round_trip(2))
  have "ctl \<noteq> []" using assms(4) by auto
  then show ?thesis
    using True assms(1) host_port_round_trip(2) [OF assms(5), of port] g SscanfInt_Itoa [of port] assms(6)
    by (auto simp: MakeSSHClient_def Let_def assms(2,3) ParseUnixAddr_unixURL [OF assms(4)]
        endpointOf_def opened_def defaultSshOptions_def DefaultGuestUser_def dest!: sshDial_cases)
qed

definition sampleSshEnv :: ssh_env where
  "sampleSshEnv = \<lparr>se_parseKey = (\<lambda>k. Inr k), se_dialTCP = (\<lambda>_ _. Inr ()), se_dialUnix = (\<lambda>_ _. Inr ()),
     se_tunnel = (\<lambda>_ _. Inr ()), se_handshake = (\<lambda>_ _ _. Inr ()), se_session = Inr (),
     se_run = (\<lambda>_. Some ([], Inr ())), se_isTerminal = True, se_size = Inr (80, 25),
     se_pty = (\<lambda>_ _. Inr ()), se_makeRaw = Inr (), se_shell = Inr (), se_wait = None\<rparr>"

definition sampleSshMachine :: MachineSpec where
  "sampleSshMachine = emptyMachine\<lparr>VirtualNetworkMode := GVISOR, GVPCtlAddr := unixURL ''/c'',
     SSHInfo := emptySSHInfo\<lparr>HostSSHPrivateKeyFile := ''/k'',
       GuestSSHServerListenAddr := JoinHostPort ''0.0.0.0'' (Itoa 22)\<rparr>\<rparr>"

definition sampleSshWorld :: sshWorld where
  "sampleSshWorld = \<lparr>sw_os = \<lparr>os_fs = [(''/k'', File ''key'' [])], os_cwd = ''/'', os_home = Inr ''/'',
       os_fault = (\<lambda>_ _. False), os_ports = [], os_uuids = [], os_locks = []\<rparr>,
     sw_conns = [], sw_raw = False\<rparr>"

theorem ssh_client_endpoint_witness:
  "\<exists>c w'. MakeSSHClient sampleSshEnv sampleSshMachine sampleSshWorld = (Inr c, w') \<and>
     map sc_endpoint (sw_conns w') = [ViaTunnel ''/c'' ''192.168.127.2'' 22]"
proof -
  have "ok (fst (MakeSSHClient sampleSshEnv sampleSshMachine sampleSshWorld))" by code_simp
  then obtain c w' where r: "MakeSSHClient sampleSshEnv sampleSshMachine sampleSshWorld = (Inr c, w')"
    by (auto simp: ok_iff) (metis prod.collapse)
  have "IsAbs ''/c''" "plainHost ''0.0.0.0''" by code_simp+
  from ssh_client_endpoint [OF r _ _ this, of 22] show ?thesis
    using r by (simp add: sampleSshMachine_def sampleSshWorld_def GuestIP_def)
qed

end
