(* ===== verification/Gvproxy.thy ===== *)
theory Gvproxy
  imports Machine Relay
begin

text \<open>
  \<open>pkg/gvproxy/gvproxy.go\<close>: configuring and starting the user-mode network stack of the host.

  The stack itself (gvisor-tap-vsock) and the YAML decoder are libraries outside the
  repository. Of the configuration the model keeps what the code sets; the embedded
  \<open>config.yaml\<close> is a parameter (the decoded configuration). Starting is the sequence of library
  calls \<open>Run\<close> makes, with what each returns as a parameter.
\<close>

record GvproxyConfig =
  gv_Listen :: "string list"
  gv_Protocol :: string
  gv_GatewayIP :: string
  gv_Forwards :: "(string \<times> string) list"
  gv_Qemu :: string
  gv_Vfkit :: string
  gv_Services :: string

record gv_env =
  gv_yaml :: "GvproxyConfig res"
  gv_linux :: bool
  gv_canListen :: "u16 \<Rightarrow> bool"

definition guestPortOf :: "string \<Rightarrow> string" where
  "guestPortOf address = (case SplitHostPort address of Inl _ \<Rightarrow> [] | Inr (_, port) \<Rightarrow> port)"

text \<open>The interface the virtual machine's network card connects to: qemu's stream on Linux,
  vfkit's datagrams on macOS.\<close>

definition gvInterface :: "gv_env \<Rightarrow> string \<Rightarrow> GvproxyConfig \<Rightarrow> (OS, GvproxyConfig) proc" where
  "gvInterface env vnetAddr cfg =
     (if gv_linux env then
        andThen (wrapping ''invalid value for qemu listen address'' (lift (url_Parse vnetAddr))) (\<lambda>uri.
          if u_Scheme uri \<noteq> ''unix'' then failWith (Errorf ''qemu listen address must be unix:// address'')
          else andThen (ignoring (os_Remove (u_Path uri))) (\<lambda>_.
                 succeed (cfg\<lparr>gv_Qemu := vnetAddr, gv_Protocol := ''qemu''\<rparr>)))
      else
        andThen (wrapping ''invalid value for vfkit listen address'' (lift (url_Parse vnetAddr))) (\<lambda>uri.
          if u_Scheme uri \<noteq> ''unixgram'' then failWith (Errorf ''vfkit listen address must be unixgram:// address'')
          else andThen (ignoring (os_Remove (u_Path uri))) (\<lambda>_.
                 succeed (cfg\<lparr>gv_Vfkit := vnetAddr, gv_Protocol := ''vfkit''\<rparr>))))"

definition InitCfg :: "gv_env \<Rightarrow> MachineSpec \<Rightarrow> (OS, GvproxyConfig \<times> MachineSpec) proc" where
  "InitCfg env vmc =
     andThen (wrapping ''failed to parse configuration'' (lift (gv_yaml env))) (\<lambda>config.
     andThen (gvInterface env (GVPVNetAddr vmc) (config\<lparr>gv_Listen := gv_Listen config @ [GVPCtlAddr vmc]\<rparr>)) (\<lambda>config.
     andThen (wrapping ''get available port for ssh forwarding''
                (GetAvailablePort (gv_canListen env) (of_nat SSHLocalForwardListenPort))) (\<lambda>port.
       let local = LocalHost @ '':'' @ Itoa (unat port);
           guest = JoinHostPort GuestIP (guestPortOf (GuestSSHServerListenAddr (SSHInfo vmc)))
       in succeed (config\<lparr>gv_Forwards := [(local, guest)]\<rparr>,
                   vmc\<lparr>SSHInfo := (SSHInfo vmc)\<lparr>HostSSHProxyListenAddr := local\<rparr>\<rparr>))))"

subsection \<open>Starting the stack (Run)\<close>

text \<open>The library calls, in the order of \<open>Run\<close>; each \<open>Serve\<close> is a server that is started.\<close>

datatype gvCall =
    NewNetwork
  | TransportListen string
  | GatewayListen string
  | UnixgramListen string
  | Serve string

fun gvRunCalls :: "(gvCall \<Rightarrow> unit res) \<Rightarrow> (string \<times> gvCall) list \<Rightarrow> gvCall list \<Rightarrow> unit res \<times> gvCall list" where
  "gvRunCalls ret [] done = (Inr (), done)"
| "gvRunCalls ret ((msg, c) # cs) done =
     (case ret c of
        Inl e \<Rightarrow> (Inl (Wrap msg e), done @ [c])
      | Inr _ \<Rightarrow> gvRunCalls ret cs (done @ [c]))"

definition gvPlan :: "GvproxyConfig \<Rightarrow> (string \<times> gvCall) list" where
  "gvPlan cfg =
     (''create virtual network'', NewNetwork) #
     concat (map (\<lambda>endpoint. [(''cannot listen'', TransportListen endpoint), ([], Serve endpoint)]) (gv_Listen cfg)) @
     (if gv_Services cfg \<noteq> []
      then [(''cannot listen'', TransportListen (gv_Services cfg)), ([], Serve (gv_Services cfg))] else []) @
     [(''listen gateway'', GatewayListen (gv_GatewayIP cfg @ '':80'')), ([], Serve (gv_GatewayIP cfg @ '':80''))] @
     (if gv_Qemu cfg \<noteq> [] then [(''qemu listen error'', TransportListen (gv_Qemu cfg))] else []) @
     (if gv_Vfkit cfg \<noteq> [] then [(''vfkit listen error'', UnixgramListen (gv_Vfkit cfg))] else [])"

text \<open>\<open>waited\<close> is what the group of servers ends with.\<close>

definition gvproxy_Run ::
    "gv_env \<Rightarrow> (gvCall \<Rightarrow> unit res) \<Rightarrow> unit res \<Rightarrow> MachineSpec \<Rightarrow> (OS, MachineSpec \<times> gvCall list \<times> unit res) proc" where
  "gvproxy_Run env ret waited vmc =
     andThen (wrapping ''init gvproxy config'' (InitCfg env vmc)) (\<lambda>(config, vmc').
       case gvRunCalls ret (gvPlan config) [] of
         (Inl e, done) \<Rightarrow> succeed (vmc', done, Inl e)
       | (Inr _, done) \<Rightarrow> succeed (vmc', done, waited))"

subsection \<open>The forwarded SSH port\<close>

lemma unat_u16_u64: "unat (ucast (q :: u16) :: u64) < 65536"
proof -
  have "unat q < 2 ^ LENGTH(16)" by (rule unsigned_less)
  then show ?thesis by (simp add: unsigned_ucast_eq take_bit_nat_eq_self)
qed

lemma GetAvailablePort_bound: "GetAvailablePort can p s = (Inr port, t) \<Longrightarrow> unat port < 65536"
  using unat_u16_u64 by (auto simp: GetAvailablePort_def split: if_splits list.splits)

lemma InitCfg_forwards:
  assumes "InitCfg env vmc s = (Inr (cfg, vmc'), t)"
  shows "\<exists>port :: u64. gv_Forwards cfg = [(LocalHost @ '':'' @ Itoa (unat port),
      JoinHostPort GuestIP (guestPortOf (GuestSSHServerListenAddr (SSHInfo vmc))))] \<and>
    vmc' = vmc\<lparr>SSHInfo := (SSHInfo vmc)\<lparr>HostSSHProxyListenAddr := LocalHost @ '':'' @ Itoa (unat port)\<rparr>\<rparr> \<and>
    last (gv_Listen cfg) = GVPCtlAddr vmc \<and>
    (if gv_linux env then gv_Qemu cfg else gv_Vfkit cfg) = GVPVNetAddr vmc \<and> unat port < 65536"
proof -
  obtain c0 c1 u v port where "gvInterface env (GVPVNetAddr vmc) (c0\<lparr>gv_Listen := gv_Listen c0 @ [GVPCtlAddr vmc]\<rparr>) u = (Inr c1, v)"
    and p: "cfg = c1\<lparr>gv_Forwards := [(LocalHost @ '':'' @ Itoa (unat (port :: u64)),
      JoinHostPort GuestIP (guestPortOf (GuestSSHServerListenAddr (SSHInfo vmc))))]\<rparr>"
      "vmc' = vmc\<lparr>SSHInfo := (SSHInfo vmc)\<lparr>HostSSHProxyListenAddr := LocalHost @ '':'' @ Itoa (unat port)\<rparr>\<rparr>"
    and b: "unat port < 65536"
    using assms by (auto simp: InitCfg_def andThen_Inr_iff wrapping_Inr_iff Let_def dest!: GetAvailablePort_bound)
  then have "last (gv_Listen c1) = GVPCtlAddr vmc \<and> (if gv_linux env then gv_Qemu c1 else gv_Vfkit c1) = GVPVNetAddr vmc"
    by (auto simp: gvInterface_def andThen_Inr_iff split: if_splits)
  with p b show ?thesis by auto
qed

end
