(* ===== verification/Management.thy ===== *)
theory Management
  imports Ignition Krun Ssh Gvproxy
begin

text \<open>
  The management API of a running machine, \<open>pkg/service/management/server.go\<close>: its routes, the
  stop and info handlers, and the execution of guest commands whose output is streamed as
  server-sent events (\<open>pkg/sse\<close>).

  The state is the microVM. Two goroutines publish the two output streams, in any interleaving:
  the model takes the choices as a parameter.
\<close>

subsection \<open>Information (server.go)\<close>

record Info =
  PodmanAPIProxyOnHost :: string
  SSHProxyPortOnHost :: int
  SSHUserOnGuest :: string
  HostDNSInGVPNetwork :: string

definition jsonInt :: "int \<Rightarrow> json" where
  "jsonInt n = JNum ((if n < 0 then ''-'' else []) @ Itoa (nat \<bar>n\<bar>))"

definition encInfo :: "Info \<Rightarrow> json" where
  "encInfo i = JObj [(''podmanSocketPath'', JStr (PodmanAPIProxyOnHost i)),
     (''sshPort'', jsonInt (SSHProxyPortOnHost i)), (''sshUser'', JStr (SSHUserOnGuest i)),
     (''hostEndpoint'', JStr (HostDNSInGVPNetwork i))]"

definition errResponse :: "goerr \<Rightarrow> json" where
  "errResponse e = JObj [(''error'', errText e)]"

text \<open>\<open>(*URL).Port\<close>: what follows the last colon of the host, when it is digits.\<close>

definition url_Port :: "URL \<Rightarrow> string" where
  "url_Port u =
     (case SplitHostPort (u_Host u) of
        Inl _ \<Rightarrow> [] | Inr (_, port) \<Rightarrow> if list_all isDigit port then port else [])"

definition handleOVMInfo :: "httpIn \<Rightarrow> MachineSpec \<Rightarrow> httpOut" where
  "handleOVMInfo r vmc =
     (if hi_method r \<noteq> ''GET'' then writeJSON 405 JNull
      else case url_Parse (HostPodmanProxyAddr (PodmanInfo vmc)) of
             Inl e \<Rightarrow> writeJSON 500 (errResponse e)
           | Inr podman \<Rightarrow>
               (case url_Parse (''tcp://'' @ HostSSHProxyListenAddr (SSHInfo vmc)) of
                  Inl e \<Rightarrow> writeJSON 500 (errResponse e)
                | Inr ssh \<Rightarrow>
                    (case Atoi (url_Port ssh) of
                       Inl e \<Rightarrow> writeJSON 500 (errResponse e)
                     | Inr port \<Rightarrow>
                         writeJSON 200 (encInfo \<lparr>PodmanAPIProxyOnHost = u_Path podman,
                           SSHProxyPortOnHost = port, SSHUserOnGuest = DefaultGuestUser,
                           HostDNSInGVPNetwork = HostDomainInGVPNet\<rparr>))))"

definition mgmt_handleHealth :: "httpIn \<Rightarrow> httpOut" where
  "mgmt_handleHealth r = (if hi_method r \<noteq> ''GET'' then writeJSON 405 JNull else writeJSON 200 JNull)"

definition mgmt_handleVMConfig :: "httpIn \<Rightarrow> MachineSpec \<Rightarrow> httpOut" where
  "mgmt_handleVMConfig r vmc =
     (if hi_method r \<noteq> ''GET'' then writeJSON 405 JNull else writeJSON 200 (encMachine vmc))"

definition handleRequestVMStop :: "httpIn \<Rightarrow> krunVM \<Rightarrow> httpOut \<times> krunVM" where
  "handleRequestVMStop r v =
     (if hi_method r \<noteq> ''GET'' \<and> hi_method r \<noteq> ''POST'' then (writeJSON 405 JNull, v)
      else (writeJSON 200 JNull, snd (ProviderStop v)))"

subsection \<open>Guest commands as event streams (server.go, sse)\<close>

text \<open>The type of an event and its data.\<close>

type_synonym sseEvent = "string \<times> string"

definition TypeOut :: string where "TypeOut = ''out''"
definition TypeErr :: string where "TypeErr = ''error''"

text \<open>\<open>bufio.Scanner\<close>: lines without their end, up to the first that exceeds the buffer.\<close>

definition dropCR :: "string \<Rightarrow> string" where
  "dropCR l = (if l \<noteq> [] \<and> last l = CHR 0x0D then butlast l else l)"

definition scanLines :: "nat \<Rightarrow> string \<Rightarrow> string list" where
  "scanLines limit s =
     (let ls = Split s (CHR 0x0A)
      in map dropCR (takeWhile (\<lambda>l. length l < limit) (if last ls = [] then butlast ls else ls)))"

text \<open>Whether everything a command writes is read: a line that fills the buffer ends the scanner, and
  a command that still has to write then blocks on the pipe, so its end is never seen.\<close>

definition drained :: "nat \<Rightarrow> string \<Rightarrow> bool" where
  "drained limit s =
     (case dropWhile (\<lambda>l. length l < limit) (Split s (CHR 0x0A)) of
        [] \<Rightarrow> True | l # ls \<Rightarrow> ls = [] \<and> length l = limit)"

fun merge :: "bool list \<Rightarrow> 'a list \<Rightarrow> 'a list \<Rightarrow> 'a list" where
  "merge choices [] ys = ys"
| "merge choices xs [] = xs"
| "merge (True # choices) (x # xs) ys = x # merge choices xs ys"
| "merge (False # choices) xs (y # ys) = y # merge choices xs ys"
| "merge [] xs ys = xs @ ys"

record execRequest =
  ex_Bin :: string
  ex_Args :: "string list"
  ex_Env :: "string list"

definition decExec :: "json \<Rightarrow> execRequest res" where
  "decExec = decObj (\<lambda>kvs.
     bindR (fieldOf ''bin'' decStr [] kvs) (\<lambda>b.
     bindR (fieldOf ''args'' (decList decStr) [] kvs) (\<lambda>as.
     bindR (fieldOf ''env'' (decList decStr) [] kvs) (\<lambda>es.
       Inr \<lparr>ex_Bin = b, ex_Args = as, ex_Env = es\<rparr>))))"

text \<open>The outcome of starting a command: an error, or what it wrote to each stream and its end.\<close>

type_synonym execOutcome = "(string \<times> string \<times> unit res) res"

definition maxLine :: nat where "maxLine = 1048576"

definition execEvents :: "bool list \<Rightarrow> execOutcome \<Rightarrow> sseEvent list" where
  "execEvents choices outcome =
     (case outcome of
        Inl e \<Rightarrow> [(TypeErr, ''guest exec failed: '' @ errString e)]
      | Inr (out, err, r) \<Rightarrow>
          merge choices (map (Pair TypeOut) (scanLines maxLine out)) (map (Pair TypeErr) (scanLines maxLine err)) @
          (if \<not> drained maxLine out \<or> \<not> drained maxLine err then []
           else case r of Inl e \<Rightarrow> [(TypeErr, ''wait: '' @ errString e)] | Inr _ \<Rightarrow> [(''done'', ''done'')]))"

definition legacyExecEvents :: "bool list \<Rightarrow> execOutcome \<Rightarrow> sseEvent list" where
  "legacyExecEvents choices outcome =
     (case outcome of
        Inl e \<Rightarrow> [(TypeErr, ''dial ssh: '' @ errString e)]
      | Inr (out, err, r) \<Rightarrow>
          merge choices (map (Pair TypeOut) (scanLines maxLine out)) (map (Pair TypeOut) (scanLines maxLine err)) @
          (if \<not> drained maxLine out \<or> \<not> drained maxLine err then []
           else case r of Inl e \<Rightarrow> [(TypeErr, errString e)] | Inr _ \<Rightarrow> [(''done'', ''done'')]))"

text \<open>A response: plain, or a stream of events.\<close>

datatype mgmtResponse = Plain httpOut | Stream "sseEvent list"

definition httpError :: "string \<Rightarrow> nat \<Rightarrow> mgmtResponse" where
  "httpError msg code = Plain \<lparr>ho_code = code, ho_body = msg @ [CHR 0x0A]\<rparr>"

definition handleExec ::
    "(execRequest \<Rightarrow> execOutcome) \<Rightarrow> bool list \<Rightarrow> httpIn \<Rightarrow> mgmtResponse" where
  "handleExec exec choices r =
     (if hi_method r \<noteq> ''POST'' then httpError ''method not allowed'' 405
      else case bindR (hi_body r) (\<lambda>b. bindR (json_Decode b) decExec) of
             Inl _ \<Rightarrow> httpError ''invalid json'' 400
           | Inr req \<Rightarrow> Stream (execEvents choices (exec req)))"

definition handleLegacyExec ::
    "(string \<Rightarrow> execOutcome) \<Rightarrow> bool list \<Rightarrow> httpIn \<Rightarrow> mgmtResponse" where
  "handleLegacyExec exec choices r =
     (if hi_method r \<noteq> ''POST'' then httpError ''method not allowed'' 405
      else case bindR (hi_body r) (\<lambda>b. bindR (json_Decode b) (decObj (fieldOf ''command'' decStr []))) of
             Inl _ \<Rightarrow> httpError ''invalid json'' 400
           | Inr command \<Rightarrow> Stream (legacyExecEvents choices (exec command)))"

text \<open>The routes, all of clean paths.\<close>

definition mgmt_serve ::
    "(execRequest \<Rightarrow> execOutcome) \<Rightarrow> (string \<Rightarrow> execOutcome) \<Rightarrow> bool list \<Rightarrow> httpIn \<Rightarrow> krunVM \<Rightarrow> mgmtResponse \<times> krunVM" where
  "mgmt_serve exec legacyExec choices r v =
     (case muxEarly r of
        Some out \<Rightarrow> (Plain out, v)
      | None \<Rightarrow>
      let path = hi_path r
      in if path = ''/v2/healthz'' then (Plain (mgmt_handleHealth r), v)
         else if path = ''/v2/vmconfig'' then (Plain (mgmt_handleVMConfig r (kv_cfg v)), v)
         else if path = ''/v2/exec'' then (handleExec exec choices r, v)
         else if path = ''/v2/stop'' \<or> path = ''/stop'' then
           (case handleRequestVMStop r v of (out, v') \<Rightarrow> (Plain out, v'))
         else if path = ''/exec'' then (handleLegacyExec legacyExec choices r, v)
         else if path = ''/info'' then (Plain (handleOVMInfo r (kv_cfg v)), v)
         else (httpError ''404 page not found'' 404, v))"

lemma mgmt_paths_clean:
  "muxPath ''/v2/stop'' = ''/v2/stop''" "muxPath ''/stop'' = ''/stop''" "muxPath ''/info'' = ''/info''"
  by code_simp+

subsection \<open>Properties\<close>

lemma url_Parse_tcp:
  assumes "plainHost h" and "list_all unreserved h"
  shows "url_Parse (''tcp://'' @ h @ '':'' @ Itoa n) =
    Inr \<lparr>u_Scheme = ''tcp'', u_Opaque = [], u_Host = h @ '':'' @ Itoa n, u_Path = []\<rparr>"
  using url_Parse_authority [OF plainScheme_known(3) tcp_host_port [OF assms, of n], of "[]"]
  by (simp add: escapePath_def)

lemma url_Port_host_port:
  assumes "plainHost h"
  shows "url_Port \<lparr>u_Scheme = sc, u_Opaque = [], u_Host = h @ '':'' @ Itoa n, u_Path = p\<rparr> = Itoa n"
  using host_port_round_trip(2) [OF assms, of n] Itoa_digits [of n]
  by (simp add: url_Port_def host_port_round_trip(1) [OF assms])

text \<open>C29. The information a client gets is what the components really use: once the network stack is
  configured, \<open>/info\<close> answers with the path of the Podman proxy's socket and the very port the
  stack forwards to the guest's SSH server, and leaves the machine as it is.\<close>

theorem info_tells_ports:
  assumes "InitCfg env vmc s = (Inr (gvcfg, vmc'), t)"
    and "HostPodmanProxyAddr (PodmanInfo vmc) = unixURL p" and "IsAbs p" and "kv_cfg v = vmc'"
  shows "\<exists>port. port < 65536 \<and>
    gv_Forwards gvcfg = [(LocalHost @ '':'' @ Itoa port,
      JoinHostPort GuestIP (guestPortOf (GuestSSHServerListenAddr (SSHInfo vmc))))] \<and>
    mgmt_serve exec legacy choices \<lparr>hi_method = ''GET'', hi_path = ''/info'', hi_body = b\<rparr> v =
      (Plain (writeJSON 200 (encInfo \<lparr>PodmanAPIProxyOnHost = p, SSHProxyPortOnHost = int port,
         SSHUserOnGuest = ''root'', HostDNSInGVPNetwork = HostDomainInGVPNet\<rparr>)), v)"
proof -
  obtain q :: u64 where q: "gv_Forwards gvcfg = [(LocalHost @ '':'' @ Itoa (unat q),
      JoinHostPort GuestIP (guestPortOf (GuestSSHServerListenAddr (SSHInfo vmc))))]"
    "vmc' = vmc\<lparr>SSHInfo := (SSHInfo vmc)\<lparr>HostSSHProxyListenAddr := LocalHost @ '':'' @ Itoa (unat q)\<rparr>\<rparr>"
    "unat q < 65536"
    using InitCfg_forwards [OF assms(1)] by blast
  have h: "plainHost LocalHost" "list_all unreserved LocalHost" by code_simp+
  have "Atoi (Itoa (unat q)) = Inr (int (unat q))" using q(3) by (intro Atoi_Itoa) simp
  then have "handleOVMInfo \<lparr>hi_method = ''GET'', hi_path = ''/info'', hi_body = b\<rparr> vmc' =
      writeJSON 200 (encInfo \<lparr>PodmanAPIProxyOnHost = p, SSHProxyPortOnHost = int (unat q),
         SSHUserOnGuest = ''root'', HostDNSInGVPNetwork = HostDomainInGVPNet\<rparr>)"
    using url_round_trip [OF plainScheme_known(1) assms(3)] url_Parse_tcp [OF h, of "unat q"]
      url_Port_host_port [OF h(1)]
    by (simp add: handleOVMInfo_def q(2) assms(2) unixURL_def DefaultGuestUser_def)
  then show ?thesis
    using q(1,3) by (intro exI [of _ "unat q"]) (simp add: mgmt_serve_def assms(4) muxEarly_def mgmt_paths_clean)
qed

definition sampleGvEnv :: gv_env where
  "sampleGvEnv = \<lparr>gv_yaml = Inr \<lparr>gv_Listen = [], gv_Protocol = [], gv_GatewayIP = ''192.168.127.1'',
     gv_Forwards = [], gv_Qemu = [], gv_Vfkit = [], gv_Services = []\<rparr>,
     gv_linux = True, gv_canListen = (\<lambda>p. p \<noteq> 6123)\<rparr>"

definition sampleGvMachine :: MachineSpec where
  "sampleGvMachine = emptyMachine\<lparr>GVPVNetAddr := ''unix:///v'', GVPCtlAddr := unixURL ''/c'',
     SSHInfo := emptySSHInfo\<lparr>GuestSSHServerListenAddr := ''0.0.0.0:22''\<rparr>,
     PodmanInfo := (PodmanInfo emptyMachine)\<lparr>HostPodmanProxyAddr := unixURL ''/p''\<rparr>\<rparr>"

theorem info_tells_ports_witness:
  "(case InitCfg sampleGvEnv sampleGvMachine sampleOS of
      (Inr (cfg, m), t) \<Rightarrow>
        (\<exists>port. gv_Forwards cfg = [(''127.0.0.1:'' @ Itoa port, JoinHostPort GuestIP ''22'')] \<and>
           mgmt_serve (\<lambda>_. Inl ErrCanceled) (\<lambda>_. Inl ErrCanceled) []
               \<lparr>hi_method = ''GET'', hi_path = ''/info'', hi_body = Inr []\<rparr> (newKrun m sampleOS []) =
             (Plain (writeJSON 200 (encInfo \<lparr>PodmanAPIProxyOnHost = ''/p'',
                SSHProxyPortOnHost = int port, SSHUserOnGuest = ''root'',
                HostDNSInGVPNetwork = ''host.containers.internal''\<rparr>)), newKrun m sampleOS []))
    | _ \<Rightarrow> False)"
proof -
  have "ok (fst (InitCfg sampleGvEnv sampleGvMachine sampleOS))" by code_simp
  then obtain cfg m t where i: "InitCfg sampleGvEnv sampleGvMachine sampleOS = (Inr (cfg, m), t)"
    by (auto simp: ok_iff) (metis prod.collapse)
  have "HostPodmanProxyAddr (PodmanInfo sampleGvMachine) = unixURL ''/p''" "IsAbs ''/p''"
    "guestPortOf (GuestSSHServerListenAddr (SSHInfo sampleGvMachine)) = ''22''"
    "kv_cfg (newKrun m sampleOS []) = m"
    by (simp_all add: sampleGvMachine_def newKrun_def) code_simp+
  with info_tells_ports [OF i this(1,2,4), of "\<lambda>_. Inl ErrCanceled" "\<lambda>_. Inl ErrCanceled" "[]" "Inr []"]
  show ?thesis by (auto simp: i LocalHost_def HostDomainInGVPNet_def)
qed

end
