(* ===== verification/Guest_Mount.thy ===== *)
theory Guest_Mount
  imports Ssh
begin

text \<open>
  The guest agent, first part: the embedded tools (\<open>embedded.go\<close>), busybox
  (\<open>busybox.go\<close>) and the mounts of the guest (\<open>mount.go\<close>), all under
  \<open>cmd/guest-agent/pkg/service\<close>.

  The state of the guest is its file tree, the log of the programs it ran, each with whether
  it succeeded, the HTTP requests it sent and its SSH connections (the last two are used by
  the readiness probes). What a program does is the parameter \<open>ge_run\<close>, which may look at the
  whole log. Programs are outside the repository: a property that depends on what
  \<open>busybox mountpoint\<close> answers states it as a hypothesis (\<open>mountpointTells\<close>).
\<close>

subsection \<open>The guest and its programs\<close>

type_synonym ranCmd = "string list \<times> bool"

record guest =
  g_os :: OS
  g_ran :: "ranCmd list"
  g_sent :: "HttpRequest list"
  g_conns :: "sshConn list"

record guest_env =
  ge_run :: "string list \<Rightarrow> ranCmd list \<Rightarrow> OS \<Rightarrow> unit res \<times> OS"
  ge_mountTmpfs :: "string \<Rightarrow> unit res"
  ge_busybox :: string
  ge_dropbearmulti :: string
  ge_podmanInit :: string

definition onGuestOS :: "(OS, 'a) proc \<Rightarrow> (guest, 'a) proc" where
  "onGuestOS m g = (case m (g_os g) of (r, s) \<Rightarrow> (r, g\<lparr>g_os := s\<rparr>))"

text \<open>\<open>cmd.Run()\<close> of the program and arguments in the list.\<close>

definition runCmd :: "guest_env \<Rightarrow> string list \<Rightarrow> (guest, unit) proc" where
  "runCmd env cmd g =
     (case ge_run env cmd (g_ran g) (g_os g) of
        (r, s) \<Rightarrow> (r, g\<lparr>g_os := s, g_ran := g_ran g @ [(cmd, ok r)]\<rparr>))"

subsection \<open>Embedded tools (embedded.go, busybox.go)\<close>

definition BusyboxPath :: string where
  "BusyboxPath = Join [GuestHiddenBinDir, ''busybox'']"

definition DropbearmultiPath :: string where
  "DropbearmultiPath = Join [GuestHiddenBinDir, ''dropbearmulti'']"

definition InitBinDir :: "guest_env \<Rightarrow> (guest, unit) proc" where
  "InitBinDir env =
     andThen (wrapping ''create bin dir'' (onGuestOS (os_MkdirAll GuestHiddenBinDir))) (\<lambda>_.
     andThen (wrapping ''mount tmpfs'' (lift (ge_mountTmpfs env GuestHiddenBinDir))) (\<lambda>_.
       forEach (\<lambda>(name, bytes). wrapping ''extract''
           (onGuestOS (os_WriteFile (Join [GuestHiddenBinDir, name]) bytes)))
         [(''busybox'', ge_busybox env), (''dropbearmulti'', ge_dropbearmulti env)]))"

definition ExecNoOutput :: "guest_env \<Rightarrow> string list \<Rightarrow> (guest, unit) proc" where
  "ExecNoOutput env args = runCmd env (BusyboxPath # args)"

definition mountCmd :: "guest_env \<Rightarrow> string list \<Rightarrow> (guest, unit) proc" where
  "mountCmd env args = ExecNoOutput env (''mount'' # args)"

definition Umount :: "guest_env \<Rightarrow> string \<Rightarrow> (guest, unit) proc" where
  "Umount env target = ExecNoOutput env [''umount'', ''-l'', ''-d'', ''-f'', target]"

definition GuestIsMounted :: "guest_env \<Rightarrow> string \<Rightarrow> (guest, bool) proc" where
  "GuestIsMounted env target g =
     (case ExecNoOutput env [''mountpoint'', ''-q'', target] g of (r, g') \<Rightarrow> (Inr (ok r), g'))"

subsection \<open>Mount command lines (mount.go)\<close>

definition virtiofsType :: string where "virtiofsType = ''virtiofs''"

type_synonym MountActionType = int

definition UUIDAction :: MountActionType where "UUIDAction = 0"
definition VirtioFsAction :: MountActionType where "VirtioFsAction = 1"
definition PseudoFsAction :: MountActionType where "PseudoFsAction = 2"

lemmas actions = UUIDAction_def VirtioFsAction_def PseudoFsAction_def

definition makeMountCmdline :: "Mount \<Rightarrow> MountActionType \<Rightarrow> string list res" where
  "makeMountCmdline mnt action =
     (let args = (if mnt_Opts mnt \<noteq> [] then [''-o'', mnt_Opts mnt] else []) @
                 (if mnt_ReadOnly mnt then [''-o'', ''ro''] else [])
      in if action = UUIDAction then
           (if mnt_UUID mnt = [] then Inl (Errorf ''UUID is empty'')
            else if mnt_Type mnt = [] then Inl (Errorf ''filesystem type is empty'')
            else Inr (args @ (if mnt_Type mnt = ''ext4'' then [''-o'', ''data=ordered''] else []) @
                      [''-t'', mnt_Type mnt, ''UUID='' @ mnt_UUID mnt, mnt_Target mnt]))
         else if action = VirtioFsAction then
           (if mnt_Type mnt \<noteq> virtiofsType then Inl (Errorf ''filesystem type is not virtiofs'')
            else if mnt_Tag mnt = [] then Inl (Errorf ''virtio tag is empty'')
            else Inr (args @ [''-t'', mnt_Type mnt, mnt_Tag mnt, mnt_Target mnt]))
         else if action = PseudoFsAction then
           (if mnt_Type mnt = [] then Inl (Errorf ''pseudo filesystem type is empty'')
            else Inr (args @ [''-t'', mnt_Type mnt, mnt_Type mnt, mnt_Target mnt]))
         else Inl (Errorf ''unsupported mount action''))"

definition mntMount :: "guest_env \<Rightarrow> Mount \<Rightarrow> MountActionType \<Rightarrow> (guest, unit) proc" where
  "mntMount env mnt action =
     andThen (wrapping ''failed to create dir for mount point'' (onGuestOS (os_MkdirAll (mnt_Target mnt)))) (\<lambda>_.
     andThen (wrapping ''mount'' (lift (makeMountCmdline mnt action))) (\<lambda>args.
       mountCmd env args))"

text \<open>Skip a target that is mounted, mount it otherwise.\<close>

definition mountUnlessMounted ::
    "guest_env \<Rightarrow> string \<Rightarrow> MountActionType \<Rightarrow> Mount \<Rightarrow> (guest, unit) proc" where
  "mountUnlessMounted env msg action mnt =
     andThen (GuestIsMounted env (mnt_Target mnt)) (\<lambda>mounted.
       if mounted then succeed () else wrapping msg (mntMount env mnt action))"

subsection \<open>The mounts of the guest (mount.go)\<close>

definition emptyMnt :: Mount where
  "emptyMnt = \<lparr>mnt_ReadOnly = False, mnt_Source = [], mnt_Tag = [], mnt_Target = [],
     mnt_Type = [], mnt_Opts = [], mnt_UUID = []\<rparr>"

definition pseudoMnt :: "string \<Rightarrow> string \<Rightarrow> string \<Rightarrow> Mount" where
  "pseudoMnt target opts type = emptyMnt\<lparr>mnt_Target := target, mnt_Opts := opts, mnt_Type := type\<rparr>"

definition pseudoMnts :: "Mount list" where
  "pseudoMnts =
     [pseudoMnt ''/mnt'' [] ''tmpfs'',
      pseudoMnt ''/tmp'' [] ''tmpfs'',
      pseudoMnt ''/run'' [] ''tmpfs'',
      pseudoMnt ''/var'' [] ''tmpfs'',
      pseudoMnt ''/dev'' ''rw,nosuid,noexec,relatime'' ''devtmpfs'',
      pseudoMnt ''/dev/pts'' ''rw,nosuid,noexec,relatime,mode=600,ptmxmode=000'' ''devpts'',
      pseudoMnt ''/dev/shm'' [] ''tmpfs'',
      pseudoMnt ''/proc'' ''rw,nosuid,nodev,noexec,relatime'' ''proc'',
      pseudoMnt ''/proc/sys/fs/binfmt_misc'' [] ''binfmt_misc'',
      pseudoMnt ''/sys'' ''rw,nosuid,nodev,noexec,relatime'' ''sysfs'',
      pseudoMnt ''/sys/fs/fuse/connections'' ''rw,nosuid,nodev,noexec,relatime'' ''fusectl'',
      pseudoMnt ''/sys/fs/cgroup'' ''rw,nosuid,nodev,noexec,relatime'' ''cgroup2'',
      pseudoMnt ''/sys/fs/bpf'' ''rw,nosuid,nodev,noexec,relatime,mode=700'' ''bpf'',
      pseudoMnt ''/sys/kernel/config'' ''rw,nosuid,nodev,noexec,relatime'' ''configfs'']"

definition MountAllPseudoMnt :: "guest_env \<Rightarrow> (guest, unit) proc" where
  "MountAllPseudoMnt env = forEach (mountUnlessMounted env ''mount'' PseudoFsAction) pseudoMnts"

definition shareMnt :: "Mount \<Rightarrow> Mount" where
  "shareMnt m = emptyMnt\<lparr>mnt_Tag := mnt_Tag m, mnt_Target := mnt_Target m, mnt_Type := mnt_Type m,
     mnt_ReadOnly := mnt_ReadOnly m\<rparr>"

definition MountVirtiofs :: "guest_env \<Rightarrow> MachineSpec \<Rightarrow> (guest, unit) proc" where
  "MountVirtiofs env m =
     (if Mounts m = [] then succeed ()
      else forEach (\<lambda>v. mountUnlessMounted env ''mount virtio-fs failed'' VirtioFsAction (shareMnt v))
             (Mounts m))"

definition mountBlockDevice :: "guest_env \<Rightarrow> Mount \<Rightarrow> bool \<Rightarrow> (guest, unit) proc" where
  "mountBlockDevice env mnt skipIfMounted =
     (if skipIfMounted then mountUnlessMounted env ''mount block device'' UUIDAction mnt
      else wrapping ''mount block device'' (mntMount env mnt UUIDAction))"

definition diskMnt :: "BlkDev \<Rightarrow> Mount" where
  "diskMnt d = emptyMnt\<lparr>mnt_Source := bd_Path d, mnt_Opts := ''rw,discard'', mnt_UUID := bd_UUID d,
     mnt_Type := bd_FsType d, mnt_Target := bd_MountTo d\<rparr>"

text \<open>The loop over the disks: the last one with the var UUID, and all others in order.\<close>

fun sortDisks :: "BlkDev list \<Rightarrow> Mount option \<Rightarrow> Mount list \<Rightarrow> Mount option \<times> Mount list" where
  "sortDisks [] varDisk external = (varDisk, external)"
| "sortDisks (disk # ds) varDisk external =
     (let mnt = diskMnt disk
      in if mnt_UUID mnt = VarDataDiskUUID then sortDisks ds (Some mnt) external
         else sortDisks ds varDisk (external @ [mnt]))"

definition MountBlockDevices :: "guest_env \<Rightarrow> MachineSpec \<Rightarrow> (guest, unit) proc" where
  "MountBlockDevices env m =
     (if BlkDevs m = [] then succeed ()
      else case sortDisks (BlkDevs m) None [] of
             (None, _) \<Rightarrow> failWith (Errorf ''var disk not found in block device list'')
           | (Some varDisk, external) \<Rightarrow>
               andThen (mountBlockDevice env varDisk False) (\<lambda>_.
                 forEach (\<lambda>mnt. mountBlockDevice env mnt True) external))"

subsection \<open>The mount table\<close>

text \<open>What the successful \<open>mount\<close> commands of a log amount to: mount point and source, oldest
  first. A later entry covers an earlier one at the same place.\<close>

fun mountOf :: "ranCmd \<Rightarrow> (string \<times> string) list" where
  "mountOf (cmd, done) =
     (if done \<and> 4 \<le> length cmd \<and> take 2 cmd = [BusyboxPath, ''mount'']
      then [(last cmd, last (butlast cmd))] else [])"

definition mountTable :: "ranCmd list \<Rightarrow> (string \<times> string) list" where
  "mountTable cmds = concat (map mountOf cmds)"

definition topMount :: "ranCmd list \<Rightarrow> string \<Rightarrow> string option" where
  "topMount cmds p = map_of (rev (mountTable cmds)) p"

lemma mountTable_simps [simp]:
  "mountTable [] = []" "mountTable (xs @ ys) = mountTable xs @ mountTable ys"
  "mountTable [c] = mountOf c"
  by (simp_all add: mountTable_def)

text \<open>\<open>mountpoint -q p\<close> says whether something is mounted at \<open>p\<close>: what the kernel had
  mounted before (\<open>base\<close>), or what the agent mounted.\<close>

definition mountpointTells :: "guest_env \<Rightarrow> string set \<Rightarrow> bool" where
  "mountpointTells env base \<longleftrightarrow>
     (\<forall>p cmds s. ok (fst (ge_run env [BusyboxPath, ''mountpoint'', ''-q'', p] cmds s)) \<longleftrightarrow>
        p \<in> base \<or> p \<in> fst ` set (mountTable cmds))"

text \<open>The specification: a place that is mounted already is left alone.\<close>

definition addMount :: "string set \<Rightarrow> (string \<times> string) list \<Rightarrow> string \<times> string \<Rightarrow> (string \<times> string) list" where
  "addMount base tbl e = (if fst e \<in> base \<or> fst e \<in> fst ` set tbl then tbl else tbl @ [e])"

lemma addMount_targets:
  "base \<union> fst ` set (foldl (addMount base) tbl es) = base \<union> fst ` set tbl \<union> fst ` set es"
  by (induction es arbitrary: tbl) (auto simp: addMount_def)

lemma addMount_extends: "\<exists>new. foldl (addMount base) tbl es = tbl @ new \<and> set new \<subseteq> set es \<and>
    distinct (map fst new) \<and> fst ` set new \<inter> (base \<union> fst ` set tbl) = {}"
proof (induction es arbitrary: tbl)
  case (Cons e es)
  show ?case
  proof (cases "fst e \<in> base \<or> fst e \<in> fst ` set tbl")
    case True
    with Cons [of tbl] show ?thesis by (auto simp: addMount_def)
  next
    case False
    obtain new where new: "foldl (addMount base) (tbl @ [e]) es = (tbl @ [e]) @ new" "set new \<subseteq> set es"
      "distinct (map fst new)" "fst ` set new \<inter> (base \<union> fst ` set (tbl @ [e])) = {}"
      using Cons [of "tbl @ [e]"] by blast
    moreover from False have "addMount base tbl e = tbl @ [e]" by (simp add: addMount_def)
    ultimately show ?thesis using False by (intro exI [of _ "e # new"]) auto
  qed
qed simp

lemma onGuestOS_Inr:
  "onGuestOS m g = (Inr a, t) \<longleftrightarrow> (\<exists>s. m (g_os g) = (Inr a, s) \<and> t = g\<lparr>g_os := s\<rparr>)"
  by (auto simp: onGuestOS_def split: prod.splits)

lemma runCmd_ran: "runCmd env cmd g = (r, t) \<Longrightarrow> g_ran t = g_ran g @ [(cmd, ok r)]"
  by (auto simp: runCmd_def split: prod.splits)

text \<open>What a mount takes as its source.\<close>

definition mountSource :: "Mount \<Rightarrow> MountActionType \<Rightarrow> string" where
  "mountSource mnt action =
     (if action = UUIDAction then ''UUID='' @ mnt_UUID mnt
      else if action = VirtioFsAction then mnt_Tag mnt else mnt_Type mnt)"

lemma makeMountCmdline_ends:
  "makeMountCmdline mnt action = Inr args \<Longrightarrow>
    \<exists>pre. args = pre @ [''-t'', mnt_Type mnt, mountSource mnt action, mnt_Target mnt]"
  by (auto simp: makeMountCmdline_def mountSource_def Let_def actions split: if_splits)

lemma mntMount_table:
  assumes "mntMount env mnt action g = (Inr (), t)"
  shows "mountTable (g_ran t) =
    mountTable (g_ran g) @ [(mnt_Target mnt, mountSource mnt action)]"
proof -
  obtain s args where "makeMountCmdline mnt action = Inr args"
    and m: "mountCmd env args (g\<lparr>g_os := s\<rparr>) = (Inr (), t)"
    using assms by (auto simp: mntMount_def andThen_Inr_iff onGuestOS_Inr)
  with makeMountCmdline_ends obtain pre where
    "args = pre @ [''-t'', mnt_Type mnt, mountSource mnt action, mnt_Target mnt]" by blast
  then show ?thesis
    using runCmd_ran [OF m [unfolded mountCmd_def ExecNoOutput_def]] by (simp add: butlast_append)
qed

lemma mountUnlessMounted_table:
  assumes "mountpointTells env base" and "mountUnlessMounted env msg action mnt g = (Inr (), t)"
  shows "mountTable (g_ran t) =
    addMount base (mountTable (g_ran g)) (mnt_Target mnt, mountSource mnt action)"
proof -
  obtain r u where p: "ExecNoOutput env [''mountpoint'', ''-q'', mnt_Target mnt] g = (r, u)"
    by fastforce
  then have same: "mountTable (g_ran u) = mountTable (g_ran g)"
    using runCmd_ran by (fastforce simp: ExecNoOutput_def)
  have tells: "ok r \<longleftrightarrow> mnt_Target mnt \<in> base \<or> mnt_Target mnt \<in> fst ` set (mountTable (g_ran g))"
  proof -
    have "r = fst (ge_run env [BusyboxPath, ''mountpoint'', ''-q'', mnt_Target mnt] (g_ran g) (g_os g))"
      using p by (simp add: ExecNoOutput_def runCmd_def split: prod.splits)
    with assms(1) show ?thesis unfolding mountpointTells_def by blast
  qed
  from assms(2) p have "if ok r then t = u else mntMount env mnt action u = (Inr (), t)"
    by (auto simp: mountUnlessMounted_def GuestIsMounted_def andThen_Inr_iff split: if_splits)
  with tells same mntMount_table [of env mnt action u t] show ?thesis
    by (auto simp: addMount_def split: if_splits)
qed

lemma forEach_table:
  assumes "mountpointTells env base"
    and "forEach (\<lambda>x. mountUnlessMounted env msg action (f x)) xs g = (Inr (), t)"
  shows "mountTable (g_ran t) = foldl (addMount base) (mountTable (g_ran g))
    (map (\<lambda>x. (mnt_Target (f x), mountSource (f x) action)) xs)"
  using assms(2)
proof (induction xs arbitrary: g)
  case (Cons x xs)
  then obtain u where "mountUnlessMounted env msg action (f x) g = (Inr (), u)"
    and "forEach (\<lambda>x. mountUnlessMounted env msg action (f x)) xs u = (Inr (), t)"
    by (auto simp: andThen_Inr_iff)
  with Cons.IH [of u] mountUnlessMounted_table [OF assms(1)] show ?case by simp
qed simp

subsection \<open>The mounts of a machine\<close>

definition isVarDisk :: "BlkDev \<Rightarrow> bool" where
  "isVarDisk d = (bd_UUID d = VarDataDiskUUID)"

definition diskEntry :: "BlkDev \<Rightarrow> string \<times> string" where
  "diskEntry d = (bd_MountTo d, ''UUID='' @ bd_UUID d)"

definition shareEntry :: "Mount \<Rightarrow> string \<times> string" where
  "shareEntry v = (mnt_Target v, mnt_Tag v)"

definition pseudoEntries :: "(string \<times> string) list" where
  "pseudoEntries = map (\<lambda>m. (mnt_Target m, mnt_Type m)) pseudoMnts"

text \<open>The specification of the three mounting stages on the mount table: pseudo file systems,
  then the var disk over whatever is there, then the other disks and the shares where nothing
  is mounted yet.\<close>

definition withDisks :: "string set \<Rightarrow> BlkDev list \<Rightarrow> (string \<times> string) list \<Rightarrow> (string \<times> string) list" where
  "withDisks base ds tbl =
     (if ds = [] then tbl
      else foldl (addMount base) (tbl @ [diskEntry (last (filter isVarDisk ds))])
             (map diskEntry (filter (\<lambda>d. \<not> isVarDisk d) ds)))"

definition guestTable :: "string set \<Rightarrow> MachineSpec \<Rightarrow> (string \<times> string) list \<Rightarrow> (string \<times> string) list" where
  "guestTable base m tbl =
     foldl (addMount base)
       (withDisks base (BlkDevs m) (foldl (addMount base) tbl pseudoEntries))
       (map shareEntry (Mounts m))"

lemma pseudo_table:
  assumes "mountpointTells env base" and "MountAllPseudoMnt env g = (Inr (), t)"
  shows "mountTable (g_ran t) = foldl (addMount base) (mountTable (g_ran g)) pseudoEntries"
  using forEach_table [OF assms(1), of "''mount''" PseudoFsAction id] assms(2)
  by (simp add: MountAllPseudoMnt_def pseudoEntries_def mountSource_def actions)

lemma shares_table:
  assumes "mountpointTells env base" and "MountVirtiofs env m g = (Inr (), t)"
  shows "mountTable (g_ran t) = foldl (addMount base) (mountTable (g_ran g)) (map shareEntry (Mounts m))"
  using forEach_table [OF assms(1), of "''mount virtio-fs failed''" VirtioFsAction shareMnt "Mounts m"] assms(2)
  by (auto simp: MountVirtiofs_def shareEntry_def [abs_def] mountSource_def actions shareMnt_def
      emptyMnt_def split: if_splits)

lemma sortDisks_eq:
  "sortDisks ds v ext =
     (if filter isVarDisk ds = [] then v else Some (diskMnt (last (filter isVarDisk ds))),
      ext @ map diskMnt (filter (\<lambda>d. \<not> isVarDisk d) ds))"
proof (induction ds v ext rule: sortDisks.induct)
  case (2 disk ds varDisk external)
  have "mnt_UUID (diskMnt disk) = VarDataDiskUUID \<longleftrightarrow> isVarDisk disk"
    by (simp add: isVarDisk_def diskMnt_def emptyMnt_def)
  with 2 show ?case by (simp add: Let_def)
qed simp

lemma disks_table:
  assumes "mountpointTells env base" and "MountBlockDevices env m g = (Inr (), t)"
  shows "BlkDevs m = [] \<and> t = g \<or>
    list_ex isVarDisk (BlkDevs m) \<and>
    mountTable (g_ran t) = withDisks base (BlkDevs m) (mountTable (g_ran g))"
proof (cases "BlkDevs m = []")
  case True
  with assms(2) show ?thesis by (simp add: MountBlockDevices_def)
next
  case False
  let ?v = "last (filter isVarDisk (BlkDevs m))" and ?os = "filter (\<lambda>d. \<not> isVarDisk d) (BlkDevs m)"
  have some: "filter isVarDisk (BlkDevs m) \<noteq> []"
    using assms(2) False by (auto simp: MountBlockDevices_def sortDisks_eq split: if_splits)
  then obtain u where "mountBlockDevice env (diskMnt ?v) False g = (Inr (), u)"
    and os: "forEach (\<lambda>mnt. mountBlockDevice env mnt True) (map diskMnt ?os) u = (Inr (), t)"
    using assms(2) False by (auto simp: MountBlockDevices_def sortDisks_eq andThen_Inr_iff)
  then have "mountTable (g_ran u) = mountTable (g_ran g) @ [diskEntry ?v]"
    using mntMount_table [of env "diskMnt ?v" UUIDAction g u]
    by (simp add: mountBlockDevice_def mountSource_def diskMnt_def emptyMnt_def diskEntry_def)
  moreover have "mountTable (g_ran t) =
      foldl (addMount base) (mountTable (g_ran u)) (map diskEntry ?os)"
    using forEach_table [OF assms(1), of "''mount block device''" UUIDAction id "map diskMnt ?os" u t] os
    by (simp add: mountBlockDevice_def mountSource_def diskMnt_def emptyMnt_def diskEntry_def [abs_def] o_def)
  ultimately show ?thesis
    using False some by (auto simp: withDisks_def list_ex_iff filter_empty_conv)
qed

text \<open>Consequences for a machine with disks: everything is mounted, and the var disk is on top at
  its place.\<close>

lemma guestTable_targets:
  assumes "list_ex isVarDisk (BlkDevs m)"
  shows "fst ` set (guestTable base m tbl) \<union> base \<supseteq>
    fst ` set pseudoEntries \<union> fst ` set (map shareEntry (Mounts m)) \<union>
    fst ` set (map diskEntry (filter (\<lambda>d. \<not> isVarDisk d) (BlkDevs m)))"
proof -
  have "BlkDevs m \<noteq> []" using assms by auto
  then show ?thesis
    using addMount_targets [of base "withDisks base (BlkDevs m) (foldl (addMount base) tbl pseudoEntries)"
        "map shareEntry (Mounts m)"]
      addMount_targets [of base "foldl (addMount base) tbl pseudoEntries @ [diskEntry (last (filter isVarDisk (BlkDevs m)))]"
        "map diskEntry (filter (\<lambda>d. \<not> isVarDisk d) (BlkDevs m))"]
      addMount_targets [of base tbl pseudoEntries]
    unfolding guestTable_def withDisks_def by auto
qed

lemma map_of_rev_append_fresh:
  assumes "k \<notin> fst ` set new"
  shows "map_of (rev (tbl @ (k, v) # new)) k = Some v"
proof -
  have "map_of (rev new) k = None" using assms by (simp add: map_of_eq_None_iff)
  then show ?thesis by (simp add: map_add_def)
qed

lemma guestTable_var:
  assumes "list_ex isVarDisk (BlkDevs m)"
    and d: "d = last (filter isVarDisk (BlkDevs m))"
  shows "map_of (rev (guestTable base m tbl)) (bd_MountTo d) = Some (''UUID='' @ VarDataDiskUUID)"
proof -
  let ?t1 = "foldl (addMount base) tbl pseudoEntries"
  have "filter isVarDisk (BlkDevs m) \<noteq> []" using assms(1) by (auto simp: list_ex_iff filter_empty_conv)
  then have uuid: "bd_UUID d = VarDataDiskUUID" using d last_in_set by (fastforce simp: isVarDisk_def)
  have "BlkDevs m \<noteq> []" using assms(1) by auto
  then obtain n1 where n1: "withDisks base (BlkDevs m) ?t1 = (?t1 @ [diskEntry d]) @ n1"
    "fst ` set n1 \<inter> (base \<union> fst ` set (?t1 @ [diskEntry d])) = {}"
    using addMount_extends [of base "?t1 @ [diskEntry d]"] d unfolding withDisks_def by metis
  obtain n2 where n2: "guestTable base m tbl = ((?t1 @ [diskEntry d]) @ n1) @ n2"
    "fst ` set n2 \<inter> (base \<union> fst ` set ((?t1 @ [diskEntry d]) @ n1)) = {}"
    using addMount_extends [of base "(?t1 @ [diskEntry d]) @ n1"] n1(1) unfolding guestTable_def by metis
  have "bd_MountTo d \<notin> fst ` set (n1 @ n2)"
    using n1(2) n2(2) by (auto simp: diskEntry_def)
  from map_of_rev_append_fresh [OF this, of ?t1 "''UUID='' @ bd_UUID d"] n2(1) uuid show ?thesis
    by (simp add: diskEntry_def)
qed

subsection \<open>A small guest\<close>

definition sampleGuest :: guest where
  "sampleGuest = \<lparr>g_os = sampleOS, g_ran = [], g_sent = [], g_conns = []\<rparr>"

definition sampleGuestEnv :: guest_env where
  "sampleGuestEnv = \<lparr>ge_run = (\<lambda>_ _ s. (Inr (), s)), ge_mountTmpfs = (\<lambda>_. Inr ()), ge_busybox = ''B'',
     ge_dropbearmulti = ''D'', ge_podmanInit = ''#!/bin/sh''\<rparr>"

end
