(* ===== verification/Guest_Wait.thy ===== *)
theory Guest_Wait
  imports Guest_Mount Config_File Poll
begin

text \<open>
  The guest agent, second part: everything in it that waits.

  \<^item> \<open>pkg/vsock/vsockutils.go\<close>: the two requests to the host over vsock;
  \<^item> \<open>pkg/service/vmconfig.go\<close>: fetching the machine description;
  \<^item> \<open>pkg/service/network.go\<close> and \<open>pkg/network/dhclient_linux.go\<close>: the network;
  \<^item> \<open>pkg/service/readiness.go\<close> and \<open>pkg/machine/common.go\<close>: readiness probes.

  A step that may block is \<open>nat \<Rightarrow> guest \<Rightarrow> ('a res \<times> nat \<times> guest) option\<close>: it starts at a time
  and gives a result, the time and the guest, or never returns (\<open>None\<close>). What the peers and
  the kernel answer at each time is the parameter \<open>wait_env\<close>; its schedule says what each
  \<open>select\<close> on the context finds.
\<close>

subsection \<open>Blocking steps\<close>

type_synonym 'a blocking = "nat \<Rightarrow> guest \<Rightarrow> ('a res \<times> nat \<times> guest) option"

definition atTime :: "(nat \<Rightarrow> (guest, 'a) proc) \<Rightarrow> 'a blocking" where
  "atTime m i g = (case m i g of (r, g') \<Rightarrow> Some (r, i, g'))"

definition waitThen :: "'a blocking \<Rightarrow> ('a \<Rightarrow> 'b blocking) \<Rightarrow> 'b blocking" where
  "waitThen m f i g =
     (case m i g of
        None \<Rightarrow> None
      | Some (Inl e, j, g') \<Rightarrow> Some (Inl e, j, g')
      | Some (Inr a, j, g') \<Rightarrow> f a j g')"

definition waitWrap :: "string \<Rightarrow> 'a blocking \<Rightarrow> 'a blocking" where
  "waitWrap msg m i g = map_option (\<lambda>(r, x). (wrapErr msg r, x)) (m i g)"

text \<open>The result of a loop: what the probe found, or the error of a cancelled context.\<close>

definition loopResult :: "(guest, 'a) waited \<Rightarrow> ('a res \<times> nat \<times> guest) option" where
  "loopResult w =
     map_option (\<lambda>(r, x). (case r of Some a \<Rightarrow> Inr a | None \<Rightarrow> Inl ErrCanceled, x)) w"

definition onGuestSsh :: "(sshWorld, 'a) proc \<Rightarrow> (guest, 'a) proc" where
  "onGuestSsh m g =
     (case m \<lparr>sw_os = g_os g, sw_conns = g_conns g, sw_raw = False\<rparr> of
        (r, w) \<Rightarrow> (r, g\<lparr>g_os := sw_os w, g_conns := sw_conns w\<rparr>))"

subsection \<open>What the guest sees outside\<close>

text \<open>\<open>lease\<close>: the DHCP offer and the acknowledgement, each possibly missing.\<close>

type_synonym lease = "string option \<times> string option"

record wait_env =
  we_wake :: schedule
  we_host :: "nat \<Rightarrow> transport"
  we_podman :: "nat \<Rightarrow> transport"
  we_ssh :: "nat \<Rightarrow> ssh_env"
  we_linkByName :: "nat \<Rightarrow> string \<Rightarrow> string res"
  we_linkSetUp :: "nat \<Rightarrow> string \<Rightarrow> unit res"
  we_interface :: "nat \<Rightarrow> string \<Rightarrow> string res"
  we_addrs :: "nat \<Rightarrow> string \<Rightarrow> string list res"
  we_dhcpClient :: "string \<Rightarrow> unit res"
  we_dhcpRequest :: "nat \<Rightarrow> lease option res"
  we_netconf :: "string \<Rightarrow> string \<Rightarrow> string res"
  we_configureInterface :: "string \<Rightarrow> string \<Rightarrow> unit res"

subsection \<open>The vsock service (vsockutils.go)\<close>

definition RestAPIVMConfigURL :: string where "RestAPIVMConfigURL = ''/vmconfig''"

definition NewVSockService :: Client where
  "NewVSockService = NewVSockClient 2 (of_nat DefaultVSockPort) [WithTimeout 2000]"

text \<open>A request that is sent is in the log of the guest.\<close>

definition sending :: "Request \<Rightarrow> guest \<Rightarrow> guest" where
  "sending r g = (if ok (url_Parse (buildURL r)) then g\<lparr>g_sent := g_sent g @ [wireRequest r]\<rparr> else g)"

definition vsock_GetVMConfig :: "transport \<Rightarrow> (guest, MachineSpec) proc" where
  "vsock_GetVMConfig peer g =
     (let r = HttpGet NewVSockService RestAPIVMConfigURL
      in (case DoAndRead peer r of
            Inl e \<Rightarrow> Inl e
          | Inr (body, status) \<Rightarrow>
              if status \<noteq> 200 then Inl (Errorf ''GET vmconfig returned'')
              else wrapErr ''failed to unmarshal vmconfig'' (machine_Unmarshal body),
          sending r g))"

definition PostReady :: "transport \<Rightarrow> string \<Rightarrow> (guest, unit) proc" where
  "PostReady peer serviceName g =
     (let r = HttpPost NewVSockService (''/ready/'' @ serviceName)
      in (case httpDo peer r of
            Inl e \<Rightarrow> Inl e
          | Inr resp \<Rightarrow> if StatusCode resp \<noteq> 200 then Inl (Errorf ''POST /ready returned'') else Inr (),
          sending r g))"

subsection \<open>The machine description (vmconfig.go)\<close>

definition configProbe :: "wait_env \<Rightarrow> (guest, MachineSpec) probe" where
  "configProbe env i g =
     (case vsock_GetVMConfig (we_host env i) g of
        (Inr m, g') \<Rightarrow> (Some m, g')
      | (Inl _, g') \<Rightarrow> (None, g'))"

definition getVMConfig :: "wait_env \<Rightarrow> MachineSpec blocking" where
  "getVMConfig env i g =
     waitWrap ''failed to get vmconfig from vsock''
       (\<lambda>i g. loopResult (retryLoop (we_wake env) (configProbe env) i g)) i g"

definition WriteToJsonFile :: "MachineSpec \<Rightarrow> string \<Rightarrow> (OS, unit) proc" where
  "WriteToJsonFile m file = os_WriteFile file (machine_Marshal m)"

definition GetVMConfig :: "wait_env \<Rightarrow> MachineSpec blocking" where
  "GetVMConfig env =
     waitThen (getVMConfig env) (\<lambda>m.
     waitThen (atTime (\<lambda>_. onGuestOS (WriteToJsonFile m VMConfigFilePathInGuest))) (\<lambda>_.
       atTime (\<lambda>_. succeed m)))"

subsection \<open>The network (dhclient_linux.go, network.go)\<close>

definition bringInterfaceUpFast :: "wait_env \<Rightarrow> string \<Rightarrow> nat \<Rightarrow> string res" where
  "bringInterfaceUpFast env ifName i =
     (case we_linkByName env i ifName of
        Inl e \<Rightarrow> Inl (Wrap ''cannot find interface'' e)
      | Inr l \<Rightarrow>
          (case we_linkSetUp env i l of
             Inl e \<Rightarrow> Inl (Wrap ''failed to set interface up'' e)
           | Inr _ \<Rightarrow> wrapErr ''cannot get net.Interface'' (we_interface env i ifName)))"

definition interfaceProbe :: "wait_env \<Rightarrow> string \<Rightarrow> (guest, string) probe" where
  "interfaceProbe env ifName i g =
     (case bringInterfaceUpFast env ifName i of Inr x \<Rightarrow> (Some x, g) | Inl _ \<Rightarrow> (None, g))"

definition waitInterfaceUp :: "wait_env \<Rightarrow> string \<Rightarrow> string blocking" where
  "waitInterfaceUp env ifName =
     waitWrap ''waiting for interface''
       (\<lambda>i g. loopResult (retryLoop (we_wake env) (interfaceProbe env ifName) i g))"

text \<open>The lease loop: \<open>attempts\<close> is an \<open>int\<close> that is counted down to 0.\<close>

partial_function (option) leaseLoop ::
    "schedule \<Rightarrow> (nat \<Rightarrow> lease option res) \<Rightarrow> int \<Rightarrow> nat \<Rightarrow> ((string \<times> string) res \<times> nat) option" where
  "leaseLoop wake request attempts i =
     (if attempts = 0 then Some (Inl (Errorf ''failed to obtain DHCP lease''), i)
      else case wake i of
             DoneCtx \<Rightarrow> Some (Inl ErrCanceled, Suc i)
           | Ticked \<Rightarrow>
               (case request i of
                  Inr (Some (Some offer, Some ack)) \<Rightarrow> Some (Inr (offer, ack), Suc i)
                | _ \<Rightarrow> leaseLoop wake request (attempts - 1) (Suc i)))"

declare leaseLoop.simps [code]

definition dhclient4 :: "wait_env \<Rightarrow> string \<Rightarrow> int \<Rightarrow> string blocking" where
  "dhclient4 env iface attempts =
     waitThen (atTime (\<lambda>_. lift (we_dhcpClient env iface))) (\<lambda>_.
     waitThen (\<lambda>i g. map_option (\<lambda>(r, j). (r, j, g))
                 (leaseLoop (we_wake env) (we_dhcpRequest env) attempts i)) (\<lambda>(offer, ack).
       atTime (\<lambda>_. lift (we_netconf env offer ack))))"

definition DHClient4 :: "wait_env \<Rightarrow> string \<Rightarrow> int \<Rightarrow> unit blocking" where
  "DHClient4 env ifName attempts =
     waitThen (waitWrap ''failed to bring interface up'' (waitInterfaceUp env ifName)) (\<lambda>ife.
     waitThen (waitWrap ''failed to get netboot bootConf from DHCPv4 server''
                 (dhclient4 env ife attempts)) (\<lambda>bootConf.
       atTime (\<lambda>_. wrapping ''failed to apply netboot configuration''
         (lift (we_configureInterface env ifName bootConf)))))"

definition machineMarker :: string where "machineMarker = ''/etc/containers/podman-machine''"
definition resolveFile :: string where "resolveFile = ''/etc/resolv.conf''"
definition defaultNameServer :: string where "defaultNameServer = ''nameserver 1.1.1.1''"

definition ConfigureNetwork :: "wait_env \<Rightarrow> VNetMode \<Rightarrow> unit blocking" where
  "ConfigureNetwork env mode =
     (if mode = TSI then
        waitThen (atTime (\<lambda>_. onGuestOS (ignoring (os_Remove machineMarker)))) (\<lambda>_.
          atTime (\<lambda>_. onGuestOS (os_WriteFile resolveFile defaultNameServer)))
      else if mode = GVISOR then
        waitThen (atTime (\<lambda>_. wrapping ''create podman-machine marker dir''
                   (onGuestOS (os_MkdirAll (Dir machineMarker))))) (\<lambda>_.
        waitThen (atTime (\<lambda>_. wrapping ''write podman-machine marker''
                   (onGuestOS (os_WriteFile machineMarker ''applehv'')))) (\<lambda>_.
          DHClient4 env ''eth0'' 3))
      else atTime (\<lambda>_. failWith (Errorf ''unsupported network mode'')))"

definition GetVirtualNetworkType :: "MachineSpec \<Rightarrow> VNetMode" where
  "GetVirtualNetworkType m = (if VirtualNetworkMode m = TSI then TSI else GVISOR)"

subsection \<open>Readiness probes (readiness.go)\<close>

definition portOf :: "string \<Rightarrow> string" where
  "portOf address = (case SplitHostPort address of Inl _ \<Rightarrow> [] | Inr (_, port) \<Rightarrow> port)"

definition tmpKey :: string where "tmpKey = ''/.sshkey''"

definition probed :: "(guest, bool) proc \<Rightarrow> guest \<Rightarrow> unit option \<times> guest" where
  "probed m g = (case m g of (Inr True, g') \<Rightarrow> (Some (), g') | (_, g') \<Rightarrow> (None, g'))"

definition sshProbe :: "wait_env \<Rightarrow> MachineSpec \<Rightarrow> (guest, unit) probe" where
  "sshProbe env m i =
     probed (onGuestSsh (\<lambda>w.
       case sshDial (we_ssh env i) (JoinHostPort LocalHost (portOf (GuestSSHServerListenAddr (SSHInfo m))))
              [SshPrivateKey tmpKey, SshUser DefaultGuestUser] w of
         (Inl e, w1) \<Rightarrow> (Inl e, w1)
       | (Inr client, w1) \<Rightarrow>
           (Inr (ok (sshRunWith (we_ssh env i) client BuiltinBusybox)), snd (sshClose client w1))))"

text \<open>A probe loop as a Boolean: \<open>true\<close> when a probe succeeded, \<open>false\<close> when cancelled.\<close>

definition readyLoop :: "wait_env \<Rightarrow> (guest, unit) probe \<Rightarrow> bool blocking" where
  "readyLoop env probe i g =
     map_option (\<lambda>(r, x). (Inr (r \<noteq> None), x)) (tickLoop (we_wake env) probe i g)"

text \<open>\<open>ssh.NewClientConn\<close> and the opening of a session set no deadline and do not watch the context.
  \<open>silent i\<close>: at tick \<open>i\<close> the peer takes the connection and then says nothing, so that the probe
  blocks for good. \<open>IsSSHReady\<close> is the case in which that never happens.\<close>

definition IsSSHReadyOn :: "(nat \<Rightarrow> bool) \<Rightarrow> wait_env \<Rightarrow> MachineSpec \<Rightarrow> bool blocking" where
  "IsSSHReadyOn silent env m i g =
     (case onGuestOS (os_WriteFile tmpKey (HostSSHPrivateKey (SSHInfo m))) g of
        (Inl _, g1) \<Rightarrow> Some (Inr False, i, snd (onGuestOS (ignoring (os_Remove tmpKey)) g1))
      | (Inr _, g1) \<Rightarrow>
          map_option (\<lambda>(r, j, g2). (Inr (r \<noteq> None), j, snd (onGuestOS (ignoring (os_Remove tmpKey)) g2)))
            (hangingLoop (we_wake env) silent (sshProbe env m) i g1))"

definition IsSSHReady :: "wait_env \<Rightarrow> MachineSpec \<Rightarrow> bool blocking" where
  "IsSSHReady = IsSSHReadyOn (\<lambda>_. False)"

lemma IsSSHReadyOn_loop:
  assumes "\<forall>j. we_wake env j = Ticked \<longrightarrow> \<not> silent j"
  shows "IsSSHReadyOn silent env m i g =
     (case onGuestOS (os_WriteFile tmpKey (HostSSHPrivateKey (SSHInfo m))) g of
        (Inl _, g1) \<Rightarrow> Some (Inr False, i, snd (onGuestOS (ignoring (os_Remove tmpKey)) g1))
      | (Inr _, g1) \<Rightarrow>
          map_option (\<lambda>(r, j, g2). (r, j, snd (onGuestOS (ignoring (os_Remove tmpKey)) g2)))
            (readyLoop env (sshProbe env m) i g1))"
  by (auto simp: IsSSHReadyOn_def hangs_nowhere [OF assms] readyLoop_def option.map_comp comp_def case_prod_unfold
      split: prod.splits sum.splits)

lemma IsSSHReady_loop:
  "IsSSHReady env m i g =
     (case onGuestOS (os_WriteFile tmpKey (HostSSHPrivateKey (SSHInfo m))) g of
        (Inl _, g1) \<Rightarrow> Some (Inr False, i, snd (onGuestOS (ignoring (os_Remove tmpKey)) g1))
      | (Inr _, g1) \<Rightarrow>
          map_option (\<lambda>(r, j, g2). (r, j, snd (onGuestOS (ignoring (os_Remove tmpKey)) g2)))
            (readyLoop env (sshProbe env m) i g1))"
  unfolding IsSSHReady_def by (rule IsSSHReadyOn_loop) simp

definition pingRequest :: "MachineSpec \<Rightarrow> Request" where
  "pingRequest m = NewRequest (NewTCPClient (JoinHostPort LocalHost
     (portOf (GuestPodmanAPIListenAddr (PodmanInfo m)))) []) ''GET'' ''_ping''"

definition podmanProbe :: "wait_env \<Rightarrow> MachineSpec \<Rightarrow> (guest, unit) probe" where
  "podmanProbe env m i =
     (let r = pingRequest m
      in probed (\<lambda>g. (case httpDo (we_podman env i) r of
                        Inl e \<Rightarrow> Inl e
                      | Inr resp \<Rightarrow> Inr (StatusCode resp = 200), sending r g)))"

definition IsPodmanReady :: "wait_env \<Rightarrow> MachineSpec \<Rightarrow> bool blocking" where
  "IsPodmanReady env m = readyLoop env (podmanProbe env m)"

definition addrsProbe :: "wait_env \<Rightarrow> string \<Rightarrow> (guest, unit) probe" where
  "addrsProbe env ifName i =
     probed (\<lambda>g. (case we_interface env i ifName of
                     Inl e \<Rightarrow> Inl e
                   | Inr iface \<Rightarrow>
                       (case we_addrs env i iface of Inl e \<Rightarrow> Inl e | Inr as \<Rightarrow> Inr (as \<noteq> [])), g))"

definition IsInterfaceReady :: "wait_env \<Rightarrow> MachineSpec \<Rightarrow> bool blocking" where
  "IsInterfaceReady env m =
     (if VirtualNetworkMode m = GVISOR then readyLoop env (addrsProbe env ''eth0'')
      else if VirtualNetworkMode m = TSI then readyLoop env (addrsProbe env ''lo'')
      else atTime (\<lambda>_. succeed False))"

subsection \<open>Telling the host (common.go)\<close>

definition postIf :: "wait_env \<Rightarrow> string \<Rightarrow> string \<Rightarrow> bool \<Rightarrow> unit blocking" where
  "postIf env msg name ready =
     atTime (\<lambda>i. if ready then wrapping msg (PostReady (we_host env i) name) else succeed ())"

definition WaitGuestServiceReadyOn :: "(nat \<Rightarrow> bool) \<Rightarrow> wait_env \<Rightarrow> MachineSpec \<Rightarrow> unit blocking" where
  "WaitGuestServiceReadyOn silent env m =
     waitThen (IsSSHReadyOn silent env m) (\<lambda>ssh.
     waitThen (postIf env ''post ssh ready'' ServiceNameSSH ssh) (\<lambda>_.
     waitThen (IsPodmanReady env m) (\<lambda>podman.
     waitThen (postIf env ''post podman ready'' ServiceNamePodman podman) (\<lambda>_.
     waitThen (IsInterfaceReady env m) (\<lambda>iface.
       postIf env ''post guest network ready'' ServiceNameGuestNetwork iface)))))"

definition WaitGuestServiceReady :: "wait_env \<Rightarrow> MachineSpec \<Rightarrow> unit blocking" where
  "WaitGuestServiceReady = WaitGuestServiceReadyOn (\<lambda>_. False)"

subsection \<open>Every wait ends\<close>

text \<open>\<open>endsBy n k m\<close>: once the context is cancelled from time \<open>n\<close> on, \<open>m\<close> returns, at most
  \<open>k\<close> turns after the later of \<open>n\<close> and its start.\<close>

definition endsBy :: "nat \<Rightarrow> nat \<Rightarrow> 'a blocking \<Rightarrow> bool" where
  "endsBy n k m \<longleftrightarrow> (\<forall>i g. \<exists>r j g'. m i g = Some (r, j, g') \<and> i \<le> j \<and> j \<le> max i n + k)"

definition cancelledFrom :: "nat \<Rightarrow> schedule \<Rightarrow> bool" where
  "cancelledFrom n wake \<longleftrightarrow> (\<forall>j \<ge> n. wake j = DoneCtx)"

lemma endsBy_atTime: "endsBy n 0 (atTime m)"
  by (auto simp: endsBy_def atTime_def split: prod.splits)

lemma endsBy_mono: "endsBy n k m \<Longrightarrow> k \<le> k' \<Longrightarrow> endsBy n k' m"
  unfolding endsBy_def by (meson add_left_mono order_trans)

lemma endsBy_waitThen:
  assumes "endsBy n k m" and "\<And>a. endsBy n k' (f a)"
  shows "endsBy n (k + k') (waitThen m f)"
  unfolding endsBy_def
proof (intro allI)
  fix i g
  obtain r j u where m: "m i g = Some (r, j, u)" "i \<le> j" "j \<le> max i n + k"
    using assms(1) unfolding endsBy_def by blast
  show "\<exists>r j g'. waitThen m f i g = Some (r, j, g') \<and> i \<le> j \<and> j \<le> max i n + (k + k')"
  proof (cases r)
    case (Inl e)
    with m show ?thesis by (auto simp: waitThen_def)
  next
    case (Inr a)
    obtain r' j' u' where "f a j u = Some (r', j', u')" "j \<le> j'" "j' \<le> max j n + k'"
      using assms(2) [of a] unfolding endsBy_def by blast
    with m Inr show ?thesis by (auto simp: waitThen_def)
  qed
qed

lemma endsBy_step: "endsBy n k (atTime m)"
  by (rule endsBy_mono [OF endsBy_atTime]) simp

lemma endsBy_if: "endsBy n k a \<Longrightarrow> endsBy n k b \<Longrightarrow> endsBy n k (if c then a else b)"
  by simp

lemma endsBy_waitWrap: "endsBy n k m \<Longrightarrow> endsBy n k (waitWrap msg m)"
  unfolding endsBy_def waitWrap_def by (metis (mono_tags, lifting) case_prod_conv option.simps(9))

lemma loop_ends:
  assumes "waiting loop turn wake" and "cancelledFrom n wake"
  shows "\<exists>x j w'. loop i w = Some (x, j, w') \<and> i \<le> j \<and> j \<le> max i n + 1"
proof -
  have "wake (i + (n - i)) = DoneCtx" using assms(2) by (simp add: cancelledFrom_def)
  with waiting.returns_when_done [OF assms(1)] obtain x j w' where
    "loop i w = Some (x, j, w')" "i \<le> j" "j \<le> Suc (i + (n - i))" by blast
  moreover have "i + (n - i) = max i n" by simp
  ultimately show ?thesis by auto
qed

lemma endsBy_retry: "cancelledFrom n wake \<Longrightarrow> endsBy n 1 (\<lambda>i g. loopResult (retryLoop wake probe i g))"
  unfolding endsBy_def loopResult_def
  by (intro allI) (use loop_ends [OF waiting_retry] in fastforce)

lemma endsBy_ready: "cancelledFrom n (we_wake env) \<Longrightarrow> endsBy n 1 (readyLoop env probe)"
  unfolding endsBy_def readyLoop_def
  by (intro allI) (use loop_ends [OF waiting_tick] in fastforce)

text \<open>The lease loop ends after as many turns as it has attempts, cancelled or not.\<close>

lemma lease_ends: "\<exists>r j. leaseLoop wake request (int a) i = Some (r, j) \<and> i \<le> j \<and> j \<le> i + a"
proof (induction a arbitrary: i)
  case 0
  show ?case by (subst leaseLoop.simps) simp
next
  case (Suc a)
  obtain r j where "leaseLoop wake request (int a) (Suc i) = Some (r, j)" "Suc i \<le> j" "j \<le> Suc i + a"
    using Suc by blast
  then show ?case
    by (subst leaseLoop.simps)
      (auto split: wake.splits sum.splits option.splits prod.splits)
qed

lemma endsBy_sshReady:
  assumes "cancelledFrom n (we_wake env)" and "\<forall>j<n. \<not> silent j"
  shows "endsBy n 1 (IsSSHReadyOn silent env m)"
  unfolding endsBy_def
proof (intro allI)
  have free: "\<forall>j. we_wake env j = Ticked \<longrightarrow> \<not> silent j"
    using assms by (metis cancelledFrom_def leI wake.distinct(1))
  fix i g
  obtain r u where w: "onGuestOS (os_WriteFile tmpKey (HostSSHPrivateKey (SSHInfo m))) g = (r, u)" by fastforce
  obtain r' j g' where "readyLoop env (sshProbe env m) i u = Some (r', j, g')" "i \<le> j" "j \<le> max i n + 1"
    using endsBy_ready [OF assms(1), of "sshProbe env m"] unfolding endsBy_def by blast
  with w show "\<exists>r j g'. IsSSHReadyOn silent env m i g = Some (r, j, g') \<and> i \<le> j \<and> j \<le> max i n + 1"
    by (cases r) (auto simp: IsSSHReadyOn_loop [OF free])
qed

lemma endsBy_interfaceReady: "cancelledFrom n (we_wake env) \<Longrightarrow> endsBy n 1 (IsInterfaceReady env m)"
  unfolding IsInterfaceReady_def by (intro endsBy_if endsBy_ready endsBy_step)

lemma endsBy_getVMConfig: "cancelledFrom n (we_wake env) \<Longrightarrow> endsBy n 1 (getVMConfig env)"
  unfolding getVMConfig_def [abs_def] by (intro endsBy_waitWrap endsBy_retry)

lemma endsBy_GetVMConfig:
  assumes "cancelledFrom n (we_wake env)"
  shows "endsBy n 1 (GetVMConfig env)"
proof -
  have "endsBy n (1 + (0 + 0)) (GetVMConfig env)"
    unfolding GetVMConfig_def by (intro endsBy_waitThen endsBy_atTime endsBy_getVMConfig assms)
  then show ?thesis by simp
qed

lemma endsBy_WaitGuestServiceReady:
  assumes "cancelledFrom n (we_wake env)" and "\<forall>j<n. \<not> silent j"
  shows "endsBy n 3 (WaitGuestServiceReadyOn silent env m)"
proof -
  have "endsBy n (1 + (0 + (1 + (0 + (1 + 0))))) (WaitGuestServiceReadyOn silent env m)"
    unfolding WaitGuestServiceReadyOn_def postIf_def IsPodmanReady_def
    by (intro endsBy_waitThen endsBy_atTime endsBy_sshReady endsBy_ready endsBy_interfaceReady assms)
  then show ?thesis by (simp add: numeral_3_eq_3)
qed

text \<open>The network is configured with the background context, which never ends: only the interface ends
  the wait for it, and then the limit of three requests the wait for a lease.\<close>

lemma interface_comes:
  assumes "i \<le> k" and "ok (bringInterfaceUpFast env ifName k)"
    and "\<forall>j. we_wake env j = Ticked"
  shows "\<exists>x j. waitInterfaceUp env ifName i g = Some (Inr x, j, g) \<and> i \<le> j \<and> j \<le> k"
  using assms(1)
proof (induction "k - i" arbitrary: i)
  case 0
  then have "i = k" by simp
  moreover obtain x where "bringInterfaceUpFast env ifName k = Inr x" using assms(2) by (auto simp: ok_iff)
  ultimately show ?case
    by (simp add: waitInterfaceUp_def waitWrap_def loopResult_def retryLoop.simps [of _ _ k] interfaceProbe_def wrapErr_def)
next
  case (Suc d)
  show ?case
  proof (cases "bringInterfaceUpFast env ifName i")
    case (Inr x)
    with Suc.prems show ?thesis
      by (simp add: waitInterfaceUp_def waitWrap_def loopResult_def retryLoop.simps [of _ _ i] interfaceProbe_def wrapErr_def)
  next
    case (Inl e)
    then have "waitInterfaceUp env ifName i g = waitInterfaceUp env ifName (Suc i) g"
      using assms(3) by (simp add: waitInterfaceUp_def waitWrap_def loopResult_def retryLoop.simps [of _ _ i] interfaceProbe_def)
    moreover have "\<exists>x j. waitInterfaceUp env ifName (Suc i) g = Some (Inr x, j, g) \<and> Suc i \<le> j \<and> j \<le> k"
      using Suc by (intro Suc.hyps(1)) auto
    ultimately show ?thesis by auto
  qed
qed

text \<open>\<open>soon d m\<close>: started at any time, \<open>m\<close> returns within \<open>d\<close> turns, cancelled or not.\<close>

definition soon :: "nat \<Rightarrow> 'a blocking \<Rightarrow> bool" where
  "soon d m \<longleftrightarrow> (\<forall>i g. \<exists>r j g'. m i g = Some (r, j, g') \<and> i \<le> j \<and> j \<le> i + d)"

lemma soon_atTime: "soon 0 (atTime m)"
  by (auto simp: soon_def atTime_def split: prod.splits)

lemma soon_waitThen:
  assumes "soon k m" and "\<And>a. soon k' (f a)"
  shows "soon (k + k') (waitThen m f)"
  unfolding soon_def
proof (intro allI)
  fix i g
  obtain r j u where m: "m i g = Some (r, j, u)" "i \<le> j" "j \<le> i + k"
    using assms(1) unfolding soon_def by blast
  show "\<exists>r j g'. waitThen m f i g = Some (r, j, g') \<and> i \<le> j \<and> j \<le> i + (k + k')"
  proof (cases r)
    case (Inl e)
    with m show ?thesis by (auto simp: waitThen_def)
  next
    case (Inr a)
    obtain r' j' u' where "f a j u = Some (r', j', u')" "j \<le> j'" "j' \<le> j + k'"
      using assms(2) [of a] unfolding soon_def by blast
    with m Inr show ?thesis by (auto simp: waitThen_def)
  qed
qed

lemma soon_waitWrap: "soon k m \<Longrightarrow> soon k (waitWrap msg m)"
  unfolding soon_def waitWrap_def by (metis (mono_tags, lifting) case_prod_conv option.simps(9))

lemma soon_lease: "soon a (\<lambda>i g. map_option (\<lambda>(r, j). (r, j, g)) (leaseLoop wake request (int a) i))"
  unfolding soon_def
proof (intro allI)
  fix i :: nat and g :: guest
  obtain r j where "leaseLoop wake request (int a) i = Some (r, j)" "i \<le> j" "j \<le> i + a"
    using lease_ends by blast
  then show "\<exists>r j g'. map_option (\<lambda>(r, j). (r, j, g)) (leaseLoop wake request (int a) i) = Some (r, j, g') \<and>
      i \<le> j \<and> j \<le> i + a" by simp
qed

lemma soon_dhclient: "soon a (dhclient4 env iface (int a))"
proof -
  have "soon (0 + (a + 0)) (dhclient4 env iface (int a))"
    unfolding dhclient4_def
    by (intro soon_waitThen soon_atTime soon_lease) (auto simp: split_beta intro!: soon_atTime)
  then show ?thesis by simp
qed

lemma DHClient4_returns:
  assumes "\<forall>j. we_wake env j = Ticked" and "i \<le> k" and "ok (bringInterfaceUpFast env ifName k)"
  shows "\<exists>r j g'. DHClient4 env ifName (int a) i g = Some (r, j, g') \<and> j \<le> k + a"
proof -
  obtain x l where w: "waitInterfaceUp env ifName i g = Some (Inr x, l, g)" "l \<le> k"
    using interface_comes [OF assms(2,3,1)] by blast
  let ?rest = "waitThen (waitWrap ''failed to get netboot bootConf from DHCPv4 server'' (dhclient4 env x (int a)))
    (\<lambda>bootConf. atTime (\<lambda>_. wrapping ''failed to apply netboot configuration'' (lift (we_configureInterface env ifName bootConf))))"
  have "soon (a + 0) ?rest" by (intro soon_waitThen soon_waitWrap soon_dhclient soon_atTime)
  then obtain r j g' where "?rest l g = Some (r, j, g')" "j \<le> l + a"
    unfolding soon_def by (metis add.right_neutral)
  moreover have "DHClient4 env ifName (int a) i g = ?rest l g"
    using w(1) by (simp add: DHClient4_def waitThen_def [of "waitWrap ''failed to bring interface up'' m" for m]
        waitWrap_def [of "''failed to bring interface up''"] wrapErr_def)
  ultimately show ?thesis using w(2) by auto
qed

lemma ConfigureNetwork_returns:
  assumes "\<forall>j. we_wake env j = Ticked" and "mode \<noteq> GVISOR \<or> i \<le> k \<and> ok (bringInterfaceUpFast env ''eth0'' k)"
  shows "\<exists>r j g'. ConfigureNetwork env mode i g = Some (r, j, g') \<and> j \<le> max i k + 3"
proof (cases "mode = GVISOR")
  case False
  have "soon (0 + 0) (ConfigureNetwork env mode)"
    unfolding ConfigureNetwork_def using False
    by (simp add: soon_waitThen [OF soon_atTime soon_atTime, simplified] soon_atTime)
  then obtain r j g' where "ConfigureNetwork env mode i g = Some (r, j, g')" "j \<le> i"
    unfolding soon_def by (metis add.right_neutral)
  then show ?thesis by auto
next
  case True
  then have k: "i \<le> k" "ok (bringInterfaceUpFast env ''eth0'' k)" using assms(2) by auto
  note dhcp = DHClient4_returns [OF assms(1) k, of 3, simplified]
  have "GVISOR \<noteq> TSI" by (simp add: GVISOR_def TSI_def)
  moreover have "\<exists>r j g'. waitThen (atTime m1) (\<lambda>_. waitThen (atTime m2) (\<lambda>_. DHClient4 env ''eth0'' 3)) i g =
      Some (r, j, g') \<and> j \<le> max i k + 3" for m1 m2 :: "nat \<Rightarrow> (guest, unit) proc"
  proof -
    obtain r1 g1 where 1: "m1 i g = (r1, g1)" by fastforce
    obtain r2 g2 where 2: "m2 i g1 = (r2, g2)" by fastforce
    obtain r j g' where "DHClient4 env ''eth0'' 3 i g2 = Some (r, j, g')" "j \<le> k + 3" using dhcp by blast
    with 1 2 k(1) show ?thesis by (cases r1; cases r2) (auto simp: waitThen_def atTime_def)
  qed
  ultimately show ?thesis using True by (simp add: ConfigureNetwork_def)
qed

text \<open>And without the interface it never returns.\<close>

lemma network_waits_forever:
  assumes "\<forall>j. we_wake env j = Ticked" and "\<forall>j. \<not> ok (bringInterfaceUpFast env ifName j)"
  shows "waitInterfaceUp env ifName i g = None"
proof (rule ccontr)
  assume "waitInterfaceUp env ifName i g \<noteq> None"
  then obtain R where "retryLoop (we_wake env) (interfaceProbe env ifName) i g = Some R"
    by (auto simp: waitInterfaceUp_def waitWrap_def loopResult_def)
  then have "we_wake env = we_wake env \<longrightarrow> interfaceProbe env ifName = interfaceProbe env ifName \<longrightarrow> False"
  proof (rule retryLoop.raw_induct [where P = "\<lambda>wk pr i w R. wk = we_wake env \<longrightarrow>
      pr = interfaceProbe env ifName \<longrightarrow> False", rotated], intro impI)
    fix loop and wk :: schedule and pr i w R
    assume IH: "\<And>wk pr i w R. loop wk pr i w = Some R \<Longrightarrow> wk = we_wake env \<longrightarrow> pr = interfaceProbe env ifName \<longrightarrow> False"
      and body: "(case pr i w of (None, w') \<Rightarrow>
            (case wk i of Ticked \<Rightarrow> loop wk pr (Suc i) w' | DoneCtx \<Rightarrow> Some (None, Suc i, w'))
          | (Some r, w') \<Rightarrow> Some (Some r, i, w')) = Some R"
      and same: "wk = we_wake env" "pr = interfaceProbe env ifName"
    have "pr i w = (None, w)" using assms(2) same by (auto simp: interfaceProbe_def ok_iff split: sum.split)
    with body assms(1) same have "loop wk pr (Suc i) w = Some R" by simp
    from IH [OF this] same show False by simp
  qed
  then show False by simp
qed

text \<open>An SSH peer that takes the connection and stays silent keeps the probe from returning, although the
  deadline passes.\<close>

lemma ssh_probe_hangs:
  assumes "we_wake env i = Ticked" and "silent i"
    and "ok (fst (os_WriteFile tmpKey (HostSSHPrivateKey (SSHInfo m)) (g_os g)))"
  shows "IsSSHReadyOn silent env m i g = None"
  using assms by (auto simp: IsSSHReadyOn_def onGuestOS_def hangingLoop.simps [of _ _ _ i] ok_iff split: prod.splits)

text \<open>C26. What ends the waits of the guest agent. Fetching the description and probing the services
  have a deadline of 60 seconds; once it has passed (from time \<open>n\<close> on), both return within one turn
  per loop that is left, whatever the host, podman and the kernel answer, provided that no SSH peer
  fell silent on a probe before (\<open>ssh_probe_hangs\<close> shows that this is needed). Configuring the
  network has no deadline: it returns at once in TSI mode and, in gvisor mode, at most three turns
  after the interface can be brought up (never without it: \<open>network_waits_forever\<close>). Asking for a
  DHCP lease returns after three turns.\<close>

theorem guest_waits_end:
  assumes "cancelledFrom n (we_wake env)" and "\<forall>j<n. \<not> silent j"
    and "\<forall>j. we_wake background j = Ticked"
    and "mode \<noteq> GVISOR \<or> i \<le> k \<and> ok (bringInterfaceUpFast background ''eth0'' k)"
  shows "(\<exists>r j g'. GetVMConfig env i g = Some (r, j, g') \<and> j \<le> max i n + 1) \<and>
    (\<exists>r j g'. WaitGuestServiceReadyOn silent env m i g = Some (r, j, g') \<and> j \<le> max i n + 3) \<and>
    (\<exists>r j g'. ConfigureNetwork background mode i g = Some (r, j, g') \<and> j \<le> max i k + 3) \<and>
    (\<exists>r j. leaseLoop wake request 3 i = Some (r, j) \<and> j \<le> i + 3)"
proof (intro conjI)
  show "\<exists>r j. leaseLoop wake request 3 i = Some (r, j) \<and> j \<le> i + 3"
    using lease_ends [of wake request 3 i] by auto
  show "\<exists>r j g'. ConfigureNetwork background mode i g = Some (r, j, g') \<and> j \<le> max i k + 3"
    by (rule ConfigureNetwork_returns [OF assms(3,4)])
qed (use endsBy_GetVMConfig [OF assms(1)] endsBy_WaitGuestServiceReady [OF assms(1,2)] in \<open>unfold endsBy_def, blast+\<close>)

definition sampleWaitEnv :: "schedule \<Rightarrow> transport \<Rightarrow> ssh_env \<Rightarrow> wait_env" where
  "sampleWaitEnv wake peer ssh = \<lparr>we_wake = wake, we_host = (\<lambda>_. peer), we_podman = (\<lambda>_. peer),
     we_ssh = (\<lambda>_. ssh), we_linkByName = (\<lambda>_ x. Inr x), we_linkSetUp = (\<lambda>_ _. Inr ()),
     we_interface = (\<lambda>_ x. Inr x), we_addrs = (\<lambda>_ _. Inr [''192.168.127.2'']),
     we_dhcpClient = (\<lambda>_. Inr ()), we_dhcpRequest = (\<lambda>_. Inr None),
     we_netconf = (\<lambda>_ _. Inr []), we_configureInterface = (\<lambda>_ _. Inr ())\<rparr>"

theorem guest_waits_end_witness:
  "(\<exists>r j g'. WaitGuestServiceReadyOn (\<lambda>j. 5 \<le> j) (sampleWaitEnv (\<lambda>i. if i < 5 then Ticked else DoneCtx)
       (\<lambda>_. Inl ErrCanceled) sampleSshEnv) emptyMachine 0 sampleGuest = Some (r, j, g') \<and> j \<le> 8) \<and>
   (\<exists>r j g'. ConfigureNetwork (sampleWaitEnv (\<lambda>_. Ticked) (\<lambda>_. Inl ErrCanceled) sampleSshEnv) GVISOR 0 sampleGuest =
       Some (r, j, g') \<and> j \<le> 5)"
proof -
  let ?env = "sampleWaitEnv (\<lambda>i. if i < 5 then Ticked else DoneCtx) (\<lambda>_. Inl ErrCanceled) sampleSshEnv"
  let ?background = "sampleWaitEnv (\<lambda>_. Ticked) (\<lambda>_. Inl ErrCanceled) sampleSshEnv"
  have "cancelledFrom 5 (we_wake ?env)" "\<forall>j. we_wake ?background j = Ticked"
    by (simp_all add: cancelledFrom_def sampleWaitEnv_def)
  moreover have "ok (bringInterfaceUpFast ?background ''eth0'' 2)"
    by (simp add: bringInterfaceUpFast_def sampleWaitEnv_def wrapErr_def)
  ultimately show ?thesis
    using guest_waits_end [of 5 ?env "\<lambda>j. 5 \<le> j" ?background GVISOR 0 2] by simp
qed

subsection \<open>The host is told\<close>

text \<open>The requests sent to the host, among all.\<close>

definition hostSent :: "guest \<Rightarrow> HttpRequest list" where
  "hostSent g = filter (\<lambda>r. hr_dial r = cl_dial NewVSockService) (g_sent g)"

definition readyRequest :: "string \<Rightarrow> HttpRequest" where
  "readyRequest name = wireRequest (HttpPost NewVSockService (''/ready/'' @ name))"

text \<open>Services that answer.\<close>

definition sshUp :: "ssh_env \<Rightarrow> bool" where
  "sshUp e \<longleftrightarrow> (\<forall>k. ok (se_parseKey e k)) \<and> (\<forall>a t. ok (se_dialTCP e a t)) \<and>
     (\<forall>x u k. ok (se_handshake e x u k)) \<and> ok (se_session e) \<and>
     (\<exists>out. se_run e BuiltinBusybox = Some (out, Inr ()))"

definition answers200 :: "transport \<Rightarrow> HttpRequest \<Rightarrow> bool" where
  "answers200 peer r \<longleftrightarrow> (case peer r of Inr resp \<Rightarrow> StatusCode resp = 200 | Inl _ \<Rightarrow> False)"

definition reportedServices :: "string list" where
  "reportedServices = [ServiceNameSSH, ServiceNamePodman, ServiceNameGuestNetwork]"

definition hasAddress :: "wait_env \<Rightarrow> nat \<Rightarrow> string \<Rightarrow> bool" where
  "hasAddress env i ifName \<longleftrightarrow>
     (\<exists>iface as. we_interface env i ifName = Inr iface \<and> we_addrs env i iface = Inr as \<and> as \<noteq> [])"

lemma hostSent_simps [simp]:
  "hostSent (g\<lparr>g_os := s\<rparr>) = hostSent g" "hostSent (g\<lparr>g_conns := cs\<rparr>) = hostSent g"
  by (simp_all add: hostSent_def)

lemma onGuestOS_hostSent [simp]: "hostSent (snd (onGuestOS m g)) = hostSent g"
  by (auto simp: onGuestOS_def split: prod.splits)

lemma sshProbe_keeps:
  "g_os (snd (sshProbe env m i g)) = g_os g \<and> hostSent (snd (sshProbe env m i g)) = hostSent g"
proof -
  let ?w = "\<lparr>sw_os = g_os g, sw_conns = g_conns g, sw_raw = False\<rparr>"
  obtain r w1 where d: "sshDial (we_ssh env i)
      (JoinHostPort LocalHost (portOf (GuestSSHServerListenAddr (SSHInfo m))))
      [SshPrivateKey tmpKey, SshUser DefaultGuestUser] ?w = (r, w1)" by fastforce
  show ?thesis
  proof (cases r)
    case (Inl e)
    with sshDial_cases [OF d] have "sw_os w1 = g_os g" by (simp add: tidy_def)
    with d Inl show ?thesis by (simp add: sshProbe_def probed_def onGuestSsh_def)
  next
    case (Inr c)
    with sshDial_cases [OF d] have "sw_os w1 = g_os g" by (auto simp: opened_def)
    then have "sw_os (snd (sshClose c w1)) = g_os g" by (simp add: sshClose_def closeConn_def)
    with d Inr show ?thesis
      by (simp add: sshProbe_def probed_def onGuestSsh_def split: bool.split)
  qed
qed

lemma sshDial_up:
  assumes "sshUp e" and "os_ReadFile tmpKey (sw_os w) = (Inr k, s)"
  shows "\<exists>c w'. sshDial e address [SshPrivateKey tmpKey, SshUser u] w = (Inr c, w') \<and> \<not> cl_closed c"
proof -
  obtain signer where "se_parseKey e k = Inr signer" using assms(1) unfolding sshUp_def ok_iff by blast
  moreover have "\<exists>x. se_dialTCP e address 5000 = Inr x" using assms(1) by (auto simp: sshUp_def ok_iff)
  moreover have "\<exists>y. se_handshake e x u signer = Inr y" for x using assms(1) by (auto simp: sshUp_def ok_iff)
  ultimately show ?thesis
    using assms(2)
    by (auto simp: sshDial_def defaultSshOptions_def tmpKey_def dialDirect_def proc_defs openConn_def
        split: sum.split)
qed

lemma sshProbe_up:
  assumes "sshUp (we_ssh env i)" and "os_ReadFile tmpKey (g_os g) = (Inr k, s)"
  shows "fst (sshProbe env m i g) = Some ()"
proof -
  let ?w = "\<lparr>sw_os = g_os g, sw_conns = g_conns g, sw_raw = False\<rparr>"
  obtain c w' where "sshDial (we_ssh env i)
      (JoinHostPort LocalHost (portOf (GuestSSHServerListenAddr (SSHInfo m))))
      [SshPrivateKey tmpKey, SshUser DefaultGuestUser] ?w = (Inr c, w')" and c: "\<not> cl_closed c"
    using sshDial_up [of "we_ssh env i" ?w] assms by fastforce
  moreover have "ok (sshRunWith (we_ssh env i) c BuiltinBusybox)"
    using assms(1) c by (auto simp: sshUp_def sshRunWith_def ok_iff)
  ultimately show ?thesis by (simp add: sshProbe_def probed_def onGuestSsh_def)
qed

lemma readyLoop_succeeds:
  assumes "\<And>j g. Q g \<Longrightarrow> Q (snd (probe j g))"
    and "\<And>j g. up \<le> j \<Longrightarrow> Q g \<Longrightarrow> fst (probe j g) \<noteq> None"
    and "\<And>j. j \<le> max i up \<Longrightarrow> we_wake env j = Ticked" and "Q g"
  shows "\<exists>j g'. readyLoop env probe i g = Some (Inr True, j, g') \<and> i < j \<and> j \<le> Suc (max i up) \<and> Q g'"
  using tick_succeeds [of Q probe up i "we_wake env" g, OF assms] by (auto simp: readyLoop_def)

lemma IsSSHReady_succeeds:
  assumes "ok (fst (os_WriteFile tmpKey (HostSSHPrivateKey (SSHInfo m)) (g_os g)))"
    and "\<And>j. up \<le> j \<Longrightarrow> sshUp (we_ssh env j)"
    and "\<And>j. j \<le> max i up \<Longrightarrow> we_wake env j = Ticked"
  shows "\<exists>j g'. IsSSHReady env m i g = Some (Inr True, j, g') \<and> j \<le> Suc (max i up) \<and>
    hostSent g' = hostSent g"
proof -
  obtain s where w: "os_WriteFile tmpKey (HostSSHPrivateKey (SSHInfo m)) (g_os g) = (Inr (), s)"
    using assms(1) by (auto simp: ok_iff) (metis prod.collapse)
  let ?Q = "\<lambda>u. g_os u = s \<and> hostSent u = hostSent g"
  have "\<exists>j g'. readyLoop env (sshProbe env m) i (g\<lparr>g_os := s\<rparr>) = Some (Inr True, j, g') \<and> i < j \<and>
      j \<le> Suc (max i up) \<and> ?Q g'"
  proof (rule readyLoop_succeeds)
    fix j u
    assume u: "?Q u"
    then show "?Q (snd (sshProbe env m j u))" by (simp add: sshProbe_keeps)
    assume "up \<le> j"
    with u show "fst (sshProbe env m j u) \<noteq> None"
      using sshProbe_up [OF assms(2)] write_then_read [OF w] by simp
  qed (simp_all add: assms(3))
  moreover have "onGuestOS (os_WriteFile tmpKey (HostSSHPrivateKey (SSHInfo m))) g = (Inr (), g\<lparr>g_os := s\<rparr>)"
    by (simp add: onGuestOS_def w)
  ultimately show ?thesis by (auto simp: IsSSHReady_loop)
qed

text \<open>Where podman listens in the guest.\<close>

definition listensAt :: "string \<Rightarrow> bool" where
  "listensAt address \<longleftrightarrow> (\<exists>h n. plainHost h \<and> address = JoinHostPort h (Itoa n))"

lemma ping_url:
  assumes "listensAt (GuestPodmanAPIListenAddr (PodmanInfo m))"
  shows "ok (url_Parse (buildURL (pingRequest m)))"
proof -
  obtain n where "portOf (GuestPodmanAPIListenAddr (PodmanInfo m)) = Itoa n"
    using assms host_port_round_trip(2) by (auto simp: listensAt_def portOf_def)
  moreover have l: "plainHost LocalHost" "list_all unreserved LocalHost" "plainScheme ''http''"
    "escapePath ''/_ping'' = ''/_ping''" "Clean ''/_ping'' = ''/_ping''" "IsAbs ''/_ping''"
    by code_simp+
  ultimately show ?thesis
    using url_Parse_authority [OF l(3) tcp_host_port [OF l(1,2), of n], of "''/_ping''"]
      host_port_round_trip(1) [OF l(1), of n]
    by (simp add: pingRequest_def buildURL_def NewRequest_def NewTCPClient_def)
qed

lemma podman_succeeds:
  assumes "listensAt (GuestPodmanAPIListenAddr (PodmanInfo m))"
    and "\<And>j. up \<le> j \<Longrightarrow> answers200 (we_podman env j) (wireRequest (pingRequest m))"
    and "\<And>j. j \<le> max i up \<Longrightarrow> we_wake env j = Ticked"
  shows "\<exists>j g'. IsPodmanReady env m i g = Some (Inr True, j, g') \<and> j \<le> Suc (max i up) \<and>
    hostSent g' = hostSent g"
proof -
  let ?r = "pingRequest m"
  have "hr_dial (wireRequest ?r) \<noteq> cl_dial NewVSockService"
    by (simp add: pingRequest_def wireRequest_def NewRequest_def NewTCPClient_def NewVSockService_def NewVSockClient_def)
  then have "hostSent (snd (podmanProbe env m j u)) = hostSent u" for j u
    by (simp add: podmanProbe_def Let_def probed_def sending_def hostSent_def split: sum.split bool.split)
  moreover have "fst (podmanProbe env m j u) \<noteq> None" if late: "up \<le> j" for j u
  proof -
    obtain resp where "we_podman env j (wireRequest ?r) = Inr resp" "StatusCode resp = 200"
      using assms(2) [OF late] by (auto simp: answers200_def split: sum.splits)
    moreover obtain x where "url_Parse (buildURL ?r) = Inr x"
      using ping_url [OF assms(1)] by (auto simp: ok_iff)
    ultimately show ?thesis by (simp add: podmanProbe_def Let_def probed_def httpDo_def)
  qed
  ultimately show ?thesis
    using readyLoop_succeeds [of "\<lambda>u. hostSent u = hostSent g" "podmanProbe env m" up i env g] assms(3)
    by (auto simp: IsPodmanReady_def)
qed

lemma interface_succeeds:
  assumes "VirtualNetworkMode m = GVISOR \<and> ifName = ''eth0'' \<or> VirtualNetworkMode m = TSI \<and> ifName = ''lo''"
    and "\<And>j. up \<le> j \<Longrightarrow> hasAddress env j ifName"
    and "\<And>j. j \<le> max i up \<Longrightarrow> we_wake env j = Ticked"
  shows "\<exists>j g'. IsInterfaceReady env m i g = Some (Inr True, j, g') \<and> j \<le> Suc (max i up) \<and>
    hostSent g' = hostSent g"
proof -
  have keeps: "snd (addrsProbe env ifName j u) = u" for j u
    by (simp add: addrsProbe_def probed_def split: sum.split bool.split)
  have "fst (addrsProbe env ifName j u) \<noteq> None" if "up \<le> j" for j u
    using assms(2) [OF that] by (auto simp: hasAddress_def addrsProbe_def probed_def)
  with keeps have "\<exists>j g'. readyLoop env (addrsProbe env ifName) i g = Some (Inr True, j, g') \<and> i < j \<and>
      j \<le> Suc (max i up) \<and> g' = g"
    using readyLoop_succeeds [of "\<lambda>u. u = g" "addrsProbe env ifName" up i env g] assms(3) by auto
  with assms(1) show ?thesis by (auto simp: IsInterfaceReady_def)
qed

lemma postIf_accepted:
  assumes "answers200 (we_host env i) (readyRequest name)" and "name \<in> set reportedServices"
  shows "\<exists>g'. postIf env msg name True i g = Some (Inr (), i, g') \<and>
    hostSent g' = hostSent g @ [readyRequest name]"
proof -
  let ?r = "HttpPost NewVSockService (''/ready/'' @ name)"
  have "ok (url_Parse (''http://vsock'' @ Clean (sep # ''/ready/'' @ n)))"
    if "n \<in> set reportedServices" for n
    using that by (auto simp: reportedServices_def; code_simp)
  then obtain x where u: "url_Parse (buildURL ?r) = Inr x"
    using assms(2) by (fastforce simp: buildURL_def HttpPost_def NewRequest_def NewVSockService_def
        NewVSockClient_def ok_iff)
  obtain resp where "we_host env i (wireRequest ?r) = Inr resp" "StatusCode resp = 200"
    using assms(1) by (auto simp: answers200_def readyRequest_def split: sum.splits)
  with u have "PostReady (we_host env i) name g = (Inr (), g\<lparr>g_sent := g_sent g @ [wireRequest ?r]\<rparr>)"
    by (simp add: PostReady_def Let_def httpDo_def sending_def)
  then show ?thesis
    by (simp add: postIf_def atTime_def wrapping_def hostSent_def readyRequest_def wireRequest_def
        HttpPost_def NewRequest_def)
qed

lemma reports_sent:
  assumes "\<forall>j \<le> max i up + 3. we_wake env j = Ticked"
    and "\<forall>j \<ge> up. sshUp (we_ssh env j) \<and> hasAddress env j ifName \<and>
      answers200 (we_podman env j) (wireRequest (pingRequest m))"
    and "\<forall>j. list_all (\<lambda>n. answers200 (we_host env j) (readyRequest n)) reportedServices"
    and "VirtualNetworkMode m = GVISOR \<and> ifName = ''eth0'' \<or> VirtualNetworkMode m = TSI \<and> ifName = ''lo''"
    and "listensAt (GuestPodmanAPIListenAddr (PodmanInfo m))"
    and "ok (fst (os_WriteFile tmpKey (HostSSHPrivateKey (SSHInfo m)) (g_os g)))"
  shows "\<exists>j g'. WaitGuestServiceReady env m i g = Some (Inr (), j, g') \<and> j \<le> max i up + 3 \<and>
    hostSent g' = hostSent g @ map readyRequest reportedServices"
proof -
  have post: "\<exists>g'. postIf env msg name True j u = Some (Inr (), j, g') \<and>
      hostSent g' = hostSent u @ [readyRequest name]"
    if "name \<in> set reportedServices" for msg name j u
    using postIf_accepted [of env j name] assms(3) that by (simp add: list_all_iff)
  have names: "ServiceNameSSH \<in> set reportedServices" "ServiceNamePodman \<in> set reportedServices"
    "ServiceNameGuestNetwork \<in> set reportedServices" by (simp_all add: reportedServices_def)
  obtain j1 g1 where 1: "IsSSHReady env m i g = Some (Inr True, j1, g1)" "j1 \<le> Suc (max i up)"
    "hostSent g1 = hostSent g"
    using IsSSHReady_succeeds [of m g up env i] assms(1,2,6) by auto
  obtain g2 where 2: "postIf env ''post ssh ready'' ServiceNameSSH True j1 g1 = Some (Inr (), j1, g2)"
    "hostSent g2 = hostSent g1 @ [readyRequest ServiceNameSSH]"
    using post [OF names(1)] by blast
  obtain j3 g3 where 3: "IsPodmanReady env m j1 g2 = Some (Inr True, j3, g3)" "j3 \<le> Suc (max j1 up)"
    "hostSent g3 = hostSent g2"
    using podman_succeeds [of m up env j1 g2] assms(1,2,5) 1(2) by auto
  obtain g4 where 4: "postIf env ''post podman ready'' ServiceNamePodman True j3 g3 = Some (Inr (), j3, g4)"
    "hostSent g4 = hostSent g3 @ [readyRequest ServiceNamePodman]"
    using post [OF names(2)] by blast
  obtain j5 g5 where 5: "IsInterfaceReady env m j3 g4 = Some (Inr True, j5, g5)" "j5 \<le> Suc (max j3 up)"
    "hostSent g5 = hostSent g4"
    using interface_succeeds [OF assms(4), of up env j3 g4] assms(1,2) 1(2) 3(2) by auto
  obtain g6 where "postIf env ''post guest network ready'' ServiceNameGuestNetwork True j5 g5 =
      Some (Inr (), j5, g6)" "hostSent g6 = hostSent g5 @ [readyRequest ServiceNameGuestNetwork]"
    using post [OF names(3)] by blast
  with 1 2 3 4 5 show ?thesis
    by (simp add: WaitGuestServiceReady_def WaitGuestServiceReadyOn_def IsSSHReady_def waitThen_def reportedServices_def)
qed

text \<open>C27. Readiness reaches the host: when from time \<open>up\<close> on SSH lets the host key in, podman
  answers its ping and the interface has an address, the host accepts the reports, and the 60
  second deadline has not passed by then, \<open>WaitGuestServiceReady\<close> returns without error at most
  three turns later, and has sent exactly the three reports, for SSH, podman and the guest
  network, in this order.\<close>

theorem readiness_reported:
  assumes "\<forall>j \<le> max i up + 3. we_wake env j = Ticked"
    and "\<forall>j \<ge> up. sshUp (we_ssh env j) \<and> hasAddress env j ifName \<and>
      answers200 (we_podman env j) (wireRequest (pingRequest m))"
    and "\<forall>j. list_all (\<lambda>n. answers200 (we_host env j) (readyRequest n)) reportedServices"
    and "VirtualNetworkMode m = GVISOR \<and> ifName = ''eth0'' \<or> VirtualNetworkMode m = TSI \<and> ifName = ''lo''"
    and "listensAt (GuestPodmanAPIListenAddr (PodmanInfo m))"
    and "ok (fst (os_WriteFile tmpKey (HostSSHPrivateKey (SSHInfo m)) (g_os g)))"
  shows "\<exists>j g'. WaitGuestServiceReady env m i g = Some (Inr (), j, g') \<and> j \<le> max i up + 3 \<and>
    hostSent g' = hostSent g @ map readyRequest reportedServices"
  using assms by (rule reports_sent)

definition readySsh :: ssh_env where
  "readySsh = sampleSshEnv\<lparr>se_parseKey := (\<lambda>_. Inr ''signer''), se_dialTCP := (\<lambda>_ _. Inr ()),
     se_handshake := (\<lambda>_ _ _. Inr ()), se_session := Inr (), se_run := (\<lambda>_. Some ([], Inr ()))\<rparr>"

definition readyMachine :: MachineSpec where
  "readyMachine = emptyMachine\<lparr>VirtualNetworkMode := TSI, PodmanInfo := \<lparr>HostPodmanProxyAddr = [],
     GuestPodmanAPIListenAddr = ''0.0.0.0:80'', GuestPodmanRunWithEnvs = []\<rparr>\<rparr>"

definition readyEnv :: wait_env where
  "readyEnv = sampleWaitEnv (\<lambda>i. if i < 9 then Ticked else DoneCtx)
     (\<lambda>_. Inr \<lparr>StatusCode = 200, resp_body = Inr []\<rparr>) readySsh"

theorem readiness_reported_witness:
  "\<exists>j g'. WaitGuestServiceReady readyEnv readyMachine 0 sampleGuest = Some (Inr (), j, g') \<and> j \<le> 5 \<and>
     map hr_url (hostSent g') =
       [''http://vsock/ready/ssh'', ''http://vsock/ready/podman'', ''http://vsock/ready/guest-network'']"
proof -
  have "\<forall>j \<le> max 0 2 + 3. we_wake readyEnv j = Ticked"
    by (simp add: readyEnv_def sampleWaitEnv_def)
  moreover have "\<forall>j \<ge> 2. sshUp (we_ssh readyEnv j) \<and> hasAddress readyEnv j ''lo'' \<and>
      answers200 (we_podman readyEnv j) (wireRequest (pingRequest readyMachine))"
    and "\<forall>j. list_all (\<lambda>n. answers200 (we_host readyEnv j) (readyRequest n)) reportedServices"
    by (simp_all add: readyEnv_def reportedServices_def sampleWaitEnv_def readySsh_def sampleSshEnv_def sshUp_def
        answers200_def hasAddress_def)
  moreover have "listensAt (GuestPodmanAPIListenAddr (PodmanInfo readyMachine))"
    unfolding listensAt_def by (rule exI [of _ "''0.0.0.0''"], rule exI [of _ 80], code_simp)
  moreover have "ok (fst (os_WriteFile tmpKey (HostSSHPrivateKey (SSHInfo readyMachine)) (g_os sampleGuest)))"
    by code_simp
  ultimately obtain j g' where
    "WaitGuestServiceReady readyEnv readyMachine 0 sampleGuest = Some (Inr (), j, g')" "j \<le> 5"
    "hostSent g' = hostSent sampleGuest @ map readyRequest reportedServices"
    using readiness_reported [of 0 2 readyEnv "''lo''" readyMachine sampleGuest]
    by (auto simp: readyMachine_def)
  moreover have "hostSent sampleGuest = []" by (simp add: hostSent_def sampleGuest_def)
  moreover have "hr_url (readyRequest n) = ''http://vsock'' @ Clean (sep # ''/ready/'' @ n)" for n
    by (simp add: readyRequest_def wireRequest_def buildURL_def HttpPost_def NewRequest_def
        NewVSockService_def NewVSockClient_def)
  moreover have "map (\<lambda>n. ''http://vsock'' @ Clean (sep # ''/ready/'' @ n))
      reportedServices =
      [''http://vsock/ready/ssh'', ''http://vsock/ready/podman'', ''http://vsock/ready/guest-network'']"
    by code_simp
  ultimately show ?thesis by (simp add: comp_def)
qed

end
