(* ===== verification/Supervisor.thy ===== *)
theory Supervisor
  imports Guest_Mount Poll
begin

text \<open>
  The process supervisor of the guest agent, \<open>cmd/guest-agent/pkg/supervisor/supervisor.go\<close>, and
  the two services that run under it, \<open>dropbear.go\<close> and \<open>podman.go\<close> of
  \<open>cmd/guest-agent/pkg/service\<close>.

  Turn \<open>i\<close> of the loop finds the context done at its head when \<open>atHead i\<close> is \<open>DoneCtx\<close>, and at
  the pause after the process when \<open>atPause i\<close> is. What becomes of the process of turn \<open>i\<close> is
  \<open>runs i\<close>: it cannot be started, it ends by itself, it goes on until the context of its command
  kills it, or \<open>cmd.Wait\<close> never returns, even after the kill (a grandchild may keep the output pipe
  open, and no \<open>WaitDelay\<close> is set). What a process does is a run of the guest's programs (\<open>runCmd\<close>);
  that it was killed shows in its result.
\<close>

subsection \<open>Configuration and state\<close>

record supConfig =
  sv_Name :: string
  sv_Cmd :: string
  sv_Args :: "string list"
  sv_Env :: "string list"
  sv_Dir :: string
  sv_Restart :: bool
  sv_MaxRetries :: int
  sv_RetryDelay :: nat
  sv_MaxRunTimeout :: nat
  sv_StopTimeout :: nat

text \<open>\<open>exec.Cmd\<close>: program, arguments, what is added to the environment, directory, and the
  group the process leads.\<close>

record procSpec =
  pc_Path :: string
  pc_Args :: "string list"
  pc_ExtraEnv :: "string list"
  pc_Dir :: string
  pc_Setpgid :: bool

record Supervisor =
  sp_cfg :: supConfig
  sp_cmd :: "procSpec option"
  sp_running :: bool
  sp_restarts :: int

definition newSupervisor :: "supConfig \<Rightarrow> Supervisor" where
  "newSupervisor cfg = \<lparr>sp_cfg = cfg, sp_cmd = None, sp_running = False, sp_restarts = 0\<rparr>"

subsection \<open>Running (runOnce, loop, Run, Stop)\<close>

definition supCommand :: "supConfig \<Rightarrow> procSpec" where
  "supCommand cfg = \<lparr>pc_Path = sv_Cmd cfg, pc_Args = sv_Args cfg, pc_ExtraEnv = sv_Env cfg,
     pc_Dir = sv_Dir cfg, pc_Setpgid = True\<rparr>"

datatype procRun = StartFails goerr | Ends | UntilKilled | NeverReaped

text \<open>Whether \<open>cmd.Wait\<close> returns: the command's context ends by the maximal run time or with the
  supervisor's context, which the pause then finds done.\<close>

definition reaped :: "supConfig \<Rightarrow> procRun \<Rightarrow> bool \<Rightarrow> bool" where
  "reaped cfg run ctxDone \<longleftrightarrow>
     (case run of
        StartFails e \<Rightarrow> True
      | Ends \<Rightarrow> True
      | UntilKilled \<Rightarrow> 0 < sv_MaxRunTimeout cfg \<or> ctxDone
      | NeverReaped \<Rightarrow> False)"

text \<open>\<open>None\<close> when \<open>runOnce\<close> does not return.\<close>

definition runOnce ::
    "guest_env \<Rightarrow> procRun \<Rightarrow> bool \<Rightarrow> Supervisor \<Rightarrow> guest \<Rightarrow> (unit res \<times> Supervisor \<times> guest) option" where
  "runOnce env run ctxDone s g =
     (let cmd = supCommand (sp_cfg s)
      in case run of
           StartFails e \<Rightarrow> Some (Inl (Wrap ''start'' e), s, g)
         | _ \<Rightarrow>
             if reaped (sp_cfg s) run ctxDone
             then (case runCmd env (pc_Path cmd # pc_Args cmd) g of
                     (r, g') \<Rightarrow> Some (r, s\<lparr>sp_cmd := Some cmd, sp_running := False\<rparr>, g'))
             else None)"

partial_function (option) supLoop ::
    "guest_env \<Rightarrow> (nat \<Rightarrow> procRun) \<Rightarrow> schedule \<Rightarrow> schedule \<Rightarrow> nat \<Rightarrow> Supervisor \<Rightarrow> guest
      \<Rightarrow> (nat \<times> Supervisor \<times> guest) option" where
  "supLoop env runs atHead atPause i s g =
     (case atHead i of
        DoneCtx \<Rightarrow> Some (i, s, g)
      | Ticked \<Rightarrow>
          (case runOnce env (runs i) (atPause i = DoneCtx) s g of
             None \<Rightarrow> None
           | Some (_, s1, g1) \<Rightarrow>
               if \<not> sv_Restart (sp_cfg s1) then Some (i, s1, g1)
               else let s2 = s1\<lparr>sp_restarts := sp_restarts s1 + 1\<rparr>
                    in if sv_MaxRetries (sp_cfg s2) > 0 \<and> sp_restarts s2 > sv_MaxRetries (sp_cfg s2)
                       then Some (i, s2, g1)
                       else case atPause i of
                              DoneCtx \<Rightarrow> Some (i, s2, g1)
                            | Ticked \<Rightarrow> supLoop env runs atHead atPause (Suc i) s2 g1))"

declare supLoop.simps [code]

definition supRun ::
    "guest_env \<Rightarrow> (nat \<Rightarrow> procRun) \<Rightarrow> schedule \<Rightarrow> schedule \<Rightarrow> Supervisor \<Rightarrow> guest
      \<Rightarrow> (nat \<times> Supervisor \<times> guest) option" where
  "supRun env runs atHead atPause s g = supLoop env runs atHead atPause 0 s g"

text \<open>\<open>Stop\<close>: the signals sent to the process group; \<open>ended\<close> says whether the process ends
  before the stop timeout.\<close>

definition supStop :: "bool \<Rightarrow> Supervisor \<Rightarrow> string list" where
  "supStop ended s =
     (case sp_cmd s of
        None \<Rightarrow> []
      | Some _ \<Rightarrow> if ended then [''SIGTERM''] else [''SIGTERM'', ''SIGKILL''])"

subsection \<open>The SSH server (dropbear.go)\<close>

record DropbearConfig =
  dc_ListenAddr :: string
  dc_PrivateKeyPath :: string
  dc_AuthorizedKeysFile :: string
  dc_PidFile :: string

definition GenerateHostKey :: "guest_env \<Rightarrow> DropbearConfig \<Rightarrow> (guest, unit) proc" where
  "GenerateHostKey env d =
     andThen (wrapping ''create key dir'' (onGuestOS (os_MkdirAll (Dir (dc_PrivateKeyPath d))))) (\<lambda>_.
       runCmd env [DropbearmultiPath, ''dropbearkey'', ''-t'', ''ed25519'', ''-f'', dc_PrivateKeyPath d])"

definition WriteAuthorizedKeys :: "DropbearConfig \<Rightarrow> string \<Rightarrow> (guest, unit) proc" where
  "WriteAuthorizedKeys d publicKey =
     andThen (wrapping ''create authorized_keys dir''
                (onGuestOS (os_MkdirAll (Dir (dc_AuthorizedKeysFile d))))) (\<lambda>_.
       wrapping ''write authorized_keys'' (onGuestOS (os_WriteFile (dc_AuthorizedKeysFile d) publicKey)))"

definition dropbearArgs :: "DropbearConfig \<Rightarrow> string list" where
  "dropbearArgs d =
     [''dropbear'', ''-D'', Dir (dc_AuthorizedKeysFile d), ''-p'', dc_ListenAddr d,
      ''-r'', dc_PrivateKeyPath d, ''-F'', ''-s''] @
     (if dc_PidFile d \<noteq> [] then [''-P'', dc_PidFile d] else [])"

definition dropbearSupervisor :: "DropbearConfig \<Rightarrow> Supervisor" where
  "dropbearSupervisor d = newSupervisor
     \<lparr>sv_Name = ''dropbear'', sv_Cmd = DropbearmultiPath, sv_Args = dropbearArgs d,
      sv_Env = [''PASS_FILEPEM_CHECK=1''], sv_Dir = [], sv_Restart = True, sv_MaxRetries = 0,
      sv_RetryDelay = 500, sv_MaxRunTimeout = 0, sv_StopTimeout = 0\<rparr>"

definition dropbearConfig :: "MachineSpec \<Rightarrow> DropbearConfig" where
  "dropbearConfig m =
     \<lparr>dc_ListenAddr = GuestSSHServerListenAddr (SSHInfo m),
      dc_PrivateKeyPath = GuestSSHPrivateKeyFile (SSHInfo m),
      dc_AuthorizedKeysFile = GuestSSHAuthorizedKeys (SSHInfo m),
      dc_PidFile = GuestSSHPidFile (SSHInfo m)\<rparr>"

text \<open>What runs before the supervised process; the process follows when it succeeds.\<close>

definition prepareSSHServer :: "guest_env \<Rightarrow> MachineSpec \<Rightarrow> (guest, Supervisor) proc" where
  "prepareSSHServer env m =
     (let d = dropbearConfig m
      in andThen (wrapping ''generate host key'' (GenerateHostKey env d)) (\<lambda>_.
         andThen (wrapping ''write authorized_keys''
                    (WriteAuthorizedKeys d (HostSSHPublicKey (SSHInfo m)))) (\<lambda>_.
           succeed (dropbearSupervisor d))))"

subsection \<open>The container engine (podman.go)\<close>

definition generateCompatScripts :: "guest_env \<Rightarrow> (guest, unit) proc" where
  "generateCompatScripts env =
     andThen (onGuestOS (os_MkdirAll (Dir ''/etc/init.d/podman''))) (\<lambda>_.
       wrapping ''failed to create podman init rc file''
         (onGuestOS (os_WriteFile ''/etc/init.d/podman'' (ge_podmanInit env))))"

definition podmanSupervisor :: "string \<Rightarrow> MachineSpec \<Rightarrow> Supervisor" where
  "podmanSupervisor level m = newSupervisor
     \<lparr>sv_Name = [], sv_Cmd = ''podman'',
      sv_Args = [''--log-level'', level, ''system'', ''service'', ''--time=0'',
                 ''tcp://'' @ GuestPodmanAPIListenAddr (PodmanInfo m)],
      sv_Env = [], sv_Dir = [], sv_Restart = True, sv_MaxRetries = 0,
      sv_RetryDelay = 500, sv_MaxRunTimeout = 0, sv_StopTimeout = 5000\<rparr>"

definition preparePodman :: "guest_env \<Rightarrow> string \<Rightarrow> MachineSpec \<Rightarrow> (guest, Supervisor) proc" where
  "preparePodman env level m =
     andThen (generateCompatScripts env) (\<lambda>_. succeed (podmanSupervisor level m))"

text \<open>A service: its preparation, then its supervisor until that returns; the result is nil then.\<close>

definition startService ::
    "guest_env \<Rightarrow> (nat \<Rightarrow> procRun) \<Rightarrow> schedule \<Rightarrow> schedule \<Rightarrow> (guest, Supervisor) proc \<Rightarrow> guest
      \<Rightarrow> (unit res \<times> guest) option" where
  "startService env runs atHead atPause prepare g =
     (case prepare g of
        (Inl e, g1) \<Rightarrow> Some (Inl e, g1)
      | (Inr s, g1) \<Rightarrow>
          map_option (\<lambda>(_, _, g2). (Inr (), g2)) (supRun env runs atHead atPause s g1))"

definition StartGuestSSHServer ::
    "guest_env \<Rightarrow> (nat \<Rightarrow> procRun) \<Rightarrow> schedule \<Rightarrow> schedule \<Rightarrow> MachineSpec \<Rightarrow> guest
      \<Rightarrow> (unit res \<times> guest) option" where
  "StartGuestSSHServer env runs atHead atPause m =
     startService env runs atHead atPause (prepareSSHServer env m)"

definition StartGuestPodmanService ::
    "guest_env \<Rightarrow> (nat \<Rightarrow> procRun) \<Rightarrow> schedule \<Rightarrow> schedule \<Rightarrow> string \<Rightarrow> MachineSpec \<Rightarrow> guest
      \<Rightarrow> (unit res \<times> guest) option" where
  "StartGuestPodmanService env runs atHead atPause level m =
     startService env runs atHead atPause (preparePodman env level m)"

subsection \<open>When the supervisor returns\<close>

text \<open>A turn after which the loop goes on: the context is alive before and after it, the process came to
  its end, and another run is wanted and within the limit. (Turn \<open>i\<close> makes restart \<open>i + 1\<close>.)\<close>

definition goesOn :: "supConfig \<Rightarrow> (nat \<Rightarrow> procRun) \<Rightarrow> schedule \<Rightarrow> schedule \<Rightarrow> nat \<Rightarrow> bool" where
  "goesOn cfg runs atHead atPause i \<longleftrightarrow>
     atHead i = Ticked \<and> reaped cfg (runs i) False \<and> sv_Restart cfg \<and>
     (sv_MaxRetries cfg \<le> 0 \<or> int i < sv_MaxRetries cfg) \<and> atPause i = Ticked"

text \<open>The guest after the first \<open>k\<close> runs.\<close>

fun afterRuns :: "guest_env \<Rightarrow> supConfig \<Rightarrow> (nat \<Rightarrow> procRun) \<Rightarrow> nat \<Rightarrow> guest \<Rightarrow> guest" where
  "afterRuns env cfg runs 0 g = g"
| "afterRuns env cfg runs (Suc k) g =
     (let g' = afterRuns env cfg runs k g
      in case runs k of StartFails e \<Rightarrow> g' | _ \<Rightarrow> snd (runCmd env (sv_Cmd cfg # sv_Args cfg) g'))"

lemma runOnce_turn:
  assumes "sp_cfg s = cfg" and "sp_restarts s = int i" and "g = afterRuns env cfg runs i g0"
  shows "if reaped cfg (runs i) d
    then \<exists>r s'. runOnce env (runs i) d s g = Some (r, s', afterRuns env cfg runs (Suc i) g0) \<and>
      sp_cfg s' = cfg \<and> sp_restarts s' = int i
    else runOnce env (runs i) d s g = None"
  using assms by (auto simp: runOnce_def reaped_def supCommand_def Let_def split: procRun.split prod.split)

text \<open>One turn, from the state every turn finds.\<close>

definition turnState :: "supConfig \<Rightarrow> nat \<Rightarrow> Supervisor \<Rightarrow> bool" where
  "turnState cfg i s \<longleftrightarrow> sp_cfg s = cfg \<and> sp_restarts s = int i"

lemma supLoop_goes_on:
  assumes "goesOn cfg runs atHead atPause i" and "turnState cfg i s" and "g = afterRuns env cfg runs i g0"
  shows "\<exists>s'. turnState cfg (Suc i) s' \<and> supLoop env runs atHead atPause i s g =
    supLoop env runs atHead atPause (Suc i) s' (afterRuns env cfg runs (Suc i) g0)"
proof -
  from assms(1) have on: "atHead i = Ticked" "reaped cfg (runs i) False" "sv_Restart cfg" "atPause i = Ticked"
    "(0 < sv_MaxRetries cfg \<and> sv_MaxRetries cfg < int i + 1) = False"
    by (auto simp: goesOn_def)
  obtain r s' where s': "runOnce env (runs i) False s g = Some (r, s', afterRuns env cfg runs (Suc i) g0)"
    "sp_cfg s' = cfg" "sp_restarts s' = int i"
    using runOnce_turn [of s cfg i g env runs g0 False] assms(2,3) on(2) unfolding turnState_def by auto
  show ?thesis
    by (rule exI [of _ "s'\<lparr>sp_restarts := sp_restarts s' + 1\<rparr>"], subst supLoop.simps)
      (use on(1-4) s' on(5) in \<open>auto simp: turnState_def Let_def simp del: afterRuns.simps\<close>)
qed

lemma supLoop_stops:
  assumes "\<not> goesOn cfg runs atHead atPause n" and "turnState cfg n s" and "g = afterRuns env cfg runs n g0"
  shows "map_option (\<lambda>(j, s', g'). (j, sp_restarts s', g')) (supLoop env runs atHead atPause n s g) =
    (if atHead n = DoneCtx then Some (n, int n, afterRuns env cfg runs n g0)
     else if \<not> reaped cfg (runs n) (atPause n = DoneCtx) then None
     else Some (n, int n + (if sv_Restart cfg then 1 else 0), afterRuns env cfg runs (Suc n) g0))"
proof (cases "atHead n")
  case DoneCtx
  with assms(2,3) show ?thesis by (subst supLoop.simps) (simp add: turnState_def)
next
  case Ticked
  note run = runOnce_turn [of s cfg n g env runs g0 "atPause n = DoneCtx"]
  show ?thesis
  proof (cases "reaped cfg (runs n) (atPause n = DoneCtx)")
    case True
    then obtain r s' where s': "runOnce env (runs n) (atPause n = DoneCtx) s g = Some (r, s', afterRuns env cfg runs (Suc n) g0)"
      "sp_cfg s' = cfg" "sp_restarts s' = int n"
      using run assms(2,3) unfolding turnState_def by auto
    have "atPause n = DoneCtx \<or> \<not> sv_Restart cfg \<or> 0 < sv_MaxRetries cfg \<and> int n + 1 > sv_MaxRetries cfg"
      using assms(1) Ticked True by (cases "atPause n") (auto simp: goesOn_def)
    then show ?thesis
      by (subst supLoop.simps) (use Ticked True s' in \<open>auto simp: Let_def simp del: afterRuns.simps\<close>)
  next
    case False
    then have "runOnce env (runs n) (atPause n = DoneCtx) s g = None"
      using run assms(2,3) unfolding turnState_def by simp
    with Ticked False show ?thesis by (subst supLoop.simps) simp
  qed
qed

lemma supLoop_reaches:
  assumes "\<forall>i<n. goesOn cfg runs atHead atPause i"
  shows "\<exists>s'. turnState cfg n s' \<and> supLoop env runs atHead atPause 0 (newSupervisor cfg) g =
    supLoop env runs atHead atPause n s' (afterRuns env cfg runs n g)"
  using assms
proof (induction n)
  case 0
  then show ?case by (intro exI [of _ "newSupervisor cfg"]) (simp add: turnState_def newSupervisor_def)
next
  case (Suc n)
  then obtain s' where "turnState cfg n s'" "supLoop env runs atHead atPause 0 (newSupervisor cfg) g =
      supLoop env runs atHead atPause n s' (afterRuns env cfg runs n g)" by auto
  with supLoop_goes_on [of cfg runs atHead atPause n s' _ env g] Suc.prems show ?case by auto
qed

lemma supLoop_returns:
  assumes "supLoop env runs atHead atPause i s g = Some r"
  shows "turnState cfg i s \<longrightarrow> g = afterRuns env cfg runs i g0 \<longrightarrow> (\<exists>j. \<not> goesOn cfg runs atHead atPause j)"
  using assms
proof (rule supLoop.raw_induct [where P = "\<lambda>env runs atHead atPause i s g r. turnState cfg i s \<longrightarrow>
    g = afterRuns env cfg runs i g0 \<longrightarrow> (\<exists>j. \<not> goesOn cfg runs atHead atPause j)", rotated], intro impI)
  fix loop and env :: guest_env and runs atHead atPause i s g r
  assume IH: "\<And>env runs atHead atPause i s g r. loop env runs atHead atPause i s g = Some r \<Longrightarrow>
      turnState cfg i s \<longrightarrow> g = afterRuns env cfg runs i g0 \<longrightarrow> (\<exists>j. \<not> goesOn cfg runs atHead atPause j)"
    and body: "(case atHead i of
        Ticked \<Rightarrow> (case runOnce env (runs i) (atPause i = DoneCtx) s g of
            None \<Rightarrow> None
          | Some (_, s1, g1) \<Rightarrow>
          if \<not> sv_Restart (sp_cfg s1) then Some (i, s1, g1)
          else let s2 = s1\<lparr>sp_restarts := sp_restarts s1 + 1\<rparr>
               in if sv_MaxRetries (sp_cfg s2) > 0 \<and> sp_restarts s2 > sv_MaxRetries (sp_cfg s2)
                  then Some (i, s2, g1)
                  else case atPause i of
                         Ticked \<Rightarrow> loop env runs atHead atPause (Suc i) s2 g1
                       | DoneCtx \<Rightarrow> Some (i, s2, g1))
      | DoneCtx \<Rightarrow> Some (i, s, g)) = Some r"
    and st: "turnState cfg i s" "g = afterRuns env cfg runs i g0"
  show "\<exists>j. \<not> goesOn cfg runs atHead atPause j"
  proof (cases "goesOn cfg runs atHead atPause i")
    case True
    then have on: "atHead i = Ticked" "reaped cfg (runs i) False" "sv_Restart cfg" "atPause i = Ticked"
      "(0 < sv_MaxRetries cfg \<and> sv_MaxRetries cfg < int i + 1) = False"
      by (auto simp: goesOn_def)
    obtain x s1 where s1: "runOnce env (runs i) False s g = Some (x, s1, afterRuns env cfg runs (Suc i) g0)"
      "sp_cfg s1 = cfg" "sp_restarts s1 = int i"
      using runOnce_turn [of s cfg i g env runs g0 False] st on(2) unfolding turnState_def by auto
    have "loop env runs atHead atPause (Suc i) (s1\<lparr>sp_restarts := sp_restarts s1 + 1\<rparr>)
        (afterRuns env cfg runs (Suc i) g0) = Some r"
      using body on(1-4) s1 on(5) by (auto simp: Let_def simp del: afterRuns.simps split: if_splits)
    from IH [OF this] s1 show ?thesis by (simp add: turnState_def)
  qed auto
qed

text \<open>C20. When a supervised service ends, and after how many runs. Let \<open>n\<close> be the first turn after
  which the loop does not go on (see \<open>goesOn\<close>). If there is none, \<open>Run\<close> never returns: a service
  that is to be restarted without a limit (as dropbear and podman are) is never given up while the
  context is alive, however often it exits or fails to start. Otherwise the guest has seen exactly
  the runs up to then: \<open>Run\<close> returns at the head of turn \<open>n\<close>, without another run, when it finds the
  context done there; it returns after the run of turn \<open>n\<close> when the context is found done in the
  pause, the limit of retries is reached (with a limit of \<open>k\<close> after exactly \<open>k + 1\<close> runs), or no
  restart is wanted; and it never returns when the run of turn \<open>n\<close> is not reaped, because the
  process cannot be waited for or waits for a kill that does not come.\<close>

theorem supervisor_runs:
  "map_option (\<lambda>(j, s', g'). (j, sp_restarts s', g')) (supRun env runs atHead atPause (newSupervisor cfg) g) =
    (if \<forall>i. goesOn cfg runs atHead atPause i then None
     else let n = LEAST i. \<not> goesOn cfg runs atHead atPause i
          in if atHead n = DoneCtx then Some (n, int n, afterRuns env cfg runs n g)
             else if \<not> reaped cfg (runs n) (atPause n = DoneCtx) then None
             else Some (n, int n + (if sv_Restart cfg then 1 else 0), afterRuns env cfg runs (Suc n) g))"
proof (cases "\<forall>i. goesOn cfg runs atHead atPause i")
  case True
  have "turnState cfg 0 (newSupervisor cfg)" by (simp add: turnState_def newSupervisor_def)
  with True supLoop_returns [of env runs atHead atPause 0 "newSupervisor cfg" g _ cfg g] show ?thesis
    by (cases "supLoop env runs atHead atPause 0 (newSupervisor cfg) g") (simp_all add: supRun_def)
next
  case False
  let ?n = "LEAST i. \<not> goesOn cfg runs atHead atPause i"
  have n: "\<not> goesOn cfg runs atHead atPause ?n" "\<forall>i<?n. goesOn cfg runs atHead atPause i"
    using False LeastI_ex [of "\<lambda>i. \<not> goesOn cfg runs atHead atPause i"] not_less_Least by blast+
  obtain s' where "turnState cfg ?n s'" "supRun env runs atHead atPause (newSupervisor cfg) g =
      supLoop env runs atHead atPause ?n s' (afterRuns env cfg runs ?n g)"
    using supLoop_reaches [OF n(2)] unfolding supRun_def by blast
  with supLoop_stops [OF n(1), of s' _ env g] False show ?thesis by (simp add: Let_def)
qed

text \<open>Podman, when it always exits at once, is always started again. And a process that cannot be waited
  for keeps the supervisor from returning although the context is done.\<close>

theorem supervisor_runs_witness:
  "supRun sampleGuestEnv (\<lambda>_. Ends) (\<lambda>_. Ticked) (\<lambda>_. Ticked) (podmanSupervisor ''info'' emptyMachine) sampleGuest = None"
  using supervisor_runs [of sampleGuestEnv "\<lambda>_. Ends" "\<lambda>_. Ticked" "\<lambda>_. Ticked"
      "sp_cfg (podmanSupervisor ''info'' emptyMachine)" sampleGuest]
  by (simp add: podmanSupervisor_def newSupervisor_def goesOn_def reaped_def)

lemma supervisor_hangs:
  "supRun sampleGuestEnv (\<lambda>_. NeverReaped) (\<lambda>_. Ticked) (\<lambda>_. DoneCtx) (podmanSupervisor ''info'' emptyMachine) sampleGuest = None"
  by (simp add: supRun_def supLoop.simps [of _ _ _ _ 0] runOnce_def reaped_def Let_def)

end
