(* ===== verification/Guest_Agent.thy ===== *)
theory Guest_Agent
  imports Guest_Wait Supervisor Relay
begin

text \<open>
  The guest agent, third part: forwarding of unix sockets (\<open>unix_forwarder.go\<close>), signals and
  shutdown (\<open>main.go\<close>, \<open>shutdown.go\<close>), the user command (\<open>runcmdline.go\<close>) and the boot sequence
  with its exit status (\<open>main.go\<close>), under \<open>cmd/guest-agent\<close>.

  The state is the guest with the unix forwarders that are up and the consoles that carry the
  log.
\<close>

subsection \<open>Unix socket forwarders (unix_forwarder.go)\<close>

record unixForwardRule =
  uf_guestPath :: string
  uf_hostPath :: string
  uf_vsockPort :: u32

record agent =
  ag_guest :: guest
  ag_forwarders :: "unixForwardRule list"
  ag_logPort :: "string option"

definition onGuest :: "(guest, 'a) proc \<Rightarrow> (agent, 'a) proc" where
  "onGuest m a = (case m (ag_guest a) of (r, g) \<Rightarrow> (r, a\<lparr>ag_guest := g\<rparr>))"

definition buildUnixForwardRules :: "UnixSocketForwardRoute list \<Rightarrow> unixForwardRule list" where
  "buildUnixForwardRules routes =
     map (\<lambda>r. \<lparr>uf_guestPath = GuestPath r, uf_hostPath = HostPath r, uf_vsockPort = VSockPort r\<rparr>) routes"

definition StartUnixForwarder :: "unixForwardRule \<Rightarrow> (agent, unit) proc" where
  "StartUnixForwarder rule =
     (if uf_guestPath rule = [] then failWith (Errorf ''guest unix socket path is empty'')
      else if uf_hostPath rule = [] then failWith (Errorf ''host unix socket path is empty'')
      else
        andThen (wrapping ''remove existing unix socket''
                   (onGuest (onGuestOS (removeIfExists (uf_guestPath rule))))) (\<lambda>_.
        andThen (wrapping ''create unix socket directory''
                   (onGuest (onGuestOS (os_MkdirAll (Dir (uf_guestPath rule)))))) (\<lambda>_.
        andThen (wrapping ''listen'' (onGuest (onGuestOS (net_ListenUnix (uf_guestPath rule))))) (\<lambda>_.
          modifyState (\<lambda>a. a\<lparr>ag_forwarders := ag_forwarders a @ [rule]\<rparr>)))))"

text \<open>A rule that fails is logged and skipped.\<close>

fun startAll :: "unixForwardRule list \<Rightarrow> agent \<Rightarrow> agent" where
  "startAll [] a = a"
| "startAll (rule # rules) a = startAll rules (snd (StartUnixForwarder rule a))"

definition StartUnixForwarders :: "MachineSpec \<Rightarrow> agent \<Rightarrow> agent" where
  "StartUnixForwarders m a =
     (if UnixSocketForwards m = [] then a
      else case BuildUnixSocketForwardRoutes (UnixSocketForwards m) of
             Inl _ \<Rightarrow> a
           | Inr routes \<Rightarrow> startAll (buildUnixForwardRules routes) a)"

text \<open>When the context ends the listener is closed and its socket removed.\<close>

definition closeForwarder :: "unixForwardRule \<Rightarrow> agent \<Rightarrow> agent" where
  "closeForwarder rule a =
     snd (onGuest (onGuestOS (ignoring (os_Remove (uf_guestPath rule))))
       (a\<lparr>ag_forwarders := filter (\<lambda>r. r \<noteq> rule) (ag_forwarders a)\<rparr>))"

text \<open>The accept loop; an error comes with whether the context is done.\<close>

fun serveUnixForwarder :: "(accepted \<times> bool) list \<Rightarrow> nat list \<times> bool" where
  "serveUnixForwarder [] = ([], False)"
| "serveUnixForwarder ((Accepted c, _) # as) =
     (case serveUnixForwarder as of (cs, r) \<Rightarrow> (c # cs, r))"
| "serveUnixForwarder ((ListenerClosed, _) # as) = ([], True)"
| "serveUnixForwarder ((AcceptError, ctxDone) # as) =
     (if ctxDone then ([], True) else serveUnixForwarder as)"

definition handleUnixForwardConn ::
    "(u32 \<Rightarrow> u32 \<Rightarrow> unit res) \<Rightarrow> unixForwardRule \<Rightarrow> (dir \<Rightarrow> string) \<Rightarrow> relay option" where
  "handleUnixForwardConn dial rule streams =
     (case dial 2 (uf_vsockPort rule) of
        Inl _ \<Rightarrow> None
      | Inr _ \<Rightarrow> Some (relayStart streams))"

subsection \<open>The log and signal port (main.go)\<close>

definition GuestLogConsolePort :: string where "GuestLogConsolePort = ''guest-logs''"

text \<open>\<open>filepath.Glob("/sys/class/virtio-ports/*/name")\<close>: the entries of the directory in byte order.\<close>

definition virtioPortNames :: "OS \<Rightarrow> string list" where
  "virtioPortNames s =
     map (\<lambda>d. Join [''/sys/class/virtio-ports'', d, ''name''])
       (sort (map (\<lambda>k. Base (Dir k))
         (filter (\<lambda>k. Base k = ''name'' \<and> Dir (Dir k) = ''/sys/class/virtio-ports'') (map fst (os_fs s)))))"

fun findPort :: "string \<Rightarrow> string list \<Rightarrow> OS \<Rightarrow> string res" where
  "findPort name [] s = Inl (Errorf ''virtio port not found'')"
| "findPort name (path # paths) s =
     (case fst (os_ReadFile path s) of
        Inl _ \<Rightarrow> findPort name paths s
      | Inr data \<Rightarrow>
          if TrimSpace data = name
          then let dev = ''/dev/'' @ Base (Dir path)
               in (case fst (os_Stat dev s) of Inl e \<Rightarrow> Inl e | Inr _ \<Rightarrow> Inr dev)
          else findPort name paths s)"

definition openVirtioPort :: "string \<Rightarrow> OS \<Rightarrow> string res" where
  "openVirtioPort name s = findPort name (virtioPortNames s) s"

definition setupGuestLogAndSignalPort :: "agent \<Rightarrow> agent" where
  "setupGuestLogAndSignalPort a =
     (case openVirtioPort GuestLogConsolePort (g_os (ag_guest a)) of
        Inl _ \<Rightarrow> a
      | Inr dev \<Rightarrow> a\<lparr>ag_logPort := Some dev\<rparr>)"

text \<open>A line read from the port: the signals sent, each to a process (\<open>-1\<close>: all others).\<close>

datatype signal = SIGINT | SIGTERM | SIGQUIT

definition signalOfName :: "string \<Rightarrow> signal option" where
  "signalOfName name =
     (if name = ''interrupt'' then Some SIGINT
      else if name = ''terminated'' then Some SIGTERM
      else if name = ''quit'' then Some SIGQUIT else None)"

definition signalMsg :: "json \<Rightarrow> string res" where
  "signalMsg j = (case j of JNull \<Rightarrow> Inr [] | _ \<Rightarrow> decObj (fieldOf ''signalName'' decStr []) j)"

definition handleSignalLine :: "int \<Rightarrow> string \<Rightarrow> (int \<times> signal) list" where
  "handleSignalLine self line =
     (case bindR (json_Unmarshal line) signalMsg of
        Inl _ \<Rightarrow> []
      | Inr name \<Rightarrow>
          (case signalOfName name of
             None \<Rightarrow> []
           | Some sig \<Rightarrow> [(-1, sig), (self, sig)]))"

subsection \<open>Shutdown (shutdown.go)\<close>

definition SyncDisk :: "guest_env \<Rightarrow> guest \<Rightarrow> guest" where
  "SyncDisk env g = snd (runCmd env [''sync''] g)"

definition PowerOff :: "guest_env \<Rightarrow> guest \<Rightarrow> guest" where
  "PowerOff env g = snd (runCmd env [''poweroff'', ''-f''] g)"

text \<open>What happens to the agent's process: \<open>Notify\<close> is the call of \<open>signal.Notify\<close> (for interrupt and
  terminate) in \<open>WaitAndShutdown\<close>, which \<open>run\<close> starts only after the mounts; signals come before and
  after it, as the reader of the port sends them. A signal that is not registered ends a Go process,
  at once and with nothing synced. The first registered one starts the shutdown: the disk is synced
  before the power is cut. The commands run with whatever result; later signals are not looked at.\<close>

datatype agentEvent = Notify | Gets signal

datatype agentFate = WaitsOn | KilledBy signal | CutsPower

fun WaitAndShutdown :: "guest_env \<Rightarrow> bool \<Rightarrow> agentEvent list \<Rightarrow> guest \<Rightarrow> agentFate \<times> guest" where
  "WaitAndShutdown env registered [] g = (WaitsOn, g)"
| "WaitAndShutdown env registered (Notify # es) g = WaitAndShutdown env True es g"
| "WaitAndShutdown env registered (Gets s # es) g =
     (if registered \<and> (s = SIGINT \<or> s = SIGTERM) then (CutsPower, PowerOff env (SyncDisk env g))
      else (KilledBy s, g))"

subsection \<open>The user command (runcmdline.go)\<close>

definition Fields :: "string \<Rightarrow> string list" where
  "Fields s = filter (\<lambda>w. w \<noteq> []) (Split (map (\<lambda>c. if isSpace c then CHR '' '' else c) s) (CHR '' ''))"

definition activeConsoleTTY :: "(OS, string) proc" where
  "activeConsoleTTY =
     andThen (wrapping ''read active console'' (os_ReadFile ''/sys/class/tty/console/active'')) (\<lambda>data.
       let names = Fields (TrimSpace data)
       in if names = [] then failWith (Errorf ''no active console found'')
          else succeed (''/dev/'' @ last names))"

definition openActiveConsole :: "(OS, string) proc" where
  "openActiveConsole =
     andThen activeConsoleTTY (\<lambda>devPath.
     andThen (wrapping ''open'' (os_Stat devPath)) (\<lambda>_. succeed devPath))"

definition DoExecCmdLine :: "guest_env \<Rightarrow> MachineSpec \<Rightarrow> (guest, unit) proc" where
  "DoExecCmdLine env m =
     andThen (wrapping ''chdir'' (onGuestOS (os_Chdir (cl_WorkDir (spec_Cmdline m))))) (\<lambda>_.
     andThen (if TTY m then wrapping ''open active console'' (onGuestOS openActiveConsole) else succeed []) (\<lambda>_.
       runCmd env (cl_Bin (spec_Cmdline m) # cl_Args (spec_Cmdline m))))"

subsection \<open>The boot sequence (main.go)\<close>

text \<open>\<open>levels\<close> is \<open>logrus.ParseLevel\<close>; an unknown level in the environment panics.\<close>

definition setupLogger :: "(string \<Rightarrow> bool) \<Rightarrow> string \<Rightarrow> (agent, string) proc" where
  "setupLogger levels envLevel =
     (let level = (if ToLower envLevel = [] then ''info'' else ToLower envLevel)
      in if levels level then succeed level else failWith (Panicked ''invalid log level''))"

text \<open>Mounts and forwarders, once the description is known.\<close>

definition prepareMachine :: "guest_env \<Rightarrow> MachineSpec \<Rightarrow> (agent, unit) proc" where
  "prepareMachine env m =
     andThen (wrapping ''mount pseudo filesystems'' (onGuest (MountAllPseudoMnt env))) (\<lambda>_.
     andThen (modifyState setupGuestLogAndSignalPort) (\<lambda>_.
     andThen (wrapping ''mount block devices'' (onGuest (MountBlockDevices env m))) (\<lambda>_.
     andThen (wrapping ''mount virtiofs'' (onGuest (MountVirtiofs env m))) (\<lambda>_.
       modifyState (StartUnixForwarders m)))))"

definition guestBoot ::
    "guest_env \<Rightarrow> wait_env \<Rightarrow> (string \<Rightarrow> bool) \<Rightarrow> string \<Rightarrow> nat \<Rightarrow> agent \<Rightarrow> (MachineSpec res \<times> nat \<times> agent) option" where
  "guestBoot env wenv levels envLevel i a =
     (case andThen (setupLogger levels envLevel)
             (\<lambda>_. wrapping ''init bin dir'' (onGuest (InitBinDir env))) a of
        (Inl e, a1) \<Rightarrow> Some (Inl e, i, a1)
      | (Inr _, a1) \<Rightarrow>
          (case GetVMConfig wenv i (ag_guest a1) of
             None \<Rightarrow> None
           | Some (Inl e, j, g) \<Rightarrow> Some (Inl (Wrap ''get vm config'' e), j, a1\<lparr>ag_guest := g\<rparr>)
           | Some (Inr m, j, g) \<Rightarrow>
               (case prepareMachine env m (a1\<lparr>ag_guest := g\<rparr>) of
                  (Inl e, a2) \<Rightarrow> Some (Inl e, j, a2)
                | (Inr _, a2) \<Rightarrow> Some (Inr m, j, a2))))"

text \<open>The services: both are prepared, in either order, and run until the context ends; the error
  of the first that fails ends the other. \<open>cause\<close> is why the context ends, if it does.\<close>

definition prepareServices ::
    "guest_env \<Rightarrow> string \<Rightarrow> MachineSpec \<Rightarrow> bool \<Rightarrow> (guest, Supervisor \<times> Supervisor) proc" where
  "prepareServices env level m podmanFirst =
     (if podmanFirst
      then andThen (preparePodman env level m) (\<lambda>p. andThen (prepareSSHServer env m) (\<lambda>d. succeed (p, d)))
      else andThen (prepareSSHServer env m) (\<lambda>d. andThen (preparePodman env level m) (\<lambda>p. succeed (p, d))))"

definition dockerEngineMode ::
    "guest_env \<Rightarrow> wait_env \<Rightarrow> string \<Rightarrow> bool \<Rightarrow> goerr option \<Rightarrow> MachineSpec \<Rightarrow> unit blocking" where
  "dockerEngineMode env wenv level podmanFirst cause m =
     waitThen (waitWrap ''configure network'' (ConfigureNetwork wenv (GetVirtualNetworkType m))) (\<lambda>_.
     waitThen (atTime (\<lambda>_. prepareServices env level m podmanFirst)) (\<lambda>_.
       (\<lambda>i g. map_option (\<lambda>e. (Inl e, i, g)) cause)))"

definition guestRun ::
    "guest_env \<Rightarrow> wait_env \<Rightarrow> (string \<Rightarrow> bool) \<Rightarrow> string \<Rightarrow> bool \<Rightarrow> goerr option \<Rightarrow> nat \<Rightarrow> agent
      \<Rightarrow> (unit res \<times> nat \<times> agent) option" where
  "guestRun env wenv levels envLevel podmanFirst cause i a =
     (case guestBoot env wenv levels envLevel i a of
        None \<Rightarrow> None
      | Some (Inl e, j, a1) \<Rightarrow> Some (Inl e, j, a1)
      | Some (Inr m, j, a1) \<Rightarrow>
          map_option (\<lambda>(r, k, g). (r, k, a1\<lparr>ag_guest := g\<rparr>))
            (dockerEngineMode env wenv (if ToLower envLevel = [] then ''info'' else ToLower envLevel)
               podmanFirst cause m j (ag_guest a1)))"

text \<open>The exit status of the agent. \<open>CmdlineExitNormal\<close> is an error value of its own.\<close>

definition CmdlineExitNormal :: goerr where "CmdlineExitNormal = Errorf ''command exited normally''"

definition guestExit :: "unit res \<Rightarrow> int" where
  "guestExit r =
     (case r of
        Inr _ \<Rightarrow> 0
      | Inl e \<Rightarrow>
          if errCause e = CmdlineExitNormal then 0
          else case errCause e of
                 ErrExit code \<Rightarrow> code
               | ErrExecNotFound _ \<Rightarrow> 127
               | Panicked _ \<Rightarrow> 2
               | _ \<Rightarrow> 1)"

subsection \<open>What a booted guest has\<close>

lemma onGuest_Inr:
  "onGuest m a = (Inr x, b) \<longleftrightarrow> (\<exists>g. m (ag_guest a) = (Inr x, g) \<and> b = a\<lparr>ag_guest := g\<rparr>)"
  by (auto simp: onGuest_def split: prod.splits)

lemma onGuestOS_ran: "onGuestOS m g = (r, t) \<Longrightarrow> g_ran t = g_ran g"
  by (auto simp: onGuestOS_def split: prod.splits)

lemma InitBinDir_ran: "InitBinDir env g = (Inr (), t) \<Longrightarrow> g_ran t = g_ran g"
  by (auto simp: InitBinDir_def andThen_Inr_iff dest!: onGuestOS_ran)

text \<open>The description is one that the host answered with.\<close>

definition describedBy :: "transport \<Rightarrow> MachineSpec \<Rightarrow> bool" where
  "describedBy peer m \<longleftrightarrow>
     (\<exists>body. DoAndRead peer (HttpGet NewVSockService RestAPIVMConfigURL) = Inr (body, 200) \<and>
        machine_Unmarshal body = Inr m)"

lemma vsock_GetVMConfig_ran: "g_ran (snd (vsock_GetVMConfig peer g)) = g_ran g"
  by (simp add: vsock_GetVMConfig_def Let_def sending_def)

lemma vsock_GetVMConfig_found: "vsock_GetVMConfig peer g = (Inr m, t) \<Longrightarrow> describedBy peer m"
  by (auto simp: vsock_GetVMConfig_def Let_def describedBy_def split: sum.splits prod.splits if_splits)

lemma GetVMConfig_found:
  assumes "GetVMConfig env i g = Some (Inr m, j, t)"
  shows "g_ran t = g_ran g \<and> (\<exists>k. describedBy (we_host env k) m)"
proof -
  let ?Q = "\<lambda>u. g_ran u = g_ran g"
  obtain u where loop: "retryLoop (we_wake env) (configProbe env) i g = Some (Some m, j, u)"
    and t: "g_ran t = g_ran u"
    using assms
    by (auto simp: GetVMConfig_def waitThen_def getVMConfig_def waitWrap_def loopResult_def atTime_def
        onGuestOS_ran succeed_def split: option.splits prod.splits sum.splits)
  have "?Q (snd (configProbe env k v))" if "?Q v" for k v
    using that vsock_GetVMConfig_ran [of "we_host env k" v]
    by (cases "vsock_GetVMConfig (we_host env k) v") (simp add: configProbe_def split: sum.split)
  from retry_result [where Q = ?Q, OF loop this] obtain k v where "?Q u" "configProbe env k v = (Some m, u)"
    by auto
  with t vsock_GetVMConfig_found show ?thesis
    by (fastforce simp: configProbe_def split: prod.splits sum.splits)
qed

text \<open>Forwarders: a step of a rule adds it or nothing, and runs no program.\<close>

definition addsAtMost :: "unixForwardRule \<Rightarrow> (agent, 'a) proc \<Rightarrow> bool" where
  "addsAtMost rule m \<longleftrightarrow> (\<forall>a. g_ran (ag_guest (snd (m a))) = g_ran (ag_guest a) \<and>
     (ag_forwarders (snd (m a)) = ag_forwarders a \<or> ag_forwarders (snd (m a)) = ag_forwarders a @ [rule]))"

definition addsNone :: "(agent, 'a) proc \<Rightarrow> bool" where
  "addsNone m \<longleftrightarrow> (\<forall>a. g_ran (ag_guest (snd (m a))) = g_ran (ag_guest a) \<and>
     ag_forwarders (snd (m a)) = ag_forwarders a)"

lemma addsNone_os: "addsNone (wrapping msg (onGuest (onGuestOS m)))"
  by (auto simp: addsNone_def wrapping_def onGuest_def onGuestOS_def split: prod.splits)

lemma addsAtMost_andThen: "addsNone m \<Longrightarrow> (\<And>x. addsAtMost rule (f x)) \<Longrightarrow> addsAtMost rule (andThen m f)"
  unfolding addsAtMost_def addsNone_def andThen_def
  by (auto split: prod.split sum.split) (metis snd_conv)+

lemma StartUnixForwarder_adds: "addsAtMost rule (StartUnixForwarder rule)"
proof -
  have "addsAtMost rule (failWith e :: (agent, unit) proc)" for e by (simp add: addsAtMost_def failWith_def)
  moreover have "addsAtMost rule (modifyState (\<lambda>a. a\<lparr>ag_forwarders := ag_forwarders a @ [rule]\<rparr>))"
    by (simp add: addsAtMost_def modifyState_def)
  ultimately show ?thesis
    unfolding StartUnixForwarder_def by (simp add: addsAtMost_andThen addsNone_os)
qed

lemma startAll_adds:
  "g_ran (ag_guest (startAll rules a)) = g_ran (ag_guest a) \<and>
   (\<exists>new. ag_forwarders (startAll rules a) = ag_forwarders a @ new \<and> subseq new rules)"
proof (induction rules arbitrary: a)
  case (Cons rule rules)
  let ?b = "snd (StartUnixForwarder rule a)"
  obtain new where "ag_forwarders (startAll rules ?b) = ag_forwarders ?b @ new" "subseq new rules"
    using Cons [of ?b] by blast
  moreover have "ag_forwarders ?b = ag_forwarders a \<or> ag_forwarders ?b = ag_forwarders a @ [rule]"
    and "g_ran (ag_guest ?b) = g_ran (ag_guest a)"
    using StartUnixForwarder_adds [of rule] unfolding addsAtMost_def by blast+
  ultimately show ?case
    using Cons [of ?b] by (auto intro: exI [of _ new] exI [of _ "rule # new"])
qed simp

lemma setupPort_frame [simp]:
  "ag_guest (setupGuestLogAndSignalPort a) = ag_guest a"
  "ag_forwarders (setupGuestLogAndSignalPort a) = ag_forwarders a"
  by (simp_all add: setupGuestLogAndSignalPort_def split: sum.split)

definition machineRules :: "MachineSpec \<Rightarrow> unixForwardRule list" where
  "machineRules m =
     (case BuildUnixSocketForwardRoutes (UnixSocketForwards m) of
        Inl _ \<Rightarrow> [] | Inr routes \<Rightarrow> buildUnixForwardRules routes)"

lemma StartUnixForwarders_adds:
  "g_ran (ag_guest (StartUnixForwarders m a)) = g_ran (ag_guest a) \<and>
   (\<exists>new. ag_forwarders (StartUnixForwarders m a) = ag_forwarders a @ new \<and> subseq new (machineRules m))"
  using startAll_adds [of "machineRules m" a]
  by (auto simp: StartUnixForwarders_def machineRules_def split: sum.split)

lemma prepareMachine_ok:
  assumes "mountpointTells env base" and "prepareMachine env m a = (Inr (), b)"
  shows "mountTable (g_ran (ag_guest b)) = guestTable base m (mountTable (g_ran (ag_guest a))) \<and>
    (BlkDevs m = [] \<or> list_ex isVarDisk (BlkDevs m)) \<and>
    (\<exists>new. ag_forwarders b = ag_forwarders a @ new \<and> subseq new (machineRules m))"
proof -
  obtain g1 g2 g3 where p: "MountAllPseudoMnt env (ag_guest a) = (Inr (), g1)"
    and d: "MountBlockDevices env m g1 = (Inr (), g2)" and v: "MountVirtiofs env m g2 = (Inr (), g3)"
    and b: "b = StartUnixForwarders m ((setupGuestLogAndSignalPort (a\<lparr>ag_guest := g1\<rparr>))\<lparr>ag_guest := g3\<rparr>)"
    using assms(2) by (auto simp: prepareMachine_def andThen_Inr_iff onGuest_Inr)
  have "mountTable (g_ran g3) = guestTable base m (mountTable (g_ran (ag_guest a)))"
    using pseudo_table [OF assms(1) p] disks_table [OF assms(1) d] shares_table [OF assms(1) v]
    by (auto simp: guestTable_def withDisks_def)
  moreover have "BlkDevs m = [] \<or> list_ex isVarDisk (BlkDevs m)" using disks_table [OF assms(1) d] by blast
  ultimately show ?thesis
    using b StartUnixForwarders_adds [of m "(setupGuestLogAndSignalPort (a\<lparr>ag_guest := g1\<rparr>))\<lparr>ag_guest := g3\<rparr>"]
    by simp
qed

text \<open>C7. A guest that has booted. If \<open>busybox mountpoint\<close> tells the truth about mount points and
  the boot sequence succeeds, then the machine description is one the host answered with; the mount
  table is the specified one for this description; a machine with disks has the var disk, and it
  is the topmost mount at its place, over the tmpfs mounted there before and never covered by
  another disk or share; every other disk, every share and every pseudo file system is mounted;
  and the unix forwarders that are up are, in order, among the routes of the description.\<close>

theorem guest_boots:
  assumes "mountpointTells env base"
    and "guestBoot env wenv levels envLevel i a = Some (Inr m, j, b)" and "BlkDevs m \<noteq> []"
  shows "(\<exists>k. describedBy (we_host wenv k) m) \<and>
    mountTable (g_ran (ag_guest b)) = guestTable base m (mountTable (g_ran (ag_guest a))) \<and>
    (\<exists>d \<in> set (BlkDevs m). isVarDisk d \<and>
       topMount (g_ran (ag_guest b)) (bd_MountTo d) = Some (''UUID='' @ VarDataDiskUUID)) \<and>
    set (map mnt_Target pseudoMnts @ map mnt_Target (Mounts m) @
        map bd_MountTo (filter (\<lambda>d. \<not> isVarDisk d) (BlkDevs m)))
      \<subseteq> base \<union> fst ` set (mountTable (g_ran (ag_guest b))) \<and>
    (\<exists>new. ag_forwarders b = ag_forwarders a @ new \<and> subseq new (machineRules m))"
proof -
  obtain l a1 g where init: "andThen (setupLogger levels envLevel)
      (\<lambda>_. wrapping ''init bin dir'' (onGuest (InitBinDir env))) a = (Inr l, a1)"
    and cfg: "GetVMConfig wenv i (ag_guest a1) = Some (Inr m, j, g)"
    and prep: "prepareMachine env m (a1\<lparr>ag_guest := g\<rparr>) = (Inr (), b)"
    using assms(2) by (auto simp: guestBoot_def split: prod.splits sum.splits option.splits)
  have a1: "g_ran (ag_guest a1) = g_ran (ag_guest a)" "ag_forwarders a1 = ag_forwarders a"
    using init InitBinDir_ran
    by (auto simp: setupLogger_def Let_def andThen_Inr_iff onGuest_Inr split: if_splits)
  have g: "g_ran g = g_ran (ag_guest a1)" "\<exists>k. describedBy (we_host wenv k) m"
    using GetVMConfig_found [OF cfg] by blast+
  have tbl: "mountTable (g_ran (ag_guest b)) = guestTable base m (mountTable (g_ran (ag_guest a)))"
    and var: "list_ex isVarDisk (BlkDevs m)"
    and fwd: "\<exists>new. ag_forwarders b = ag_forwarders a @ new \<and> subseq new (machineRules m)"
    using prepareMachine_ok [OF assms(1) prep] assms(3) a1 g(1) by auto
  let ?d = "last (filter isVarDisk (BlkDevs m))"
  have "filter isVarDisk (BlkDevs m) \<noteq> []" using var by (auto simp: list_ex_iff filter_empty_conv)
  then have "?d \<in> set (BlkDevs m) \<and> isVarDisk ?d" using last_in_set by fastforce
  moreover have "topMount (g_ran (ag_guest b)) (bd_MountTo ?d) = Some (''UUID='' @ VarDataDiskUUID)"
    using guestTable_var [OF var refl] tbl by (simp add: topMount_def)
  moreover have "set (map mnt_Target pseudoMnts @ map mnt_Target (Mounts m) @
        map bd_MountTo (filter (\<lambda>d. \<not> isVarDisk d) (BlkDevs m)))
      \<subseteq> base \<union> fst ` set (mountTable (g_ran (ag_guest b)))"
    using guestTable_targets [OF var, of base "mountTable (g_ran (ag_guest a))"] tbl
    by (simp add: pseudoEntries_def shareEntry_def diskEntry_def image_image) blast
  ultimately show ?thesis using tbl fwd g(2) by blast
qed

definition bootOS :: OS where
  "bootOS = sampleOS\<lparr>os_fs := [(''/var'', Directory)]\<rparr>"

definition bootBase :: "string set" where
  "bootBase = set (map mnt_Target pseudoMnts)"

definition bootEnv :: guest_env where
  "bootEnv = sampleGuestEnv\<lparr>ge_run := (\<lambda>cmd cmds s.
     (if take 3 cmd = [BusyboxPath, ''mountpoint'', ''-q''] \<and>
         \<not> (last cmd \<in> bootBase \<or> last cmd \<in> fst ` set (mountTable cmds))
      then Inl (ErrExit 1) else Inr (), bootOS))\<rparr>"

definition bootMachine :: MachineSpec where
  "bootMachine = emptyMachine\<lparr>BlkDevs := [\<lparr>bd_FsType = ''ext4'', bd_UUID = VarDataDiskUUID,
     bd_Path = ''/s/var.img'', bd_MountTo = ''/var''\<rparr>]\<rparr>"

definition bootWait :: wait_env where
  "bootWait = sampleWaitEnv (\<lambda>_. Ticked)
     (\<lambda>_. Inr \<lparr>StatusCode = 200, resp_body = Inr (machine_Marshal bootMachine)\<rparr>) sampleSshEnv"

definition bootAgent :: agent where
  "bootAgent = \<lparr>ag_guest = sampleGuest, ag_forwarders = [], ag_logPort = None\<rparr>"

lemma bootEnv_tells: "mountpointTells bootEnv bootBase"
  by (auto simp: mountpointTells_def bootEnv_def)

lemma bootEnv_mounted:
  assumes "mnt_Target mnt \<in> bootBase"
  shows "mountUnlessMounted bootEnv msg action mnt g =
    (Inr (), g\<lparr>g_os := bootOS, g_ran := g_ran g @ [([BusyboxPath, ''mountpoint'', ''-q'', mnt_Target mnt], True)]\<rparr>)"
  using assms by (simp add: mountUnlessMounted_def GuestIsMounted_def ExecNoOutput_def runCmd_def bootEnv_def proc_defs)

lemma bootEnv_pseudo:
  assumes "set (map mnt_Target ms) \<subseteq> bootBase" and "g_os g = bootOS \<or> ms \<noteq> []"
  shows "\<exists>g'. forEach (mountUnlessMounted bootEnv msg action) ms g = (Inr (), g') \<and> g_os g' = bootOS"
  using assms
proof (induction ms arbitrary: g)
  case (Cons mnt ms)
  let ?u = "g\<lparr>g_os := bootOS, g_ran := g_ran g @ [([BusyboxPath, ''mountpoint'', ''-q'', mnt_Target mnt], True)]\<rparr>"
  from Cons.prems have "mountUnlessMounted bootEnv msg action mnt g = (Inr (), ?u)"
    by (intro bootEnv_mounted) simp
  with Cons.IH [of ?u] Cons.prems show ?case by (simp add: andThen_def)
qed simp

lemma bootMachine_text: "machine_Unmarshal (machine_Marshal bootMachine) = Inr bootMachine"
proof -
  have "asciiMachine bootMachine"
    by (simp add: asciiMachine_def bootMachine_def emptyMachine_def encMachine_def
        machineFields_def encBlkDev_def blkDevFields_def encSSHInfo_def sSHInfoFields_def
        emptySSHInfo_def encPodmanInfo_def podmanInfoFields_def encGuestAgentCfg_def
        guestAgentCfgFields_def encCmdline_def cmdlineFields_def encProxySetting_def
        proxySettingFields_def VarDataDiskUUID_def ascii_def plain_obj)
  from machine_text_round_trip [OF _ this] show ?thesis
    by (simp add: bootMachine_def emptyMachine_def sortedMap_def)
qed

lemma boot_config:
  assumes "ok (fst (onGuestOS (os_WriteFile VMConfigFilePathInGuest (machine_Marshal m)) (g\<lparr>g_sent := r\<rparr>)))"
    and "r = g_sent g @ [wireRequest (HttpGet NewVSockService RestAPIVMConfigURL)]"
    and "describedBy (we_host wenv 0) m"
  shows "\<exists>g'. GetVMConfig wenv 0 g = Some (Inr m, 0, g')"
proof -
  let ?r = "HttpGet NewVSockService RestAPIVMConfigURL"
  have "ok (url_Parse (''http://vsock'' @ Clean (sep # RestAPIVMConfigURL)))" by code_simp
  then have u: "ok (url_Parse (buildURL ?r))"
    by (simp add: buildURL_def HttpGet_def NewRequest_def NewVSockService_def NewVSockClient_def)
  obtain body where "DoAndRead (we_host wenv 0) ?r = Inr (body, 200)" and "machine_Unmarshal body = Inr m"
    using assms(3) by (auto simp: describedBy_def)
  with u have "configProbe wenv 0 g = (Some m, g\<lparr>g_sent := r\<rparr>)"
    by (auto simp: configProbe_def vsock_GetVMConfig_def Let_def sending_def ok_iff assms(2))
  then have "retryLoop (we_wake wenv) (configProbe wenv) 0 g = Some (Some m, 0, g\<lparr>g_sent := r\<rparr>)"
    by (subst retryLoop.simps) simp
  with assms(1) show ?thesis
    by (auto simp: GetVMConfig_def getVMConfig_def waitWrap_def waitThen_def loopResult_def atTime_def
        WriteToJsonFile_def succeed_def ok_iff split: prod.splits sum.splits)
qed

lemma boot_disk:
  assumes "g_os g = bootOS" and "BlkDevs m = BlkDevs bootMachine"
  shows "\<exists>g'. MountBlockDevices bootEnv m g = (Inr (), g')"
proof -
  have "os_MkdirAll ''/var'' bootOS = (Inr (), bootOS)"
  proof -
    have "dirChain (osKey bootOS ''/var'') = [''/var'']" and "isDirAt bootOS ''/var''" by code_simp+
    then show ?thesis by (simp add: os_MkdirAll_def)
  qed
  with assms show ?thesis
    by (simp add: MountBlockDevices_def bootMachine_def sortDisks_eq isVarDisk_def mountBlockDevice_def
        mntMount_def diskMnt_def emptyMnt_def onGuestOS_def proc_defs makeMountCmdline_def actions
        VarDataDiskUUID_def mountCmd_def ExecNoOutput_def runCmd_def bootEnv_def)
qed

lemma boot_prepares:
  assumes "BlkDevs m = BlkDevs bootMachine" and "Mounts m = []"
  shows "\<exists>b. prepareMachine bootEnv m a = (Inr (), b)"
proof -
  obtain g1 where p: "MountAllPseudoMnt bootEnv (ag_guest a) = (Inr (), g1)" "g_os g1 = bootOS"
    using bootEnv_pseudo [of pseudoMnts "ag_guest a" "''mount''" PseudoFsAction]
    by (auto simp: MountAllPseudoMnt_def bootBase_def pseudoMnts_def)
  obtain g2 where d: "MountBlockDevices bootEnv m g1 = (Inr (), g2)"
    using boot_disk [OF p(2) assms(1)] by blast
  have "MountVirtiofs bootEnv m = succeed ()"
    by (simp add: MountVirtiofs_def assms(2))
  with p d show ?thesis
    by (simp add: prepareMachine_def andThen_def wrapping_def onGuest_def modifyState_def succeed_def)
qed

lemma boot_runs:
  assumes "BlkDevs m = BlkDevs bootMachine" and "Mounts m = []" and "describedBy (we_host wenv 0) m"
  shows "\<exists>b. guestBoot bootEnv wenv (\<lambda>_. True) [] 0 bootAgent = Some (Inr m, 0, b)"
proof -
  let ?g1 = "snd (InitBinDir bootEnv sampleGuest)"
  have "ok (fst (InitBinDir bootEnv sampleGuest))" by code_simp
  then obtain g1 where init: "InitBinDir bootEnv sampleGuest = (Inr (), g1)"
    by (auto simp: ok_iff) (metis prod.collapse)
  then have i: "andThen (setupLogger (\<lambda>_. True) []) (\<lambda>_. wrapping ''init bin dir'' (onGuest (InitBinDir bootEnv)))
      bootAgent = (Inr (), bootAgent\<lparr>ag_guest := g1\<rparr>)"
    by (simp add: setupLogger_def Let_def wrapping_def onGuest_def bootAgent_def)
  have "osKey (g_os ?g1) VMConfigFilePathInGuest = VMConfigFilePathInGuest"
    and "VMConfigFilePathInGuest \<noteq> []"
    and "\<not> os_fault (g_os ?g1) ''open'' VMConfigFilePathInGuest"
    and "follow maxLinks (g_os ?g1) VMConfigFilePathInGuest = Some VMConfigFilePathInGuest"
    and "nodeAt (g_os ?g1) VMConfigFilePathInGuest = None"
    and "isDirAt (g_os ?g1) (Dir VMConfigFilePathInGuest)"
    by code_simp+
  then have "ok (fst (onGuestOS (os_WriteFile VMConfigFilePathInGuest (machine_Marshal m))
      (g1\<lparr>g_sent := r\<rparr>)))" for r
    by (simp add: onGuestOS_def os_WriteFile_def openWrite_def Let_def init)
  then obtain g2 where c: "GetVMConfig wenv 0 g1 = Some (Inr m, 0, g2)"
    using boot_config [OF _ _ assms(3)] by blast
  obtain b where "prepareMachine bootEnv m (bootAgent\<lparr>ag_guest := g1\<rparr>\<lparr>ag_guest := g2\<rparr>) = (Inr (), b)"
    using boot_prepares [OF assms(1,2)] by blast
  with i c show ?thesis by (simp add: guestBoot_def)
qed

theorem guest_boots_witness:
  "\<exists>j b. guestBoot bootEnv bootWait (\<lambda>_. True) [] 0 bootAgent = Some (Inr bootMachine, j, b) \<and>
     topMount (g_ran (ag_guest b)) ''/var'' = Some (''UUID='' @ VarDataDiskUUID)"
proof -
  have "ok (url_Parse (buildURL (HttpGet NewVSockService RestAPIVMConfigURL)))" by code_simp
  then have "describedBy (we_host bootWait 0) bootMachine"
    using bootMachine_text
    by (auto simp: describedBy_def DoAndRead_def httpDo_def bootWait_def sampleWaitEnv_def ok_iff)
  then obtain b where boot: "guestBoot bootEnv bootWait (\<lambda>_. True) [] 0 bootAgent = Some (Inr bootMachine, 0, b)"
    using boot_runs [of bootMachine bootWait] by (auto simp: bootMachine_def emptyMachine_def)
  from guest_boots [OF bootEnv_tells this] have "topMount (g_ran (ag_guest b)) ''/var'' = Some (''UUID='' @ VarDataDiskUUID)"
    by (simp add: bootMachine_def)
  with boot show ?thesis by blast
qed

end
