(* ===== verification/Stop_Signal.thy ===== *)
theory Stop_Signal
  imports Management Guest_Agent
begin

text \<open>
  Stopping the machine, from the host to the guest's power switch: a stop request to the management
  API, a signal to the host's process and the end of its parent (\<open>WaitAndShutdownMachine\<close> in
  \<open>pkg/librevm/vm.go\<close>) each make the provider write a line into the signal pipe
  (\<open>pkg/libkrun/vm.go\<close>, \<open>provider.go\<close>); the pipe is the input of the guest's log port, which the
  agent reads line by line, turning each line into signals (\<open>cmd/guest-agent/main.go\<close>); the first
  interrupt or termination that arrives once the agent has registered for them syncs the disk and
  cuts the power (\<open>shutdown.go\<close>).
\<close>

subsection \<open>The pipe\<close>

text \<open>What \<open>SendSignal\<close> writes for a name.\<close>

definition signalWire :: "string \<Rightarrow> string" where
  "signalWire name = json_Encode (JObj [(''SignalName'', JStr name)])"

text \<open>\<open>bufio.MaxScanTokenSize\<close>, and the loop of the agent over the lines of its port.\<close>

definition MaxScanTokenSize :: nat where "MaxScanTokenSize = 65536"

definition signalPort :: "int \<Rightarrow> string \<Rightarrow> (int \<times> signal) list" where
  "signalPort self bytes = concat (map (handleSignalLine self) (scanLines MaxScanTokenSize bytes))"

text \<open>The signals a process gets.\<close>

definition signalsOf :: "int \<Rightarrow> (int \<times> signal) list \<Rightarrow> signal list" where
  "signalsOf pid sent = map snd (filter (\<lambda>(p, _). p = pid) sent)"

text \<open>Lines written are lines read.\<close>

lemma scanned_lines:
  assumes "list_all (\<lambda>l. CHR 0x0A \<notin> set l \<and> CHR 0x0D \<notin> set l \<and> length l < limit) ls"
  shows "scanLines limit (concat (map (\<lambda>l. l @ [CHR 0x0A]) ls)) = ls"
proof -
  have "Split (concat (map (\<lambda>l. l @ [CHR 0x0A]) ls)) (CHR 0x0A) = ls @ [[]]"
    using assms by (induction ls) (simp_all add: Split_append)
  moreover have "map dropCR ls = ls"
    using assms by (intro map_idI) (auto simp: dropCR_def list_all_iff dest: last_in_set)
  moreover have "takeWhile (\<lambda>l. length l < limit) ls = ls"
    using assms by (simp add: list_all_iff takeWhile_eq_all_conv)
  ultimately show ?thesis unfolding scanLines_def by (simp del: takeWhile_eq_all_conv)
qed

text \<open>The guest's struct tag is spelled with a small letter; \<open>encoding/json\<close> matches the names
  regardless of case.\<close>

definition stopLine :: string where
  "stopLine = jsonText (JObj [(''SignalName'', JStr ''terminated'')])"

lemma stopLine_text: "stopLine = ''{'' @ [CHR 0x22] @ ''SignalName'' @ [CHR 0x22] @ '':'' @ [CHR 0x22] @ ''terminated'' @ [CHR 0x22] @ ''}''"
  by (simp add: stopLine_def jsonString_def jsonEscape_def)

lemma stopLine_plain: "CHR 0x0A \<notin> set stopLine \<and> CHR 0x0D \<notin> set stopLine \<and> length stopLine < MaxScanTokenSize"
  unfolding stopLine_text MaxScanTokenSize_def by simp

lemma stopLine_written: "signalWire ''terminated'' = stopLine @ [CHR 0x0A]"
  by (simp only: signalWire_def json_Encode_def stopLine_def)

lemma stopLine_handled: "handleSignalLine self stopLine = [(-1, SIGTERM), (self, SIGTERM)]"
proof -
  have "plainJson (JObj [(''SignalName'', JStr ''terminated'')])" by code_simp
  then have 1: "json_Unmarshal stopLine = Inr (JObj [(''SignalName'', JStr ''terminated'')])"
    unfolding stopLine_def by (rule unmarshal_text(1))
  have "signalMsg (JObj [(''SignalName'', JStr ''terminated'')]) = Inr ''terminated''"
    by code_simp
  then show ?thesis by (simp add: handleSignalLine_def 1 signalOfName_def)
qed

lemma stops_read:
  "signalsOf self (signalPort self (concat (map signalWire (replicate n ''terminated'')))) =
     replicate (if self = -1 then 2 * n else n) SIGTERM"
proof -
  have "map signalWire (replicate n ''terminated'') = map (\<lambda>l. l @ [CHR 0x0A]) (replicate n stopLine)"
    by (simp only: map_replicate stopLine_written)
  moreover have "list_all (\<lambda>l. CHR 0x0A \<notin> set l \<and> CHR 0x0D \<notin> set l \<and> length l < MaxScanTokenSize)
      (replicate n stopLine)"
    using stopLine_plain by (simp only: list_all_iff set_replicate_conv_if) simp
  ultimately have "scanLines MaxScanTokenSize (concat (map signalWire (replicate n ''terminated''))) =
      replicate n stopLine"
    by (simp only: scanned_lines)
  then have "signalPort self (concat (map signalWire (replicate n ''terminated''))) =
      concat (replicate n [(-1, SIGTERM), (self, SIGTERM)])"
    by (simp only: signalPort_def map_replicate stopLine_handled)
  moreover have "signalsOf self (concat (replicate n [(-1, SIGTERM), (self, SIGTERM)])) =
      replicate (if self = -1 then 2 * n else n) SIGTERM"
    by (induction n) (auto simp: signalsOf_def)
  ultimately show ?thesis by simp
qed

text \<open>The agent's life when it registers for signals after it got \<open>e\<close> of them.\<close>

definition agentEvents :: "nat \<Rightarrow> signal list \<Rightarrow> agentEvent list" where
  "agentEvents e sigs = map Gets (take e sigs) @ Notify # map Gets (drop e sigs)"

lemma shutdown_on_stop:
  "WaitAndShutdown env False (agentEvents e (replicate n SIGTERM)) g =
     (if n = 0 then (WaitsOn, g) else if e = 0 then (CutsPower, PowerOff env (SyncDisk env g))
      else (KilledBy SIGTERM, g))"
  by (cases n; cases e) (simp_all add: agentEvents_def)

lemma power_off_order:
  "\<exists>b c. g_ran (PowerOff env (SyncDisk env g)) = g_ran g @ [([''sync''], b), ([''poweroff'', ''-f''], c)]"
  by (auto simp: PowerOff_def SyncDisk_def runCmd_def split: prod.split)

subsection \<open>The pipe is open after Create, and empty\<close>

definition sameSignals :: "krunVM \<Rightarrow> 'a res \<times> krunVM \<Rightarrow> bool" where
  "sameSignals v p \<longleftrightarrow> kv_signalPipeW (snd p) = kv_signalPipeW v \<and> kv_signals (snd p) = kv_signals v"

named_theorems quiet "runs that leave the signal pipe alone"

lemma quiet_basic [quiet]:
  "sameSignals v (r, v)" "sameSignals v (succeed a v)" "sameSignals v (failWith e v)"
  "sameSignals v (lift x v)" "sameSignals v (onKrunOS m v)" "sameSignals v (krunPipe v)" "sameSignals v (krun env c v)"
  "sameSignals v (must n v)" "sameSignals v (retErr n v)"
  by (simp_all add: sameSignals_def succeed_def failWith_def lift_def onKrunOS_def krunPipe_def krun_def
      must_def retErr_def split: prod.split list.split)

lemma quiet_modify [quiet]:
  "kv_signalPipeW (f v) = kv_signalPipeW v \<Longrightarrow> kv_signals (f v) = kv_signals v \<Longrightarrow> sameSignals v (modifyState f v)"
  by (simp add: sameSignals_def modifyState_def)

lemma quiet_andThen [quiet]:
  "sameSignals v (m v) \<Longrightarrow> (\<And>a u. sameSignals u (f a u)) \<Longrightarrow> sameSignals v (andThen m f v)"
  by (auto simp: sameSignals_def andThen_def split: prod.splits sum.splits)

lemma quiet_cases [quiet]:
  "sameSignals v (m v) \<Longrightarrow> sameSignals v (n v) \<Longrightarrow> sameSignals v ((if b then m else n) v)"
  "sameSignals v p \<Longrightarrow> sameSignals v q \<Longrightarrow> sameSignals v (if b then p else q)"
  "(\<And>a b. sameSignals v (f a b v)) \<Longrightarrow> sameSignals v ((case x of (a, b) \<Rightarrow> f a b) v)"
  by (auto split: prod.split)

lemma quiet_krun [quiet]: "sameSignals v (mustKrun env c v)" "sameSignals v (tryKrun env c v)"
  unfolding mustKrun_def tryKrun_def by (intro quiet)+

lemma quiet_forEach [quiet]: "(\<And>x u. sameSignals u (f x u)) \<Longrightarrow> sameSignals v (forEach f xs v)"
  by (induction xs arbitrary: v) (auto intro!: quiet)

lemma quiet_setters [quiet]:
  "sameSignals v (krunInit env v)" "sameSignals v (setResources env v)" "sameSignals v (setRootFS env v)"
  "sameSignals v (setGuestAgent env v)" "sameSignals v (setupGPU env v)" "sameSignals v (setupNestedVirt env v)"
  "sameSignals v (setupVSock env v)" "sameSignals v (setupNetwork env v)"
  "sameSignals v (addMainConsole env con v)" "sameSignals v (addStdioRedirect env con v)"
  unfolding krunInit_def setResources_def setRootFS_def setGuestAgent_def setupGPU_def setupNestedVirt_def
    setupVSock_def setupNetwork_def setupGVisor_def addMainConsole_def addStdioRedirect_def Let_def
  by (intro quiet; simp)+

lemma quiet_setupStorage [quiet]: "sameSignals v (setupStorage env v)"
proof -
  have "sameSignals v (addDisk env p v)" for p v
    unfolding addDisk_def by (auto intro!: quiet split: node.split)
  moreover have "sameSignals v (addVirtioFS env t p v)" for t p v
    unfolding addVirtioFS_def Let_def by (intro quiet)
  ultimately show ?thesis unfolding setupStorage_def by (intro quiet)
qed

lemma addLogAndSignal_opens:
  assumes "addLogAndSignal env con v = (Inr (), v')"
  shows "kv_signalPipeW v' \<noteq> None \<and> kv_signals v' = kv_signals v"
  using assms
  by (auto simp: addLogAndSignal_def andThen_Inr_iff krun_ok modifyState_def split: prod.splits)

lemma setupConsole_opens:
  assumes "setupConsole env v = (Inr (), v')"
  shows "kv_signalPipeW v' \<noteq> None \<and> kv_signals v' = kv_signals v"
proof -
  obtain v1 con v2 v3 v4 where r: "mustKrun env (krun_disable_implicit_console (kv_ctxID v)) v = (Inr (), v1)"
    "krun env (krun_add_virtio_console_multiport (kv_ctxID v)) v1 = (Inr con, v2)"
    "addMainConsole env con v2 = (Inr (), v3)"
    "(if TTY (kv_cfg v) then succeed () else addStdioRedirect env con) v3 = (Inr (), v4)"
    "addLogAndSignal env con v4 = (Inr (), v')"
    using assms unfolding setupConsole_def andThen_Inr_iff
    by (auto simp: failWith_def andThen_Inr_iff split: if_splits)
  have "sameSignals v (Inr (), v1)" "sameSignals v1 (Inr con, v2)" "sameSignals v2 (Inr (), v3)"
    "sameSignals v3 (Inr (), v4)"
    unfolding r(1-4) [symmetric] by (intro quiet)+
  with addLogAndSignal_opens [OF r(5)] show ?thesis by (simp add: sameSignals_def)
qed

lemma created_pipe:
  assumes "krunCreate env v = (Inr (), v')"
  shows "kv_signalPipeW v' \<noteq> None \<and> kv_signals v' = kv_signals v"
proof -
  obtain v1 v2 v3 v4 where r: "krunInit env v = (Inr (), v1)"
    "setResources env v1 = (Inr (), v2)" "setRootFS env v2 = (Inr (), v3)" "setupConsole env v3 = (Inr (), v4)"
    and rest: "andThen (setupVSock env) (\<lambda>_. andThen (setupNetwork env) (\<lambda>_. andThen (setupStorage env) (\<lambda>_.
      andThen (setupGPU env) (\<lambda>_. andThen (setupNestedVirt env) (\<lambda>_. setGuestAgent env))))) v4 = (Inr (), v')"
    using assms unfolding krunCreate_def andThen_Inr_iff [of _ _ v] andThen_Inr_iff [of "setResources env"]
      andThen_Inr_iff [of "setRootFS env"] andThen_Inr_iff [of "setupConsole env"] by auto
  have "sameSignals v (Inr (), v1)" "sameSignals v1 (Inr (), v2)" "sameSignals v2 (Inr (), v3)" "sameSignals v4 (Inr (), v')"
    unfolding r(1-3) [symmetric] rest [symmetric] by (intro quiet)+
  with setupConsole_opens [OF r(4)] show ?thesis by (simp add: sameSignals_def)
qed

subsection \<open>What stops the machine on the host\<close>

text \<open>A request to the management API, a signal, or the end of the parent process; the last two call
  \<open>StopVirtualMachine\<close> from the watchers of \<open>RunDocker\<close>.\<close>

datatype hostEvent = Request "bool list" httpIn | HostSignal | ParentGone

fun asksStop :: "hostEvent \<Rightarrow> bool" where
  "asksStop (Request choices r) \<longleftrightarrow>
     hi_path r \<in> {''/stop'', ''/v2/stop''} \<and> hi_method r \<in> {''GET'', ''POST''}"
| "asksStop HostSignal \<longleftrightarrow> True"
| "asksStop ParentGone \<longleftrightarrow> True"

text \<open>The machine after a sequence of events.\<close>

fun managed :: "(execRequest \<Rightarrow> execOutcome) \<Rightarrow> (string \<Rightarrow> execOutcome) \<Rightarrow> hostEvent list \<Rightarrow> krunVM \<Rightarrow> krunVM" where
  "managed exec legacyExec [] v = v"
| "managed exec legacyExec (Request choices r # es) v =
     managed exec legacyExec es (snd (mgmt_serve exec legacyExec choices r v))"
| "managed exec legacyExec (_ # es) v = managed exec legacyExec es (snd (ProviderStop v))"

lemma request_signals:
  assumes "kv_signalPipeW v \<noteq> None"
  shows "kv_signalPipeW (snd (mgmt_serve exec legacyExec choices r v)) = kv_signalPipeW v"
    and "kv_signals (snd (mgmt_serve exec legacyExec choices r v)) =
      kv_signals v @ (if asksStop (Request choices r) then [''terminated''] else [])"
  using assms mgmt_paths_clean
  by (auto simp: mgmt_serve_def Let_def handleRequestVMStop_def ProviderStop_def SendSignal_def httpError_def muxEarly_def)

lemma stop_signals:
  assumes "kv_signalPipeW v \<noteq> None"
  shows "kv_signalPipeW (snd (ProviderStop v)) = kv_signalPipeW v"
    and "kv_signals (snd (ProviderStop v)) = kv_signals v @ [''terminated'']"
  using assms by (auto simp: ProviderStop_def SendSignal_def)

lemma managed_signals:
  assumes "kv_signalPipeW v \<noteq> None"
  shows "kv_signals (managed exec legacyExec es v) =
    kv_signals v @ replicate (length (filter asksStop es)) ''terminated''"
  using assms
proof (induction es arbitrary: v)
  case (Cons e es)
  show ?case
  proof (cases e)
    case (Request choices r)
    then show ?thesis
      using Cons.IH [of "snd (mgmt_serve exec legacyExec choices r v)"] request_signals [OF Cons.prems] Cons.prems
      by (simp del: asksStop.simps)
  qed (use Cons.IH [of "snd (ProviderStop v)"] stop_signals [OF Cons.prems] Cons.prems in simp_all)
qed simp

end
