(* ===== verification/Events.thy ===== *)
theory Events
  imports Config Network "HOL-Library.Multiset"
begin

text \<open>
  Lifecycle events: \<open>pkg/librevm/events.go\<close> (the dispatcher and \<open>VM.emit\<close>),
  \<open>pkg/librevm/ovm.go\<close> (the reporter that notifies a front end over HTTP) and the event
  kinds of \<open>pkg/librevm/const.go\<close>.

  The dispatcher works for any reporter; its two methods \<open>Report\<close> and \<open>Close\<close> are
  arguments, transformers of a world \<open>'w\<close>. The interface \<open>event_reporter\<close> says what a
  reporter promises the dispatcher, and the HTTP reporter is an interpretation of it. Its
  world is the list of requests sent and of clients closed.

  A run is a sequence of operations, each complete before the next. The mutex of the dispatcher gives
  that for registering and for marking the dispatcher closed. \<open>publish\<close> only holds a read lock, so
  two calls of it at the same time may interleave reporter by reporter, and \<open>close\<close> calls the
  reporters' \<open>Close\<close> after it released the mutex: what reporters see of operations that overlap in
  these ways is not modelled. In a session one goroutine publishes at a time (the main one first, then
  the monitor).
\<close>

subsection \<open>Events (const.go, events.go)\<close>

type_synonym EventKind = string

definition EventStopping :: EventKind where "EventStopping = ''stopping''"
definition EventStopped :: EventKind where "EventStopped = ''stopped''"
definition EventError :: EventKind where "EventError = ''error''"
definition EventSuccess :: EventKind where "EventSuccess = ''success''"
definition EventExit :: EventKind where "EventExit = ''exit''"
definition EventNetworkReady :: EventKind where "EventNetworkReady = ''network_ready''"
definition EventSSHReady :: EventKind where "EventSSHReady = ''ssh_ready''"
definition EventPodmanReady :: EventKind where "EventPodmanReady = ''podman_ready''"
definition EventVMStarting :: EventKind where "EventVMStarting = ''vm_starting''"

text \<open>The time stamp of an event is not modelled.\<close>

record Event =
  evt_RunMode :: string
  evt_Kind :: EventKind
  evt_Message :: string
  evt_SessionID :: string
  evt_Seq :: u64

record 'r eventDispatcher =
  reporters :: "'r list"
  disp_closed :: bool

definition newDispatcher :: "'r eventDispatcher" where
  "newDispatcher = \<lparr>reporters = [], disp_closed = False\<rparr>"

text \<open>A nil reporter is \<open>None\<close>.\<close>

definition addReporter ::
    "('r \<Rightarrow> 'w \<Rightarrow> 'w) \<Rightarrow> 'r option \<Rightarrow> 'r eventDispatcher \<Rightarrow> 'w \<Rightarrow> 'r eventDispatcher \<times> 'w" where
  "addReporter Close r d w =
     (case r of
        None \<Rightarrow> (d, w)
      | Some r' \<Rightarrow>
          if disp_closed d then (d, Close r' w)
          else (d\<lparr>reporters := reporters d @ [r']\<rparr>, w))"

definition publish ::
    "('r \<Rightarrow> Event \<Rightarrow> 'w \<Rightarrow> 'w) \<Rightarrow> string \<Rightarrow> string \<Rightarrow> EventKind \<Rightarrow> string \<Rightarrow> u64 \<Rightarrow>
     'r eventDispatcher \<Rightarrow> 'w \<Rightarrow> 'w" where
  "publish Report sessionID runMode kind msg seq d w =
     (if disp_closed d then w
      else
        let evt = \<lparr>evt_RunMode = runMode, evt_Kind = kind, evt_Message = msg,
                    evt_SessionID = sessionID, evt_Seq = seq\<rparr>
        in foldl (\<lambda>w r. Report r evt w) w (reporters d))"

definition closeDispatcher ::
    "('r \<Rightarrow> 'w \<Rightarrow> 'w) \<Rightarrow> 'r eventDispatcher \<Rightarrow> 'w \<Rightarrow> 'r eventDispatcher \<times> 'w" where
  "closeDispatcher Close d w =
     (if disp_closed d then (d, w)
      else (\<lparr>reporters = [], disp_closed = True\<rparr>, foldl (\<lambda>w r. Close r w) w (reporters d)))"

subsection \<open>The HTTP reporter (ovm.go)\<close>

record legacyReporter =
  lr_client :: Client
  lr_runMode :: string

record reportWorld =
  notified :: "HttpRequest list"
  closedClients :: "Client list"

definition newClient :: "string \<Rightarrow> Client option" where
  "newClient endpoint =
     (if HasPrefix endpoint ''unix://'' \<or> HasPrefix endpoint ''unixgram://''
      then (case ParseUnixAddr endpoint of
              Inl _ \<Rightarrow> None
            | Inr a \<Rightarrow> Some (NewUnixClient (addr_Path a) [WithTimeout 1000]))
      else if HasPrefix endpoint ''tcp://''
      then (case ParseTcpAddr endpoint of
              Inl _ \<Rightarrow> None
            | Inr a \<Rightarrow>
                let port = (if addr_Port a < 0 then ''-'' @ Itoa (nat (- addr_Port a))
                            else Itoa (nat (addr_Port a)))
                in Some (NewTCPClient (addr_Host a @ '':'' @ port) [WithTimeout 1000]))
      else None)"

definition newLegacyReporter :: "string \<Rightarrow> string \<Rightarrow> legacyReporter option" where
  "newLegacyReporter endpoint runMode =
     (if endpoint = [] then None
      else map_option (\<lambda>c. \<lparr>lr_client = c, lr_runMode = runMode\<rparr>) (newClient endpoint))"

definition evtProxy :: "string \<Rightarrow> EventKind \<Rightarrow> string \<times> EventKind" where
  "evtProxy runMode kind =
     ((if runMode = ModeCfgGen then ''init'' else if runMode = ModeContainer then ''start'' else runMode),
      (if kind = EventStopped then ''Exit''
       else if kind = EventPodmanReady then ''Ready''
       else if kind = EventError then ''Error''
       else if kind = EventSuccess then ''Success''
       else if kind = EventExit then ''Exit''
       else kind))"

text \<open>The request \<open>Report\<close> builds: the value is the message only when the mapped kind is
  the event kind for errors.\<close>

definition notifyRequest :: "legacyReporter \<Rightarrow> Event \<Rightarrow> Request" where
  "notifyRequest r evt =
     (case evtProxy (lr_runMode r) (evt_Kind evt) of (stage, kind) \<Rightarrow>
        let val = (if kind = EventError then evt_Message evt else [])
        in Query (Query (Query (HttpGet (lr_client r) ''/notify'') ''stage'' stage)
             ''name'' kind) ''value'' val)"

text \<open>A request that cannot be built is not sent; what the peer answers does not matter.\<close>

definition legacy_sent :: "legacyReporter \<Rightarrow> Event \<Rightarrow> HttpRequest list" where
  "legacy_sent r evt =
     (case url_Parse (buildURL (notifyRequest r evt)) of
        Inl _ \<Rightarrow> [] | Inr _ \<Rightarrow> [wireRequest (notifyRequest r evt)])"

definition legacy_Report :: "legacyReporter \<Rightarrow> Event \<Rightarrow> reportWorld \<Rightarrow> reportWorld" where
  "legacy_Report r evt w = w\<lparr>notified := notified w @ legacy_sent r evt\<rparr>"

definition legacy_Close :: "legacyReporter \<Rightarrow> reportWorld \<Rightarrow> reportWorld" where
  "legacy_Close r w = w\<lparr>closedClients := closedClients w @ [lr_client r]\<rparr>"

subsection \<open>Emitting from the VM\<close>

record eventState =
  es_cfg :: "Config option"
  es_dispatcher :: "legacyReporter eventDispatcher"
  es_seq :: u64
  es_world :: reportWorld

definition emit :: "EventKind \<Rightarrow> string \<Rightarrow> eventState \<Rightarrow> eventState" where
  "emit kind msg st =
     (case es_cfg st of
        None \<Rightarrow> st
      | Some cfg \<Rightarrow>
          let n = es_seq st + 1
          in st\<lparr>es_seq := n, es_world := publish legacy_Report (SessionID cfg) (cfg_RunMode cfg)
                 kind msg n (es_dispatcher st) (es_world st)\<rparr>)"

definition emptyReports :: reportWorld where
  "emptyReports = \<lparr>notified = [], closedClients = []\<rparr>"

text \<open>The state \<open>New\<close> leaves: the configured reporter, if its endpoint is usable.\<close>

definition newEventState :: "Config \<Rightarrow> eventState" where
  "newEventState cfg =
     (case addReporter legacy_Close (newLegacyReporter (ReportURL cfg) (cfg_RunMode cfg))
             newDispatcher emptyReports of
        (d, w) \<Rightarrow> \<lparr>es_cfg = Some cfg, es_dispatcher = d, es_seq = 0, es_world = w\<rparr>)"

subsection \<open>Runs of the dispatcher\<close>

datatype 'r dispOp = OpAdd "'r option" | OpPublish Event | OpClose

fun dispStep ::
    "('r \<Rightarrow> Event \<Rightarrow> 'w \<Rightarrow> 'w) \<Rightarrow> ('r \<Rightarrow> 'w \<Rightarrow> 'w) \<Rightarrow> 'r dispOp \<Rightarrow>
     'r eventDispatcher \<times> 'w \<Rightarrow> 'r eventDispatcher \<times> 'w" where
  "dispStep Report Close (OpAdd r) (d, w) = addReporter Close r d w"
| "dispStep Report Close (OpPublish e) (d, w) =
     (d, publish Report (evt_SessionID e) (evt_RunMode e) (evt_Kind e) (evt_Message e) (evt_Seq e) d w)"
| "dispStep Report Close OpClose (d, w) = closeDispatcher Close d w"

definition dispRun where
  "dispRun Report Close ops = foldl (\<lambda>s op. dispStep Report Close op s) (newDispatcher, []) ops"

datatype 'r report = Reported 'r Event | ClosedBy 'r

definition traceReport :: "'r \<Rightarrow> Event \<Rightarrow> 'r report list \<Rightarrow> 'r report list" where
  "traceReport r e w = w @ [Reported r e]"

definition traceClose :: "'r \<Rightarrow> 'r report list \<Rightarrow> 'r report list" where
  "traceClose r w = w @ [ClosedBy r]"

definition addsOf :: "'r dispOp list \<Rightarrow> 'r list" where
  "addsOf ops = concat (map (\<lambda>op. case op of OpAdd (Some r) \<Rightarrow> [r] | _ \<Rightarrow> []) ops)"

definition closesOf :: "'r report list \<Rightarrow> 'r list" where
  "closesOf tr = concat (map (\<lambda>x. case x of ClosedBy r \<Rightarrow> [r] | _ \<Rightarrow> []) tr)"

definition reportsOf :: "'r report list \<Rightarrow> ('r \<times> Event) list" where
  "reportsOf tr = concat (map (\<lambda>x. case x of Reported r e \<Rightarrow> [(r, e)] | _ \<Rightarrow> []) tr)"

subsection \<open>What a reporter promises\<close>

text \<open>A report adds what the reporter sends to the log, closing sends nothing.\<close>

locale event_reporter =
  fixes Report :: "'r \<Rightarrow> Event \<Rightarrow> 'w \<Rightarrow> 'w"
    and Close :: "'r \<Rightarrow> 'w \<Rightarrow> 'w"
    and log :: "'w \<Rightarrow> 'm list"
    and sent :: "'r \<Rightarrow> Event \<Rightarrow> 'm list"
  assumes Report_log: "log (Report r e w) = log w @ sent r e"
    and Close_log: "log (Close r w) = log w"
begin

lemma publish_log:
  "log (publish Report sid mode kind msg seq d w) =
     log w @ (if disp_closed d then []
       else concat (map (\<lambda>r. sent r \<lparr>evt_RunMode = mode, evt_Kind = kind, evt_Message = msg,
              evt_SessionID = sid, evt_Seq = seq\<rparr>) (reporters d)))"
proof -
  have "log (foldl (\<lambda>w r. Report r e w) w rs) = log w @ concat (map (\<lambda>r. sent r e) rs)" for e rs
    by (induction rs arbitrary: w) (simp_all add: Report_log)
  then show ?thesis by (simp add: publish_def Let_def)
qed

lemma close_log: "log (snd (closeDispatcher Close d w)) = log w"
proof -
  have "log (foldl (\<lambda>w r. Close r w) w rs) = log w" for rs
    by (induction rs arbitrary: w) (simp_all add: Close_log)
  then show ?thesis by (simp add: closeDispatcher_def)
qed

lemma closed_silent:
  "log (publish Report sid mode kind msg seq (fst (closeDispatcher Close d w)) w') = log w'"
  by (simp add: publish_log closeDispatcher_def)

end

interpretation legacy: event_reporter legacy_Report legacy_Close notified legacy_sent
  by unfold_locales (simp_all add: legacy_Report_def legacy_Close_def)

interpretation traced: event_reporter traceReport traceClose reportsOf "\<lambda>r e. [(r, e)]"
  by unfold_locales (simp_all add: traceReport_def traceClose_def reportsOf_def)

subsection \<open>Runs against their specification\<close>

text \<open>What a run should deliver: each published event to the reporters registered before it,
  in their order, until the first close.\<close>

fun deliver :: "'r list \<Rightarrow> 'r dispOp list \<Rightarrow> ('r \<times> Event) list" where
  "deliver rs [] = []"
| "deliver rs (OpAdd r # ops) = deliver (case r of None \<Rightarrow> rs | Some r' \<Rightarrow> rs @ [r']) ops"
| "deliver rs (OpPublish e # ops) = map (\<lambda>r. (r, e)) rs @ deliver rs ops"
| "deliver rs (OpClose # ops) = []"

lemma closesOf_simps [simp]:
  "closesOf [] = []" "closesOf (a @ b) = closesOf a @ closesOf b"
  "closesOf (ClosedBy r # t) = r # closesOf t" "closesOf (Reported r e # t) = closesOf t"
  by (simp_all add: closesOf_def)

lemma addsOf_simps [simp]:
  "addsOf [] = []" "addsOf (OpAdd None # ops) = addsOf ops"
  "addsOf (OpAdd (Some r) # ops) = r # addsOf ops"
  "addsOf (OpPublish e # ops) = addsOf ops" "addsOf (OpClose # ops) = addsOf ops"
  by (simp_all add: addsOf_def)

lemma reportsOf_Nil [simp]: "reportsOf [] = []"
  by (simp add: reportsOf_def)

lemma closesOf_report_all: "closesOf (foldl (\<lambda>w r. traceReport r e w) w rs) = closesOf w"
  by (induction rs arbitrary: w) (simp_all add: traceReport_def)

lemma closesOf_close_all: "closesOf (foldl (\<lambda>w r. traceClose r w) w rs) = closesOf w @ rs"
  by (induction rs arbitrary: w) (simp_all add: traceClose_def)

lemma reportsOf_close_all: "reportsOf (foldl (\<lambda>w r. traceClose r w) w rs) = reportsOf w"
  by (induction rs arbitrary: w) (simp_all add: traced.Close_log)

abbreviation dispFold where
  "dispFold ops s \<equiv> foldl (\<lambda>s op. dispStep traceReport traceClose op s) s ops"

lemma closed_run:
  assumes "disp_closed d" and "reporters d = []"
  shows "fst (dispFold ops (d, w)) = d \<and>
    closesOf (snd (dispFold ops (d, w))) = closesOf w @ addsOf ops \<and>
    reportsOf (snd (dispFold ops (d, w))) = reportsOf w"
  using assms
proof (induction ops arbitrary: w)
  case (Cons op ops)
  then show ?case
    by (cases op)
      (auto simp: addReporter_def publish_def closeDispatcher_def traceClose_def reportsOf_def
        split: option.splits)
qed simp

lemmas closed_run' = closed_run [of "\<lparr>reporters = [], disp_closed = True\<rparr>", simplified,
    THEN conjunct1] closed_run [of "\<lparr>reporters = [], disp_closed = True\<rparr>", simplified,
    THEN conjunct2, THEN conjunct1] closed_run [of "\<lparr>reporters = [], disp_closed = True\<rparr>",
    simplified, THEN conjunct2, THEN conjunct2]

lemma open_run:
  assumes "\<not> disp_closed d"
  shows "disp_closed (fst (dispFold ops (d, w))) \<longleftrightarrow> OpClose \<in> set ops"
    and "reporters (fst (dispFold ops (d, w))) =
      (if OpClose \<in> set ops then [] else reporters d @ addsOf ops)"
    and "closesOf (snd (dispFold ops (d, w))) =
      closesOf w @ (if OpClose \<in> set ops then reporters d @ addsOf ops else [])"
    and "reportsOf (snd (dispFold ops (d, w))) = reportsOf w @ deliver (reporters d) ops"
  using assms
proof (induction ops arbitrary: d w)
  case (Cons op ops)
  {
    case 1
    show ?case
      using 1 Cons.IH(1)
      by (cases op) (auto simp: addReporter_def closeDispatcher_def closed_run' split: option.splits)
  next
    case 2
    show ?case
      using 2 Cons.IH(2)
      by (cases op) (auto simp: addReporter_def closeDispatcher_def closed_run' split: option.splits)
  next
    case 3
    show ?case
      using 3 Cons.IH(3)
      by (cases op) (auto simp: addReporter_def publish_def closeDispatcher_def Let_def
          closesOf_report_all closesOf_close_all closed_run' split: option.splits)
  next
    case 4
    show ?case
      using 4 Cons.IH(4)
      by (cases op) (auto simp: addReporter_def traced.publish_log closeDispatcher_def
          reportsOf_close_all closed_run' split: option.splits)
  }
qed simp_all

subsection \<open>Notifications\<close>

lemma notify_query:
  "rq_query (notifyRequest r evt) = [(''stage'', fst (evtProxy (lr_runMode r) (evt_Kind evt))),
     (''name'', snd (evtProxy (lr_runMode r) (evt_Kind evt))), (''value'', [])]"
  by (auto simp: notifyRequest_def Query_def HttpGet_def NewRequest_def evtProxy_def EventError_def
      EventStopped_def EventPodmanReady_def EventSuccess_def EventExit_def Let_def)

lemma notify_sort: "sort [''stage'', ''name'', ''value''] = [''name'', ''stage'', ''value'']"
  by code_simp

lemma notify_encoded:
  "encodeQuery [(''stage'', st), (''name'', nm), (''value'', [])] =
     ''name='' @ queryEscape nm @ ''&stage='' @ queryEscape st @ ''&value=''"
proof -
  have e: "queryEscape ''name'' = ''name''" "queryEscape ''stage'' = ''stage''"
      "queryEscape ''value'' = ''value''" "queryEscape [] = []"
    by code_simp+
  show ?thesis by (simp add: encodeQuery_def notify_sort e)
qed

lemma notify_client [simp]: "rq_client (notifyRequest r evt) = lr_client r"
  by (simp add: notifyRequest_def HttpGet_def Let_def split: prod.splits)

lemma notify_fields [simp]:
  "rq_path (notifyRequest r evt) = ''/notify''" "rq_method (notifyRequest r evt) = ''GET''"
  "rq_headers (notifyRequest r evt) = []" "rq_body (notifyRequest r evt) = []"
  by (simp_all add: notifyRequest_def HttpGet_def NewRequest_def Query_def Let_def split: prod.splits)

lemma legacy_sent_unix:
  assumes "lr_client r = NewUnixClient p opts"
  shows "legacy_sent r evt = [wireRequest (notifyRequest r evt)]"
proof -
  have "buildURL (notifyRequest r evt) = ''http://unix/notify''"
    using assms by (simp add: buildURL_def NewUnixClient_def) code_simp
  moreover have "url_Parse ''http://unix/notify'' =
      Inr \<lparr>u_Scheme = ''http'', u_Opaque = [], u_Host = ''unix'', u_Path = ''/notify''\<rparr>"
    by code_simp
  ultimately show ?thesis by (simp add: legacy_sent_def)
qed

lemma newLegacyReporter_unix:
  assumes "IsAbs p"
  shows "newLegacyReporter (unixURL p) mode =
    Some \<lparr>lr_client = NewUnixClient p [WithTimeout 1000], lr_runMode = mode\<rparr>"
proof -
  have u: "unixURL p = ''unix://'' @ escapePath p" using assms by (rule unixURL_form)
  have "HasPrefix (unixURL p) ''unix://''" unfolding u by (rule HasPrefix_append)
  moreover have "unixURL p \<noteq> []" by (simp add: u)
  ultimately show ?thesis
    using ParseUnixAddr_unixURL [OF assms]
    by (simp add: newLegacyReporter_def newClient_def)
qed

lemma emit_fields:
  assumes "es_cfg s = Some cfg" and "es_dispatcher s = \<lparr>reporters = [r], disp_closed = False\<rparr>"
  shows "es_cfg (emit k m s) = Some cfg" and "es_dispatcher (emit k m s) = es_dispatcher s"
    and "es_seq (emit k m s) = es_seq s + 1"
    and "notified (es_world (emit k m s)) = notified (es_world s) @
      legacy_sent r \<lparr>evt_RunMode = cfg_RunMode cfg, evt_Kind = k, evt_Message = m,
        evt_SessionID = SessionID cfg, evt_Seq = es_seq s + 1\<rparr>"
  using assms by (simp_all add: emit_def Let_def legacy.publish_log)

lemma emit_run:
  fixes kms :: "(EventKind \<times> string) list" and st :: eventState
  assumes "es_cfg st = Some cfg" and "es_dispatcher st = \<lparr>reporters = [r], disp_closed = False\<rparr>"
  defines "st' \<equiv> foldl (\<lambda>st (k, m). emit k m st) st kms"
  shows "es_cfg st' = Some cfg \<and> es_dispatcher st' = es_dispatcher st \<and>
    es_seq st' = es_seq st + of_nat (length kms) \<and>
    notified (es_world st') = notified (es_world st) @
      concat (map (\<lambda>i. legacy_sent r \<lparr>evt_RunMode = cfg_RunMode cfg, evt_Kind = fst (kms ! i),
        evt_Message = snd (kms ! i), evt_SessionID = SessionID cfg,
        evt_Seq = es_seq st + of_nat (Suc i)\<rparr>) [0..<length kms])"
  using assms(1,2) unfolding st'_def
proof (induction kms rule: rev_induct)
  case (snoc km kms)
  obtain k m where km: "km = (k, m)" by (cases km)
  let ?s = "foldl (\<lambda>st (k, m). emit k m st) st kms"
  have step: "foldl (\<lambda>st (k, m). emit k m st) st (kms @ [km]) = emit k m ?s"
    by (simp add: km)
  have s: "es_cfg ?s = Some cfg" "es_dispatcher ?s = \<lparr>reporters = [r], disp_closed = False\<rparr>"
    using snoc by simp_all
  show ?case
    unfolding step using snoc emit_fields [OF s, of k m] km
    by (simp add: nth_append ac_simps)
      (rule arg_cong [where f = concat], rule map_cong, simp_all)
qed simp

subsection \<open>Properties\<close>

text \<open>C34. The event dispatcher implements its specification on every sequence of operations:
  each event goes to the reporters registered before it and in their order, nothing is
  delivered after a close, every reporter ever added is closed exactly once when the
  dispatcher is closed (also one added afterwards) and none before.\<close>

theorem dispatcher_refines_spec:
  "reportsOf (snd (dispRun traceReport traceClose ops)) = deliver [] ops \<and>
   closesOf (snd (dispRun traceReport traceClose ops)) =
     (if OpClose \<in> set ops then addsOf ops else []) \<and>
   reporters (fst (dispRun traceReport traceClose ops)) =
     (if OpClose \<in> set ops then [] else addsOf ops) \<and>
   (disp_closed (fst (dispRun traceReport traceClose ops)) \<longleftrightarrow> OpClose \<in> set ops)"
proof -
  show ?thesis unfolding dispRun_def newDispatcher_def by (simp add: open_run)
qed

text \<open>C35. Notifications of a VM whose report URL is a unix socket: every emitted event sends
  exactly one \<open>GET /notify\<close> to that socket, in the order of emission, with the run mode and
  the kind translated for the front end. The value parameter is always empty, also for an
  error event: the message is compared with the untranslated kind after the translation.\<close>

theorem notifications:
  assumes "IsAbs p" and "ReportURL cfg = unixURL p"
  shows "map (\<lambda>q. (hr_dial q, hr_method q, hr_url q, hr_rawQuery q))
      (notified (es_world (foldl (\<lambda>st (k, m). emit k m st) (newEventState cfg) kms))) =
    map (\<lambda>(k, m). (DialUnix p, ''GET'', ''http://unix/notify'',
      ''name='' @ queryEscape (snd (evtProxy (cfg_RunMode cfg) k)) @
      ''&stage='' @ queryEscape (fst (evtProxy (cfg_RunMode cfg) k)) @ ''&value='')) kms"
proof -
  let ?r = "\<lparr>lr_client = NewUnixClient p [WithTimeout 1000], lr_runMode = cfg_RunMode cfg\<rparr>"
  let ?st = "newEventState cfg"
  have st: "es_cfg ?st = Some cfg" "es_dispatcher ?st = \<lparr>reporters = [?r], disp_closed = False\<rparr>"
      "notified (es_world ?st) = []"
    using newLegacyReporter_unix [OF assms(1)] assms(2)
    by (simp_all add: newEventState_def addReporter_def newDispatcher_def emptyReports_def)
  have url: "cl_baseURL (NewUnixClient p [WithTimeout 1000]) @ Clean (sep # ''/notify'') =
      ''http://unix/notify''"
    by (simp add: NewUnixClient_def) code_simp
  have one: "map (\<lambda>q. (hr_dial q, hr_method q, hr_url q, hr_rawQuery q)) (legacy_sent ?r evt) =
      [(DialUnix p, ''GET'', ''http://unix/notify'',
        ''name='' @ queryEscape (snd (evtProxy (cfg_RunMode cfg) (evt_Kind evt))) @
        ''&stage='' @ queryEscape (fst (evtProxy (cfg_RunMode cfg) (evt_Kind evt))) @ ''&value='')]" for evt
    using legacy_sent_unix [of ?r p "[WithTimeout 1000]" evt] url
    by (simp add: wireRequest_def buildURL_def notify_query notify_encoded)
      (simp add: NewUnixClient_def)
  let ?g = "\<lambda>km. (DialUnix p, ''GET'', ''http://unix/notify'',
      ''name='' @ queryEscape (snd (evtProxy (cfg_RunMode cfg) (fst km))) @
      ''&stage='' @ queryEscape (fst (evtProxy (cfg_RunMode cfg) (fst km))) @ ''&value='')"
  have at: "map (\<lambda>i. ?g (kms ! i)) [0..<length kms] = map ?g kms"
    by (rule nth_equalityI) simp_all
  show ?thesis
    using emit_run [OF st(1,2), of kms] st(3) one
    by (simp add: map_concat comp_def concat_map_singleton case_prod_unfold)
      (use at in simp)
qed

theorem notifications_witness:
  "map hr_rawQuery (notified (es_world (emit EventError ''disk full''
     (newEventState (sampleConfig\<lparr>ReportURL := ''unix:///tmp/r.sock''\<rparr>))))) =
   [''name=Error&stage=start&value='']"
proof -
  let ?cfg = "sampleConfig\<lparr>ReportURL := ''unix:///tmp/r.sock''\<rparr>"
  have u: "IsAbs ''/tmp/r.sock''" "ReportURL ?cfg = unixURL ''/tmp/r.sock''"
    by code_simp+
  have q: "queryEscape (snd (evtProxy (cfg_RunMode ?cfg) EventError)) = ''Error''"
      "queryEscape (fst (evtProxy (cfg_RunMode ?cfg) EventError)) = ''start''"
    by code_simp+
  show ?thesis
    using arg_cong [OF notifications [OF u, of "[(EventError, ''disk full'')]"],
        of "map (\<lambda>(a, b, c, d). d)"] q
    by (simp add: comp_def)
qed

end
