(* ===== verification/VM_Session.thy ===== *)
theory VM_Session
  imports Management Events
begin

text \<open>
  A virtual machine session of the host, \<open>pkg/librevm/vm.go\<close> and \<open>vm_access.go\<close>: creating it (\<open>New\<close>),
  acquiring its resources (\<open>init\<close>), releasing them (\<open>Close\<close>), the endpoints, and the services of
  \<open>pkg/service/lifecycle/host_services.go\<close>. How \<open>RunDocker\<close> runs the services is in \<open>Run_Docker\<close>.

  What \<open>buildMachine\<close> leaves for the clean-up is its builder; the operating system is a field of
  its own, shared by every step.
\<close>

subsection \<open>The session\<close>

record VM =
  vm_events :: eventState
  vm_sessionDir :: string
  vm_agent :: "OOSSHAgentService option"
  vm_machine :: "MachineSpec option"
  vm_provider :: "krunVM option"
  vm_cleanup :: "builder CleanupCallback option"
  vm_builder :: builder
  vm_os :: OS

record vm_env =
  ve_host :: host_env
  ve_krun :: krun_env
  ve_pipes :: "(int \<times> int) list"
  ve_parseLevel :: "string \<Rightarrow> string res"
  ve_numCPU :: int
  ve_totalMem :: "u64 res"
  ve_agentSocket :: string
  ve_platform :: "string \<times> string"

text \<open>\<open>vm.cfg\<close> is what the events carry their session and run mode from.\<close>

definition vmCfg :: "VM \<Rightarrow> Config" where
  "vmCfg v = (case es_cfg (vm_events v) of Some c \<Rightarrow> c | None \<Rightarrow> emptyConfig)"

definition setVmCfg :: "Config \<Rightarrow> VM \<Rightarrow> VM" where
  "setVmCfg c v = v\<lparr>vm_events := (vm_events v)\<lparr>es_cfg := Some c\<rparr>\<rparr>"

definition onVmOS :: "(OS, 'a) proc \<Rightarrow> (VM, 'a) proc" where
  "onVmOS m v = (case m (vm_os v) of (r, s) \<Rightarrow> (r, v\<lparr>vm_os := s\<rparr>))"

definition vmEmit :: "EventKind \<Rightarrow> string \<Rightarrow> VM \<Rightarrow> VM" where
  "vmEmit kind msg v = v\<lparr>vm_events := emit kind msg (vm_events v)\<rparr>"

definition vm_New :: "vm_env \<Rightarrow> Config option \<Rightarrow> (OS, VM) proc" where
  "vm_New env given s =
     (case given of
        None \<Rightarrow> (Inl (Errorf ''config must not be nil''), s)
      | Some cfg0 \<Rightarrow>
          andThen (wrapping ''setup loggers'' (setupLoggers (ve_parseLevel env) (LogLevel cfg0) (LogTo cfg0) (SessionID cfg0))) (\<lambda>_.
          andThen (wrapping ''resolve defaults'' (lift (NormalizeConfig (ve_numCPU env) (ve_totalMem env) cfg0))) (\<lambda>cfg s.
            (Inr \<lparr>vm_events = newEventState cfg, vm_sessionDir = getSessionDir (os_home s) (SessionID cfg),
                  vm_agent = None, vm_machine = None, vm_provider = None, vm_cleanup = None,
                  vm_builder = newMachineBuilder ContainerMode s, vm_os = s\<rparr>, s))) s)"

subsection \<open>Acquiring resources (init)\<close>

text \<open>The clean-up returned by \<open>buildMachine\<close>, on the current file system.\<close>

definition runCleanup :: "builder CleanupCallback \<Rightarrow> VM \<Rightarrow> builder CleanupCallback \<times> VM" where
  "runCleanup c v =
     (case DoClean c ((vm_builder v)\<lparr>b_os := vm_os v\<rparr>) of
        (c', b) \<Rightarrow> (c', v\<lparr>vm_builder := b, vm_os := b_os b\<rparr>))"

definition newProvider :: "vm_env \<Rightarrow> MachineSpec \<Rightarrow> (OS, krunVM) proc" where
  "newProvider env mc s =
     (if ve_platform env \<noteq> (''darwin'', ''arm64'') \<and> ve_platform env \<noteq> (''linux'', ''arm64'') \<and>
         ve_platform env \<noteq> (''linux'', ''amd64'')
      then (Inl (Errorf ''unsupported platform''), s)
      else case krunCreate (ve_krun env) (newKrun mc s (ve_pipes env)) of
             (Inl (Panicked m), k) \<Rightarrow> (Inl (Panicked m), kv_os k)
           | (Inl e, k) \<Rightarrow> (Inl (Wrap ''create libkrun VM'' e), kv_os k)
           | (Inr _, k) \<Rightarrow> (Inr k, kv_os k))"

definition configureOOSSHAgentForward :: "vm_env \<Rightarrow> (VM, unit) proc" where
  "configureOOSSHAgentForward env v =
     (let localSocket = Join [vm_sessionDir v, ''socks'', ''oo-ssh-agent.sock''];
          service = Some (NewOOSSHAgentService (ve_agentSocket env) localSocket)
      in if \<not> agentEnabled service then (Inr (), v)
         else case mergeAutoForwardUnixRule (ForwardUnix (vmCfg v)) OOSSHAgentGuestSocket (LocalSocketPath service) of
                Inl e \<Rightarrow> (Inl (Wrap ''merge ssh agent forward unix rules'' e), v)
              | Inr (merged, shouldStart, _) \<Rightarrow>
                  (let v' = setVmCfg ((vmCfg v)\<lparr>ForwardUnix := merged\<rparr>) v
                   in if \<not> shouldStart then (Inr (), v') else (Inr (), v'\<lparr>vm_agent := service\<rparr>)))"

text \<open>An error undoes what \<open>buildMachine\<close> built. A libkrun call that must not fail panics instead: the
  panic passes \<open>init\<close> by, whose clean-up is not registered yet.\<close>

definition vmInit :: "vm_env \<Rightarrow> (VM, unit) proc" where
  "vmInit env =
     andThen (configureOOSSHAgentForward env) (\<lambda>_ v.
       case buildMachine (ve_host env) (vmCfg v) (vm_sessionDir v) (vm_os v) of
         (Inl e, b) \<Rightarrow> (Inl (Wrap ''build machine'' e), v\<lparr>vm_os := b_os b\<rparr>)
       | (Inr cleanup, b) \<Rightarrow>
           (let v1 = v\<lparr>vm_builder := b, vm_os := b_os b\<rparr>; mc = b_spec b
            in case onVmOS (createUserSymlinks (vmCfg v1) (vm_sessionDir v1)) v1 of
                 (Inl e, v2) \<Rightarrow> (Inl (Wrap ''create symlinks'' e), snd (runCleanup cleanup v2))
               | (Inr _, v2) \<Rightarrow>
                   (case onVmOS (newProvider env mc) v2 of
                      (Inl (Panicked m), v3) \<Rightarrow> (Inl (Panicked m), v3)
                    | (Inl e, v3) \<Rightarrow> (Inl (Wrap ''create vm provider'' e), snd (runCleanup cleanup v3))
                    | (Inr vmp, v3) \<Rightarrow>
                        (Inr (), v3\<lparr>vm_machine := Some mc, vm_provider := Some vmp,
                                     vm_cleanup := Some cleanup\<rparr>))))"

definition vmClose :: "VM \<Rightarrow> VM" where
  "vmClose v0 =
     (let v = (case vm_cleanup v0 of
                 None \<Rightarrow> v0
               | Some c \<Rightarrow> (case runCleanup c v0 of (c', v1) \<Rightarrow> v1\<lparr>vm_cleanup := Some c'\<rparr>));
          st = vm_events v
      in case closeDispatcher legacy_Close (es_dispatcher st) (es_world st) of
           (d, w) \<Rightarrow> v\<lparr>vm_events := st\<lparr>es_dispatcher := d, es_world := w\<rparr>\<rparr>)"

subsection \<open>Generating a configuration file\<close>

definition GenerateVMConfig :: "vm_env \<Rightarrow> Config \<Rightarrow> string \<Rightarrow> OS \<Rightarrow> unit res \<times> OS \<times> eventState" where
  "GenerateVMConfig env cfg path s =
     (let st = newEventState cfg
      in case wrapping ''setup loggers'' (setupLoggers (ve_parseLevel env) (LogLevel cfg) (LogTo cfg) (SessionID cfg)) s of
           (Inl e, s1) \<Rightarrow> (Inl e, s1, st\<lparr>es_cfg := None\<rparr>)
         | (Inr _, s1) \<Rightarrow>
             (case WriteCfg cfg path s1 of
                (Inl e, s2) \<Rightarrow> (Inl e, s2, emit EventExit [] (emit EventError (errString e) st))
              | (Inr _, s2) \<Rightarrow> (Inr (), s2, emit EventExit [] (emit EventSuccess [] st))))"

subsection \<open>Endpoints (vm\_access.go)\<close>

text \<open>Both block until the context ends or the latch is closed; when both hold, either may be
  taken: \<open>ctxFirst\<close> chooses. \<open>None\<close>: still blocked.\<close>

definition SSHEndpoint :: "bool \<Rightarrow> bool \<Rightarrow> Readiness \<Rightarrow> MachineSpec \<Rightarrow> string res option" where
  "SSHEndpoint ctxDone ctxFirst r m =
     (if ctxDone \<and> (ctxFirst \<or> \<not> chan_closed (SSHReady r)) then Some (Inl ErrCanceled)
      else if chan_closed (SSHReady r) then Some (Inr (GuestSSHServerListenAddr (SSHInfo m)))
      else None)"

definition PodmanEndpoint :: "bool \<Rightarrow> bool \<Rightarrow> Readiness \<Rightarrow> MachineSpec \<Rightarrow> string res option" where
  "PodmanEndpoint ctxDone ctxFirst r m =
     (if ctxDone \<and> (ctxFirst \<or> \<not> chan_closed (PodmanReady r)) then Some (Inl ErrCanceled)
      else if chan_closed (PodmanReady r) then Some (Inr (HostPodmanProxyAddr (PodmanInfo m)))
      else None)"

subsection \<open>The services (host\_services.go)\<close>

datatype podmanTarget = ViaGvproxy string u16 | ViaForwarder LocalForwarder

text \<open>Where the proxy is told to connect to, the connections it handed on while it served, each with the
  target it is dialled to, and the error it ended with.\<close>

definition StartPodmanProxy ::
    "MachineSpec \<Rightarrow> (accepted \<times> bool) list \<Rightarrow> (OS, podmanTarget \<times> (nat \<times> podmanTarget) list \<times> goerr option) proc" where
  "StartPodmanProxy vmc as =
     (if VirtualNetworkMode vmc = GVISOR then
        andThen (wrapping ''invalid guest podman address'' (lift (SplitHostPort (GuestPodmanAPIListenAddr (PodmanInfo vmc))))) (\<lambda>(_, portStr).
        andThen (wrapping ''invalid port in guest podman address'' (lift (ParseUint 16 portStr))) (\<lambda>port.
        andThen (TunnelHostUnixToGuest (GVPCtlAddr vmc) (HostPodmanProxyAddr (PodmanInfo vmc)) GuestIP (of_nat port) as)
          (\<lambda>(conns, ended).
          succeed (ViaGvproxy GuestIP (of_nat port), map (\<lambda>(c, _, ip, p). (c, ViaGvproxy ip p)) conns, ended))))
      else if VirtualNetworkMode vmc = TSI then
        (let f = \<lparr>lf_UnixSockAddr = HostPodmanProxyAddr (PodmanInfo vmc),
                  lf_Target = GuestPodmanAPIListenAddr (PodmanInfo vmc), lf_Timeout = 1000\<rparr>
         in andThen (LocalForwarder_Run f (map fst as)) 
              (\<lambda>(conns, _). succeed (ViaForwarder f, map (\<lambda>(c, g). (c, ViaForwarder g)) conns, None)))
      else failWith (Errorf ''unsupported virtual network mode''))"

text \<open>Every connection is dialled to the proxy's target.\<close>

lemma tunnel_targets:
  assumes "TunnelHostUnixToGuest ctl addr ip port as s = (Inr (conns, e), s')"
  shows "list_all (\<lambda>(c, path, i, p). i = ip \<and> p = port) conns"
  using assms by (cases "tunnelAcceptLoop as") (auto simp: TunnelHostUnixToGuest_def andThen_Inr_iff succeed_def list_all_iff split: prod.splits)

lemma forwarder_targets:
  assumes "LocalForwarder_Run f as s = (Inr (conns, r), s')"
  shows "list_all (\<lambda>(c, g). g = f) conns"
  using assms by (cases "acceptLoop as") (auto simp: LocalForwarder_Run_def andThen_Inr_iff succeed_def list_all_iff split: prod.splits)

lemma proxied_connections:
  assumes "StartPodmanProxy vmc as s = (Inr (target, conns, ended), s')"
  shows "list_all (\<lambda>(c, t). t = target) conns"
  using assms
  by (auto simp: StartPodmanProxy_def andThen_Inr_iff succeed_def failWith_def Let_def list_all_iff
      dest!: tunnel_targets forwarder_targets split: if_splits)

definition StartNetworkStack ::
    "gv_env \<Rightarrow> (gvCall \<Rightarrow> unit res) \<Rightarrow> unit res \<Rightarrow> MachineSpec \<Rightarrow> (OS, MachineSpec \<times> gvCall list \<times> unit res) proc" where
  "StartNetworkStack env ret waited vmc =
     (if VirtualNetworkMode vmc = TSI then succeed (vmc, [], Inr ()) else gvproxy_Run env ret waited vmc)"

subsection \<open>What creating the microVM leaves alone\<close>

text \<open>Creating the microVM only reads files and appends to the log: the working directory, the faults
  and the locks stay.\<close>

definition keepsK :: "(krunVM, 'a) proc \<Rightarrow> bool" where
  "keepsK m \<longleftrightarrow> (\<forall>v. osEnv (kv_os (snd (m v))) = osEnv (kv_os v))"

lemma keepsK_at: "keepsK m \<Longrightarrow> osEnv (kv_os (snd (m v))) = osEnv (kv_os v)"
  by (simp add: keepsK_def)

lemma keepsK_pointwise: "(\<And>v. \<exists>m. keepsK m \<and> f v = m v) \<Longrightarrow> keepsK f"
  unfolding keepsK_def by metis

lemma keepsK_basic [keeps_intros]:
  "keepsK (succeed a)" "keepsK (failWith e)" "keepsK (lift r)" "keepsK krunPipe"
  "(\<And>v. kv_os (f v) = kv_os v) \<Longrightarrow> keepsK (modifyState f)"
  by (simp_all add: keepsK_def succeed_def failWith_def lift_def krunPipe_def modifyState_def split: list.split)

lemma keepsK_andThen [keeps_intros]:
  assumes "keepsK m" and "\<And>a. keepsK (f a)"
  shows "keepsK (andThen m f)"
  using assms by (auto simp: keepsK_def andThen_def split: prod.split sum.split) (metis snd_conv)+

lemma keepsK_onKrunOS [keeps_intros]: "keepsOS m \<Longrightarrow> keepsK (onKrunOS m)"
  by (simp add: keepsK_def onKrunOS_def split: prod.split) (metis keepsOS_at snd_conv)

lemma keepsK_calls [keeps_intros]: "keepsK (krun env c)" "keepsK (mustKrun env c)" "keepsK (tryKrun env c)"
proof -
  show k: "keepsK (krun env c)" by (simp add: keepsK_def krun_def)
  show "keepsK (mustKrun env c)" "keepsK (tryKrun env c)"
    unfolding mustKrun_def tryKrun_def must_def retErr_def by (intro keepsK_andThen k; simp add: keepsK_basic)+
qed

lemma keepsK_forEach [keeps_intros]: "(\<And>x. keepsK (f x)) \<Longrightarrow> keepsK (forEach f xs)"
  by (induction xs) (auto intro: keeps_intros)

lemma keepsK_I: "(\<And>v. osEnv (kv_os (snd (m v))) = osEnv (kv_os v)) \<Longrightarrow> keepsK m"
  by (simp add: keepsK_def)

lemma keepsK_if [keeps_intros]: "keepsK m \<Longrightarrow> keepsK m' \<Longrightarrow> keepsK (if b then m else m')"
  by simp

lemma keepsK_prod [keeps_intros]: "(\<And>a b. keepsK (f a b)) \<Longrightarrow> keepsK (case p of (a, b) \<Rightarrow> f a b)"
  by (simp split: prod.split)

lemma keepsK_small [keeps_intros]:
  "keepsK (krunInit env)" "keepsK (setResources env)" "keepsK (setRootFS env)" "keepsK (setGuestAgent env)"
  "keepsK (setupGPU env)" "keepsK (setupNestedVirt env)" "keepsK (setupNetwork env)" "keepsK (setupVSock env)"
proof -
  show "keepsK (krunInit env)" unfolding krunInit_def by (intro keeps_intros; simp)
  show "keepsK (setResources env)"
    by (rule keepsK_I, unfold setResources_def, rule keepsK_at, intro keeps_intros)
  show "keepsK (setRootFS env)"
    by (rule keepsK_I, unfold setRootFS_def, rule keepsK_at, intro keeps_intros)
  show "keepsK (setGuestAgent env)"
    by (rule keepsK_I, unfold setGuestAgent_def Let_def, rule keepsK_at, intro keeps_intros)
  show "keepsK (setupGPU env)"
    by (rule keepsK_I, cases "ke_linux env")
      (simp add: setupGPU_def, simp add: setupGPU_def, rule keepsK_at, intro keeps_intros)
  show "keepsK (setupNestedVirt env)"
    by (rule keepsK_I, unfold setupNestedVirt_def, rule keepsK_at, intro keeps_intros)
  have "keepsK (setupGVisor env)"
    by (rule keepsK_I, unfold setupGVisor_def, rule keepsK_at, intro keeps_intros)
  then show "keepsK (setupNetwork env)"
    by (intro keepsK_I) (simp add: setupNetwork_def keepsK_at)
  show "keepsK (setupVSock env)"
    by (rule keepsK_I, unfold setupVSock_def Let_def, rule keepsK_at, intro keeps_intros)
qed

lemma keepsOS_krun [keeps_intros]:
  "keepsOS (os_OpenAppend p)" "keepsOS (EvalSymlinks p)" "keepsOS (\<lambda>s. case uuid_NewString s of (u, s') \<Rightarrow> (Inr u, s'))"
  by (rule keepsOS_I, simp add: os_OpenAppend_def EvalSymlinks_def uuid_NewString_def openWrite_def osEnv_def Let_def
      os_simps split: option.split list.split node.split)+

lemma keepsK_consoles [keeps_intros]:
  "keepsK (addMainConsole env con)" "keepsK (addStdioRedirect env con)" "keepsK (addLogAndSignal env con)"
proof -
  show "keepsK (addMainConsole env con)"
    by (rule keepsK_I, unfold addMainConsole_def, rule keepsK_at, intro keeps_intros; simp)
  show "keepsK (addStdioRedirect env con)"
    by (rule keepsK_I, unfold addStdioRedirect_def, rule keepsK_at, intro keeps_intros; simp)
  show "keepsK (addLogAndSignal env con)"
    by (rule keepsK_I, unfold addLogAndSignal_def, rule keepsK_at, intro keeps_intros; simp)
qed

lemma keepsK_storage [keeps_intros]: "keepsK (addDisk env p)" "keepsK (addVirtioFS env t p)" "keepsK (setupStorage env)"
proof -
  show d: "keepsK (addDisk env p)" for p
    by (rule keepsK_I, unfold addDisk_def, rule keepsK_at)
      (auto intro!: keeps_intros split: node.split)
  show f: "keepsK (addVirtioFS env t p)" for t p
    by (rule keepsK_I, unfold addVirtioFS_def Let_def, rule keepsK_at, intro keeps_intros)
  show "keepsK (setupStorage env)"
    by (rule keepsK_I, unfold setupStorage_def, rule keepsK_at, intro keeps_intros d f)
qed

lemma keepsK_create: "keepsK (krunCreate env)"
proof -
  have "keepsK (setupConsole env)"
    by (rule keepsK_I, unfold setupConsole_def, rule keepsK_at, intro keeps_intros)
  then show ?thesis unfolding krunCreate_def by (intro keeps_intros)
qed

lemma keepsOS_newProvider [keeps_intros]: "keepsOS (newProvider env mc)"
proof (rule keepsOS_I)
  fix s
  have "osEnv (kv_os (snd (krunCreate (ve_krun env) (newKrun mc s (ve_pipes env))))) = osEnv s"
    using keepsK_at [OF keepsK_create] by (simp add: newKrun_def)
  then show "osEnv (snd (newProvider env mc s)) = osEnv s"
    by (auto simp: newProvider_def split: prod.split sum.split goerr.split)
qed

lemma keepsOS_linkIf [keeps_intros]: "keepsOS (linkIf msg target p)"
proof -
  have "keepsOS (createSymlink target p)" unfolding createSymlink_def by (intro keeps_intros)
  then show ?thesis by (simp add: linkIf_def keepsOS_basic)
qed

lemma keepsOS_links [keeps_intros]: "keepsOS (createUserSymlinks cfg dir)"
  unfolding createUserSymlinks_def Let_def by (intro keeps_intros)

subsection \<open>Failure and release\<close>

lemma configureAgent_frame:
  assumes "configureOOSSHAgentForward env v = (r, v')"
  shows "vm_os v' = vm_os v" and "vm_sessionDir v' = vm_sessionDir v"
    and "cfg_RunMode (vmCfg v') = cfg_RunMode (vmCfg v)" and "vm_cleanup v' = vm_cleanup v"
  using assms
  by (auto simp: configureOOSSHAgentForward_def Let_def setVmCfg_def vmCfg_def split: if_splits sum.splits prod.splits)

lemma runCleanup_effect:
  assumes "imagePath ws" and "ws \<noteq> ''/''" and "\<not> os_fault (vm_os v) ''remove'' ws"
    and "b_fileLock (vm_builder v) = Some f" and "q = ws \<or> under ws q"
  shows "nodeAt (vm_os (snd (runCleanup (machineCleanup ws) v))) q = None \<and>
    f \<notin> set (os_locks (vm_os (snd (runCleanup (machineCleanup ws) v))))"
  using cleanup_effect [of ws "(vm_builder v)\<lparr>b_os := vm_os v\<rparr>" f q] assms
  by (cases "DoClean (machineCleanup ws) ((vm_builder v)\<lparr>b_os := vm_os v\<rparr>)") (simp add: runCleanup_def)

text \<open>A build that succeeds holds the lock and keeps the faults.\<close>

lemma buildMachine_locked:
  assumes "env_keeps env" and "imagePath ws" and "buildMachine env cfg ws s = (Inr cb, b)"
  shows "b_fileLock b = Some (lockFile ws)" and "os_fault (b_os b) = os_fault s" and "cb = machineCleanup ws"
proof -
  obtain b1 where u: "setupWorkspace env ws (newMachineBuilder ContainerMode s) = (Inr (), b1)"
    and st: "buildSteps env cfg b1 = (Inr (), b)" and cb: "cb = machineCleanup ws"
    using assms(3) by (rule buildMachine_ok)
  have b0: "b_os (newMachineBuilder ContainerMode s) = s" by (simp add: newMachineBuilder_def)
  have "Abs (os_cwd s) (Clean ws) = ws" using assms(2) by simp
  moreover have "bEnv b = bEnv b1"
    using keepsB_buildSteps [OF assms(1), of cfg] st by (simp add: keepsB_def)
  ultimately show "b_fileLock b = Some (lockFile ws)" and "os_fault (b_os b) = os_fault s" and "cb = machineCleanup ws"
    using setupWorkspace_ok [OF u, unfolded b0] cb by (auto simp: bEnv_def osEnv_def)
qed

text \<open>C28. A session whose initialisation fails after its workspace was locked releases everything: whichever
  step fails (building the machine, the convenience links, the microVM), nothing exists at or below
  the workspace directory afterwards and its lock is free, unless a libkrun call panicked.\<close>

theorem failed_init_releases:
  assumes "env_keeps (ve_host env)" and "imagePath (vm_sessionDir v)" and "vm_sessionDir v \<noteq> ''/''"
    and "\<not> os_fault (vm_os v) ''remove'' (vm_sessionDir v)" and "cfg_RunMode (vmCfg v) = ModeContainer"
    and "fst (setupWorkspace (ve_host env) (vm_sessionDir v) (newMachineBuilder ContainerMode (vm_os v))) = Inr ()"
    and "fst (configureOOSSHAgentForward env v) = Inr ()"
    and "vmInit env v = (Inl e, v')" and "\<And>m. e \<noteq> Panicked m"
    and "q = vm_sessionDir v \<or> under (vm_sessionDir v) q"
  shows "nodeAt (vm_os v') q = None \<and> lockFile (vm_sessionDir v) \<notin> set (os_locks (vm_os v'))"
proof -
  let ?ws = "vm_sessionDir v"
  obtain v0 where c: "configureOOSSHAgentForward env v = (Inr (), v0)" using assms(7) by (metis prod.collapse)
  note frame = configureAgent_frame [OF c]
  obtain b1 where u: "setupWorkspace (ve_host env) ?ws (newMachineBuilder ContainerMode (vm_os v)) = (Inr (), b1)"
    using assms(6) by (metis prod.collapse)
  obtain r b where bm: "buildMachine (ve_host env) (vmCfg v0) ?ws (vm_os v) = (r, b)" by fastforce
  show ?thesis
  proof (cases r)
    case (Inl e')
    then have "v' = v0\<lparr>vm_os := b_os b\<rparr>"
      using assms(8) c bm by (simp add: vmInit_def andThen_def frame)
    then show ?thesis
      using failed_build_effect [OF assms(1-4) u bm [unfolded Inl] _ assms(10)] assms(5) frame(3) by simp
  next
    case (Inr cb)
    note locked = buildMachine_locked [OF assms(1,2) bm [unfolded Inr]]
    let ?v1 = "v0\<lparr>vm_builder := b, vm_os := b_os b\<rparr>"
    obtain r2 v2 where l: "onVmOS (createUserSymlinks (vmCfg ?v1) ?ws) ?v1 = (r2, v2)" by fastforce
    have v2: "vm_builder v2 = b" "osEnv (vm_os v2) = osEnv (b_os b)"
      using l keepsOS_at [OF keepsOS_links] by (auto simp: onVmOS_def split: prod.splits) (metis snd_conv)
    obtain r3 v3 where n: "onVmOS (newProvider env (b_spec b)) v2 = (r3, v3)" by fastforce
    have v3: "vm_builder v3 = b" "osEnv (vm_os v3) = osEnv (b_os b)"
      using n v2 keepsOS_at [OF keepsOS_newProvider] by (auto simp: onVmOS_def split: prod.splits) (metis snd_conv)
    have eff: "nodeAt (vm_os (snd (runCleanup cb x))) q = None \<and>
        lockFile ?ws \<notin> set (os_locks (vm_os (snd (runCleanup cb x))))"
      if "vm_builder x = b" "osEnv (vm_os x) = osEnv (b_os b)" for x
      unfolding locked(3) using that locked(1,2) assms(2-4,10)
      by (intro runCleanup_effect) (auto simp: osEnv_def)
    have run: "vmInit env v = (case r2 of Inl e \<Rightarrow> (Inl (Wrap ''create symlinks'' e), snd (runCleanup cb v2))
        | Inr _ \<Rightarrow> (case r3 of
            Inl (Panicked m) \<Rightarrow> (Inl (Panicked m), v3)
          | Inl e \<Rightarrow> (Inl (Wrap ''create vm provider'' e), snd (runCleanup cb v3))
          | Inr vmp \<Rightarrow> (Inr (), v3\<lparr>vm_machine := Some (b_spec b), vm_provider := Some vmp, vm_cleanup := Some cb\<rparr>)))"
      using c bm Inr l n by (simp add: vmInit_def andThen_def frame Let_def split: sum.split)
    then have "v' = snd (runCleanup cb v2) \<or> v' = snd (runCleanup cb v3)"
      using assms(8,9) by (auto split: sum.splits goerr.splits)
    then show ?thesis using eff [OF v2] eff [OF v3] by auto
  qed
qed

text \<open>The session of the samples: a machine that builds, and a provider for an unknown platform.\<close>

definition sampleVmEnv :: vm_env where
  "sampleVmEnv = \<lparr>ve_host = sampleBuildEnv, ve_krun = sampleKrunEnv, ve_pipes = [(7, 8), (9, 10), (11, 12), (13, 14)],
     ve_parseLevel = (\<lambda>l. Inr l), ve_numCPU = 8, ve_totalMem = Inr (16 * 2 ^ 30), ve_agentSocket = [],
     ve_platform = (''linux'', ''arm64'')\<rparr>"

definition sampleVM :: VM where
  "sampleVM = \<lparr>vm_events = newEventState sampleBuildConfig, vm_sessionDir = ''/tmp/s'', vm_agent = None,
     vm_machine = None, vm_provider = None, vm_cleanup = None,
     vm_builder = newMachineBuilder ContainerMode sampleBuildOS, vm_os = sampleBuildOS\<rparr>"

theorem failed_init_releases_witness:
  "\<exists>e v'. vmInit (sampleVmEnv\<lparr>ve_platform := (''plan9'', ''amd64'')\<rparr>) sampleVM = (Inl e, v') \<and>
     nodeAt (vm_os v') ''/tmp/s/socks'' = None \<and> ''/tmp/s.lock'' \<notin> set (os_locks (vm_os v'))"
proof -
  let ?env = "sampleVmEnv\<lparr>ve_platform := (''plan9'', ''amd64'')\<rparr>" and ?e = "Wrap ''create vm provider'' (Errorf ''unsupported platform'')"
  have sv: "vm_sessionDir sampleVM = ''/tmp/s''" "vm_os sampleVM = sampleBuildOS"
    "es_cfg (vm_events sampleVM) = Some sampleBuildConfig"
    by (simp_all add: sampleVM_def newEventState_def split: prod.split)
  have ve: "ve_host ?env = sampleBuildEnv" "ve_platform ?env = (''plan9'', ''amd64'')"
    by (simp_all add: sampleVmEnv_def)
  have cfg: "vmCfg sampleVM = sampleBuildConfig" by (simp add: vmCfg_def sv)
  have c: "configureOOSSHAgentForward ?env sampleVM = (Inr (), sampleVM)"
    by (simp add: configureOOSSHAgentForward_def sampleVmEnv_def agentEnabled_def NewOOSSHAgentService_def)
  have keeps: "env_keeps sampleBuildEnv"
    by (simp add: env_keeps_def sampleBuildEnv_def sampleEnv_def sampleLib_def keepsOS_def osEnv_def setNode_def)
  have "fst (setupWorkspace sampleBuildEnv ''/tmp/s'' (newMachineBuilder ContainerMode sampleBuildOS)) = Inr ()"
    and pre: "imagePath ''/tmp/s''" "\<not> os_fault sampleBuildOS ''remove'' ''/tmp/s''"
      "cfg_RunMode sampleBuildConfig = ModeContainer" "under ''/tmp/s'' ''/tmp/s/socks''"
      "lockFile ''/tmp/s'' = ''/tmp/s.lock''"
    by code_simp+
  then have u: "fst (setupWorkspace (ve_host ?env) (vm_sessionDir sampleVM)
      (newMachineBuilder ContainerMode (vm_os sampleVM))) = Inr ()"
    by (simp add: sv ve)
  obtain cb b where b: "buildMachine sampleBuildEnv sampleBuildConfig ''/tmp/s'' sampleBuildOS = (Inr cb, b)"
    using sample_build_ok by (auto simp: ok_iff) (metis prod.collapse)
  have links: "createUserSymlinks sampleBuildConfig d x = (Inr (), x)" for d x
    by (simp add: createUserSymlinks_def linkIf_def sampleBuildConfig_def sampleConfig_def DefaultConfig_def
        WithMode_def emptyConfig_def Let_def ModeContainer_def andThen_def succeed_def)
  obtain v' where r: "vmInit ?env sampleVM = (Inl ?e, v')"
    using c b
    by (simp add: vmInit_def andThen_def vmCfg_def sv ve Let_def onVmOS_def links newProvider_def split: if_splits)
  have "nodeAt (vm_os v') ''/tmp/s/socks'' = None \<and>
      lockFile (vm_sessionDir sampleVM) \<notin> set (os_locks (vm_os v'))"
    using failed_init_releases [of ?env sampleVM _ _ "''/tmp/s/socks''", OF _ _ _ _ _ u _ r] keeps pre c
    by (simp add: sv ve cfg)
  with r pre(5) show ?thesis by (simp add: sv)
qed

lemma DoClean_twice: "DoClean c s = (c', t) \<Longrightarrow> DoClean c' t' = (c', t')"
  by (auto simp: DoClean_def clean_def)

lemma closeDispatcher_twice:
  "closeDispatcher f d w = (d', w') \<Longrightarrow> disp_closed d' \<and> closeDispatcher f d' w'' = (d', w'')"
  by (auto simp: closeDispatcher_def split: if_splits)

text \<open>Closing a session releases what its initialisation acquired, however the session ran in between:
  nothing remains at or below the workspace, the workspace lock is free, the reporters are closed;
  and closing it again does nothing.\<close>

lemma close_releases_once:
  assumes "env_keeps env" and "imagePath ws" and "ws \<noteq> ''/''" and "buildMachine env cfg ws s = (Inr cb, b)"
    and "vm_cleanup v = Some cb" and "vm_builder v = b" and "\<not> os_fault (vm_os v) ''remove'' ws"
    and "q = ws \<or> under ws q"
  shows "nodeAt (vm_os (vmClose v)) q = None \<and> lockFile ws \<notin> set (os_locks (vm_os (vmClose v))) \<and>
    disp_closed (es_dispatcher (vm_events (vmClose v))) \<and> vmClose (vmClose v) = vmClose v"
proof -
  note locked = buildMachine_locked [OF assms(1,2,4)]
  obtain c' v1 where c: "runCleanup cb v = (c', v1)" by fastforce
  then obtain b' where d: "DoClean cb ((vm_builder v)\<lparr>b_os := vm_os v\<rparr>) = (c', b')"
    and v1: "v1 = v\<lparr>vm_builder := b', vm_os := b_os b'\<rparr>"
    by (auto simp: runCleanup_def split: prod.splits)
  obtain d' w' where e: "closeDispatcher legacy_Close (es_dispatcher (vm_events v)) (es_world (vm_events v)) = (d', w')"
    by fastforce
  have close: "vmClose v = v\<lparr>vm_builder := b', vm_os := b_os b', vm_cleanup := Some c',
      vm_events := (vm_events v)\<lparr>es_dispatcher := d', es_world := w'\<rparr>\<rparr>"
    using assms(5) c e by (simp add: vmClose_def v1)
  moreover have "vmClose (vmClose v) = vmClose v"
    unfolding close using closeDispatcher_twice [OF e] DoClean_twice [OF d]
    by (simp add: vmClose_def runCleanup_def Let_def)
  moreover have "nodeAt (vm_os v1) q = None \<and> lockFile ws \<notin> set (os_locks (vm_os v1))"
    using runCleanup_effect [OF assms(2,3,7), of "lockFile ws" q] locked(1) assms(6,8) c
    by (simp add: locked(3))
  ultimately show ?thesis
    using closeDispatcher_twice [OF e] by (simp add: v1)
qed

lemma init_acquires:
  assumes "vmInit env v = (Inr (), v')"
  shows "\<exists>cfg cb b. buildMachine (ve_host env) cfg (vm_sessionDir v) (vm_os v) = (Inr cb, b) \<and>
    vm_cleanup v' = Some cb \<and> vm_builder v' = b"
proof -
  obtain v0 where c: "configureOOSSHAgentForward env v = (Inr (), v0)"
    using assms by (auto simp: vmInit_def andThen_Inr_iff)
  from assms have "(case buildMachine (ve_host env) (vmCfg v0) (vm_sessionDir v0) (vm_os v0) of
         (Inl e, b) \<Rightarrow> (Inl (Wrap ''build machine'' e), v0\<lparr>vm_os := b_os b\<rparr>)
       | (Inr cleanup, b) \<Rightarrow>
           (let v1 = v0\<lparr>vm_builder := b, vm_os := b_os b\<rparr>; mc = b_spec b
            in case onVmOS (createUserSymlinks (vmCfg v1) (vm_sessionDir v1)) v1 of
                 (Inl e, v2) \<Rightarrow> (Inl (Wrap ''create symlinks'' e), snd (runCleanup cleanup v2))
               | (Inr _, v2) \<Rightarrow>
                   (case onVmOS (newProvider env mc) v2 of
                      (Inl (Panicked m), v3) \<Rightarrow> (Inl (Panicked m), v3)
                    | (Inl e, v3) \<Rightarrow> (Inl (Wrap ''create vm provider'' e), snd (runCleanup cleanup v3))
                    | (Inr vmp, v3) \<Rightarrow>
                        (Inr (), v3\<lparr>vm_machine := Some mc, vm_provider := Some vmp,
                                     vm_cleanup := Some cleanup\<rparr>)))) = (Inr (), v')"
    by (simp add: vmInit_def andThen_def c)
  then obtain cb b where "buildMachine (ve_host env) (vmCfg v0) (vm_sessionDir v0) (vm_os v0) = (Inr cb, b)"
    and "vm_cleanup v' = Some cb" and "vm_builder v' = b"
    by (auto simp: onVmOS_def Let_def split: prod.splits sum.splits goerr.splits)
  then show ?thesis using configureAgent_frame [OF c] by (metis (no_types))
qed

lemma sample_env_keeps: "env_keeps sampleBuildEnv"
  by (simp add: env_keeps_def sampleBuildEnv_def sampleEnv_def sampleLib_def keepsOS_def osEnv_def setNode_def)

end
