(* ===== verification/Run_Docker.thy ===== *)
theory Run_Docker
  imports VM_Session
begin

text \<open>
  \<open>RunDocker\<close> (\<open>pkg/librevm/vm.go\<close>): the goroutines of a running session as a step relation. The
  four services run in an error group: the first error cancels the group's context. The main
  goroutine boots the virtual machine when the host network is ready, or gives up when the context
  ends; the monitor announces what becomes ready; two watchers stop the machine when the parent
  process is gone or a signal arrives.

  \<open>krun_start_enter\<close> comes back only with an error, before the virtual machine runs; when a running
  machine ends, libkrun ends the process with \<open>exit\<close> (\<open>include/libkrun.h\<close> and the comment in
  \<open>Start\<close> of \<open>pkg/libkrun/vm.go\<close>). So \<open>Booting\<close> is followed by \<open>Cancelling\<close> (the call of
  \<open>vm.Cancel\<close> that comes next) after an error and by \<open>Exited\<close> otherwise.

  A step is the host's own (a goroutine goes on) or the world's (a request, a signal, a failure,
  the end of the virtual machine). \<open>rd_emitted\<close> records the events in the order they were emitted and
  \<open>rd_boots\<close> counts the calls of \<open>StartVirtualMachine\<close>; nothing reads them.
\<close>

subsection \<open>States\<close>

datatype service = SvcIgnition | SvcNetwork | SvcManagement | SvcPodman

datatype svcState = WaitingNet | Serving | Ended "goerr option"

datatype mainState =
    Selecting
  | Booting
  | Cancelling "unit res"
  | Draining "unit res"
  | Aborting
  | Returned "unit res"
  | Killed
  | Exited

record monitor =
  mo_running :: bool
  mo_podman :: bool
  mo_ssh :: bool
  mo_network :: bool

record run =
  rd_vm :: VM
  rd_ctx :: bool
  rd_ready :: Readiness
  rd_svc :: "service \<Rightarrow> svcState"
  rd_err :: "goerr option"
  rd_main :: mainState
  rd_mon :: monitor
  rd_parentWatch :: bool
  rd_signalWatch :: bool
  rd_armed :: bool
  rd_emitted :: "(EventKind \<times> string) list"
  rd_boots :: nat

datatype actor = Host | World

definition startingMsg :: string where
  "startingMsg = ''starting vm in container mode''"

text \<open>The state when all goroutines are started, after a successful \<open>init\<close>.\<close>

definition runStart :: "VM \<Rightarrow> run" where
  "runStart v = \<lparr>rd_vm = vmEmit EventVMStarting startingMsg v, rd_ctx = False, rd_ready = NewReadiness,
     rd_svc = (\<lambda>x. if x = SvcPodman then WaitingNet else Serving), rd_err = None, rd_main = Selecting,
     rd_mon = \<lparr>mo_running = True, mo_podman = False, mo_ssh = False, mo_network = False\<rparr>,
     rd_parentWatch = True, rd_signalWatch = True, rd_armed = False,
     rd_emitted = [(EventVMStarting, startingMsg)], rd_boots = 0\<rparr>"

subsection \<open>Operations of the goroutines\<close>

text \<open>A service returns: \<open>errgroup\<close> keeps the first error and cancels the context.\<close>

definition svcEnds :: "service \<Rightarrow> goerr option \<Rightarrow> run \<Rightarrow> run" where
  "svcEnds x r s =
     s\<lparr>rd_svc := (rd_svc s)(x := Ended r),
       rd_err := (if rd_err s = None then r else rd_err s),
       rd_ctx := (rd_ctx s \<or> r \<noteq> None)\<rparr>"

definition allEnded :: "run \<Rightarrow> bool" where
  "allEnded s \<longleftrightarrow> (\<forall>x\<in>{SvcIgnition, SvcNetwork, SvcManagement, SvcPodman}. \<exists>r. rd_svc s x = Ended r)"

definition runEmit :: "EventKind \<Rightarrow> string \<Rightarrow> run \<Rightarrow> run" where
  "runEmit k m s = s\<lparr>rd_vm := vmEmit k m (rd_vm s), rd_emitted := rd_emitted s @ [(k, m)]\<rparr>"

definition podmanMsg :: "run \<Rightarrow> string" where
  "podmanMsg s = ''podman API proxy listening on '' @
     (case vm_machine (rd_vm s) of None \<Rightarrow> [] | Some m \<Rightarrow> HostPodmanProxyAddr (PodmanInfo m))"

text \<open>\<open>StopVirtualMachine\<close> and \<open>cancel\<close>.\<close>

definition stopMachine :: "run \<Rightarrow> run" where
  "stopMachine s =
     s\<lparr>rd_vm := (rd_vm s)\<lparr>vm_provider := map_option (\<lambda>k. snd (ProviderStop k)) (vm_provider (rd_vm s))\<rparr>,
       rd_ctx := True\<rparr>"

definition monitorDone :: "monitor \<Rightarrow> bool" where
  "monitorDone m \<longleftrightarrow> mo_podman m \<and> mo_ssh m \<and> mo_network m"

subsection \<open>Steps\<close>

text \<open>The monitor (\<open>monitorReadinessEvents\<close>): a turn of its loop.\<close>

inductive monitor_step :: "run \<Rightarrow> run \<Rightarrow> bool" where
  monitor_ends:
    "mo_running (rd_mon s) \<Longrightarrow> monitorDone (rd_mon s) \<or> rd_ctx s \<Longrightarrow>
     monitor_step s (s\<lparr>rd_mon := (rd_mon s)\<lparr>mo_running := False\<rparr>\<rparr>)"
| monitor_podman:
    "mo_running (rd_mon s) \<Longrightarrow> \<not> monitorDone (rd_mon s) \<Longrightarrow> chan_closed (PodmanReady (rd_ready s)) \<Longrightarrow>
     t = (if mo_podman (rd_mon s) then s
          else runEmit EventPodmanReady (podmanMsg s) (s\<lparr>rd_mon := (rd_mon s)\<lparr>mo_podman := True\<rparr>\<rparr>)) \<Longrightarrow>
     monitor_step s t"
| monitor_ssh:
    "mo_running (rd_mon s) \<Longrightarrow> \<not> monitorDone (rd_mon s) \<Longrightarrow> chan_closed (SSHReady (rd_ready s)) \<Longrightarrow>
     t = (if mo_ssh (rd_mon s) then s
          else runEmit EventSSHReady ''ssh ready'' (s\<lparr>rd_mon := (rd_mon s)\<lparr>mo_ssh := True\<rparr>\<rparr>)) \<Longrightarrow>
     monitor_step s t"
| monitor_network:
    "mo_running (rd_mon s) \<Longrightarrow> \<not> monitorDone (rd_mon s) \<Longrightarrow> chan_closed (VNetHostReady (rd_ready s)) \<Longrightarrow>
     t = (if mo_network (rd_mon s) then s
          else runEmit EventNetworkReady ''host network ready'' (s\<lparr>rd_mon := (rd_mon s)\<lparr>mo_network := True\<rparr>\<rparr>)) \<Longrightarrow>
     monitor_step s t"

text \<open>The watchers (\<open>WaitAndShutdownMachine\<close>) and the exit that is forced thirty seconds after the
  parent was found gone.\<close>

inductive watch_step :: "actor \<Rightarrow> run \<Rightarrow> run \<Rightarrow> bool" where
  parent_gone:
    "rd_parentWatch s \<Longrightarrow>
     watch_step World s ((stopMachine s)\<lparr>rd_parentWatch := False, rd_armed := True\<rparr>)"
| parent_watch_ends:
    "rd_parentWatch s \<Longrightarrow> rd_ctx s \<Longrightarrow> watch_step Host s (s\<lparr>rd_parentWatch := False\<rparr>)"
| signal_arrives:
    "rd_signalWatch s \<Longrightarrow> watch_step World s ((stopMachine s)\<lparr>rd_signalWatch := False\<rparr>)"
| signal_watch_ends:
    "rd_signalWatch s \<Longrightarrow> rd_ctx s \<Longrightarrow> watch_step Host s (s\<lparr>rd_signalWatch := False\<rparr>)"
| forced_exit:
    "rd_armed s \<Longrightarrow> \<forall>r. rd_main s \<noteq> Returned r \<Longrightarrow> watch_step World s (s\<lparr>rd_main := Killed\<rparr>)"

text \<open>All goroutines (\<open>RunDocker\<close>), with the reports that arrive through the ignition server.\<close>

inductive run_step :: "krun_env \<Rightarrow> actor \<Rightarrow> run \<Rightarrow> run \<Rightarrow> bool" for kenv where
  svc_ends:
    "rd_svc s x = Serving \<Longrightarrow> a = World \<or> rd_ctx s \<Longrightarrow> run_step kenv a s (svcEnds x r s)"
| podman_gives_up:
    "rd_svc s SvcPodman = WaitingNet \<Longrightarrow> rd_ctx s \<Longrightarrow>
     run_step kenv Host s (svcEnds SvcPodman (Some ErrCanceled) s)"
| podman_starts:
    "rd_svc s SvcPodman = WaitingNet \<Longrightarrow> chan_closed (VNetHostReady (rd_ready s)) \<Longrightarrow>
     run_step kenv Host s (s\<lparr>rd_svc := (rd_svc s)(SvcPodman := Serving)\<rparr>)"
| network_online:
    "SignalVNetHostReady (rd_ready s) = Some (True, r) \<Longrightarrow> run_step kenv World s (s\<lparr>rd_ready := r\<rparr>)"
| ssh_reported:
    "SignalSSHReady (rd_ready s) = Some (True, r) \<Longrightarrow> run_step kenv World s (s\<lparr>rd_ready := r\<rparr>)"
| podman_reported:
    "SignalPodmanAPIProxyReady (rd_ready s) = Some (True, r) \<Longrightarrow> run_step kenv World s (s\<lparr>rd_ready := r\<rparr>)"
| guest_net_reported:
    "SignalVNetGuestReady (rd_ready s) = Some (True, r) \<Longrightarrow> run_step kenv World s (s\<lparr>rd_ready := r\<rparr>)"
| main_boots:
    "rd_main s = Selecting \<Longrightarrow> chan_closed (VNetHostReady (rd_ready s)) \<Longrightarrow>
     run_step kenv Host s (s\<lparr>rd_main := Booting, rd_boots := Suc (rd_boots s)\<rparr>)"
| main_aborts:
    "rd_main s = Selecting \<Longrightarrow> rd_ctx s \<Longrightarrow> run_step kenv Host s (s\<lparr>rd_main := Aborting\<rparr>)"
| vm_fails:
    "rd_main s = Booting \<Longrightarrow> vm_provider (rd_vm s) = Some k \<Longrightarrow> krunStart kenv k = (Inl e, k') \<Longrightarrow>
     run_step kenv World s
       (s\<lparr>rd_vm := (rd_vm s)\<lparr>vm_provider := Some k'\<rparr>, rd_main := Cancelling (Inl e)\<rparr>)"
| vm_exits:
    "rd_main s = Booting \<Longrightarrow> run_step kenv World s (s\<lparr>rd_main := Exited\<rparr>)"
| main_cancels:
    "rd_main s = Cancelling r \<Longrightarrow>
     run_step kenv Host s (s\<lparr>rd_ctx := True, rd_main := Draining r\<rparr>)"
| group_done:
    "allEnded s \<Longrightarrow> \<not> rd_ctx s \<Longrightarrow> run_step kenv Host s (s\<lparr>rd_ctx := True\<rparr>)"
| main_returns:
    "rd_main s = Draining r \<Longrightarrow> allEnded s \<Longrightarrow> run_step kenv Host s (s\<lparr>rd_main := Returned r\<rparr>)"
| main_returns_aborted:
    "rd_main s = Aborting \<Longrightarrow> allEnded s \<Longrightarrow>
     run_step kenv Host s
       (s\<lparr>rd_main := Returned (case rd_err s of None \<Rightarrow> Inr () | Some e \<Rightarrow> Inl e)\<rparr>)"
| caller_cancels:
    "\<not> rd_ctx s \<Longrightarrow> run_step kenv World s (s\<lparr>rd_ctx := True\<rparr>)"
| monitor_goes_on: "monitor_step s t \<Longrightarrow> run_step kenv Host s t"
| watcher_goes_on: "watch_step a s t \<Longrightarrow> run_step kenv a s t"

text \<open>After a forced exit, or the one libkrun makes, no goroutine runs. (\<open>group_done\<close> is the cancel of
  \<open>errgroup\<close>'s \<open>Wait\<close>, which comes also when all services ended without an error.)\<close>

definition live_step :: "krun_env \<Rightarrow> actor \<Rightarrow> run \<Rightarrow> run \<Rightarrow> bool" where
  "live_step kenv a s t \<longleftrightarrow> rd_main s \<noteq> Killed \<and> rd_main s \<noteq> Exited \<and> run_step kenv a s t"

inductive run_reachable :: "krun_env \<Rightarrow> VM \<Rightarrow> run \<Rightarrow> bool" for kenv v where
  run_starts: "run_reachable kenv v (runStart v)"
| run_goes_on: "run_reachable kenv v s \<Longrightarrow> live_step kenv a s t \<Longrightarrow> run_reachable kenv v t"

subsection \<open>The invariant\<close>

text \<open>Of the main goroutine, the services and the error group.\<close>

definition bootedOnce :: "run \<Rightarrow> bool" where
  "bootedOnce s \<longleftrightarrow> rd_boots s = 1 \<and> chan_closed (VNetHostReady (rd_ready s))"

definition groupResult :: "run \<Rightarrow> unit res" where
  "groupResult s = (case rd_err s of None \<Rightarrow> Inr () | Some e \<Rightarrow> Inl e)"

definition mainOk :: "run \<Rightarrow> bool" where
  "mainOk s \<longleftrightarrow>
     (case rd_main s of
        Selecting \<Rightarrow> rd_boots s = 0
      | Booting \<Rightarrow> bootedOnce s
      | Cancelling r \<Rightarrow> bootedOnce s \<and> (\<exists>e. r = Inl e)
      | Draining r \<Rightarrow> rd_ctx s \<and> bootedOnce s \<and> (\<exists>e. r = Inl e)
      | Aborting \<Rightarrow> rd_ctx s \<and> rd_boots s = 0
      | Returned r \<Rightarrow> rd_ctx s \<and> allEnded s \<and>
          (rd_boots s = 0 \<and> r = groupResult s \<or> bootedOnce s \<and> (\<exists>e. r = Inl e))
      | Killed \<Rightarrow> rd_armed s \<and> (rd_boots s = 0 \<or> bootedOnce s)
      | Exited \<Rightarrow> bootedOnce s)"

lemmas main_defs = mainOk_def bootedOnce_def groupResult_def allEnded_def

definition groupOk :: "run \<Rightarrow> bool" where
  "groupOk s \<longleftrightarrow>
     (\<forall>x e. rd_svc s x = Ended (Some e) \<longrightarrow> rd_ctx s \<and> rd_err s \<noteq> None) \<and>
     (\<forall>e. rd_err s = Some e \<longrightarrow> (\<exists>x. rd_svc s x = Ended (Some e))) \<and>
     (\<forall>x. rd_svc s x = WaitingNet \<longrightarrow> x = SvcPodman) \<and>
     (rd_svc s SvcPodman = Serving \<longrightarrow> chan_closed (VNetHostReady (rd_ready s)))"

text \<open>Of the monitor: what it has announced and to whom.\<close>

definition readyEvents :: "(monitor \<Rightarrow> bool) \<times> (monitor \<Rightarrow> bool) \<times> (monitor \<Rightarrow> bool) \<Rightarrow> monitor \<Rightarrow> EventKind set" where
  "readyEvents f m = (case f of (p, s, n) \<Rightarrow>
     (if p m then {EventPodmanReady} else {}) \<union> (if s m then {EventSSHReady} else {}) \<union>
     (if n m then {EventNetworkReady} else {}))"

definition monitorOk :: "VM \<Rightarrow> run \<Rightarrow> bool" where
  "monitorOk v s \<longleftrightarrow>
     (mo_podman (rd_mon s) \<longrightarrow> chan_closed (PodmanReady (rd_ready s))) \<and>
     (mo_ssh (rd_mon s) \<longrightarrow> chan_closed (SSHReady (rd_ready s))) \<and>
     (mo_network (rd_mon s) \<longrightarrow> chan_closed (VNetHostReady (rd_ready s))) \<and>
     (\<exists>kms. rd_emitted s = (EventVMStarting, startingMsg) # kms \<and> distinct (map fst kms) \<and>
        set (map fst kms) = readyEvents (mo_podman, mo_ssh, mo_network) (rd_mon s)) \<and>
     vm_events (rd_vm s) = foldl (\<lambda>st (k, m). emit k m st) (vm_events v) (rd_emitted s)"

lemma latch_signalled:
  assumes "signalLatch l = Some (True, l')"
  shows "\<not> chan_closed l \<and> chan_closed l'"
  using assms by (auto simp: signalLatch_def split: if_splits)

text \<open>A latch that is given stays given; the four signals give theirs.\<close>

definition readyLe :: "Readiness \<Rightarrow> Readiness \<Rightarrow> bool" where
  "readyLe r r' \<longleftrightarrow> (chan_closed (SSHReady r) \<longrightarrow> chan_closed (SSHReady r')) \<and>
     (chan_closed (PodmanReady r) \<longrightarrow> chan_closed (PodmanReady r')) \<and>
     (chan_closed (VNetHostReady r) \<longrightarrow> chan_closed (VNetHostReady r')) \<and>
     (chan_closed (VNetGuestReady r) \<longrightarrow> chan_closed (VNetGuestReady r'))"

lemma readyLe_signals [intro]:
  "SignalVNetHostReady r = Some (True, r') \<Longrightarrow> readyLe r r'"
  "SignalSSHReady r = Some (True, r') \<Longrightarrow> readyLe r r'"
  "SignalPodmanAPIProxyReady r = Some (True, r') \<Longrightarrow> readyLe r r'"
  "SignalVNetGuestReady r = Some (True, r') \<Longrightarrow> readyLe r r'"
  by (auto simp: readyLe_def SignalVNetHostReady_def SignalSSHReady_def SignalPodmanAPIProxyReady_def
      SignalVNetGuestReady_def dest: latch_signalled)

text \<open>How a step changes what the main goroutine and the services rely on.\<close>

lemma mainOk_ready: "mainOk s \<Longrightarrow> readyLe (rd_ready s) r \<Longrightarrow> mainOk (s\<lparr>rd_ready := r\<rparr>)"
  by (auto simp: main_defs readyLe_def split: mainState.splits)

lemma groupOk_ready: "groupOk s \<Longrightarrow> readyLe (rd_ready s) r \<Longrightarrow> groupOk (s\<lparr>rd_ready := r\<rparr>)"
  by (auto simp: groupOk_def readyLe_def)

lemma monitorOk_ready: "monitorOk v s \<Longrightarrow> readyLe (rd_ready s) r \<Longrightarrow> monitorOk v (s\<lparr>rd_ready := r\<rparr>)"
  by (auto simp: monitorOk_def readyLe_def)

lemma allEnded_iff: "allEnded s \<longleftrightarrow> (\<forall>x. \<exists>r. rd_svc s x = Ended r)"
proof -
  have "x \<in> {SvcIgnition, SvcNetwork, SvcManagement, SvcPodman}" for x by (cases x) auto
  then show ?thesis unfolding allEnded_def by blast
qed

lemma svcEnds_group:
  assumes "groupOk s" and "\<forall>r'. rd_svc s x \<noteq> Ended r'"
  shows "groupOk (svcEnds x r s)"
proof -
  have "\<exists>y. rd_svc (svcEnds x r s) y = Ended (Some e)" if err: "rd_err (svcEnds x r s) = Some e" for e
  proof (cases "rd_err s")
    case None
    then show ?thesis using err by (intro exI [of _ x]) (simp add: svcEnds_def)
  next
    case (Some e')
    then obtain y where "rd_svc s y = Ended (Some e)" using err assms(1) by (auto simp: svcEnds_def groupOk_def)
    moreover from this have "y \<noteq> x" using assms(2) by auto
    ultimately show ?thesis by (auto simp: svcEnds_def)
  qed
  then show ?thesis
    using assms by (cases r) (auto simp: groupOk_def svcEnds_def split: if_splits)
qed

lemma svcEnds_main:
  assumes "mainOk s" and "\<forall>r'. rd_svc s x \<noteq> Ended r'"
  shows "mainOk (svcEnds x r s)"
  using assms by (auto simp: mainOk_def bootedOnce_def svcEnds_def allEnded_iff split: mainState.splits)

lemma svcEnds_monitor: "monitorOk v s \<Longrightarrow> monitorOk v (svcEnds x r s)"
  by (simp add: monitorOk_def svcEnds_def)

lemma stop_keeps [simp]:
  "rd_ready (stopMachine s) = rd_ready s" "rd_svc (stopMachine s) = rd_svc s" "rd_main (stopMachine s) = rd_main s"
  "rd_err (stopMachine s) = rd_err s" "rd_mon (stopMachine s) = rd_mon s" "rd_emitted (stopMachine s) = rd_emitted s"
  "rd_armed (stopMachine s) = rd_armed s" "rd_ctx (stopMachine s)" "vm_events (rd_vm (stopMachine s)) = vm_events (rd_vm s)"
  "rd_parentWatch (stopMachine s) = rd_parentWatch s" "rd_signalWatch (stopMachine s) = rd_signalWatch s"
  "rd_boots (stopMachine s) = rd_boots s"
  by (simp_all add: stopMachine_def)

lemma emit_keeps [simp]:
  "rd_ready (runEmit k m s) = rd_ready s" "rd_svc (runEmit k m s) = rd_svc s" "rd_main (runEmit k m s) = rd_main s"
  "rd_err (runEmit k m s) = rd_err s" "rd_mon (runEmit k m s) = rd_mon s" "rd_ctx (runEmit k m s) = rd_ctx s"
  "rd_armed (runEmit k m s) = rd_armed s" "rd_parentWatch (runEmit k m s) = rd_parentWatch s"
  "rd_signalWatch (runEmit k m s) = rd_signalWatch s"
  "rd_emitted (runEmit k m s) = rd_emitted s @ [(k, m)]" "rd_boots (runEmit k m s) = rd_boots s"
  "vm_events (rd_vm (runEmit k m s)) = emit k m (vm_events (rd_vm s))"
  by (simp_all add: runEmit_def vmEmit_def)

lemma event_kinds [simp]:
  "EventPodmanReady \<noteq> EventSSHReady" "EventPodmanReady \<noteq> EventNetworkReady" "EventSSHReady \<noteq> EventNetworkReady"
  "EventSSHReady \<noteq> EventPodmanReady" "EventNetworkReady \<noteq> EventPodmanReady" "EventNetworkReady \<noteq> EventSSHReady"
  by (simp_all add: EventPodmanReady_def EventSSHReady_def EventNetworkReady_def)

text \<open>What two states that differ in nothing else have in common.\<close>

definition sameGroup :: "run \<Rightarrow> run \<Rightarrow> bool" where
  "sameGroup s t \<longleftrightarrow> rd_svc t = rd_svc s \<and> rd_err t = rd_err s \<and> rd_ready t = rd_ready s \<and>
     rd_emitted t = rd_emitted s \<and> vm_events (rd_vm t) = vm_events (rd_vm s) \<and>
     (rd_mon t)\<lparr>mo_running := False\<rparr> = (rd_mon s)\<lparr>mo_running := False\<rparr> \<and>
     (rd_ctx s \<longrightarrow> rd_ctx t) \<and> (rd_armed s \<longrightarrow> rd_armed t)"

text \<open>The kinds of steps, as far as the invariant is concerned.\<close>

lemma step_kinds:
  assumes "run_step kenv a s t"
  obtains (ended) x r where "\<forall>r'. rd_svc s x \<noteq> Ended r'" and "t = svcEnds x r s"
    | (ready) r where "readyLe (rd_ready s) r" and "t = s\<lparr>rd_ready := r\<rparr>"
    | (podman) "rd_svc s SvcPodman = WaitingNet" and "chan_closed (VNetHostReady (rd_ready s))"
        and "t = s\<lparr>rd_svc := (rd_svc s)(SvcPodman := Serving)\<rparr>"
    | (main) "sameGroup s t" and "mainOk s \<longrightarrow> mainOk t"
    | (told) k msg m where "t = runEmit k msg (s\<lparr>rd_mon := m\<rparr>)"
        and "k \<notin> readyEvents (mo_podman, mo_ssh, mo_network) (rd_mon s)"
        and "readyEvents (mo_podman, mo_ssh, mo_network) m =
          insert k (readyEvents (mo_podman, mo_ssh, mo_network) (rd_mon s))"
        and "monitorOk v s \<longrightarrow> (mo_podman m \<longrightarrow> chan_closed (PodmanReady (rd_ready s))) \<and>
          (mo_ssh m \<longrightarrow> chan_closed (SSHReady (rd_ready s))) \<and>
          (mo_network m \<longrightarrow> chan_closed (VNetHostReady (rd_ready s)))"
  using assms
proof cases
  case (svc_ends x r) then show thesis by (intro ended [of x r]) simp_all
next
  case podman_gives_up then show thesis by (intro ended [of SvcPodman]) simp_all
next
  case podman_starts then show thesis by (intro podman) simp_all
next
  case (network_online r) then show thesis by (intro ready readyLe_signals(1))
next
  case (ssh_reported r) then show thesis by (intro ready readyLe_signals(2))
next
  case (podman_reported r) then show thesis by (intro ready readyLe_signals(3))
next
  case (guest_net_reported r) then show thesis by (intro ready readyLe_signals(4))
next
  case monitor_goes_on
  from this(2) show thesis
  proof cases
    case monitor_podman
    then show thesis
    proof (cases "mo_podman (rd_mon s)")
      case False
      with monitor_podman show thesis
        by (intro told [of EventPodmanReady "podmanMsg s" "(rd_mon s)\<lparr>mo_podman := True\<rparr>"])
          (auto simp: readyEvents_def monitorOk_def)
    qed (use monitor_podman in \<open>auto intro: main simp: sameGroup_def\<close>)
  next
    case monitor_ssh
    then show thesis
    proof (cases "mo_ssh (rd_mon s)")
      case False
      with monitor_ssh show thesis
        by (intro told [of EventSSHReady "''ssh ready''" "(rd_mon s)\<lparr>mo_ssh := True\<rparr>"])
          (auto simp: readyEvents_def monitorOk_def)
    qed (use monitor_ssh in \<open>auto intro: main simp: sameGroup_def\<close>)
  next
    case monitor_network
    then show thesis
    proof (cases "mo_network (rd_mon s)")
      case False
      with monitor_network show thesis
        by (intro told [of EventNetworkReady "''host network ready''" "(rd_mon s)\<lparr>mo_network := True\<rparr>"])
          (auto simp: readyEvents_def monitorOk_def)
    qed (use monitor_network in \<open>auto intro: main simp: sameGroup_def\<close>)
  qed (auto intro!: main simp: sameGroup_def main_defs split: mainState.splits)
next
  case watcher_goes_on
  then show thesis
    by cases (auto intro!: main simp: sameGroup_def main_defs split: mainState.splits)
qed (auto intro!: main simp: sameGroup_def main_defs split: mainState.splits)

lemma step_mainOk:
  assumes "run_step kenv a s t" and "mainOk s"
  shows "mainOk t"
  using assms(1)
proof (cases rule: step_kinds [where v = undefined])
  case (podman)
  then have "rd_svc s SvcPodman \<noteq> Ended r" for r by simp
  then have "\<not> allEnded s" unfolding allEnded_iff by blast
  with podman assms(2) show ?thesis by (auto simp: mainOk_def bootedOnce_def split: mainState.splits)
next
  case (told k msg m)
  with assms(2) show ?thesis by (auto simp: main_defs split: mainState.splits)
qed (use assms(2) in \<open>auto intro: mainOk_ready svcEnds_main\<close>)

lemma step_groupOk:
  assumes "run_step kenv a s t" and "groupOk s"
  shows "groupOk t"
  using assms(1)
proof (cases rule: step_kinds [where v = undefined])
  case podman
  have "\<exists>x. rd_svc t x = Ended (Some e)" if "rd_err s = Some e" for e
  proof -
    obtain x where "rd_svc s x = Ended (Some e)" using \<open>rd_err s = Some e\<close> assms(2) by (auto simp: groupOk_def)
    with podman(1) show ?thesis by (intro exI [of _ x]) (auto simp: podman(3))
  qed
  moreover have "rd_err t = rd_err s" "rd_ctx t = rd_ctx s" "rd_ready t = rd_ready s"
    "rd_svc t x = (if x = SvcPodman then Serving else rd_svc s x)" for x
    by (simp_all add: podman(3))
  ultimately show ?thesis using assms(2) podman(2) by (auto simp: groupOk_def split: if_splits)
next
  case main
  with assms(2) show ?thesis by (auto simp: groupOk_def sameGroup_def)
next
  case (told k msg m)
  with assms(2) show ?thesis by (simp add: groupOk_def)
qed (use assms(2) in \<open>auto intro: groupOk_ready svcEnds_group\<close>)

text \<open>The announcements: a new one is of an event not announced yet.\<close>

lemma announced:
  assumes "monitorOk v s" and "k \<notin> readyEvents (mo_podman, mo_ssh, mo_network) (rd_mon s)"
    and "readyEvents (mo_podman, mo_ssh, mo_network) m =
      insert k (readyEvents (mo_podman, mo_ssh, mo_network) (rd_mon s))"
    and "(mo_podman m \<longrightarrow> chan_closed (PodmanReady (rd_ready s))) \<and>
      (mo_ssh m \<longrightarrow> chan_closed (SSHReady (rd_ready s))) \<and>
      (mo_network m \<longrightarrow> chan_closed (VNetHostReady (rd_ready s)))"
  shows "monitorOk v (runEmit k msg (s\<lparr>rd_mon := m\<rparr>))"
proof -
  obtain kms where k: "rd_emitted s = (EventVMStarting, startingMsg) # kms" "distinct (map fst kms)"
    "set (map fst kms) = readyEvents (mo_podman, mo_ssh, mo_network) (rd_mon s)"
    "vm_events (rd_vm s) = foldl (\<lambda>st (k, m). emit k m st) (vm_events v) (rd_emitted s)"
    using assms(1) by (auto simp: monitorOk_def)
  then have "distinct (map fst (kms @ [(k, msg)]))"
    and "set (map fst (kms @ [(k, msg)])) = readyEvents (mo_podman, mo_ssh, mo_network) m"
    using assms(2,3) by auto
  then have "\<exists>kms'. rd_emitted s @ [(k, msg)] = (EventVMStarting, startingMsg) # kms' \<and> distinct (map fst kms') \<and>
      set (map fst kms') = readyEvents (mo_podman, mo_ssh, mo_network) m"
    using k(1) by (intro exI [of _ "kms @ [(k, msg)]"]) simp
  then show ?thesis using assms(4) k(4) by (simp add: monitorOk_def)
qed

lemma sameGroup_monitor:
  assumes "sameGroup s t" and "monitorOk v s"
  shows "monitorOk v t"
proof -
  have "mo_podman (rd_mon t) = mo_podman (rd_mon s)" "mo_ssh (rd_mon t) = mo_ssh (rd_mon s)"
    "mo_network (rd_mon t) = mo_network (rd_mon s)"
    using assms(1) by (cases "rd_mon s"; cases "rd_mon t"; simp add: sameGroup_def)+
  with assms show ?thesis by (simp add: monitorOk_def readyEvents_def sameGroup_def)
qed

lemma step_monitorOk:
  assumes "run_step kenv a s t" and "monitorOk v s"
  shows "monitorOk v t"
  using assms(1)
proof (cases rule: step_kinds [where v = v])
  case podman
  with assms(2) show ?thesis by (simp add: monitorOk_def)
next
  case (told k msg m)
  with assms(2) show ?thesis using announced [of v s k m msg] by simp
qed (use assms(2) in \<open>auto intro: monitorOk_ready svcEnds_monitor sameGroup_monitor\<close>)

lemma reachable_ok: "run_reachable kenv v s \<Longrightarrow> mainOk s \<and> groupOk s \<and> monitorOk v s"
proof (induction rule: run_reachable.induct)
  case run_starts
  show ?case
    by (simp add: runStart_def mainOk_def groupOk_def monitorOk_def readyEvents_def vmEmit_def)
next
  case (run_goes_on s a t)
  then show ?case unfolding live_step_def using step_mainOk step_groupOk step_monitorOk by blast
qed

subsection \<open>Every run ends\<close>

text \<open>A bound on the steps that are left: what is still running, waiting or to be announced.\<close>

definition svcRank :: "svcState \<Rightarrow> nat" where
  "svcRank x = (case x of WaitingNet \<Rightarrow> 2 | Serving \<Rightarrow> 1 | Ended _ \<Rightarrow> 0)"

definition mainRank :: "mainState \<Rightarrow> nat" where
  "mainRank m = (case m of Selecting \<Rightarrow> 4 | Booting \<Rightarrow> 3 | Cancelling _ \<Rightarrow> 2 | Draining _ \<Rightarrow> 1
     | Aborting \<Rightarrow> 1 | Returned _ \<Rightarrow> 0 | Killed \<Rightarrow> 0 | Exited \<Rightarrow> 0)"

definition openLatches :: "Readiness \<Rightarrow> nat" where
  "openLatches r = of_bool (\<not> chan_closed (SSHReady r)) + of_bool (\<not> chan_closed (PodmanReady r)) +
     of_bool (\<not> chan_closed (VNetHostReady r)) + of_bool (\<not> chan_closed (VNetGuestReady r))"

definition svcRanks :: "(service \<Rightarrow> svcState) \<Rightarrow> nat" where
  "svcRanks f = svcRank (f SvcIgnition) + svcRank (f SvcNetwork) + svcRank (f SvcManagement) + svcRank (f SvcPodman)"

definition monRank :: "monitor \<Rightarrow> nat" where
  "monRank m = of_bool (mo_running m) + of_bool (\<not> mo_podman m) + of_bool (\<not> mo_ssh m) + of_bool (\<not> mo_network m)"

definition stepsLeft :: "run \<Rightarrow> nat" where
  "stepsLeft s = of_bool (\<not> rd_ctx s) + svcRanks (rd_svc s) + openLatches (rd_ready s) + mainRank (rd_main s) +
     monRank (rd_mon s) + of_bool (rd_parentWatch s) + of_bool (rd_signalWatch s)"

lemma openLatches_signals:
  "SignalVNetHostReady r = Some (True, r') \<Longrightarrow> openLatches r' < openLatches r"
  "SignalSSHReady r = Some (True, r') \<Longrightarrow> openLatches r' < openLatches r"
  "SignalPodmanAPIProxyReady r = Some (True, r') \<Longrightarrow> openLatches r' < openLatches r"
  "SignalVNetGuestReady r = Some (True, r') \<Longrightarrow> openLatches r' < openLatches r"
  by (auto simp: openLatches_def SignalVNetHostReady_def SignalSSHReady_def SignalPodmanAPIProxyReady_def
      SignalVNetGuestReady_def dest: latch_signalled)

lemma svcRanks_ends: "\<forall>r'. f x \<noteq> Ended r' \<Longrightarrow> svcRanks (f(x := Ended r)) < svcRanks f"
  by (cases x) (auto simp: svcRanks_def svcRank_def split: svcState.splits)

lemma svcRanks_starts: "f SvcPodman = WaitingNet \<Longrightarrow> svcRanks (f(SvcPodman := Serving)) < svcRanks f"
  by (simp add: svcRanks_def svcRank_def)

lemma svcEnds_left: "\<forall>r'. rd_svc s x \<noteq> Ended r' \<Longrightarrow> stepsLeft (svcEnds x r s) < stepsLeft s"
  using svcRanks_ends [of "rd_svc s" x r] by (auto simp: stepsLeft_def svcEnds_def)

lemma step_left:
  assumes "live_step kenv a s t" and "t \<noteq> s"
  shows "stepsLeft t < stepsLeft s"
proof -
  have "run_step kenv a s t" and live: "rd_main s \<noteq> Killed" "rd_main s \<noteq> Exited"
    using assms(1) by (simp_all add: live_step_def)
  from this(1) show ?thesis
  proof cases
    case (svc_ends x r) then show ?thesis by (simp add: svcEnds_left)
  next
    case podman_gives_up then show ?thesis by (simp add: svcEnds_left)
  next
    case podman_starts then show ?thesis using svcRanks_starts by (simp add: stepsLeft_def)
  next
    case (network_online r) then show ?thesis using openLatches_signals(1) by (simp add: stepsLeft_def)
  next
    case (ssh_reported r) then show ?thesis using openLatches_signals(2) by (simp add: stepsLeft_def)
  next
    case (podman_reported r) then show ?thesis using openLatches_signals(3) by (simp add: stepsLeft_def)
  next
    case (guest_net_reported r) then show ?thesis using openLatches_signals(4) by (simp add: stepsLeft_def)
  next
    case monitor_goes_on
    from monitor_goes_on(2) show ?thesis
      by cases (use assms(2) in \<open>auto simp: stepsLeft_def monRank_def split: if_splits\<close>)
  next
    case watcher_goes_on
    then show ?thesis
    proof cases
      case forced_exit
      with live have "0 < mainRank (rd_main s)" by (cases "rd_main s") (auto simp: mainRank_def)
      with forced_exit show ?thesis by (simp add: stepsLeft_def mainRank_def)
    qed (auto simp: stepsLeft_def)
  qed (use assms(2) in \<open>auto simp: stepsLeft_def mainRank_def monRank_def\<close>)
qed

definition properStep :: "krun_env \<Rightarrow> run \<Rightarrow> run \<Rightarrow> bool" where
  "properStep kenv s t \<longleftrightarrow> (\<exists>a. live_step kenv a s t) \<and> t \<noteq> s"

lemma proper_steps_bounded: "(properStep kenv ^^ n) s t \<Longrightarrow> n + stepsLeft t \<le> stepsLeft s"
proof (induction n arbitrary: t)
  case (Suc n)
  then obtain u where u: "(properStep kenv ^^ n) s u" "properStep kenv u t" by auto
  then show ?case using Suc.IH [OF u(1)] step_left by (force simp: properStep_def)
qed simp

lemma proper_reachable: "(properStep kenv ^^ n) (runStart v) t \<Longrightarrow> run_reachable kenv v t"
proof (induction n arbitrary: t)
  case 0
  then show ?case using run_starts by auto
next
  case (Suc n)
  then obtain u where u: "(properStep kenv ^^ n) (runStart v) u" "properStep kenv u t" by auto
  then show ?case using Suc.IH [OF u(1)] run_goes_on unfolding properStep_def by blast
qed

text \<open>The host's own goroutines always go on, except where \<open>RunDocker\<close> waits for the world: while the
  virtual machine runs, and before the host network is up when nothing has ended the session.\<close>

definition waitsForWorld :: "run \<Rightarrow> bool" where
  "waitsForWorld s \<longleftrightarrow> rd_main s = Booting \<or>
     (rd_main s = Selecting \<and> \<not> rd_ctx s \<and> \<not> chan_closed (VNetHostReady (rd_ready s)) \<and> \<not> allEnded s)"

definition runOver :: "run \<Rightarrow> bool" where
  "runOver s \<longleftrightarrow> (\<exists>r. rd_main s = Returned r) \<or> rd_main s = Killed \<or> rd_main s = Exited"

text \<open>Each service ends once the context is done.\<close>

lemma service_can_end:
  assumes "groupOk s" and "rd_ctx s" and "\<not> allEnded s"
  shows "\<exists>t. run_step kenv Host s t \<and> t \<noteq> s"
proof -
  obtain x where x: "\<forall>r. rd_svc s x \<noteq> Ended r" using assms(3) unfolding allEnded_iff by blast
  have "\<exists>r. run_step kenv Host s (svcEnds x r s)"
  proof (cases "rd_svc s x")
    case WaitingNet
    with assms(1) have "x = SvcPodman" by (auto simp: groupOk_def)
    with WaitingNet assms(2) show ?thesis using podman_gives_up by blast
  next
    case Serving
    with assms(2) show ?thesis using svc_ends by blast
  qed (use x in auto)
  then obtain r where "run_step kenv Host s (svcEnds x r s)" by blast
  moreover have "svcEnds x r s \<noteq> s" using svcEnds_left [OF x, of r] by auto
  ultimately show ?thesis by blast
qed

lemma main_moves:
  assumes "run_step kenv Host s t" and "rd_main t \<noteq> rd_main s"
  shows "\<exists>t. run_step kenv Host s t \<and> t \<noteq> s"
  using assms by (intro exI [of _ t]) auto

lemma host_goes_on:
  assumes "groupOk s" and "mainOk s" and "\<not> waitsForWorld s" and "\<not> runOver s"
  shows "\<exists>t. live_step kenv Host s t \<and> t \<noteq> s"
proof -
  have "\<exists>t. run_step kenv Host s t \<and> t \<noteq> s"
  proof (cases "rd_main s")
    case Selecting
    then consider "rd_ctx s" | "chan_closed (VNetHostReady (rd_ready s))" | "allEnded s" "\<not> rd_ctx s"
      using assms(3) by (auto simp: waitsForWorld_def)
    then show ?thesis
    proof cases
      case 1 show ?thesis by (rule main_moves [OF main_aborts [OF Selecting 1]]) (simp add: Selecting)
    next
      case 2 show ?thesis by (rule main_moves [OF main_boots [OF Selecting 2]]) (simp add: Selecting)
    next
      case 3
      have "s\<lparr>rd_ctx := True\<rparr> \<noteq> s" using 3(2) by (metis run.select_convs(2) run.surjective run.update_convs(2))
      then show ?thesis using group_done [OF 3] by blast
    qed
  next
    case (Cancelling r)
    show ?thesis by (rule main_moves [OF main_cancels [OF Cancelling]]) (simp add: Cancelling)
  next
    case (Draining r)
    show ?thesis
    proof (cases "allEnded s")
      case True
      show ?thesis by (rule main_moves [OF main_returns [OF Draining True]]) (simp add: Draining)
    qed (use service_can_end assms(1,2) Draining in \<open>simp add: mainOk_def\<close>)
  next
    case Aborting
    show ?thesis
    proof (cases "allEnded s")
      case True
      show ?thesis by (rule main_moves [OF main_returns_aborted [OF Aborting True]]) (simp add: Aborting)
    qed (use service_can_end assms(1,2) Aborting in \<open>simp add: mainOk_def\<close>)
  qed (use assms(3,4) in \<open>auto simp: waitsForWorld_def runOver_def\<close>)
  then show ?thesis using assms(4) by (auto simp: live_step_def runOver_def)
qed

lemma group_result:
  assumes "groupOk s" and "allEnded s"
  shows "(\<exists>x e. groupResult s = Inl e \<and> rd_svc s x = Ended (Some e)) \<or>
    groupResult s = Inr () \<and> (\<forall>x. rd_svc s x = Ended None)"
proof (cases "rd_err s")
  case None
  then have "rd_svc s x \<noteq> Ended (Some e)" for x e using assms(1) by (auto simp: groupOk_def)
  then have "rd_svc s x = Ended None" for x using assms(2) unfolding allEnded_iff by (metis not_Some_eq)
  with None show ?thesis by (simp add: groupResult_def)
next
  case (Some e)
  then show ?thesis using assms(1) by (auto simp: groupOk_def groupResult_def)
qed

subsection \<open>Properties\<close>

text \<open>C2. The order of a session, under every interleaving of its goroutines, requests, signals and
  failures: \<open>StartVirtualMachine\<close> is called at most once, and only after the host network was
  reported ready; the Podman proxy serves only after that, too; an error of a service always cancels
  the session; when \<open>RunDocker\<close> waits for its services after the virtual machine came back, or has
  returned, the context is done; and when it has returned, all four services have ended and the
  result is the error of the virtual machine or, if it was never started, the error of a service
  (success if none failed).\<close>

theorem run_docker_ordered:
  assumes "run_reachable kenv v s"
  shows "rd_boots s \<le> 1 \<and>
    (rd_boots s = 1 \<or> rd_main s = Booting \<or> rd_svc s SvcPodman = Serving \<longrightarrow>
      chan_closed (VNetHostReady (rd_ready s))) \<and>
    (\<forall>x e. rd_svc s x = Ended (Some e) \<longrightarrow> rd_ctx s \<and> rd_err s \<noteq> None) \<and>
    (\<forall>r. rd_main s = Draining r \<longrightarrow> rd_ctx s) \<and>
    (\<forall>r. rd_main s = Returned r \<longrightarrow> rd_ctx s \<and> allEnded s \<and>
      (if rd_boots s = 1 then \<exists>e. r = Inl e
       else (\<exists>x e. r = Inl e \<and> rd_svc s x = Ended (Some e)) \<or> r = Inr () \<and> (\<forall>x. rd_svc s x = Ended None)))"
proof -
  have ok: "mainOk s" "groupOk s" using reachable_ok [OF assms] by simp_all
  have "rd_boots s \<le> 1 \<and> (rd_boots s = 1 \<or> rd_main s = Booting \<longrightarrow> bootedOnce s)"
    using ok(1) by (auto simp: mainOk_def bootedOnce_def split: mainState.splits)
  moreover have "(\<exists>x e. groupResult s = Inl e \<and> rd_svc s x = Ended (Some e)) \<or>
      groupResult s = Inr () \<and> (\<forall>x. rd_svc s x = Ended None)" if "allEnded s"
    using ok(2) that group_result by blast
  ultimately show ?thesis using ok by (auto simp: mainOk_def groupOk_def bootedOnce_def)
qed

text \<open>C13. Announcements: the events of a session start with the starting event; then each of the three
  readiness events is sent at most once, and only after its signal was given; the reporters see
  exactly these events, in this order.\<close>

theorem readiness_announced_once:
  assumes "run_reachable kenv v s"
  shows "\<exists>kms. rd_emitted s = (EventVMStarting, startingMsg) # kms \<and> distinct (map fst kms) \<and>
    set (map fst kms) \<subseteq> {EventPodmanReady, EventSSHReady, EventNetworkReady} \<and>
    (EventPodmanReady \<in> set (map fst kms) \<longrightarrow> chan_closed (PodmanReady (rd_ready s))) \<and>
    (EventSSHReady \<in> set (map fst kms) \<longrightarrow> chan_closed (SSHReady (rd_ready s))) \<and>
    (EventNetworkReady \<in> set (map fst kms) \<longrightarrow> chan_closed (VNetHostReady (rd_ready s))) \<and>
    vm_events (rd_vm s) = foldl (\<lambda>st (k, m). emit k m st) (vm_events v) (rd_emitted s)"
proof -
  have ok: "monitorOk v s" using reachable_ok [OF assms] by simp
  then obtain kms where k: "rd_emitted s = (EventVMStarting, startingMsg) # kms" "distinct (map fst kms)"
    "set (map fst kms) = readyEvents (mo_podman, mo_ssh, mo_network) (rd_mon s)"
    unfolding monitorOk_def by blast
  have "set (map fst kms) \<subseteq> {EventPodmanReady, EventSSHReady, EventNetworkReady}"
    unfolding k(3) by (auto simp: readyEvents_def split: if_splits)
  moreover have "(EventPodmanReady \<in> set (map fst kms) \<longleftrightarrow> mo_podman (rd_mon s)) \<and>
      (EventSSHReady \<in> set (map fst kms) \<longleftrightarrow> mo_ssh (rd_mon s)) \<and>
      (EventNetworkReady \<in> set (map fst kms) \<longleftrightarrow> mo_network (rd_mon s))"
    unfolding k(3) by (auto simp: readyEvents_def split: if_splits)
  ultimately show ?thesis using ok k(1,2) unfolding monitorOk_def by (intro exI [of _ kms]) blast
qed

text \<open>C12. A session ends: no run makes more than twenty steps that change its state, whatever happens in
  what order; and the host's own goroutines get stuck only when \<open>RunDocker\<close> has returned or the
  process has exited, or where it waits for the world: while the virtual machine runs, or, before the
  host network is up, while nothing has cancelled the session and some service still runs.\<close>

theorem run_docker_ends:
  assumes "(properStep kenv ^^ n) (runStart v) t"
  shows "n \<le> 20 \<and> ((\<nexists>u. live_step kenv Host t u \<and> u \<noteq> t) \<longrightarrow>
    (\<exists>r. rd_main t = Returned r) \<or> rd_main t = Killed \<or> rd_main t = Exited \<or> rd_main t = Booting \<or>
    (rd_main t = Selecting \<and> \<not> rd_ctx t \<and> \<not> chan_closed (VNetHostReady (rd_ready t)) \<and> \<not> allEnded t))"
proof -
  have "stepsLeft (runStart v) = 20"
    by (simp add: stepsLeft_def runStart_def svcRanks_def svcRank_def openLatches_def mainRank_def monRank_def
        NewReadiness_def newLatch_def)
  then have "n \<le> 20" using proper_steps_bounded [OF assms] by simp
  moreover have "groupOk t" "mainOk t" using reachable_ok [OF proper_reachable [OF assms]] by simp_all
  ultimately show ?thesis using host_goes_on [of t kenv] unfolding waitsForWorld_def runOver_def by blast
qed

text \<open>Two sample runs. The network comes up, the monitor tells it, the machine boots.\<close>

definition netUp :: Readiness where
  "netUp = NewReadiness\<lparr>VNetHostReady := \<lparr>once_done = True, chan_closed = True\<rparr>\<rparr>"

lemma netUp_signal: "SignalVNetHostReady NewReadiness = Some (True, netUp)"
  by (simp add: SignalVNetHostReady_def signalLatch_def NewReadiness_def newLatch_def netUp_def)

definition runOnline :: run where
  "runOnline = (runStart sampleVM)\<lparr>rd_ready := netUp\<rparr>"

definition runTold :: run where
  "runTold = runEmit EventNetworkReady ''host network ready''
     (runOnline\<lparr>rd_mon := (rd_mon runOnline)\<lparr>mo_network := True\<rparr>\<rparr>)"

lemma runTold_reachable:
  "run_reachable sampleKrunEnv sampleVM runTold \<and> rd_main runTold = Selecting \<and> \<not> rd_ctx runTold \<and>
     chan_closed (VNetHostReady (rd_ready runTold))"
proof -
  have start: "rd_main (runStart sampleVM) = Selecting" "rd_ready (runStart sampleVM) = NewReadiness"
    "rd_mon (runStart sampleVM) = \<lparr>mo_running = True, mo_podman = False, mo_ssh = False, mo_network = False\<rparr>"
    "\<not> rd_ctx (runStart sampleVM)"
    by (simp_all add: runStart_def)
  have up: "chan_closed (VNetHostReady netUp)" by (simp add: netUp_def)
  have "run_step sampleKrunEnv World (runStart sampleVM) runOnline"
    unfolding runOnline_def by (rule network_online) (simp add: start netUp_signal)
  then have 1: "run_reachable sampleKrunEnv sampleVM runOnline"
    using run_goes_on [OF run_starts] start(1) by (simp add: live_step_def)
  have "run_step sampleKrunEnv Host runOnline runTold"
    by (rule monitor_goes_on, rule monitor_network) (simp_all add: runOnline_def runTold_def start monitorDone_def up)
  then have "run_reachable sampleKrunEnv sampleVM runTold"
    using run_goes_on [OF 1] start(1) by (simp add: live_step_def runOnline_def)
  then show ?thesis by (simp add: runTold_def runOnline_def start up)
qed

definition runBooting :: run where
  "runBooting = runTold\<lparr>rd_main := Booting, rd_boots := 1\<rparr>"

lemma runBooting_reachable: "run_reachable sampleKrunEnv sampleVM runBooting"
  using run_goes_on [of sampleKrunEnv sampleVM runTold Host] main_boots [of runTold] runTold_reachable
  by (simp add: live_step_def runBooting_def runTold_def runEmit_def runOnline_def runStart_def)

theorem run_docker_ordered_witness:
  "\<exists>s. run_reachable sampleKrunEnv sampleVM s \<and> rd_main s = Booting \<and> chan_closed (VNetHostReady (rd_ready s))"
  using run_docker_ordered [OF runBooting_reachable] runBooting_reachable
  by (intro exI [of _ runBooting]) (simp add: runBooting_def)

theorem readiness_announced_once_witness:
  "\<exists>s. run_reachable sampleKrunEnv sampleVM s \<and> map fst (tl (rd_emitted s)) = [EventNetworkReady] \<and>
     vm_events (rd_vm s) = foldl (\<lambda>st (k, m). emit k m st) (vm_events sampleVM) (rd_emitted s)"
proof -
  have "tl (rd_emitted runBooting) = [(EventNetworkReady, ''host network ready'')]"
    by (simp add: runBooting_def runTold_def runOnline_def runStart_def)
  with readiness_announced_once [OF runBooting_reachable] runBooting_reachable show ?thesis by fastforce
qed

theorem run_docker_ends_witness:
  "(properStep sampleKrunEnv ^^ 1) (runStart sampleVM) ((runStart sampleVM)\<lparr>rd_ctx := True\<rparr>) \<and>
     (\<exists>u. live_step sampleKrunEnv Host ((runStart sampleVM)\<lparr>rd_ctx := True\<rparr>) u)"
proof -
  let ?t = "(runStart sampleVM)\<lparr>rd_ctx := True\<rparr>"
  have "run_step sampleKrunEnv World (runStart sampleVM) ?t"
    by (rule caller_cancels) (simp add: runStart_def)
  then have "properStep sampleKrunEnv (runStart sampleVM) ?t"
    unfolding properStep_def live_step_def by (auto simp: runStart_def)
  then have p: "(properStep sampleKrunEnv ^^ 1) (runStart sampleVM) ?t" by auto
  have "rd_main ?t = Selecting" "rd_ctx ?t" by (simp_all add: runStart_def)
  with run_docker_ends [OF p] p show ?thesis by fastforce
qed

text \<open>Running leaves the clean-up of the session alone.\<close>

lemma step_cleanup:
  assumes "run_step kenv a s t"
  shows "vm_cleanup (rd_vm t) = vm_cleanup (rd_vm s) \<and> vm_builder (rd_vm t) = vm_builder (rd_vm s)"
  using assms
proof cases
  case (monitor_goes_on)
  then show ?thesis
    by (auto elim!: monitor_step.cases simp: runEmit_def vmEmit_def)
next
  case (watcher_goes_on)
  then show ?thesis by (auto elim!: watch_step.cases simp: stopMachine_def)
qed (auto simp: svcEnds_def)

lemma reachable_cleanup:
  "run_reachable kenv v s \<Longrightarrow>
   vm_cleanup (rd_vm s) = vm_cleanup v \<and> vm_builder (rd_vm s) = vm_builder v"
proof (induction rule: run_reachable.induct)
  case run_starts
  then show ?case by (simp add: runStart_def vmEmit_def)
next
  case (run_goes_on s a t)
  then show ?case using step_cleanup unfolding live_step_def by metis
qed

text \<open>C5. A session releases what its initialisation acquired, however it ran in between and whatever became
  of the file system meanwhile: once it is closed, in any state its goroutines can reach, nothing
  remains at or below the workspace, the workspace lock is free and the reporters are closed; and
  closing it again does nothing. (Closing is a call of \<open>Close\<close>; when libkrun ends the process,
  \<open>Exited\<close>, there is none.)\<close>

theorem session_releases:
  assumes "env_keeps env" and "imagePath ws" and "ws \<noteq> ''/''" and "buildMachine env cfg ws s = (Inr cb, b)"
    and "vm_cleanup v = Some cb" and "vm_builder v = b" and "run_reachable kenv v r"
    and "\<not> os_fault s' ''remove'' ws" and "q = ws \<or> under ws q" and "v' = (rd_vm r)\<lparr>vm_os := s'\<rparr>"
  shows "nodeAt (vm_os (vmClose v')) q = None \<and> lockFile ws \<notin> set (os_locks (vm_os (vmClose v'))) \<and>
    disp_closed (es_dispatcher (vm_events (vmClose v'))) \<and> vmClose (vmClose v') = vmClose v'"
  using close_releases_once [OF assms(1-4), of v' q] assms(5-10) reachable_cleanup [OF assms(7)] by simp

theorem session_releases_witness:
  "\<exists>cb b. buildMachine sampleBuildEnv sampleBuildConfig ''/tmp/s'' sampleBuildOS = (Inr cb, b) \<and>
     (let v = sampleVM\<lparr>vm_cleanup := Some cb, vm_builder := b\<rparr>; v' = rd_vm (runStart v)
      in nodeAt (vm_os (vmClose v')) ''/tmp/s/socks'' = None \<and> vmClose (vmClose v') = vmClose v')"
proof -
  obtain cb b where b: "buildMachine sampleBuildEnv sampleBuildConfig ''/tmp/s'' sampleBuildOS = (Inr cb, b)"
    using sample_build_ok by (auto simp: ok_iff) (metis prod.collapse)
  let ?v = "sampleVM\<lparr>vm_cleanup := Some cb, vm_builder := b\<rparr>"
  have p: "imagePath ''/tmp/s''" "under ''/tmp/s'' ''/tmp/s/socks''" "\<not> os_fault sampleBuildOS ''remove'' ''/tmp/s''"
    "''/tmp/s'' \<noteq> ''/''"
    by code_simp+
  have "vm_os (rd_vm (runStart ?v)) = sampleBuildOS" by (simp add: runStart_def vmEmit_def sampleVM_def)
  then have "rd_vm (runStart ?v) = (rd_vm (runStart ?v))\<lparr>vm_os := sampleBuildOS\<rparr>" by simp
  from session_releases [OF sample_env_keeps p(1,4) b _ _ run_starts p(3) disjI2 [OF p(2)] this] b
  show ?thesis by (simp add: Let_def)
qed

text \<open>Two weaknesses. The machine can still be booted after the session was cancelled: \<open>select\<close> may take
  either ready case. And a signal that was announced stays ready to receive from, so that the
  monitor goes round without waiting until the last of the three is given.\<close>

lemma boots_after_cancel:
  "\<exists>s t. run_reachable sampleKrunEnv sampleVM s \<and> rd_ctx s \<and> rd_main s = Selecting \<and>
     live_step sampleKrunEnv Host s t \<and> rd_main t = Booting"
proof -
  let ?s = "runTold\<lparr>rd_ctx := True\<rparr>"
  have "live_step sampleKrunEnv World runTold ?s"
    unfolding live_step_def using caller_cancels [of runTold] runTold_reachable by simp
  then have "run_reachable sampleKrunEnv sampleVM ?s" using run_goes_on runTold_reachable by blast
  moreover have "live_step sampleKrunEnv Host ?s (?s\<lparr>rd_main := Booting, rd_boots := Suc (rd_boots ?s)\<rparr>)"
    unfolding live_step_def using main_boots [of ?s] runTold_reachable by simp
  ultimately show ?thesis
    using runTold_reachable by (intro exI [of _ ?s] exI [of _ "?s\<lparr>rd_main := Booting, rd_boots := Suc (rd_boots ?s)\<rparr>"]) simp
qed

lemma monitor_spins:
  assumes "mo_running (rd_mon s)" and "mo_network (rd_mon s)" and "\<not> monitorDone (rd_mon s)"
    and "run_reachable kenv v s"
  shows "run_step kenv Host s s"
  using monitor_goes_on [OF monitor_network [of s s], of kenv] assms reachable_ok [OF assms(4)] by (simp add: monitorOk_def)

end
