(* ===== verification/Cli.thy ===== *)
theory Cli
  imports Run_Docker
begin

text \<open>
  The command line of the host, \<open>cmd/revm\<close>: \<open>init\<close> writes a configuration file, \<open>start\<close> merges its
  flags with that file and runs a session, \<open>attach\<close> reaches a running session over SSH, and \<open>main\<close>
  turns the result into an exit status. The flags come parsed (\<open>urfave/cli\<close>); an \<open>Int8\<close> flag is an
  8-bit word.
\<close>

definition vmConfigFilePath :: string where
  "vmConfigFilePath = ''/tmp/vmcfg-afd8c036e065.json''"

subsection \<open>init (init.go)\<close>

text \<open>The flags that are read. \<open>boot\<close>, \<open>boot-version\<close> and \<open>ppid\<close> are accepted and ignored.\<close>

record initFlags =
  if_cpus :: int
  if_memory :: u64
  if_workspace :: string
  if_dataVersion :: string
  if_reportURL :: string
  if_volumes :: "string list"
  if_name :: string

definition baseDir :: "string \<Rightarrow> initFlags \<Rightarrow> string" where
  "baseDir cwd f = Abs cwd (Clean (Join [if_workspace f, if_name f]))"

definition initConfig :: "string \<Rightarrow> initFlags \<Rightarrow> Config" where
  "initConfig cwd f =
     (let base = baseDir cwd f;
          varDiskVersion = (if if_dataVersion f = [] then DefaultRawDiskVersion else if_dataVersion f)
      in emptyConfig\<lparr>
           SessionID := DefaultOVMSessionID,
           cfg_RunMode := ModeCfgGen,
           ExternalDisks := [\<lparr>RawDiskPath = Join [base, ''data'', ''source.ext4''], rd_UUID = OVMSourceDiskUUID,
             rd_Mnt = Join [''/mnt'', OVMSourceDiskUUID], rd_Version = DefaultRawDiskVersion\<rparr>],
           VarDisk := \<lparr>RawDiskPath = Join [base, ''data'', ''data.img''], rd_UUID = VarDataDiskUUID,
             rd_Mnt = VarDiskMountPoint, rd_Version = varDiskVersion\<rparr>,
           LogLevel := ''info'',
           LogTo := Join [base, ''logs'', ''ovm.log''],
           SSHKeyPrivateFileSymbolLinks := Join [base, ''data'', ''sshkey''],
           SSHKeyPublicFileSymbolLinks := Join [base, ''data'', ''sshkey.pub''],
           PodmanProxyAPIFile := Join [base, ''socks'', ''podman-api.sock''],
           ManageAPIFile := Join [base, ''socks'', ''ovm_restapi.socks''],
           cfg_Mounts := if_volumes f,
           CPUs := if_cpus f,
           MemoryMB := if_memory f,
           ReportURL := if_reportURL f\<rparr>)"

definition generateOVMCfgAction :: "vm_env \<Rightarrow> initFlags \<Rightarrow> OS \<Rightarrow> unit res \<times> OS \<times> eventState" where
  "generateOVMCfgAction env f s = GenerateVMConfig env (initConfig (os_cwd s) f) vmConfigFilePath s"

subsection \<open>start (start.go)\<close>

record startFlags =
  sf_id :: string
  sf_logLevel :: string
  sf_logTo :: string
  sf_cpus :: u8
  sf_memory :: u64
  sf_network :: string
  sf_proxy :: bool
  sf_envs :: "string list"
  sf_disks :: "string list"
  sf_mounts :: "string list"
  sf_forwards :: "string list"
  sf_varDisk :: string
  sf_podmanAPI :: string
  sf_manageAPI :: string
  sf_sshPrivate :: string
  sf_sshPublic :: string
  sf_reportEvents :: string
  sf_reportURL :: string

text \<open>The configuration the flags alone give. Disks without a UUID draw one.\<close>

definition flagsConfig :: "startFlags \<Rightarrow> OS \<Rightarrow> Config \<times> OS" where
  "flagsConfig f s =
     (let c = DefaultConfig (os_home s) (sf_id f);
          c = WithLogLevelAndLogFile c (sf_logLevel f) (sf_logTo f);
          c = WithMode c ModeContainer;
          c = WithCPUs c (sint (sf_cpus f));
          c = WithMemory c (sf_memory f);
          c = WithNetwork c (sf_network f);
          c = WithProxy c (sf_proxy f);
          c = WithEnv c (sf_envs f)
      in case WithDisk c (sf_disks f) s of
           (c, s') \<Rightarrow>
             (let c = WithMount c (sf_mounts f);
                  c = WithForwardUnix c (sf_forwards f);
                  c = WithVarDataDisk c (sf_varDisk f);
                  c = WithPodmanProxyAPIFile c (sf_podmanAPI f);
                  c = WithManageAPIFile c (sf_manageAPI f);
                  c = WithExportSSHKeyPrivateFile c (sf_sshPrivate f);
                  c = WithExportSSHKeyPublicFile c (sf_sshPublic f);
                  c = WithReportEndpoint c (sf_reportEvents f);
                  c = WithReportEndpoint c (sf_reportURL f)
              in (c, s')))"

text \<open>The configuration of the session: the file of \<open>init\<close>, when it can be loaded, goes over the flags.\<close>

definition startConfig :: "(string \<Rightarrow> Config res) \<Rightarrow> startFlags \<Rightarrow> OS \<Rightarrow> Config \<times> OS" where
  "startConfig toml f s =
     (case flagsConfig f s of
        (c, s') \<Rightarrow>
          (case LoadFile toml vmConfigFilePath s' of
             (Inl _, s'') \<Rightarrow> (c, s'')
           | (Inr other, s'') \<Rightarrow> (OverwriteCfgFrom c other, s'')))"

text \<open>\<open>dockerLifeCycle\<close>: up to the point where the goroutines run, and the deferred \<open>Close\<close>.\<close>

definition dockerStart :: "vm_env \<Rightarrow> (string \<Rightarrow> Config res) \<Rightarrow> startFlags \<Rightarrow> OS \<Rightarrow> (goerr \<times> OS) + run" where
  "dockerStart env toml f s =
     (case startConfig toml f s of
        (cfg, s1) \<Rightarrow>
          (case vm_New env (Some cfg) s1 of
             (Inl e, s2) \<Rightarrow> Inl (e, s2)
           | (Inr v, _) \<Rightarrow>
               (case vmInit env v of
                  (Inl e, v') \<Rightarrow> Inl (e, vm_os (vmClose v'))
                | (Inr _, v') \<Rightarrow> Inr (runStart v'))))"

definition dockerEnd :: "run \<Rightarrow> VM" where
  "dockerEnd r = vmClose (rd_vm r)"

subsection \<open>attach (attach.go)\<close>

definition attachConsole ::
    "(string \<Rightarrow> bool) \<Rightarrow> transport \<Rightarrow> string res \<Rightarrow> ssh_env \<Rightarrow> (string list \<Rightarrow> string) \<Rightarrow> string \<Rightarrow> bool \<Rightarrow> string list
      \<Rightarrow> (sshWorld, unit) proc" where
  "attachConsole levels peer home env quote level0 pty args w =
     (let level = (if level0 = [] then ''info'' else level0);
          name = (case args of [] \<Rightarrow> [] | a # _ \<Rightarrow> a)
      in if \<not> levels level then (Inl (Wrap ''failed to parse log level'' (Errorf ''not a valid level'')), w)
         else if name = [] then (Inl (Errorf ''no session name specified''), w)
         else case Attach peer home name of
                Inl e \<Rightarrow> (Inl e, w)
              | Inr attached \<Rightarrow>
                  if pty then attachedShell env attached w
                  else attachedRun env quote attached (tl args) w)"

subsection \<open>The exit status (main.go)\<close>

definition revmExit :: "unit res \<Rightarrow> int" where
  "revmExit r =
     (case r of
        Inr _ \<Rightarrow> 0
      | Inl e \<Rightarrow> (case errCause e of ErrExit code \<Rightarrow> code | _ \<Rightarrow> 1))"

subsection \<open>What init writes is what start runs with\<close>

lemma os_ReadFile_uuids: "os_ReadFile p (s\<lparr>os_uuids := us\<rparr>) = (fst (os_ReadFile p s), s\<lparr>os_uuids := us\<rparr>)"
proof -
  have "follow n (s\<lparr>os_uuids := us\<rparr>) k = follow n s k" for n k
    by (induction n arbitrary: k) (auto simp: nodeAt_def split: option.splits node.splits)
  then show ?thesis
    by (auto simp: os_ReadFile_def Let_def osKey_def nodeAt_def isDirAt_def absent_def split: option.splits node.splits)
qed

lemma WithDisk_uuids: "\<exists>us. snd (WithDisk c specs s) = s\<lparr>os_uuids := us\<rparr>"
proof (induction c specs s rule: WithDisk.induct)
  case (1 c s)
  then show ?case by (intro exI [of _ "os_uuids s"]) simp
next
  case (2 c raw specs s)
  show ?case
  proof (cases "TrimSpace raw = []")
    case True
    with 2(1) show ?thesis by simp
  next
    case False
    obtain d s' where p: "parseDiskSpec (TrimSpace raw) s = (d, s')" by fastforce
    then have "\<exists>us. s' = s\<lparr>os_uuids := us\<rparr>"
      by (auto simp: parseDiskSpec_def Let_def uuid_NewString_def split: if_splits prod.splits list.splits
          intro: exI [of _ "os_uuids s"])
    with 2(2) [OF refl False p [symmetric]] p False show ?thesis by auto
  qed
qed

lemma flagsConfig_uuids: "\<exists>us. snd (flagsConfig f s) = s\<lparr>os_uuids := us\<rparr>"
  unfolding flagsConfig_def Let_def using WithDisk_uuids by (auto simp: case_prod_unfold)

lemma trim_Join:
  assumes "IsAbs w" and "ns \<noteq> []" and "list_all nameElem ns" and "\<not> isSpace (last (last ns))"
  shows "TrimSpace (Join (w # ns)) = Join (w # ns)"
proof -
  have "last (JoinWith sep ns) = last (last ns)"
    using assms(2,3)
    by (induction sep ns rule: JoinWith.induct) (auto simp: nameElem_def JoinWith_eq_Nil)
  moreover have "JoinWith sep ns \<noteq> []"
    using assms(2,3) by (auto simp: JoinWith_eq_Nil nameElem_def)
  moreover have "hd (Clean w) = sep" and "Clean w \<noteq> []"
    using assms(1) IsAbs_Clean [of w] by (auto simp: IsAbs_def HasPrefix_iff)
  ultimately show ?thesis
    using assms(4) unfolding Join_names_under(2) [OF assms(1-3)]
    by (intro TrimSpace_id) (auto simp: isSpace_def)
qed

lemma init_paths:
  assumes "IsAbs cwd" and "d = initConfig cwd f"
  shows "TrimSpace (LogTo d) = LogTo d" and "TrimSpace (RawDiskPath (VarDisk d)) = RawDiskPath (VarDisk d)"
    and "TrimSpace (PodmanProxyAPIFile d) = PodmanProxyAPIFile d" and "TrimSpace (ManageAPIFile d) = ManageAPIFile d"
    and "TrimSpace (SSHKeyPrivateFileSymbolLinks d) = SSHKeyPrivateFileSymbolLinks d"
    and "TrimSpace (SSHKeyPublicFileSymbolLinks d) = SSHKeyPublicFileSymbolLinks d"
    and "list_all (\<lambda>p. p \<noteq> []) [LogTo d, RawDiskPath (VarDisk d), PodmanProxyAPIFile d, ManageAPIFile d,
      SSHKeyPrivateFileSymbolLinks d, SSHKeyPublicFileSymbolLinks d]"
proof -
  have base: "IsAbs (baseDir cwd f)" using assms(1) by (simp add: baseDir_def IsAbs_Abs)
  have p: "TrimSpace (Join [baseDir cwd f, a, b]) = Join [baseDir cwd f, a, b]" "Join [baseDir cwd f, a, b] \<noteq> []"
    if "nameElem a" "nameElem b" "\<not> isSpace (last b)" for a b
    using trim_Join [OF base, of "[a, b]"] IsAbs_Join_names [OF base, of "[a, b]"] that by auto
  show "TrimSpace (LogTo d) = LogTo d" and "TrimSpace (RawDiskPath (VarDisk d)) = RawDiskPath (VarDisk d)"
    and "TrimSpace (PodmanProxyAPIFile d) = PodmanProxyAPIFile d" and "TrimSpace (ManageAPIFile d) = ManageAPIFile d"
    and "TrimSpace (SSHKeyPrivateFileSymbolLinks d) = SSHKeyPrivateFileSymbolLinks d"
    and "TrimSpace (SSHKeyPublicFileSymbolLinks d) = SSHKeyPublicFileSymbolLinks d"
    and "list_all (\<lambda>p. p \<noteq> []) [LogTo d, RawDiskPath (VarDisk d), PodmanProxyAPIFile d, ManageAPIFile d,
      SSHKeyPrivateFileSymbolLinks d, SSHKeyPublicFileSymbolLinks d]"
    unfolding assms(2) initConfig_def Let_def
    by (simp_all add: p nameElem_def isSpace_def)
qed

text \<open>Of the two report addresses, the one of the legacy flag wins.\<close>

lemma report_url_wins:
  assumes "TrimSpace (sf_reportURL f) \<noteq> []"
  shows "ReportURL (fst (flagsConfig f s)) = TrimSpace (sf_reportURL f)"
  using assms by (simp add: flagsConfig_def WithReportEndpoint_def Let_def case_prod_unfold)

text \<open>The merge, field by field, with a file that \<open>init\<close> wrote.\<close>

lemma merge_init:
  assumes "IsAbs cwd" and "d = initConfig cwd f"
  shows "OverwriteCfgFrom c d = c\<lparr>SessionID := DefaultOVMSessionID,
    CPUs := (if 0 < if_cpus f then if_cpus f else CPUs c),
    MemoryMB := (if 0 < if_memory f then if_memory f else MemoryMB c),
    VarDisk := VarDisk d, ExternalDisks := ExternalDisks d,
    cfg_Mounts := (if if_volumes f \<noteq> [] then if_volumes f else cfg_Mounts c),
    PodmanProxyAPIFile := PodmanProxyAPIFile d, ManageAPIFile := ManageAPIFile d,
    SSHKeyPrivateFileSymbolLinks := SSHKeyPrivateFileSymbolLinks d,
    SSHKeyPublicFileSymbolLinks := SSHKeyPublicFileSymbolLinks d,
    LogLevel := ''info'', LogTo := LogTo d\<rparr>"
proof -
  note p = init_paths [OF assms]
  have t: "TrimSpace ''info'' = ''info''" "TrimSpace DefaultOVMSessionID = DefaultOVMSessionID"
    "DefaultOVMSessionID \<noteq> []" by code_simp+
  have d: "SessionID d = DefaultOVMSessionID" "CPUs d = if_cpus f" "MemoryMB d = if_memory f"
    "ExternalDisks d \<noteq> []" "cfg_Mounts d = if_volumes f" "ForwardUnix d = []" "LogLevel d = ''info''"
    by (simp_all add: assms(2) initConfig_def Let_def emptyConfig_def)
  show ?thesis
    using p(7) by (simp add: OverwriteCfgFrom_def trimmedOr_def p(1-6) t d)
qed

text \<open>The file goes over the flags, field by field; \<open>docs/oomol-studio.md\<close>, section 4, has it the other
  way round. So they agree on the starts that leave \<open>init\<close>'s settings to it, as in section 6.2 of that
  document: the options that are also settings of the file have their defaults, and only the others
  are given.\<close>

definition leavesToInit :: "startFlags \<Rightarrow> bool" where
  "leavesToInit g \<longleftrightarrow> sf_id g = [] \<and> sf_logLevel g = ''info'' \<and> sf_logTo g = [] \<and> sf_cpus g = 0 \<and>
     sf_memory g = 0 \<and> sf_disks g = [] \<and> sf_mounts g = [] \<and> sf_varDisk g = [] \<and> sf_podmanAPI g = [] \<and>
     sf_manageAPI g = [] \<and> sf_sshPrivate g = [] \<and> sf_sshPublic g = []"

lemma init_start_merge:
  assumes "generateOVMCfgAction env f s = (Inr (), t, ev)"
    and "IsAbs (os_cwd s)" and "asciiConfig (initConfig (os_cwd s) f)"
    and "- (2 ^ 63) \<le> if_cpus f" and "if_cpus f < 2 ^ 63"
    and "fst (os_ReadFile vmConfigFilePath s') = fst (os_ReadFile vmConfigFilePath t)"
    and "d = initConfig (os_cwd s) f" and "c = fst (flagsConfig g s')"
  shows "fst (startConfig toml g s') = OverwriteCfgFrom c d"
proof -
  obtain s1 where "WriteCfg d vmConfigFilePath s1 = (Inr (), t)"
    using assms(1) by (auto simp: generateOVMCfgAction_def GenerateVMConfig_def Let_def assms(7)
        split: prod.splits sum.splits)
  moreover have ext: "ToLower (Ext vmConfigFilePath) = ''.json''" by code_simp
  moreover have "CPUs d = if_cpus f" by (simp add: assms(7) initConfig_def Let_def)
  ultimately have load: "LoadFile toml vmConfigFilePath t = (Inr d, t)"
    using assms(3-5) by (intro written_config_loads) (simp_all add: assms(7))
  obtain us where u: "snd (flagsConfig g s') = s'\<lparr>os_uuids := us\<rparr>" using flagsConfig_uuids by blast
  have "fst (LoadFile toml vmConfigFilePath (s'\<lparr>os_uuids := us\<rparr>)) = Inr d"
    using load assms(6) by (auto simp: LoadFile_def os_ReadFile_uuids Let_def split: sum.splits prod.splits)
  then show ?thesis
    using u by (auto simp: startConfig_def assms(8) split: prod.splits sum.splits)
qed

lemma left_flags:
  assumes "leavesToInit g"
  shows "CPUs (fst (flagsConfig g s)) = 0" and "MemoryMB (fst (flagsConfig g s)) = 0"
    and "cfg_Mounts (fst (flagsConfig g s)) = []"
  using assms
  by (simp_all add: flagsConfig_def leavesToInit_def Let_def TrimSpace_def DefaultConfig_def WithCPUs_def WithMemory_def
      WithLogLevelAndLogFile_def WithMode_def WithNetwork_def WithProxy_def WithEnv_def
      WithMount_def WithForwardUnix_def WithVarDataDisk_def WithPodmanProxyAPIFile_def WithManageAPIFile_def
      WithExportSSHKeyPrivateFile_def WithExportSSHKeyPublicFile_def WithReportEndpoint_def emptyConfig_def)


definition sampleInit :: initFlags where
  "sampleInit = \<lparr>if_cpus = 2, if_memory = 1024, if_workspace = ''/w'', if_dataVersion = [],
     if_reportURL = [], if_volumes = [''/a:/b''], if_name = ''vm''\<rparr>"

definition sampleStart :: startFlags where
  "sampleStart = \<lparr>sf_id = [], sf_logLevel = ''info'', sf_logTo = [], sf_cpus = 0, sf_memory = 0,
     sf_network = ''tsi'', sf_proxy = False, sf_envs = [], sf_disks = [], sf_mounts = [], sf_forwards = [],
     sf_varDisk = [], sf_podmanAPI = [], sf_manageAPI = [], sf_sshPrivate = [], sf_sshPublic = [],
     sf_reportEvents = [], sf_reportURL = ''unix:///r.sock''\<rparr>"

lemma sample_init_paths:
  "baseDir ''/work'' sampleInit = ''/w/vm''"
  "Join [''/w/vm'', ''data'', ''source.ext4''] = ''/w/vm/data/source.ext4''"
  "Join [''/mnt'', OVMSourceDiskUUID] = ''/mnt/44f7d1c0-122c-4402-a20e-c1166cbbad6d''"
  "Join [''/w/vm'', ''data'', ''data.img''] = ''/w/vm/data/data.img''"
  "Join [''/w/vm'', ''logs'', ''ovm.log''] = ''/w/vm/logs/ovm.log''"
  "Join [''/w/vm'', ''data'', ''sshkey''] = ''/w/vm/data/sshkey''"
  "Join [''/w/vm'', ''data'', ''sshkey.pub''] = ''/w/vm/data/sshkey.pub''"
  "Join [''/w/vm'', ''socks'', ''podman-api.sock''] = ''/w/vm/socks/podman-api.sock''"
  "Join [''/w/vm'', ''socks'', ''ovm_restapi.socks''] = ''/w/vm/socks/ovm_restapi.socks''"
  by code_simp+

lemma sample_init_ascii: "asciiConfig (initConfig ''/work'' sampleInit)"
  unfolding initConfig_def sample_init_paths Let_def
  by (simp add: asciiConfig_def encConfig_def configFields_def encRawDisk_def rawDiskFields_def
      emptyConfig_def emptyRawDisk_def sampleInit_def DefaultOVMSessionID_def ModeCfgGen_def OVMSourceDiskUUID_def
      DefaultRawDiskVersion_def VarDataDiskUUID_def VarDiskMountPoint_def ascii_def plain_obj)

lemma sample_init_ok: "\<exists>t ev. generateOVMCfgAction sampleVmEnv sampleInit sampleOS = (Inr (), t, ev)"
proof -
  let ?d = "initConfig ''/work'' sampleInit"
  let ?log = "setupLoggers (\<lambda>l. Inr l :: string res) ''info'' ''/w/vm/logs/ovm.log'' DefaultOVMSessionID sampleOS"
  let ?s = "snd ?log"
  have cwd: "os_cwd sampleOS = ''/work''" by code_simp
  have d: "LogLevel ?d = ''info''" "LogTo ?d = ''/w/vm/logs/ovm.log''" "SessionID ?d = DefaultOVMSessionID"
    by (simp_all add: initConfig_def Let_def sample_init_paths)
  have "ok (fst ?log)" by code_simp
  then obtain l s1 where log: "?log = (Inr l, s1)" by (auto simp: ok_iff) (metis prod.collapse)
  then have s1: "?s = s1" by simp
  have "let k = vmConfigFilePath; u = snd (os_MkdirAll (Dir k) ?s) in ok (fst (os_MkdirAll (Dir k) ?s)) \<and>
      osKey u k = k \<and> follow maxLinks u k = Some k \<and> nodeAt u k = None \<and> isDirAt u (Dir k) \<and> \<not> os_fault u ''open'' k \<and> k \<noteq> []"
    by code_simp
  then have "ok (fst (WriteCfg ?d vmConfigFilePath ?s))"
    by (auto simp: WriteCfg_def proc_defs os_WriteFile_def openWrite_def Let_def ok_iff split: prod.splits sum.splits)
  then obtain t where "WriteCfg ?d vmConfigFilePath s1 = (Inr (), t)"
    unfolding s1 by (auto simp: ok_iff) (metis prod.collapse)
  then show ?thesis
    using log by (simp add: generateOVMCfgAction_def GenerateVMConfig_def cwd d sampleVmEnv_def wrapping_def wrapErr_def Let_def)
qed


end
