(* ===== verification/Host_System.thy ===== *)
theory Host_System
  imports Stop_Signal
begin

text \<open>
  \<open>pkg/system\<close> and the macOS half of \<open>pkg/filesystem\<close>: the version of the system
  (\<open>system_linux.go\<close>, \<open>system_darwin.go\<close>), limits and memory (\<open>rlimit.go\<close>), the mode of the
  terminal and its resizing (\<open>terminal.go\<close>), and extended attributes by way of \<open>/usr/bin/xattr\<close>
  (\<open>xattr.go\<close>), which are shown to be those of \<open>xattr_linux.go\<close>.
\<close>

subsection \<open>Extended attributes on macOS (xattr.go)\<close>

text \<open>The program \<open>/usr/bin/xattr\<close> is a parameter: given its arguments it changes the system and
  prints something or fails.\<close>

type_synonym xattr_bin = "string list \<Rightarrow> (OS, string) proc"

definition darwin_GetXattr :: "xattr_bin \<Rightarrow> string \<Rightarrow> string \<Rightarrow> (OS, string) proc" where
  "darwin_GetXattr bin blkPath0 namespace s =
     (let blkPath = Abs (os_cwd s) (Clean blkPath0)
      in andThen (wrapping ''getxattr'' (bin [''-p'', namespace, blkPath])) (\<lambda>value.
         succeed (TrimSpace value)) s)"

definition darwin_SetXattr :: "xattr_bin \<Rightarrow> string \<Rightarrow> string \<Rightarrow> string \<Rightarrow> bool \<Rightarrow> (OS, unit) proc" where
  "darwin_SetXattr bin blkPath0 namespace val overwrite s =
     (if namespace = [] then (Inl (Errorf ''xattr key cannot be empty''), s)
      else if \<not> HasPrefix namespace ''user.vm.''
      then (Inl (Errorf ''xattr key must start with user.vm.''), s)
      else if val = [] then (Inl (Errorf ''xattr value cannot be empty''), s)
      else
        let blkPath = Abs (os_cwd s) (Clean blkPath0)
        in case darwin_GetXattr bin blkPath namespace s of
             (r, t) \<Rightarrow>
               if (case r of Inr existValue \<Rightarrow> existValue \<noteq> [] | Inl _ \<Rightarrow> False) \<and> \<not> overwrite
               then (Inr (), t)
               else andThen (wrapping ''setxattr'' (bin [''-w'', namespace, val, blkPath])) (\<lambda>_. succeed ()) t)"

text \<open>What the manual page says of the program: \<open>-p\<close> prints the value of the attribute and a
  newline and changes nothing, \<open>-w\<close> sets the attribute; each fails when the system call fails.\<close>

definition xattrTool :: "xattr_bin \<Rightarrow> bool" where
  "xattrTool bin \<longleftrightarrow>
     (\<forall>ns p s. \<exists>g. bin [''-p'', ns, p] s =
        (case fst (sys_Getxattr p ns s) of Inl e \<Rightarrow> Inl (g e) | Inr v \<Rightarrow> Inr (v @ [CHR 0x0A]), s)) \<and>
     (\<forall>ns v p s. \<exists>g out. bin [''-w'', ns, v, p] s =
        (case sys_Setxattr p ns v s of (Inl e, t) \<Rightarrow> (Inl (g e), t) | (Inr _, t) \<Rightarrow> (Inr out, t)))"

text \<open>The tool as a function of the two system calls.\<close>

fun sysXattr :: xattr_bin where
  "sysXattr [op, ns, p] s =
     (case sys_Getxattr p ns s of
        (Inl e, t) \<Rightarrow> (Inl (Wrap ''exit status 1'' e), t) | (Inr v, t) \<Rightarrow> (Inr (v @ [CHR 0x0A]), t))"
| "sysXattr [op, ns, v, p] s =
     (case sys_Setxattr p ns v s of
        (Inl e, t) \<Rightarrow> (Inl (Wrap ''exit status 1'' e), t) | (Inr _, t) \<Rightarrow> (Inr [], t))"
| "sysXattr args s = (Inl (ErrLib ''usage''), s)"

lemma sysXattr_tool: "xattrTool sysXattr"
proof -
  have "sysXattr [''-p'', ns, p] s =
      (case fst (sys_Getxattr p ns s) of Inl e \<Rightarrow> Inl (Wrap ''exit status 1'' e) | Inr v \<Rightarrow> Inr (v @ [CHR 0x0A]), s)" for ns p s
    by (simp add: sys_Getxattr_def Let_def split: sum.split)
  moreover have "sysXattr [''-w'', ns, v, p] s = (case sys_Setxattr p ns v s of
      (Inl e, t) \<Rightarrow> (Inl (Wrap ''exit status 1'' e), t) | (Inr _, t) \<Rightarrow> (Inr [], t))" for ns v p s
    by simp
  ultimately show ?thesis unfolding xattrTool_def by blast
qed

lemma TrimSpace_line: "TrimSpace (v @ [CHR 0x0A]) = TrimSpace v"
proof (cases "dropWhile isSpace v = []")
  case True
  then have "dropWhile isSpace (v @ [CHR 0x0A]) = dropWhile isSpace [CHR 0x0A]"
    by (intro dropWhile_append2) simp
  also have "\<dots> = []" by (simp add: isSpace_def)
  finally show ?thesis by (simp only: TrimSpace_def True)
next
  case False
  then have "dropWhile isSpace (v @ [CHR 0x0A]) = dropWhile isSpace v @ [CHR 0x0A]"
    by (simp add: dropWhile_append)
  then show ?thesis by (simp add: TrimSpace_def isSpace_def)
qed

lemma sys_Getxattr_result: "sys_Getxattr p ns s = (fst (sys_Getxattr p ns s), s)"
  by (simp add: sys_Getxattr_def Let_def)

lemma darwin_get:
  assumes "xattrTool bin"
  shows "(case GetXattr p ns s of
      (Inr v, t) \<Rightarrow> darwin_GetXattr bin p ns s = (Inr (TrimSpace v), t)
    | (Inl e, t) \<Rightarrow> \<exists>e'. darwin_GetXattr bin p ns s = (Inl e', t))"
proof -
  let ?p = "Abs (os_cwd s) (Clean p)"
  obtain g where g: "bin [''-p'', ns, ?p] s =
      (case fst (sys_Getxattr ?p ns s) of Inl e \<Rightarrow> Inl (g e) | Inr v \<Rightarrow> Inr (v @ [CHR 0x0A]), s)"
    using assms unfolding xattrTool_def by blast
  show ?thesis
    using g sys_Getxattr_result [of ?p ns s]
    by (cases "fst (sys_Getxattr ?p ns s)")
      (auto simp: GetXattr_def darwin_GetXattr_def wrapping_def andThen_def succeed_def Let_def TrimSpace_line split: prod.splits)
qed

text \<open>A stored value of white space counts as no value on macOS, so a call that must not overwrite needs it
  excluded; the program always overwrites.\<close>

lemma darwin_set:
  assumes "xattrTool bin"
    and "overwrite \<or> (\<forall>v. fst (GetXattr (Abs (os_cwd s) (Clean p)) ns s) = Inr v \<longrightarrow> TrimSpace v = [] \<longrightarrow> v = [])"
  shows "ok (fst (darwin_SetXattr bin p ns val overwrite s)) = ok (fst (SetXattr p ns val overwrite s)) \<and>
    snd (darwin_SetXattr bin p ns val overwrite s) = snd (SetXattr p ns val overwrite s)"
proof -
  let ?p = "Abs (os_cwd s) (Clean p)"
  let ?some = "\<lambda>r :: string res. case r of Inr v \<Rightarrow> v \<noteq> [] | Inl _ \<Rightarrow> False"
  obtain g out where w: "bin [''-w'', ns, val, ?p] s = (case sys_Setxattr ?p ns val s of
      (Inl e, t) \<Rightarrow> (Inl (g e), t) | (Inr _, t) \<Rightarrow> (Inr out, t))"
    using assms(1) unfolding xattrTool_def by blast
  have "snd (GetXattr ?p ns s) = s"
    by (simp add: GetXattr_def wrapping_def sys_Getxattr_def Let_def)
  then obtain r where get: "GetXattr ?p ns s = (r, s)" by (metis prod.collapse)
  have "\<exists>r'. darwin_GetXattr bin ?p ns s = (r', s) \<and> (overwrite \<or> ?some r' = ?some r)"
    using darwin_get [OF assms(1), of ?p ns s] assms(2) unfolding get by (cases r) auto
  then obtain r' where d: "darwin_GetXattr bin ?p ns s = (r', s)" and same: "overwrite \<or> ?some r' = ?some r"
    by blast
  show ?thesis
    using same
    by (auto simp: darwin_SetXattr_def SetXattr_def Let_def andThen_def wrapping_def succeed_def w d get
        split: prod.splits sum.splits)
qed

text \<open>C39. The two implementations of extended attributes agree. With the macOS tool as documented, reading
  on macOS gives the value that Linux gives, white space around it removed, and fails where Linux
  fails; writing succeeds on the same inputs and leaves the same attributes; and neither reads
  nor writes anything else.\<close>

theorem darwin_xattrs_agree:
  assumes "xattrTool bin"
    and "overwrite \<or> (\<forall>v. fst (GetXattr (Abs (os_cwd s) (Clean p)) ns s) = Inr v \<longrightarrow> TrimSpace v = [] \<longrightarrow> v = [])"
  shows "(case GetXattr p ns s of
      (Inr v, t) \<Rightarrow> darwin_GetXattr bin p ns s = (Inr (TrimSpace v), t)
    | (Inl e, t) \<Rightarrow> \<exists>e'. darwin_GetXattr bin p ns s = (Inl e', t)) \<and>
    ok (fst (darwin_SetXattr bin p ns val overwrite s)) = ok (fst (SetXattr p ns val overwrite s)) \<and>
    snd (darwin_SetXattr bin p ns val overwrite s) = snd (SetXattr p ns val overwrite s)"
  by (intro conjI darwin_get [OF assms(1)] conjunct1 [OF darwin_set [OF assms]] conjunct2 [OF darwin_set [OF assms]])

definition xattrOS :: OS where
  "xattrOS = sampleOS\<lparr>os_fs := [(''/d.img'', File ''raw'' [(''user.vm.rawdisk.version'', '' v1 '')])]\<rparr>"

theorem darwin_xattrs_agree_witness:
  "darwin_GetXattr sysXattr ''/d.img'' ''user.vm.rawdisk.version'' xattrOS = (Inr ''v1'', xattrOS) \<and>
   ok (fst (darwin_SetXattr sysXattr ''/d.img'' ''user.vm.rawdisk.version'' ''v2'' True xattrOS))"
proof -
  have "fst (GetXattr ''/d.img'' ''user.vm.rawdisk.version'' xattrOS) = Inr '' v1 ''"
    and s: "ok (fst (SetXattr ''/d.img'' ''user.vm.rawdisk.version'' ''v2'' True xattrOS))"
    and t: "TrimSpace '' v1 '' = ''v1''"
    by code_simp+
  then have g: "GetXattr ''/d.img'' ''user.vm.rawdisk.version'' xattrOS = (Inr '' v1 '', xattrOS)"
    by (auto simp: GetXattr_def wrapping_def sys_Getxattr_def Let_def)
  show ?thesis
    using darwin_xattrs_agree [OF sysXattr_tool disjI1, where overwrite = True and s = xattrOS and p = "''/d.img''"
      and ns = "''user.vm.rawdisk.version''" and val = "''v2''"] s
    by (simp add: g t)
qed

subsection \<open>The version of the system on Linux (system_linux.go)\<close>

record OSInfo =
  oi_ProductName :: string
  oi_ProductVersion :: string
  oi_ProductBuildVersion :: string

definition noOSInfo :: OSInfo where
  "noOSInfo = \<lparr>oi_ProductName = [], oi_ProductVersion = [], oi_ProductBuildVersion = []\<rparr>"

definition trimQuotes :: "string \<Rightarrow> string" where
  "trimQuotes v = rev (dropWhile (\<lambda>c. c = CHR 0x22) (rev (dropWhile (\<lambda>c. c = CHR 0x22) v)))"

definition osReleaseLine :: "OSInfo \<Rightarrow> string \<Rightarrow> OSInfo" where
  "osReleaseLine info line =
     (case Cut line (CHR ''='') of (key, value0, found) \<Rightarrow>
        if \<not> found then info
        else
          let value = trimQuotes value0
          in if key = ''NAME'' then info\<lparr>oi_ProductName := value\<rparr>
             else if key = ''VERSION_ID'' then info\<lparr>oi_ProductVersion := value\<rparr>
             else if key = ''VERSION'' then info\<lparr>oi_ProductBuildVersion := value\<rparr>
             else info)"

text \<open>The scanner reports an error when a line does not fit into its buffer.\<close>

definition scanError :: "nat \<Rightarrow> string \<Rightarrow> bool" where
  "scanError limit s \<longleftrightarrow> list_ex (\<lambda>l. limit \<le> length l) (Split s (CHR 0x0A))"

definition linux_GetOSVersion :: "(OS, OSInfo) proc" where
  "linux_GetOSVersion =
     andThen (wrapping ''failed to open /etc/os-release'' (os_ReadFile ''/etc/os-release'')) (\<lambda>data.
       let info = foldl osReleaseLine noOSInfo (scanLines MaxScanTokenSize data)
       in if scanError MaxScanTokenSize data
          then failWith (Wrap ''failed to read /etc/os-release'' (ErrLib ''token too long''))
          else succeed info)"

text \<open>A file of assignments: every value quoted.\<close>

definition osReleaseText :: "(string \<times> string) list \<Rightarrow> string" where
  "osReleaseText kvs = concat (map (\<lambda>(k, v). k @ ''='' @ [CHR 0x22] @ v @ [CHR 0x22, CHR 0x0A]) kvs)"

definition lastOf :: "string \<Rightarrow> (string \<times> string) list \<Rightarrow> string" where
  "lastOf k kvs = (case map_of (rev kvs) k of None \<Rightarrow> [] | Some v \<Rightarrow> v)"

definition plainAssignment :: "string \<times> string \<Rightarrow> bool" where
  "plainAssignment = (\<lambda>(k, v). CHR ''='' \<notin> set k \<and> CHR 0x0A \<notin> set k \<and> CHR 0x0A \<notin> set v \<and>
     (v \<noteq> [] \<longrightarrow> hd v \<noteq> CHR 0x22 \<and> last v \<noteq> CHR 0x22) \<and> length k + length v + 3 < MaxScanTokenSize)"

lemma trimQuotes_quoted:
  assumes "v \<noteq> [] \<longrightarrow> hd v \<noteq> CHR 0x22 \<and> last v \<noteq> CHR 0x22"
  shows "trimQuotes (CHR 0x22 # v @ [CHR 0x22]) = v"
proof (cases v)
  case (Cons c cs)
  with assms have c: "c \<noteq> CHR 0x22" and l: "last v \<noteq> CHR 0x22" by auto
  from Cons have "rev v = last v # rev (butlast v)"
    by (metis append_butlast_last_id list.discI rev_append rev_singleton_conv append_Cons append_Nil)
  with c l Cons show ?thesis by (simp add: trimQuotes_def)
qed (simp add: trimQuotes_def)

lemma osRelease_split:
  "list_all plainAssignment kvs \<Longrightarrow>
   Split (osReleaseText kvs) (CHR 0x0A) = map (\<lambda>(k, v). k @ ''='' @ [CHR 0x22] @ v @ [CHR 0x22]) kvs @ [[]]"
proof (induction kvs)
  case Nil
  then show ?case by (simp add: osReleaseText_def)
next
  case (Cons kv kvs)
  obtain k v where kv: "kv = (k, v)" by (cases kv)
  let ?l = "k @ ''='' @ [CHR 0x22] @ v @ [CHR 0x22]"
  have "CHR 0x0A \<notin> set ?l" using Cons.prems by (auto simp: kv plainAssignment_def)
  note sp = Split_append [OF this, of "osReleaseText kvs"]
  have "osReleaseText (kv # kvs) = ?l @ CHR 0x0A # osReleaseText kvs" by (simp add: osReleaseText_def kv)
  then have "Split (osReleaseText (kv # kvs)) (CHR 0x0A) = ?l # Split (osReleaseText kvs) (CHR 0x0A)"
    by (simp only: sp)
  with Cons show ?case by (simp add: kv)
qed

lemma osReleaseLine_assignment:
  assumes "plainAssignment (k, v)"
  shows "osReleaseLine info (k @ ''='' @ [CHR 0x22] @ v @ [CHR 0x22]) =
    (if k = ''NAME'' then info\<lparr>oi_ProductName := v\<rparr>
     else if k = ''VERSION_ID'' then info\<lparr>oi_ProductVersion := v\<rparr>
     else if k = ''VERSION'' then info\<lparr>oi_ProductBuildVersion := v\<rparr> else info)"
  using assms trimQuotes_quoted [of v] by (simp add: osReleaseLine_def plainAssignment_def Let_def)

lemma osRelease_fold:
  assumes "list_all plainAssignment kvs"
  shows "foldl osReleaseLine noOSInfo (map (\<lambda>(k, v). k @ ''='' @ [CHR 0x22] @ v @ [CHR 0x22]) kvs) =
    \<lparr>oi_ProductName = lastOf ''NAME'' kvs, oi_ProductVersion = lastOf ''VERSION_ID'' kvs,
      oi_ProductBuildVersion = lastOf ''VERSION'' kvs\<rparr>"
  using assms
proof (induction kvs rule: rev_induct)
  case (snoc kv kvs)
  obtain k v where kv: "kv = (k, v)" by (cases kv)
  with snoc show ?case
    using osReleaseLine_assignment [of k v] by (auto simp: lastOf_def)
qed (simp add: noOSInfo_def lastOf_def)

text \<open>The version is read as it was written: of a file of quoted assignments every field has the last value
  given for its key, and is empty when there is none.\<close>

theorem linux_version_read:
  assumes "fst (os_ReadFile ''/etc/os-release'' s) = Inr (osReleaseText kvs)" and "list_all plainAssignment kvs"
  shows "linux_GetOSVersion s = (Inr \<lparr>oi_ProductName = lastOf ''NAME'' kvs,
    oi_ProductVersion = lastOf ''VERSION_ID'' kvs, oi_ProductBuildVersion = lastOf ''VERSION'' kvs\<rparr>, s)"
proof -
  let ?ls = "map (\<lambda>(k, v). k @ ''='' @ [CHR 0x22] @ v @ [CHR 0x22]) kvs"
  note sp = osRelease_split [OF assms(2)]
  have short: "\<forall>l \<in> set ?ls. length l < MaxScanTokenSize"
    using assms(2) by (auto simp: list_all_iff plainAssignment_def)
  then have "map dropCR (takeWhile (\<lambda>l. length l < MaxScanTokenSize) ?ls) = ?ls"
    by (subst takeWhile_eq_all_conv [THEN iffD2]) (auto simp: dropCR_def intro!: map_idI)
  then have "scanLines MaxScanTokenSize (osReleaseText kvs) = ?ls"
    by (simp add: scanLines_def sp)
  moreover have "\<not> scanError MaxScanTokenSize (osReleaseText kvs)"
    using short by (auto simp: scanError_def sp list_ex_iff MaxScanTokenSize_def)
  moreover have "os_ReadFile ''/etc/os-release'' s = (Inr (osReleaseText kvs), s)"
    using assms(1) by (simp add: os_ReadFile_def Let_def)
  ultimately show ?thesis
    using osRelease_fold [OF assms(2)]
    by (simp add: linux_GetOSVersion_def wrapping_def andThen_def succeed_def Let_def)
qed

subsection \<open>The version of the system on macOS (system_darwin.go)\<close>

text \<open>CoreFoundation is a parameter: which objects it creates, whether the stream opens, and the property
  list. Objects are counted by the events of creating and releasing them.\<close>

datatype plist = CFDictionary "(string \<times> string) list" | CFNotDictionary

record cf_env =
  cf_url :: bool
  cf_stream :: bool
  cf_open :: bool
  cf_plist :: "plist option"
  cf_error :: bool

datatype cfHandle = FileURL | ReadStream | PropertyList | ErrorRef
datatype cfEvent = Created cfHandle | Closed cfHandle | Released cfHandle

datatype sysinfo_error =
    SYSINFO_OK | SYSINFO_ERR_FILE_ACCESS | SYSINFO_ERR_STREAM_CREATE | SYSINFO_ERR_PROPERTY_LIST
  | SYSINFO_ERR_INVALID_TYPE | SYSINFO_ERR_STRING_CONVERSION

record sysinfo_cf_handles =
  h_fileURL :: bool
  h_stream :: bool
  h_propertyList :: bool

definition sysinfo_cleanup_handles :: "sysinfo_cf_handles \<Rightarrow> cfEvent list" where
  "sysinfo_cleanup_handles h =
     (if h_propertyList h then [Released PropertyList] else []) @
     (if h_stream h then [Closed ReadStream, Released ReadStream] else []) @
     (if h_fileURL h then [Released FileURL] else [])"

text \<open>\<open>CFStringGetCString\<close> needs room for the bytes and a NUL.\<close>

definition sysinfo_get_string :: "(string \<times> string) list \<Rightarrow> string \<Rightarrow> nat \<Rightarrow> string option" where
  "sysinfo_get_string dict key buf_size =
     (case map_of dict key of
        None \<Rightarrow> None
      | Some value \<Rightarrow> (if length value < buf_size then Some value else None))"

definition sysinfo_load :: "cf_env \<Rightarrow> sysinfo_error \<times> OSInfo \<times> cfEvent list" where
  "sysinfo_load env =
     (let h = \<lparr>h_fileURL = False, h_stream = False, h_propertyList = False\<rparr>
      in if \<not> cf_url env then (SYSINFO_ERR_FILE_ACCESS, noOSInfo, sysinfo_cleanup_handles h)
         else
           let h = h\<lparr>h_fileURL := True\<rparr>; ev = [Created FileURL]
           in if \<not> cf_stream env \<or> \<not> cf_open env
              then let h = h\<lparr>h_stream := cf_stream env\<rparr>
                   in (SYSINFO_ERR_STREAM_CREATE, noOSInfo,
                       ev @ (if cf_stream env then [Created ReadStream] else []) @ sysinfo_cleanup_handles h)
              else
                let h = h\<lparr>h_stream := True\<rparr>; ev = ev @ [Created ReadStream]
                in case cf_plist env of
                     None \<Rightarrow>
                       (SYSINFO_ERR_PROPERTY_LIST, noOSInfo,
                        ev @ (if cf_error env then [Created ErrorRef, Released ErrorRef] else []) @
                        sysinfo_cleanup_handles h)
                   | Some pl \<Rightarrow>
                       let h = h\<lparr>h_propertyList := True\<rparr>; ev = ev @ [Created PropertyList]
                       in case pl of
                            CFNotDictionary \<Rightarrow> (SYSINFO_ERR_INVALID_TYPE, noOSInfo, ev @ sysinfo_cleanup_handles h)
                          | CFDictionary dict \<Rightarrow>
                              (case sysinfo_get_string dict ''ProductName'' 256 of
                                 None \<Rightarrow> (SYSINFO_ERR_STRING_CONVERSION, noOSInfo, ev @ sysinfo_cleanup_handles h)
                               | Some n \<Rightarrow>
                                   (case sysinfo_get_string dict ''ProductVersion'' 256 of
                                      None \<Rightarrow> (SYSINFO_ERR_STRING_CONVERSION, noOSInfo\<lparr>oi_ProductName := n\<rparr>,
                                        ev @ sysinfo_cleanup_handles h)
                                    | Some v \<Rightarrow>
                                        (case sysinfo_get_string dict ''ProductBuildVersion'' 256 of
                                           None \<Rightarrow> (SYSINFO_ERR_STRING_CONVERSION,
                                             noOSInfo\<lparr>oi_ProductName := n, oi_ProductVersion := v\<rparr>,
                                             ev @ sysinfo_cleanup_handles h)
                                         | Some b \<Rightarrow> (SYSINFO_OK,
                                             \<lparr>oi_ProductName = n, oi_ProductVersion = v, oi_ProductBuildVersion = b\<rparr>,
                                             ev @ sysinfo_cleanup_handles h)))))"

definition darwin_GetOSVersion :: "cf_env \<Rightarrow> OSInfo res" where
  "darwin_GetOSVersion env =
     (case sysinfo_load env of (ret, info, ev) \<Rightarrow>
        if ret \<noteq> SYSINFO_OK then Inl (Errorf ''failed to get os version'')
        else Inr \<lparr>oi_ProductName = cstr (oi_ProductName info), oi_ProductVersion = cstr (oi_ProductVersion info),
               oi_ProductBuildVersion = cstr (oi_ProductBuildVersion info)\<rparr>)"

text \<open>Events that are in order: an object is created when it does not exist, closed and released while
  it exists, a stream is released closed, and nothing exists at the end.\<close>

fun balanced :: "cfHandle list \<Rightarrow> cfEvent list \<Rightarrow> bool" where
  "balanced live [] = (live = [])"
| "balanced live (Created h # ev) = (h \<notin> set live \<and> balanced (h # live) ev)"
| "balanced live (Closed h # ev) = (h \<in> set live \<and> balanced live ev)"
| "balanced live (Released h # ev) = (h \<in> set live \<and> balanced (removeAll h live) ev)"

text \<open>Reading the version leaks no object and releases none twice, on every path, errors included; and it
  succeeds exactly when the property list has the three strings and each fits its buffer.\<close>

theorem sysinfo_balanced:
  "case sysinfo_load env of (ret, info, ev) \<Rightarrow> balanced [] ev \<and>
     (ret = SYSINFO_OK \<longleftrightarrow> cf_url env \<and> cf_stream env \<and> cf_open env \<and>
       (\<exists>dict. cf_plist env = Some (CFDictionary dict) \<and>
         list_all (\<lambda>k. \<exists>v. map_of dict k = Some v \<and> length v < 256)
           [''ProductName'', ''ProductVersion'', ''ProductBuildVersion'']))"
  by (auto simp: sysinfo_load_def sysinfo_cleanup_handles_def sysinfo_get_string_def Let_def
      split: option.splits plist.splits if_splits)

subsection \<open>Limits and memory (rlimit.go)\<close>

record rlimit =
  rlim_Cur :: u64
  rlim_Max :: u64

text \<open>The two system calls: whether reading fails, and what setting answers.\<close>

definition RaiseSystemLimit :: "goerr option \<Rightarrow> (rlimit \<Rightarrow> goerr option) \<Rightarrow> (rlimit, unit) proc" where
  "RaiseSystemLimit getErr setErr l =
     (case getErr of
        Some e \<Rightarrow> (Inl e, l)
      | None \<Rightarrow>
          let r = l\<lparr>rlim_Cur := rlim_Max l\<rparr>
          in (case setErr r of Some e \<Rightarrow> (Inl e, l) | None \<Rightarrow> (Inr (), r)))"

definition GetMaxMemoryInMB :: "u64 res \<Rightarrow> u64 res" where
  "GetMaxMemoryInMB vmStat =
     (case vmStat of
        Inl e \<Rightarrow> Inl (Wrap ''get virtual memory error'' e)
      | Inr bytes \<Rightarrow> Inr (bytes div 1024 div 1024))"

text \<open>The hard limit never changes, and the soft limit is raised to it or left alone.\<close>

lemma raise_limit:
  "case RaiseSystemLimit getErr setErr l of (r, l') \<Rightarrow> rlim_Max l' = rlim_Max l \<and>
     rlim_Cur l' = (if ok r then rlim_Max l else rlim_Cur l)"
  by (simp add: RaiseSystemLimit_def Let_def split: option.split)

lemma memory_in_mb: "GetMaxMemoryInMB (Inr t) = Inr m \<Longrightarrow> unat m * 2 ^ 20 \<le> unat t \<and> unat t < (unat m + 1) * 2 ^ 20"
proof -
  assume "GetMaxMemoryInMB (Inr t) = Inr m"
  then have "unat m = unat t div 1024 div 1024" by (auto simp: GetMaxMemoryInMB_def unat_div)
  then have "unat m = unat t div 2 ^ 20" by (simp add: div_mult2_eq [symmetric])
  then show ?thesis by (simp add: dividend_less_times_div mult.commute)
qed

subsection \<open>The terminal (terminal.go)\<close>

text \<open>The mode of the terminal is whatever the system keeps for it; \<open>raw\<close> turns one mode into the raw
  one. A state for restoration is an object: restoring clears it.\<close>

record stdinState =
  PreviousState :: "string option"

definition makeStdinRaw :: "goerr option \<Rightarrow> (string \<Rightarrow> string) \<Rightarrow> (string, stdinState) proc" where
  "makeStdinRaw rawErr raw tty =
     (case rawErr of
        Some e \<Rightarrow> (Inl (Errorf ''terminal make raw failed''), tty)
      | None \<Rightarrow> (Inr \<lparr>PreviousState = Some tty\<rparr>, raw tty))"

definition resetStdin :: "stdinState \<Rightarrow> string \<Rightarrow> stdinState \<times> string" where
  "resetStdin s tty =
     (case PreviousState s of None \<Rightarrow> (s, tty) | Some p \<Rightarrow> (s\<lparr>PreviousState := None\<rparr>, p))"

definition MakeStdinRaw :: "goerr option \<Rightarrow> (string \<Rightarrow> string) \<Rightarrow> (string, stdinState option) proc" where
  "MakeStdinRaw rawErr raw = andThen (makeStdinRaw rawErr raw) (\<lambda>state. succeed (Some state))"

definition ResetStdin :: "stdinState option \<Rightarrow> string \<Rightarrow> stdinState option \<times> string" where
  "ResetStdin s tty =
     (case s of
        None \<Rightarrow> (None, tty)
      | Some st \<Rightarrow> (case resetStdin st tty of (st', tty') \<Rightarrow> (Some st', tty')))"

definition GetTerminalType :: "string \<Rightarrow> string" where
  "GetTerminalType termEnv = (if termEnv = [] then ''xterm-256color'' else termEnv)"

text \<open>The first reset gives the terminal the mode it had before, whatever happened to it in between; later
  resets leave it alone, and so does a failed attempt to make it raw.\<close>

theorem terminal_restored_once:
  "case MakeStdinRaw rawErr raw tty of
     (Inl e, tty') \<Rightarrow> tty' = tty
   | (Inr s, tty') \<Rightarrow> (case ResetStdin s now of (s', t) \<Rightarrow> t = tty \<and> ResetStdin s' later = (s', later))"
  by (auto simp: MakeStdinRaw_def makeStdinRaw_def ResetStdin_def resetStdin_def andThen_def succeed_def
      split: option.splits prod.splits)

text \<open>\<open>OnTerminalResize\<close>: the channel holds one signal, the goroutine takes it or ends with the context, and
  the caller sends one more signal before it returns.\<close>

record resizing =
  rz_cancelled :: bool
  rz_pending :: bool
  rz_looping :: bool
  rz_waiting :: bool
  rz_sets :: nat

definition OnTerminalResize :: "bool \<Rightarrow> resizing" where
  "OnTerminalResize cancelled = \<lparr>rz_cancelled = cancelled, rz_pending = False, rz_looping = True, rz_waiting = True, rz_sets = 0\<rparr>"

inductive resize_step :: "resizing \<Rightarrow> resizing \<Rightarrow> bool" where
  rz_cancel: "resize_step s (s\<lparr>rz_cancelled := True\<rparr>)"
| rz_winch: "rz_looping s \<Longrightarrow> resize_step s (s\<lparr>rz_pending := True\<rparr>)"
| rz_send: "rz_waiting s \<Longrightarrow> \<not> rz_pending s \<Longrightarrow> resize_step s (s\<lparr>rz_pending := True, rz_waiting := False\<rparr>)"
| rz_take: "rz_looping s \<Longrightarrow> rz_pending s \<Longrightarrow> resize_step s (s\<lparr>rz_pending := False, rz_sets := Suc (rz_sets s)\<rparr>)"
| rz_stop: "rz_looping s \<Longrightarrow> rz_cancelled s \<Longrightarrow> resize_step s (s\<lparr>rz_looping := False\<rparr>)"

inductive_cases resize_stepE: "resize_step s t"

text \<open>A caller that has returned left the terminal with its size set, or the signal for it pending.\<close>

lemma resize_sets:
  "resize_step\<^sup>*\<^sup>* (OnTerminalResize c) s \<Longrightarrow> rz_waiting s \<or> rz_pending s \<or> 0 < rz_sets s"
  by (induction rule: rtranclp_induct) (auto simp: OnTerminalResize_def elim!: resize_stepE)

text \<open>But the caller can block for good: when the goroutine ends with the context after a resize signal
  filled the channel, nobody takes from the channel any more, and the send never completes.\<close>

lemma resize_blocked:
  "\<exists>s. resize_step\<^sup>*\<^sup>* (OnTerminalResize c) s \<and> (\<forall>t. resize_step\<^sup>*\<^sup>* s t \<longrightarrow> rz_waiting t)"
proof -
  let ?i = "OnTerminalResize c"
  let ?s = "?i\<lparr>rz_pending := True, rz_cancelled := True, rz_looping := False\<rparr>"
  have "resize_step ?i (?i\<lparr>rz_pending := True\<rparr>)"
    by (rule rz_winch) (simp add: OnTerminalResize_def)
  moreover have "resize_step (?i\<lparr>rz_pending := True\<rparr>) (?i\<lparr>rz_pending := True, rz_cancelled := True\<rparr>)"
    using rz_cancel [of "?i\<lparr>rz_pending := True\<rparr>"] by simp
  moreover have "resize_step (?i\<lparr>rz_pending := True, rz_cancelled := True\<rparr>) ?s"
    using rz_stop [of "?i\<lparr>rz_pending := True, rz_cancelled := True\<rparr>"] by (simp add: OnTerminalResize_def)
  ultimately have "resize_step\<^sup>*\<^sup>* ?i ?s" 
    by (blast intro: rtranclp.rtrancl_into_rtrancl rtranclp.rtrancl_refl)
  moreover have "rz_waiting t \<and> rz_pending t \<and> \<not> rz_looping t" if "resize_step\<^sup>*\<^sup>* ?s t" for t
    using that by (induction rule: rtranclp_induct) (auto simp: OnTerminalResize_def elim!: resize_stepE)
  ultimately show ?thesis by blast
qed

end
