(* ===== verification/Sse.thy ===== *)
theory Sse
  imports Management
begin

text \<open>
  The event streams of the management API: \<open>pkg/sse/sse_server.go\<close> and the way \<open>handleExec\<close> and
  \<open>handleLegacyExec\<close> of \<open>pkg/service/management/server.go\<close> use it. Of the library that serves the
  streams the model takes what it documents: a message published to a topic goes to the sessions that are
  subscribed to the topic at that time, and to nobody else, and a session lasts as long as the context
  of its request. Commands run in goroutines beside the handlers that subscribe; the model is a step
  relation over any number of them.
\<close>

subsection \<open>Sessions and messages (sse_server.go)\<close>

text \<open>The topic travels in the request's context; a request without one gets no session.\<close>

definition OnSession :: "string option \<Rightarrow> string list option" where
  "OnSession topic = (case topic of None \<Rightarrow> None | Some t \<Rightarrow> if t = [] then None else Some [t])"

text \<open>A request for a command: its topic, what its goroutine has still to publish and has published, whether
  its handler has subscribed or returned, whether its context is done and whether because the client went away, and
  what the client got.\<close>

record execStream =
  es_topic :: string
  es_todo :: "sseEvent list"
  es_published :: "sseEvent list"
  es_subscribed :: bool
  es_done :: bool
  es_returned :: bool
  es_left :: bool
  es_delivered :: "sseEvent list"

definition newStream :: "string \<Rightarrow> sseEvent list \<Rightarrow> execStream" where
  "newStream topic evs = \<lparr>es_topic = topic, es_todo = evs, es_published = [], es_subscribed = False,
     es_done = False, es_returned = False, es_left = False, es_delivered = []\<rparr>"

definition listening :: "execStream \<Rightarrow> string \<Rightarrow> bool" where
  "listening s topic \<longleftrightarrow> es_subscribed s \<and> \<not> es_returned s \<and>
     (case OnSession (Some (es_topic s)) of None \<Rightarrow> False | Some ts \<Rightarrow> topic \<in> set ts)"

definition Publish :: "string \<Rightarrow> sseEvent \<Rightarrow> execStream list \<Rightarrow> execStream list" where
  "Publish topic msg xs =
     map (\<lambda>s. if listening s topic then s\<lparr>es_delivered := es_delivered s @ [msg]\<rparr> else s) xs"

subsection \<open>Commands and handlers side by side (server.go)\<close>

text \<open>The steps of request \<open>i\<close>: its goroutine publishes the next message; the goroutine, done, cancels
  the context; the handler subscribes; the client goes away; the handler returns.\<close>

inductive stream_step :: "execStream list \<Rightarrow> execStream list \<Rightarrow> bool" where
  es_publish: "i < length xs \<Longrightarrow> es_todo (xs ! i) = e # es \<Longrightarrow>
     stream_step xs (Publish (es_topic (xs ! i)) e
       (xs[i := (xs ! i)\<lparr>es_todo := es, es_published := es_published (xs ! i) @ [e]\<rparr>]))"
| es_finish: "i < length xs \<Longrightarrow> es_todo (xs ! i) = [] \<Longrightarrow> stream_step xs (xs[i := (xs ! i)\<lparr>es_done := True\<rparr>])"
| es_subscribe: "i < length xs \<Longrightarrow> \<not> es_subscribed (xs ! i) \<Longrightarrow> \<not> es_returned (xs ! i) \<Longrightarrow>
     stream_step xs (xs[i := (xs ! i)\<lparr>es_subscribed := True\<rparr>])"
| es_leave: "i < length xs \<Longrightarrow> stream_step xs (xs[i := (xs ! i)\<lparr>es_done := True, es_left := True\<rparr>])"
| es_return: "i < length xs \<Longrightarrow> es_done (xs ! i) \<Longrightarrow> stream_step xs (xs[i := (xs ! i)\<lparr>es_returned := True\<rparr>])"

inductive_cases stream_stepE: "stream_step xs ys"

definition startStreams :: "(string \<times> sseEvent list) list \<Rightarrow> execStream list" where
  "startStreams reqs = map (\<lambda>(topic, evs). newStream topic evs) reqs"

text \<open>What holds of one request: its messages are published in order, and what its client got is a part of
  them without gaps; messages after that part are lost only when the client left.\<close>

definition streamInv :: "string \<times> sseEvent list \<Rightarrow> execStream \<Rightarrow> bool" where
  "streamInv = (\<lambda>(topic, evs) s. es_topic s = topic \<and> es_published s @ es_todo s = evs \<and>
     (es_done s \<and> \<not> es_left s \<longrightarrow> es_todo s = []) \<and> (es_returned s \<longrightarrow> es_done s) \<and>
     (\<not> es_subscribed s \<longrightarrow> es_delivered s = []) \<and>
     (\<exists>missed lost. es_published s = missed @ es_delivered s @ lost \<and>
       (lost \<noteq> [] \<longrightarrow> es_returned s \<and> es_left s)))"

lemma streamInv_new: "streamInv (topic, evs) (newStream topic evs)"
  by (simp add: streamInv_def newStream_def)

lemma streamInv_flags:
  "streamInv r s \<Longrightarrow> es_todo s = [] \<Longrightarrow> streamInv r (s\<lparr>es_done := True\<rparr>)"
  "streamInv r s \<Longrightarrow> \<not> es_subscribed s \<Longrightarrow> streamInv r (s\<lparr>es_subscribed := True\<rparr>)"
  "streamInv r s \<Longrightarrow> streamInv r (s\<lparr>es_done := True, es_left := True\<rparr>)"
  "streamInv r s \<Longrightarrow> es_done s \<Longrightarrow> streamInv r (s\<lparr>es_returned := True\<rparr>)"
  by (cases r; force simp: streamInv_def)+

lemma streamInv_publish:
  assumes "streamInv (topic, evs) s" and "es_todo s = e # es" and "topic \<noteq> []"
  shows "streamInv (topic, evs) (hd (Publish topic e [s\<lparr>es_todo := es, es_published := es_published s @ [e]\<rparr>]))"
proof -
  note inv = assms(1) [unfolded streamInv_def prod.case]
  from inv obtain missed lost where p: "es_published s = missed @ es_delivered s @ lost"
    and l: "lost \<noteq> [] \<longrightarrow> es_returned s \<and> es_left s" by blast
  from inv have n: "\<not> es_subscribed s \<longrightarrow> es_delivered s = []"
    and t: "es_topic s = topic" "es_published s @ es_todo s = evs" and d: "es_done s \<and> \<not> es_left s \<longrightarrow> es_todo s = []"
    "es_returned s \<longrightarrow> es_done s"
    by blast+
  let ?s = "s\<lparr>es_todo := es, es_published := es_published s @ [e]\<rparr>"
  have listens: "listening ?s topic \<longleftrightarrow> es_subscribed s \<and> \<not> es_returned s"
    using assms(3) t(1) by (simp add: listening_def OnSession_def)
  consider "es_returned s" | "\<not> es_returned s" "es_subscribed s" | "\<not> es_returned s" "\<not> es_subscribed s" by blast
  then have "\<exists>m r. es_published s @ [e] = m @ (es_delivered s @ (if es_subscribed s \<and> \<not> es_returned s then [e] else [])) @ r \<and>
      (r \<noteq> [] \<longrightarrow> es_returned s \<and> es_left s)"
  proof cases
    case 1
    with d assms(2) p show ?thesis by (intro exI [of _ missed] exI [of _ "lost @ [e]"]) auto
  next
    case 2
    with l p show ?thesis by (intro exI [of _ missed] exI [of _ "[]"]) auto
  next
    case 3
    with n show ?thesis by (intro exI [of _ "es_published s @ [e]"] exI [of _ "[]"]) simp
  qed
  moreover have "hd (Publish topic e [?s]) =
      ?s\<lparr>es_delivered := es_delivered s @ (if es_subscribed s \<and> \<not> es_returned s then [e] else [])\<rparr>"
    by (simp add: Publish_def listens)
  ultimately show ?thesis
    using t d n assms(2) by (simp add: streamInv_def) blast
qed

text \<open>A message reaches no other request, since every request has a topic of its own.\<close>

lemma Publish_other: "es_topic s \<noteq> topic \<Longrightarrow> hd (Publish topic e [s]) = s"
  by (auto simp: Publish_def listening_def OnSession_def split: if_splits)

lemma Publish_nth: "i < length xs \<Longrightarrow> Publish topic e xs ! i = hd (Publish topic e [xs ! i])"
  by (simp add: Publish_def)

definition streamsInv :: "(string \<times> sseEvent list) list \<Rightarrow> execStream list \<Rightarrow> bool" where
  "streamsInv reqs xs \<longleftrightarrow> length xs = length reqs \<and> (\<forall>i < length reqs. streamInv (reqs ! i) (xs ! i))"

definition ownTopics :: "(string \<times> sseEvent list) list \<Rightarrow> bool" where
  "ownTopics reqs \<longleftrightarrow> distinct (map fst reqs) \<and> [] \<notin> set (map fst reqs)"

lemma streams_step:
  assumes "ownTopics reqs" and "streamsInv reqs xs" and "stream_step xs ys"
  shows "streamsInv reqs ys"
  using assms(3,2)
proof (induction rule: stream_step.induct)
  case (es_publish i xs e es)
  let ?ys = "Publish (es_topic (xs ! i)) e (xs[i := (xs ! i)\<lparr>es_todo := es, es_published := es_published (xs ! i) @ [e]\<rparr>])"
  have i: "i < length reqs" and inv: "\<And>j. j < length reqs \<Longrightarrow> streamInv (reqs ! j) (xs ! j)"
    and len: "length xs = length reqs"
    using es_publish by (auto simp: streamsInv_def)
  have topic: "es_topic (xs ! j) = fst (reqs ! j)" if "j < length reqs" for j
    using inv [OF that] by (auto simp: streamInv_def split: prod.splits)
  let ?u = "(xs ! i)\<lparr>es_todo := es, es_published := es_published (xs ! i) @ [e]\<rparr>"
  have "streamInv (reqs ! j) (?ys ! j)" if j: "j < length reqs" for j
  proof (cases "j = i")
    case True
    have "fst (reqs ! i) \<in> set (map fst reqs)" using i by simp
    then have "fst (reqs ! i) \<noteq> []" using assms(1) by (metis ownTopics_def)
    with streamInv_publish [of "fst (reqs ! i)" "snd (reqs ! i)" "xs ! i" e es] inv [OF i] es_publish(2) topic [OF i] True i
    show ?thesis by (simp add: Publish_nth len)
  next
    case False
    have "fst (reqs ! j) \<noteq> fst (reqs ! i)"
      using assms(1) i j False by (auto simp: ownTopics_def distinct_conv_nth)
    then have "hd (Publish (es_topic (xs ! i)) e [xs ! j]) = xs ! j"
      using topic i j by (intro Publish_other) simp
    then show ?thesis
      using inv [OF j] False j by (simp add: Publish_nth len)
  qed
  moreover have "length ?ys = length reqs" by (simp add: len Publish_def)
  ultimately show ?case by (simp add: streamsInv_def)
qed (auto simp: streamsInv_def nth_list_update intro: streamInv_flags)

lemma streams_reachable:
  assumes "ownTopics reqs" and "stream_step\<^sup>*\<^sup>* (startStreams reqs) xs"
  shows "streamsInv reqs xs"
  using assms(2)
proof (induction rule: rtranclp_induct)
  case base
  then show ?case by (auto simp: streamsInv_def startStreams_def streamInv_new split: prod.split)
next
  case (step xs ys)
  with streams_step [OF assms(1)] show ?case by blast
qed

subsection \<open>Properties\<close>

text \<open>C22. Every client gets the output of its own command. However the commands, their handlers and the departures
  of clients interleave, what a client has got is a part without gaps of the messages of its own
  command, in their order; and when the handler has returned and the client had not left, it is
  everything from the moment of subscription to the end.\<close>

theorem streams_in_order:
  assumes "distinct (map fst reqs)" and "[] \<notin> set (map fst reqs)"
    and "stream_step\<^sup>*\<^sup>* (startStreams reqs) xs" and "i < length reqs"
  shows "\<exists>missed rest. snd (reqs ! i) = missed @ es_delivered (xs ! i) @ rest \<and>
    (es_returned (xs ! i) \<and> \<not> es_left (xs ! i) \<longrightarrow> rest = [])"
proof -
  have "streamInv (reqs ! i) (xs ! i)"
    using streams_reachable [OF _ assms(3)] assms(1,2,4) by (simp add: ownTopics_def streamsInv_def)
  then have "streamInv (fst (reqs ! i), snd (reqs ! i)) (xs ! i)" by simp
  then obtain missed lost where "es_published (xs ! i) = missed @ es_delivered (xs ! i) @ lost"
    and "lost \<noteq> [] \<longrightarrow> es_returned (xs ! i) \<and> es_left (xs ! i)" and "es_published (xs ! i) @ es_todo (xs ! i) = snd (reqs ! i)"
    and "es_returned (xs ! i) \<and> \<not> es_left (xs ! i) \<longrightarrow> es_todo (xs ! i) = []"
    unfolding streamInv_def prod.case by blast
  then show ?thesis
    by (intro exI [of _ missed] exI [of _ "lost @ es_todo (xs ! i)"]) auto
qed

theorem streams_in_order_witness:
  "\<exists>xs missed. stream_step\<^sup>*\<^sup>* (startStreams [(''sess-1'', [(''out'', ''hi''), (''done'', ''done'')])]) xs \<and>
     es_returned (xs ! 0) \<and> [(''out'', ''hi''), (''done'', ''done'')] = missed @ es_delivered (xs ! 0) \<and> missed = []"
proof -
  let ?evs = "[(''out'', ''hi''), (''done'', ''done'')]"
  let ?a = "newStream ''sess-1'' ?evs"
  let ?b = "?a\<lparr>es_subscribed := True\<rparr>"
  let ?c = "?b\<lparr>es_todo := [(''done'', ''done'')], es_published := [(''out'', ''hi'')], es_delivered := [(''out'', ''hi'')]\<rparr>"
  let ?d = "?c\<lparr>es_todo := [], es_published := ?evs, es_delivered := ?evs\<rparr>"
  let ?e = "?d\<lparr>es_done := True, es_returned := True\<rparr>"
  have "stream_step [?a] [?b]"
    using es_subscribe [of 0 "[?a]"] by (simp add: newStream_def)
  moreover have "stream_step [?b] [?c]"
    using es_publish [of 0 "[?b]" "(''out'', ''hi'')" "[(''done'', ''done'')]"]
    by (simp add: newStream_def Publish_def listening_def OnSession_def)
  moreover have "stream_step [?c] [?d]"
    using es_publish [of 0 "[?c]" "(''done'', ''done'')" "[]"]
    by (simp add: newStream_def Publish_def listening_def OnSession_def)
  moreover have "stream_step [?d] [?d\<lparr>es_done := True\<rparr>]"
    using es_finish [of 0 "[?d]"] by simp
  moreover have "stream_step [?d\<lparr>es_done := True\<rparr>] [?e]"
    using es_return [of 0 "[?d\<lparr>es_done := True\<rparr>]"] by simp
  ultimately have run: "stream_step\<^sup>*\<^sup>* (startStreams [(''sess-1'', ?evs)]) [?e]"
    unfolding startStreams_def by (auto intro: rtranclp.rtrancl_into_rtrancl rtranclp.rtrancl_refl)
  from streams_in_order [OF _ _ this, of 0] obtain missed where "?evs = missed @ es_delivered ([?e] ! 0)"
    by (auto simp: newStream_def)
  with run show ?thesis by (intro exI [of _ "[?e]"] exI [of _ missed]) (simp add: newStream_def)
qed

text \<open>But the moment of subscription can be too late: the goroutine of the command starts before the handler
  subscribes, so the messages of a command that is quick to fail can be gone, and with them the
  stream: the client gets an empty response.\<close>

lemma streams_lose_start:
  assumes "topic \<noteq> []"
  shows "\<exists>s. stream_step\<^sup>*\<^sup>* (startStreams [(topic, [msg])]) [s] \<and> es_delivered s = [] \<and> es_returned s \<and> \<not> es_left s"
proof -
  let ?a = "newStream topic [msg]"
  let ?b = "?a\<lparr>es_todo := [], es_published := [msg]\<rparr>"
  have "stream_step [?a] [?b]"
    using es_publish [of 0 "[?a]" msg "[]"] by (simp add: newStream_def Publish_def listening_def)
  moreover have "stream_step [?b] [?b\<lparr>es_done := True\<rparr>]"
    using es_finish [of 0 "[?b]"] by simp
  moreover have "stream_step [?b\<lparr>es_done := True\<rparr>] [?b\<lparr>es_done := True, es_returned := True\<rparr>]"
    using es_return [of 0 "[?b\<lparr>es_done := True\<rparr>]"] by simp
  ultimately have "stream_step\<^sup>*\<^sup>* [?a] [?b\<lparr>es_done := True, es_returned := True\<rparr>]"
    by (blast intro: rtranclp.rtrancl_into_rtrancl rtranclp.rtrancl_refl)
  then show ?thesis
    by (intro exI [of _ "?b\<lparr>es_done := True, es_returned := True\<rparr>"]) (simp add: startStreams_def newStream_def)
qed

end
