(* ===== verification/Services.thy ===== *)
theory Services
  imports VM_Session
begin

text \<open>
  Starting the host's services: the methods of \<open>pkg/service/lifecycle/host_services.go\<close> and
  \<open>pkg/libkrun/provider.go\<close> that pass on to the components, \<open>Start\<close> of the ignition server
  (\<open>pkg/service/ignition/server.go\<close>) with its goroutines, and the group of servers that the network stack
  runs (\<open>httpServe\<close> in \<open>pkg/gvproxy/gvproxy.go\<close>).
\<close>

subsection \<open>The provider and the services that pass on (provider.go, host\_services.go)\<close>

text \<open>\<open>Start\<close> runs the machine in a goroutine with a thread of its own and waits for what it sends; the
  machine, the description and the library's state are the one \<open>krunVM\<close>.\<close>

definition NewProvider :: "MachineSpec \<Rightarrow> OS \<Rightarrow> (int \<times> int) list \<Rightarrow> krunVM" where
  "NewProvider mc os pipes = newKrun mc os pipes"

definition ProviderCreate :: "krun_env \<Rightarrow> (krunVM, unit) proc" where
  "ProviderCreate env = krunCreate env"

definition ProviderStart :: "krun_env \<Rightarrow> (krunVM, unit) proc" where
  "ProviderStart env = krunStart env"

definition providerVMConfig :: "krunVM \<Rightarrow> MachineSpec" where
  "providerVMConfig p = kv_cfg p"

definition StartVirtualMachine :: "krun_env \<Rightarrow> (krunVM, unit) proc" where
  "StartVirtualMachine env = ProviderStart env"

definition StopVirtualMachine :: "(krunVM, unit) proc" where
  "StopVirtualMachine = ProviderStop"

text \<open>The management server is made for the address in the description; making it cannot fail.\<close>

definition mgmtStart :: "MachineSpec \<Rightarrow> goerr option \<Rightarrow> (OS, unit) proc" where
  "mgmtStart vmc ended = httpServe (VMCtlAddr vmc) ended"

definition StartMachineManagementAPI :: "krunVM \<Rightarrow> goerr option \<Rightarrow> (OS, unit) proc" where
  "StartMachineManagementAPI vmp ended = mgmtStart (providerVMConfig vmp) ended"

text \<open>The agent service of a session runs beside it; its error is only logged.\<close>

definition startOOSSHAgent :: "(OS, unit res option) proc \<Rightarrow> OOSSHAgentService option \<Rightarrow> OS \<Rightarrow> OS" where
  "startOOSSHAgent serve agent s = (if agent = None then s else snd (agentRun serve agent s))"

text \<open>What the pieces give together: a created machine that is stopped before it starts hears of it,
  and starting it drops the write end, so that later requests are not written any more.\<close>

lemma provider_life:
  assumes "ProviderCreate env (NewProvider mc os pipes) = (Inr (), p)"
  shows "providerVMConfig (snd (StopVirtualMachine p)) = providerVMConfig p"
    and "kv_signalPipeW (snd (StartVirtualMachine env p)) = None"
  by (auto simp: providerVMConfig_def StopVirtualMachine_def ProviderStop_def SendSignal_def StartVirtualMachine_def
      ProviderStart_def krunStart_def andThen_def krun_def modifyState_def wrapping_def retErr_def succeed_def
      failWith_def Let_def split: option.split)

subsection \<open>Start of the ignition server (server.go)\<close>

text \<open>Three goroutines beside the caller: one waits for the host's network and sends its error, if any;
  one serves and sends what serving ended with; one waits for the four readiness signals and does
  nothing then. The channel holds two errors. \<open>sg_missing\<close> counts the signals not given yet.\<close>

record ignStart =
  sg_cancelled :: bool
  sg_waiting :: bool
  sg_serving :: bool
  sg_listening :: bool
  sg_missing :: nat
  sg_chan :: "goerr list"
  sg_result :: "goerr option"

definition ignStarted :: ignStart where
  "ignStarted = \<lparr>sg_cancelled = False, sg_waiting = True, sg_serving = True, sg_listening = True, sg_missing = 4,
     sg_chan = [], sg_result = None\<rparr>"

inductive start_step :: "ignStart \<Rightarrow> ignStart \<Rightarrow> bool" where
  sg_cancel: "start_step s (s\<lparr>sg_cancelled := True\<rparr>)"
| sg_signal: "0 < sg_missing s \<Longrightarrow> start_step s (s\<lparr>sg_missing := sg_missing s - 1\<rparr>)"
| sg_online: "sg_waiting s \<Longrightarrow> start_step s (s\<lparr>sg_waiting := False\<rparr>)"
| sg_offline: "sg_waiting s \<Longrightarrow> length (sg_chan s) < 2 \<Longrightarrow>
     start_step s (s\<lparr>sg_waiting := False, sg_chan := sg_chan s @ [e]\<rparr>)"
| sg_served: "sg_serving s \<Longrightarrow> length (sg_chan s) < 2 \<Longrightarrow>
     start_step s (s\<lparr>sg_serving := False, sg_chan := sg_chan s @ [e]\<rparr>)"
| sg_all: "sg_listening s \<Longrightarrow> sg_missing s = 0 \<Longrightarrow> start_step s (s\<lparr>sg_listening := False\<rparr>)"
| sg_failed: "sg_result s = None \<Longrightarrow> sg_chan s = e # es \<Longrightarrow>
     start_step s (s\<lparr>sg_chan := es, sg_result := Some (Wrap ''ignition server'' e)\<rparr>)"
| sg_ctx: "sg_result s = None \<Longrightarrow> sg_cancelled s \<Longrightarrow> start_step s (s\<lparr>sg_result := Some ErrCanceled\<rparr>)"

inductive_cases start_stepE: "start_step s t"

definition startInv :: "ignStart \<Rightarrow> bool" where
  "startInv s \<longleftrightarrow>
     length (sg_chan s) + (if sg_waiting s then 1 else 0) + (if sg_serving s then 1 else 0) \<le> (2 :: nat) \<and>
     (sg_result s \<noteq> None \<longrightarrow> sg_cancelled s \<or> \<not> sg_waiting s \<or> \<not> sg_serving s) \<and>
     (sg_chan s \<noteq> [] \<longrightarrow> \<not> sg_waiting s \<or> \<not> sg_serving s)"

lemma start_reachable: "start_step\<^sup>*\<^sup>* ignStarted s \<Longrightarrow> startInv s"
  by (induction rule: rtranclp_induct) (auto simp: startInv_def ignStarted_def elim!: start_stepE split: if_splits)

text \<open>No goroutine ever blocks on the channel, whether or not somebody still receives; and \<open>Start\<close> returns
  only when the session is cancelled or one of the two goroutines has ended.\<close>

lemma start_never_blocks:
  assumes "start_step\<^sup>*\<^sup>* ignStarted s"
  shows "sg_waiting s \<or> sg_serving s \<longrightarrow> length (sg_chan s) < 2"
    and "sg_result s \<noteq> None \<longrightarrow> sg_cancelled s \<or> \<not> sg_waiting s \<or> \<not> sg_serving s"
  using start_reachable [OF assms] by (auto simp: startInv_def split: if_splits)

text \<open>The goroutine that waits for the signals does not look at the context: when a session ends before all
  four were given, it stays for good, unless they still are.\<close>

lemma start_leaks:
  "\<exists>s. start_step\<^sup>*\<^sup>* ignStarted s \<and> sg_result s = Some ErrCanceled \<and> \<not> sg_waiting s \<and> \<not> sg_serving s \<and>
     sg_listening s \<and> (\<forall>t. start_step\<^sup>*\<^sup>* s t \<longrightarrow> 0 < sg_missing t \<longrightarrow> sg_listening t)"
proof -
  let ?a = "ignStarted\<lparr>sg_cancelled := True\<rparr>"
  let ?b = "?a\<lparr>sg_result := Some ErrCanceled\<rparr>"
  let ?c = "?b\<lparr>sg_waiting := False\<rparr>"
  let ?d = "?c\<lparr>sg_serving := False, sg_chan := [ErrCanceled]\<rparr>"
  note to = rtranclp.rtrancl_into_rtrancl [of start_step] and from_a = r_into_rtranclp [of start_step]
  have a: "start_step ignStarted ?a" by (rule sg_cancel)
  have b: "start_step ?a ?b" by (rule sg_ctx) (simp_all add: ignStarted_def)
  have c: "start_step ?b ?c" by (rule sg_online) (simp add: ignStarted_def)
  have d: "start_step ?c ?d" using sg_served [of ?c ErrCanceled] by (simp add: ignStarted_def)
  have "start_step\<^sup>*\<^sup>* ignStarted ?d" by (rule to [OF to [OF to [OF from_a [OF a] b] c] d])
  moreover have "0 < sg_missing t \<longrightarrow> sg_listening t" if "start_step\<^sup>*\<^sup>* ?d t" for t
    using that by (induction rule: rtranclp_induct) (auto simp: ignStarted_def elim!: start_stepE)
  ultimately show ?thesis
    by (intro exI [of _ ?d]) (auto simp: ignStarted_def)
qed

subsection \<open>The group of servers of the network stack (gvproxy.go)\<close>

text \<open>Each call of \<open>httpServe\<close> adds two goroutines for a listener: one closes it when the context is done,
  the other serves until that fails. The first error is the error of the group and cancels its
  context.\<close>

record gvListener =
  gl_open :: bool
  gl_closer :: bool
  gl_server :: bool

record gvGroup =
  gg_cancelled :: bool
  gg_err :: "goerr option"
  gg_listeners :: "gvListener list"

definition gv_httpServe :: "gvGroup \<Rightarrow> gvGroup" where
  "gv_httpServe g = g\<lparr>gg_listeners := gg_listeners g @ [\<lparr>gl_open = True, gl_closer = True, gl_server = True\<rparr>]\<rparr>"

definition groupFails :: "goerr \<Rightarrow> gvGroup \<Rightarrow> gvGroup" where
  "groupFails e g = g\<lparr>gg_err := (case gg_err g of None \<Rightarrow> Some e | Some e' \<Rightarrow> Some e'), gg_cancelled := True\<rparr>"

text \<open>A server whose listener was closed ends with an error too, since the server itself is not shut down;
  a server that breaks closes its listener.\<close>

inductive group_step :: "gvGroup \<Rightarrow> gvGroup \<Rightarrow> bool" where
  gg_cancel: "\<not> gg_cancelled g \<Longrightarrow> group_step g (g\<lparr>gg_cancelled := True\<rparr>)"
| gg_close: "i < length (gg_listeners g) \<Longrightarrow> gg_cancelled g \<Longrightarrow> gl_closer (gg_listeners g ! i) \<Longrightarrow>
     group_step g (g\<lparr>gg_listeners := (gg_listeners g)[i := (gg_listeners g ! i)\<lparr>gl_open := False, gl_closer := False\<rparr>]\<rparr>)"
| gg_closed: "i < length (gg_listeners g) \<Longrightarrow> gl_server (gg_listeners g ! i) \<Longrightarrow> \<not> gl_open (gg_listeners g ! i) \<Longrightarrow>
     group_step g (groupFails (ErrSyscall ''accept'')
       (g\<lparr>gg_listeners := (gg_listeners g)[i := (gg_listeners g ! i)\<lparr>gl_server := False\<rparr>]\<rparr>))"
| gg_broken: "i < length (gg_listeners g) \<Longrightarrow> gl_server (gg_listeners g ! i) \<Longrightarrow>
     group_step g (groupFails e
       (g\<lparr>gg_listeners := (gg_listeners g)[i := (gg_listeners g ! i)\<lparr>gl_open := False, gl_server := False\<rparr>]\<rparr>))"

inductive_cases group_stepE: "group_step g h"

definition gvServers :: "nat \<Rightarrow> gvGroup" where
  "gvServers n = (gv_httpServe ^^ n) \<lparr>gg_cancelled = False, gg_err = None, gg_listeners = []\<rparr>"

definition groupEnded :: "gvGroup \<Rightarrow> bool" where
  "groupEnded g \<longleftrightarrow> (\<forall>l \<in> set (gg_listeners g). \<not> gl_closer l \<and> \<not> gl_server l)"

definition groupLeft :: "gvGroup \<Rightarrow> nat" where
  "groupLeft g = (if gg_cancelled g then 0 else 1) +
     sum_list (map (\<lambda>l. (if gl_closer l then 1 else 0) + (if gl_server l then 1 else 0)) (gg_listeners g))"

definition groupInv :: "nat \<Rightarrow> gvGroup \<Rightarrow> bool" where
  "groupInv n g \<longleftrightarrow> length (gg_listeners g) = n \<and>
     (\<forall>l \<in> set (gg_listeners g). (gl_open l \<longrightarrow> gl_closer l) \<and> (\<not> gl_server l \<longrightarrow> gg_err g \<noteq> None)) \<and>
     (gg_err g \<noteq> None \<longrightarrow> gg_cancelled g)"

lemma gvServers_listeners:
  "gvServers n = \<lparr>gg_cancelled = False, gg_err = None,
     gg_listeners = replicate n \<lparr>gl_open = True, gl_closer = True, gl_server = True\<rparr>\<rparr>"
  by (induction n) (simp_all add: gvServers_def gv_httpServe_def replicate_append_same)

lemma set_update_cases: "l \<in> set (xs[i := x]) \<Longrightarrow> l = x \<or> l \<in> set xs"
  using set_update_subset_insert [of xs i x] by blast

lemma group_invariant: "group_step g h \<Longrightarrow> groupInv n g \<Longrightarrow> groupInv n h"
  by (erule group_stepE)
    (auto simp: groupInv_def groupFails_def dest!: set_update_cases split: option.split)

lemma group_reachable: "group_step\<^sup>*\<^sup>* (gvServers n) g \<Longrightarrow> groupInv n g"
proof (induction rule: rtranclp_induct)
  case base
  then show ?case by (simp add: gvServers_listeners groupInv_def)
next
  case (step g h)
  then show ?case using group_invariant by blast
qed

lemma sum_list_update_less:
  "i < length xs \<Longrightarrow> (f x :: nat) < f (xs ! i) \<Longrightarrow> sum_list (map f (xs[i := x])) < sum_list (map f xs)"
  by (induction xs arbitrary: i) (auto split: nat.split)

lemma group_left: "group_step g h \<Longrightarrow> groupLeft h < groupLeft g"
  by (erule group_stepE)
    (auto simp: groupLeft_def groupFails_def intro: sum_list_update_less less_le_trans [OF sum_list_update_less])

text \<open>The group comes to its end: it makes finitely many steps; once its context is done it can always go
  on until every listener is closed and every goroutine has ended; and then it has an error, so that
  \<open>Run\<close> never returns without one.\<close>

theorem gv_group_ends:
  assumes "group_step\<^sup>*\<^sup>* (gvServers n) g"
  shows "(group_step g h \<longrightarrow> groupLeft h < groupLeft g) \<and>
    (gg_cancelled g \<and> \<not> groupEnded g \<longrightarrow> (\<exists>h. group_step g h)) \<and>
    (groupEnded g \<and> 0 < n \<longrightarrow> gg_err g \<noteq> None \<and> (\<forall>l \<in> set (gg_listeners g). \<not> gl_open l))"
proof (intro conjI impI)
  note inv = group_reachable [OF assms, unfolded groupInv_def]
  show "groupLeft h < groupLeft g" if "group_step g h" using that by (rule group_left)
  show "\<exists>h. group_step g h" if "gg_cancelled g \<and> \<not> groupEnded g"
  proof -
    from that obtain l where "l \<in> set (gg_listeners g)" "gl_closer l \<or> gl_server l"
      by (auto simp: groupEnded_def)
    then obtain i where "i < length (gg_listeners g)" "gl_closer (gg_listeners g ! i) \<or> gl_server (gg_listeners g ! i)"
      by (auto simp: in_set_conv_nth)
    with that gg_close [of i g] gg_broken [of i g] show ?thesis by blast
  qed
  show "gg_err g \<noteq> None" if "groupEnded g \<and> 0 < n"
  proof -
    from that inv have "gg_listeners g \<noteq> []" by auto
    then have "hd (gg_listeners g) \<in> set (gg_listeners g)" by simp
    with that inv show ?thesis by (auto simp: groupEnded_def)
  qed
  show "\<forall>l \<in> set (gg_listeners g). \<not> gl_open l" if "groupEnded g \<and> 0 < n"
    using that inv by (auto simp: groupEnded_def)
qed

end
