(* ===== verification/Guest_Log.thy ===== *)
theory Guest_Log
  imports Guest_Wait Stop_Signal
begin

text \<open>
  The log of the guest: \<open>cmd/guest-agent/pkg/service/logwriter.go\<close>, the writer that the services print to, and
  \<open>cmd/guest-agent/pkg/service/kernel.go\<close>, the copying of kernel messages.
\<close>

subsection \<open>The writer of the services (logwriter.go)\<close>

datatype logWriter = OsStderr | PortFile nat | MultiWriter "logWriter list"

text \<open>The variable is guarded by a mutex; each operation is one step on it.\<close>

definition SetStderrWriter :: "logWriter option \<Rightarrow> logWriter \<Rightarrow> logWriter" where
  "SetStderrWriter w stderrWriter = (case w of None \<Rightarrow> OsStderr | Some w' \<Rightarrow> w')"

definition StderrWriter :: "logWriter \<Rightarrow> logWriter" where
  "StderrWriter stderrWriter = stderrWriter"

fun writesTo :: "logWriter \<Rightarrow> logWriter set" where
  "writesTo OsStderr = {OsStderr}"
| "writesTo (PortFile f) = {PortFile f}"
| "writesTo (MultiWriter ws) = \<Union> (set (map writesTo ws))"

text \<open>However often the writer is set, the services print to standard error, and also to a port exactly when the
  last setting had it, as long as every setting keeps standard error.\<close>

lemma services_print:
  assumes "\<forall>w \<in> set ws. \<forall>w'. w = Some w' \<longrightarrow> OsStderr \<in> writesTo w'"
  shows "OsStderr \<in> writesTo (StderrWriter (foldl (\<lambda>s w. SetStderrWriter w s) OsStderr ws))"
  using assms
  by (induction ws rule: rev_induct) (auto simp: StderrWriter_def SetStderrWriter_def split: option.split)

subsection \<open>Kernel messages (kernel.go)\<close>

text \<open>\<open>dmesg -w\<close> writes lines to two pipes (\<open>True\<close> is standard output); a goroutine for each scans the
  lines and logs them; the caller waits for the process, and waiting closes the ends from which the
  goroutines read, although what a goroutine has already read it still logs. A line that does not fit into the
  scanner's buffer ends its goroutine.\<close>

record kernelLog =
  kl_running :: bool
  kl_returned :: bool
  kl_wrote :: "bool \<Rightarrow> string list"
  kl_pipe :: "bool \<Rightarrow> string list"
  kl_buf :: "bool \<Rightarrow> string list"
  kl_scanning :: "bool \<Rightarrow> bool"
  kl_log :: "(bool \<times> string) list"

definition StreamLogKernelMessage :: kernelLog where
  "StreamLogKernelMessage = \<lparr>kl_running = True, kl_returned = False, kl_wrote = (\<lambda>_. []), kl_pipe = (\<lambda>_. []),
     kl_buf = (\<lambda>_. []), kl_scanning = (\<lambda>_. True), kl_log = []\<rparr>"

inductive kernel_step :: "kernelLog \<Rightarrow> kernelLog \<Rightarrow> bool" where
  kl_write: "kl_running s \<Longrightarrow> kernel_step s (s\<lparr>kl_wrote := (kl_wrote s)(b := kl_wrote s b @ [l]),
     kl_pipe := (kl_pipe s)(b := kl_pipe s b @ [l])\<rparr>)"
| kl_exit: "kl_running s \<Longrightarrow> kernel_step s (s\<lparr>kl_running := False\<rparr>)"
| kl_wait: "\<not> kl_running s \<Longrightarrow> kernel_step s (s\<lparr>kl_returned := True\<rparr>)"
| kl_read: "kl_scanning s b \<Longrightarrow> \<not> kl_returned s \<Longrightarrow> kl_pipe s b = l # ls \<Longrightarrow>
     kernel_step s (s\<lparr>kl_pipe := (kl_pipe s)(b := ls), kl_buf := (kl_buf s)(b := kl_buf s b @ [l])\<rparr>)"
| kl_scan: "kl_scanning s b \<Longrightarrow> kl_buf s b = l # ls \<Longrightarrow> length l < MaxScanTokenSize \<Longrightarrow>
     kernel_step s (s\<lparr>kl_buf := (kl_buf s)(b := ls), kl_log := kl_log s @ [(b, dropCR l)]\<rparr>)"
| kl_long: "kl_scanning s b \<Longrightarrow> kl_buf s b = l # ls \<Longrightarrow> MaxScanTokenSize \<le> length l \<Longrightarrow>
     kernel_step s (s\<lparr>kl_scanning := (kl_scanning s)(b := False)\<rparr>)"
| kl_end: "kl_scanning s b \<Longrightarrow> kl_buf s b = [] \<Longrightarrow> kl_returned s \<or> \<not> kl_running s \<and> kl_pipe s b = [] \<Longrightarrow>
     kernel_step s (s\<lparr>kl_scanning := (kl_scanning s)(b := False)\<rparr>)"

inductive_cases kernel_stepE: "kernel_step s t"

definition loggedFrom :: "bool \<Rightarrow> kernelLog \<Rightarrow> string list" where
  "loggedFrom b s = map snd (filter (\<lambda>(c, _). c = b) (kl_log s))"

definition pipeInv :: "bool \<Rightarrow> kernelLog \<Rightarrow> bool" where
  "pipeInv b s \<longleftrightarrow>
     map dropCR (kl_wrote s b) = loggedFrom b s @ map dropCR (kl_buf s b @ kl_pipe s b) \<and>
     set (kl_buf s b) \<union> set (kl_pipe s b) \<subseteq> set (kl_wrote s b) \<and>
     (kl_returned s \<longrightarrow> \<not> kl_running s) \<and>
     (kl_scanning s b \<or> kl_returned s \<or> \<not> kl_running s \<and> kl_buf s b = [] \<and> kl_pipe s b = [] \<or>
        list_ex (\<lambda>l. MaxScanTokenSize \<le> length l) (kl_wrote s b))"

lemma pipe_step: "kernel_step s t \<Longrightarrow> pipeInv b s \<Longrightarrow> pipeInv b t"
proof (induction rule: kernel_step.induct)
  case (kl_write s c l)
  then show ?case by (cases "b = c") (auto simp: pipeInv_def loggedFrom_def)
next
  case (kl_exit s)
  then show ?case by (auto simp: pipeInv_def loggedFrom_def)
next
  case (kl_wait s)
  then show ?case by (auto simp: pipeInv_def loggedFrom_def)
next
  case (kl_read s c l ls)
  then show ?case by (cases "b = c") (auto simp: pipeInv_def loggedFrom_def)
next
  case (kl_scan s c l ls)
  then show ?case by (cases "b = c") (auto simp: pipeInv_def loggedFrom_def)
next
  case (kl_long s c l ls)
  then show ?case by (cases "b = c") (auto simp: pipeInv_def loggedFrom_def list_ex_iff)
next
  case (kl_end s c)
  then show ?case by (cases "b = c") (auto simp: pipeInv_def loggedFrom_def)
qed

lemma kernel_reachable: "kernel_step\<^sup>*\<^sup>* StreamLogKernelMessage s \<Longrightarrow> pipeInv b s"
proof (induction rule: rtranclp_induct)
  case base
  then show ?case by (simp add: pipeInv_def StreamLogKernelMessage_def loggedFrom_def)
next
  case (step s t)
  from step.hyps(2) step.IH show ?case by (rule pipe_step)
qed

text \<open>The log has the messages of each pipe from the first on, in order and without gaps, as they were written but
  for the carriage return at the end of a line; and when a goroutine ends before the caller has stopped waiting, and no
  line was too long, it has logged them all.\<close>

lemma kernel_log_in_order:
  assumes "kernel_step\<^sup>*\<^sup>* StreamLogKernelMessage s"
  shows "\<exists>rest. map dropCR (kl_wrote s b) = loggedFrom b s @ rest"
    and "\<not> kl_scanning s b \<Longrightarrow> \<not> kl_returned s \<Longrightarrow> \<forall>l \<in> set (kl_wrote s b). length l < MaxScanTokenSize \<Longrightarrow>
      loggedFrom b s = map dropCR (kl_wrote s b)"
proof -
  note inv = kernel_reachable [OF assms, of b, unfolded pipeInv_def]
  then show "\<exists>rest. map dropCR (kl_wrote s b) = loggedFrom b s @ rest" by blast
  assume "\<not> kl_scanning s b" "\<not> kl_returned s" "\<forall>l \<in> set (kl_wrote s b). length l < MaxScanTokenSize"
  with inv have "kl_buf s b = [] \<and> kl_pipe s b = []" by (auto simp: list_ex_iff)
  with inv show "loggedFrom b s = map dropCR (kl_wrote s b)" by simp
qed

text \<open>But the caller does not wait for the goroutines, so what they have not read when the process ends is lost.\<close>

lemma kernel_log_loses_tail:
  "\<exists>s. kernel_step\<^sup>*\<^sup>* StreamLogKernelMessage s \<and> kl_wrote s b = [l] \<and> (\<forall>t. kernel_step\<^sup>*\<^sup>* s t \<longrightarrow> kl_log t = [])"
proof -
  let ?i = StreamLogKernelMessage
  let ?a = "?i\<lparr>kl_wrote := (\<lambda>_. [])(b := [l]), kl_pipe := (\<lambda>_. [])(b := [l])\<rparr>"
  let ?c = "?a\<lparr>kl_running := False\<rparr>"
  let ?d = "?c\<lparr>kl_returned := True\<rparr>"
  have a: "kernel_step ?i ?a" using kl_write [of ?i b l] by (simp add: StreamLogKernelMessage_def)
  have c: "kernel_step ?a ?c" by (rule kl_exit) (simp add: StreamLogKernelMessage_def)
  have d: "kernel_step ?c ?d" by (rule kl_wait) simp
  note to = rtranclp.rtrancl_into_rtrancl [of kernel_step]
  have "kernel_step\<^sup>*\<^sup>* ?i ?d" by (rule to [OF to [OF r_into_rtranclp [of kernel_step, OF a] c] d])
  moreover have "kl_log t = [] \<and> kl_returned t \<and> \<not> kl_running t \<and> (\<forall>b. kl_buf t b = [])" if "kernel_step\<^sup>*\<^sup>* ?d t" for t
    using that
  proof (induction rule: rtranclp_induct)
    case base
    then show ?case by (simp add: StreamLogKernelMessage_def)
  next
    case (step t u)
    from step.hyps(2) step.IH show ?case by (cases rule: kernel_stepE) (auto split: if_splits)
  qed
  ultimately show ?thesis by (intro exI [of _ ?d]) (auto simp: StreamLogKernelMessage_def)
qed

end
