(* ===== verification/Leaf_Parts.thy ===== *)
theory Leaf_Parts
  imports Archive Config_File Ssh Network
begin

text \<open>
  Small parts that belong to no larger component: the run-time half of a machine (\<open>pkg/define/struct.go\<close>), key
  generation (\<open>pkg/ssh/keygen.go\<close>), the resizing of a remote terminal (\<open>watchResize\<close> and \<open>isClosed\<close> in
  \<open>pkg/ssh/ssh.go\<close>), the guest's search for a free port (\<open>cmd/guest-agent/pkg/network/port.go\<close>), the remaining
  options of the archiver (\<open>pkg/libarchive/bsdtar.go\<close>) and the version text of \<open>pkg/librevm/vm.go\<close>.
\<close>

subsection \<open>A machine and its run-time state (struct.go)\<close>

record MachineRuntime =
  mr_Readiness :: Readiness

definition NewMachineRuntime :: MachineRuntime where
  "NewMachineRuntime = \<lparr>mr_Readiness = NewReadiness\<rparr>"

record GoMachine =
  gm_MachineSpec :: MachineSpec
  gm_MachineRuntime :: "MachineRuntime option"

text \<open>The receiver may be nil.\<close>

definition EnsureRuntime :: "GoMachine option \<Rightarrow> GoMachine option" where
  "EnsureRuntime m0 =
     (case m0 of
        None \<Rightarrow> None
      | Some m \<Rightarrow>
          (if gm_MachineRuntime m = None then Some (m\<lparr>gm_MachineRuntime := Some NewMachineRuntime\<rparr>) else Some m))"

definition UnmarshalMachine :: "string \<Rightarrow> (GoMachine, unit) proc" where
  "UnmarshalMachine data m =
     (case machine_Unmarshal data of
        Inl e \<Rightarrow> (Inl e, m)
      | Inr spec \<Rightarrow>
          (case EnsureRuntime (Some (m\<lparr>gm_MachineSpec := spec\<rparr>)) of None \<Rightarrow> (Inr (), m) | Some m' \<Rightarrow> (Inr (), m')))"

definition MarshalMachine :: "GoMachine \<Rightarrow> string" where
  "MarshalMachine m = machine_Marshal (gm_MachineSpec m)"

text \<open>Reading a description keeps the signals that were given: a machine that has its latches keeps them, one
  without gets fresh ones, and a text that cannot be read changes nothing. The latches are not written.\<close>

lemma unmarshal_keeps_runtime:
  "case UnmarshalMachine data m of (r, m') \<Rightarrow>
     (ok r \<longrightarrow> machine_Unmarshal data = Inr (gm_MachineSpec m') \<and>
       gm_MachineRuntime m' = Some (case gm_MachineRuntime m of None \<Rightarrow> NewMachineRuntime | Some rt \<Rightarrow> rt)) \<and>
     (\<not> ok r \<longrightarrow> m' = m)"
  by (auto simp: UnmarshalMachine_def EnsureRuntime_def split: sum.split option.split)

lemma marshal_drops_runtime: "MarshalMachine (m\<lparr>gm_MachineRuntime := rt\<rparr>) = MarshalMachine m"
  by (simp add: MarshalMachine_def)

subsection \<open>Key generation (keygen.go)\<close>

text \<open>The key pair library is a parameter: given a path and options it gives a pair or fails.\<close>

datatype keygenOption = WithKeyTypeEd25519 | WithPassphrase string

record keyPair =
  RawPrivateKey :: string
  RawAuthorizedKey :: string
  WriteKeys :: "unit res"

type_synonym keygen_lib = "string \<Rightarrow> keygenOption list \<Rightarrow> keyPair res"

definition GenerateKey :: "keygen_lib \<Rightarrow> (string \<times> string) res" where
  "GenerateKey lib =
     (case lib [] [WithKeyTypeEd25519] of
        Inl e \<Rightarrow> Inl e
      | Inr kp \<Rightarrow> Inr (RawPrivateKey kp, RawAuthorizedKey kp))"

text \<open>The names are returned even when writing fails.\<close>

definition GenerateKeyWithPassphrase :: "keygen_lib \<Rightarrow> string \<Rightarrow> string \<Rightarrow> (string \<times> string) \<times> unit res" where
  "GenerateKeyWithPassphrase lib path passphrase =
     (case lib path [WithKeyTypeEd25519, WithPassphrase passphrase] of
        Inl e \<Rightarrow> (([], []), Inl e)
      | Inr kp \<Rightarrow> ((path, path @ ''.pub''), WriteKeys kp))"

subsection \<open>Resizing a remote terminal (ssh.go)\<close>

definition isClosed :: "sshClient \<Rightarrow> bool" where
  "isClosed c = cl_closed c"

text \<open>What \<open>select\<close> finds, one after the other: one of the three reasons to end, or the window signal
  with the size that is read then, if it can be read. The result is the sequence of window changes,
  height first.\<close>

datatype resizeEvent = ResizeCtxDone | ResizeClientClosed | ResizeShellDone | Winch "(nat \<times> nat) option"

fun watchResize :: "resizeEvent list \<Rightarrow> (nat \<times> nat) list" where
  "watchResize [] = []"
| "watchResize (ResizeCtxDone # evs) = []"
| "watchResize (ResizeClientClosed # evs) = []"
| "watchResize (ResizeShellDone # evs) = []"
| "watchResize (Winch wh # evs) =
     (case wh of None \<Rightarrow> watchResize evs | Some (w, h) \<Rightarrow> (h, w) # watchResize evs)"

definition isWinch :: "resizeEvent \<Rightarrow> bool" where
  "isWinch ev = (case ev of Winch _ \<Rightarrow> True | _ \<Rightarrow> False)"

text \<open>The remote side hears of the last size that could be read before the end, and of nothing after it.\<close>

lemma watch_resize_until:
  "watchResize evs = watchResize (takeWhile isWinch evs)"
  by (induction evs rule: watchResize.induct) (auto simp: isWinch_def split: option.split)

lemma watch_resize_last:
  assumes "\<forall>ev \<in> set evs. isWinch ev"
  shows "watchResize (evs @ Winch (Some (w, h)) # end) = watchResize evs @ (h, w) # watchResize end"
  using assms by (induction evs rule: watchResize.induct) (auto simp: isWinch_def split: option.split)

subsection \<open>A free port in the guest (port.go of the agent)\<close>

text \<open>\<open>listen\<close> says whether an address can be bound; for port 0 the kernel answers with the next ephemeral
  port.\<close>

definition ListenTCP :: "(u16 \<Rightarrow> bool) \<Rightarrow> u16 \<Rightarrow> (OS, u16) proc" where
  "ListenTCP canListen port s =
     (if port \<noteq> 0 then (if canListen port then (Inr port, s) else (Inl (ErrSyscall ''listen''), s))
      else case os_ports s of
             [] \<Rightarrow> (Inl (ErrSyscall ''listen''), s)
           | p # ps \<Rightarrow> (Inr p, s\<lparr>os_ports := ps\<rparr>))"

definition guest_GetAvailablePort :: "(u16 \<Rightarrow> bool) \<Rightarrow> u16 \<Rightarrow> (OS, u64) proc" where
  "guest_GetAvailablePort canListen preferredPort s =
     (let fallback = (\<lambda>t. case ListenTCP canListen 0 t of (Inl e, t') \<Rightarrow> (Inl e, t') | (Inr p, t') \<Rightarrow> (Inr (ucast p), t'))
      in if preferredPort \<noteq> 0
         then (case ListenTCP canListen preferredPort s of
                 (Inr _, t) \<Rightarrow> (Inr (ucast preferredPort), t)
               | (Inl _, t) \<Rightarrow> fallback t)
         else fallback s)"

text \<open>The guest's copy of the function is the host's.\<close>

lemma guest_port_same: "guest_GetAvailablePort canListen p s = GetAvailablePort canListen p s"
  by (simp add: guest_GetAvailablePort_def GetAvailablePort_def ListenTCP_def Let_def split: list.split)

subsection \<open>The remaining options of the archiver (bsdtar.go)\<close>

definition WithArchiveFilePath :: "string \<Rightarrow> Archiver \<Rightarrow> Archiver" where
  "WithArchiveFilePath filename t = t\<lparr>ar_filename := filename\<rparr>"

definition SetVerbose :: "int \<Rightarrow> Archiver \<Rightarrow> Archiver" where
  "SetVerbose level t = t\<lparr>ar_verbose := level\<rparr>"

definition SetBytesPerBlock :: "int \<Rightarrow> Archiver \<Rightarrow> Archiver" where
  "SetBytesPerBlock bytes t = t\<lparr>ar_bytesPerBlock := bytes\<rparr>"

definition IncludeFileAttribute :: "Archiver \<Rightarrow> Archiver" where
  "IncludeFileAttribute t = t\<lparr>ar_includeFileAttribute := True\<rparr>"

text \<open>How much is printed and how large the blocks are changes nothing in what is extracted, nor in the errors.\<close>

lemma processEntries_options:
  assumes "ar_fastRead t' = ar_fastRead t" "ar_patterns t' = ar_patterns t" "ar_transform t' = ar_transform t"
    and "extractFlags t' = extractFlags t"
  shows "processEntries env t' i seen hs s = processEntries env t i seen hs s"
proof (induction hs arbitrary: i seen s)
  case Nil
  then show ?case by (simp add: processEntries.simps assms)
next
  case (Cons h hs)
  have r: "renamed t' = renamed t" unfolding fun_eq_iff renamed_def assms by simp
  have e: "extractOne env t' = extractOne env t" unfolding fun_eq_iff extractOne_def assms by simp
  have "processEntries env t' j seen' hs = processEntries env t j seen' hs" for j seen'
    by (rule ext) (rule Cons.IH)
  note step = this r e assms
  show ?case
    unfolding processEntries.simps [of env t' i seen "h # hs" s] processEntries.simps [of env t i seen "h # hs" s]
      list.case step by (rule refl)
qed

lemma options_keep_extraction:
  "ModeX env (SetVerbose level t) s = ModeX env t s"
  "ModeX env (SetBytesPerBlock bytes t) s = ModeX env t s"
proof -
  have "processEntries env (SetVerbose level t) = processEntries env t"
    "processEntries env (SetBytesPerBlock bytes t) = processEntries env t"
    by (intro ext processEntries_options; simp add: SetVerbose_def SetBytesPerBlock_def extractFlags_def)+
  then have "readArchive env (SetVerbose level t) = readArchive env t"
    "readArchive env (SetBytesPerBlock bytes t) = readArchive env t"
    by (simp_all add: readArchive_def doChdir_def SetVerbose_def SetBytesPerBlock_def)
  then show "ModeX env (SetVerbose level t) s = ModeX env t s"
    "ModeX env (SetBytesPerBlock bytes t) s = ModeX env t s"
    by (simp_all add: ModeX_def initMatching_def SetVerbose_def SetBytesPerBlock_def)
qed

subsection \<open>The version text (vm.go)\<close>

definition orUnknown :: "string \<Rightarrow> string" where
  "orUnknown s = (if s = [] then ''unknown'' else s)"

definition buildTimeInfo :: "string \<Rightarrow> string \<Rightarrow> string \<Rightarrow> string" where
  "buildTimeInfo Version CommitID BuildDate =
     orUnknown Version @ ''-'' @ orUnknown CommitID @ ''-'' @ orUnknown BuildDate"

end
