(* ===== verification/Spec2Isabelle.thy ===== *)
theory Spec2Isabelle
  imports Archive Krun_Memory Microvm Packaging Session_Lock Virtio Stop_Signal Cli Host_System Sse Services
    Guest_Log Leaf_Parts
begin

text \<open>
  A verification development for \<open>ovm-next\<close> (the command \<open>revm\<close>), a Go program that runs containers in a
  Linux microVM. The host program builds a machine description from the user's configuration, drives
  libkrun with it, and serves it to an agent that runs as the first process of the guest. This
  header says what is modelled where, what is proved, and what is left out.

  \<^bold>\<open>The program.\<close> A session lives in \<open>pkg/librevm\<close>. \<open>cmd/revm\<close> turns flags and the file that \<open>init\<close> wrote
  into a \<open>Config\<close>; \<open>New\<close> and \<open>init\<close> (\<open>vm.go\<close>) normalise it, lock and prepare the workspace, and let
  \<open>buildMachine\<close> (\<open>machine.go\<close>, \<open>network.go\<close>, \<open>storage.go\<close>) fill in a \<open>MachineSpec\<close> (\<open>pkg/define\<close>).
  \<open>RunDocker\<close> starts five things side by side: the network stack (\<open>pkg/gvproxy\<close>), the ignition server
  (\<open>pkg/service/ignition\<close>), the management API (\<open>pkg/service/management\<close>), the Podman proxy
  (\<open>pkg/service/lifecycle\<close>) and, when the network is up, the microVM (\<open>pkg/libkrun\<close>). The guest
  agent (\<open>cmd/guest-agent\<close>) fetches the description over vsock, mounts, configures the network,
  supervises an SSH server and Podman, forwards unix sockets to the host, reports what is ready to the
  ignition server, and powers the guest off when the signal port of the microVM says so. Events go
  to reporters (\<open>events.go\<close>, \<open>ovm.go\<close>).

  \<^bold>\<open>How Go is modelled.\<close> A function that may fail is a \<open>proc\<close>: from a state to a result (\<open>goerr + 'a\<close>)
  and the next state, composed by \<open>andThen\<close> as the code composes calls with early returns (\<open>Prelude\<close>).
  A panic and an exit are errors, since the code never recovers. Integers of fixed width are words;
  conversions wrap as in Go. Strings are lists of bytes. Goroutines are step relations, in which
  every interleaving is a run. The C libraries, the kernel's answers, other programs and the network are
  parameters (\<open>disk_lib\<close>, \<open>krun_env\<close>, \<open>ssh_env\<close>, \<open>wait_env\<close>, \<open>guest_env\<close>, \<open>host_env\<close>, \<open>arch_env\<close>,
  \<open>build_env\<close>); what a theorem needs of them is a named hypothesis, and its witness instantiates it.

  \<^bold>\<open>The theories\<close>, in the order of their imports.

  \<^item> \<open>Prelude\<close>: errors, results, procedures and the lemma collections. \<open>Go_Strings\<close>, \<open>Go_Path\<close>, \<open>Go_Url\<close>,
    \<open>Go_Json\<close>, \<open>Go_OS\<close>: what the program uses of Go's library, as executable definitions: string
    splitting and numerals, \<open>Clean\<close>/\<open>Join\<close>/\<open>Abs\<close>, URLs and addresses, JSON text with a parser that is
    proved to read back what is written, and a file tree with links, locks and ports.
  \<^item> \<open>Define\<close> (\<open>pkg/define\<close>): constants, the machine description, and the readiness latches with the
    locale \<open>once_signal\<close>. \<open>Unix_Forward\<close>: the rules and routes of forwarded sockets, which host and guest
    compute separately; they agree, have ports of their own, and running out of ports is an error.
  \<^item> \<open>Paths\<close> (\<open>paths.go\<close>, locale \<open>workspace_files\<close>), \<open>Config\<close> (\<open>config.go\<close>: limits, defaults, the merge of
    configurations, the flags), \<open>Wire\<close> and \<open>Config_File\<close> (the JSON of configurations and descriptions,
    with round trips), \<open>Virtio\<close> (mount flags and units).
  \<^item> \<open>Disk\<close> and \<open>Storage\<close> (\<open>pkg/disk\<close>, \<open>storage.go\<close>): probing and marking disk images, and the tables by
    which a disk is created, kept or recreated. \<open>Archive\<close> (\<open>pkg/libarchive\<close>): the extraction loop; it meets
    the contract that \<open>Disk\<close> states for the embedded image.
  \<^item> \<open>Network\<close> and \<open>Events\<close>: the HTTP client, free ports, the dispatcher as a refinement of its
    specification, the requests of the legacy reporter (locale \<open>event_reporter\<close>). \<open>Cleanup\<close>: the stack of
    clean-up callbacks (locale \<open>teardown\<close>), run by any number of goroutines.
  \<^item> \<open>Machine\<close>: \<open>buildMachine\<close> step by step, with what a built machine contains, and that a failed build
    removes its workspace and releases the lock. \<open>Session_Lock\<close>: the lock between processes, any number
    of them, with the kernel's owners apart from the program's steps; a working session owns its lock,
    two sessions are never both working, and three can be.
  \<^item> \<open>Krun\<close>: the calls to libkrun; a start gives exactly the device tree of the description and stops at
    the first failed call. \<open>Krun_Memory\<close>: the same calls over a heap of C strings, a refinement of the calls with
    plain strings that frees what it allocates. \<open>Microvm\<close>: from the configuration through the build to the
    devices of the microVM. \<open>Gvproxy\<close>: the network stack. \<open>Relay\<close>: the three relays of connections as
    step relations: for all three what arrives is in order and every run ends (locale \<open>relaying\<close>);
    for the two that keep the other direction open everything arrives (locale \<open>lossless_relay\<close>), and
    for the tunnel it need not (\<open>tunnel_truncates\<close>).
  \<^item> \<open>Poll\<close>: the two shapes of waiting loops (locale \<open>waiting\<close>). \<open>Ignition\<close>, \<open>Management\<close>, \<open>Ssh\<close>: the servers and
    the SSH client. Requests meet the checks of Go's \<open>ServeMux\<close> first (\<open>muxEarly\<close>): an unclean path is
    redirected.
  \<^item> \<open>Guest_Mount\<close>, \<open>Guest_Wait\<close>, \<open>Supervisor\<close>, \<open>Guest_Agent\<close>: the guest agent from its embedded tools to the
    boot sequence and shutdown. A probe may hang where the code sets no deadline (\<open>IsSSHReadyOn\<close>,
    \<open>WaitGuestServiceReadyOn\<close>), a supervised process may never be reaped (\<open>procRun\<close>), and a signal may come
    before the agent registers for it (\<open>agentEvents\<close>); where that keeps the code from returning, a lemma
    says so.
  \<^item> \<open>VM_Session\<close> (\<open>New\<close>, \<open>init\<close>, \<open>Close\<close>, endpoints), \<open>Run_Docker\<close> (the goroutines of a running session with
    their invariant and a bound on their steps; libkrun ends the whole process when the guest powers
    off, and that is a state of its own), \<open>Stop_Signal\<close> (stop requests, signals and the end of the
    parent on their way to the guest's power switch), \<open>Cli\<close> (\<open>cmd/revm\<close>). \<open>Packaging\<close>: the release build, \<open>scripts/build.go\<close>.
  \<^item> \<open>Sse\<close> (\<open>pkg/sse\<close>: the streams of the management API with the commands that write to them), \<open>Services\<close>
    (\<open>host_services.go\<close>, \<open>provider.go\<close>, the goroutines of the ignition server and of the group of servers in
    \<open>gvproxy.go\<close>), \<open>Host_System\<close> (\<open>pkg/system\<close> and \<open>xattr.go\<close>: versions, limits, the terminal, the attributes
    on macOS as an equivalent of those on Linux), \<open>Guest_Log\<close> (\<open>kernel.go\<close>, \<open>logwriter.go\<close>) and
    \<open>Leaf_Parts\<close> (run-time state of a machine, key generation, window changes of a shell, the guest's free
    port, the remaining options of the archiver).
  \<^item> this theory: the properties that need host and guest together.

  \<^bold>\<open>Bounds and fuel.\<close> Following symbolic links stops after \<open>maxLinks\<close> = 40, as in Linux. The JSON parser
  takes the length of the text as fuel, which \<open>parseVal_print\<close> shows to be enough for every value that is
  written. Waiting loops are \<open>partial_function\<close>s: their value is \<open>None\<close> when they never return, and
  \<open>guest_waits_end\<close> shows when they do. A session makes at most twenty proper steps on the host side
  (\<open>run_docker_ends\<close>). The scanners give up at lines of 65536 bytes (\<open>MaxScanTokenSize\<close>) in the guest
  and of a megabyte (\<open>maxLine\<close>) in the management API, as the code sets them.

  \<^bold>\<open>Not modelled.\<close> Logging and time stamps. The JSON merge patch library, YAML, the SSH protocol, the
  user-mode network stack, the ext2 and blkid libraries, DHCP and netlink are outside the repository.
  Left out as plain calls to the system are the number of processors and the size of the local terminal.
  What the event-stream library does once the context of a session is done is not described by it, and
  \<open>Sse\<close> takes a message as delivered when \<open>Publish\<close> returns. Strings are taken as bytes, and the rules for invalid
  UTF-8 in JSON are left out; symbolic links in the middle of a path are not followed. Parsing of
  command-line flags is a library's; the model starts from their values. Each operation of the event
  dispatcher is one step: publishing takes a read lock in the code, so overlapping calls may reach the
  reporters in either order. \<open>ssh.NewClientConn\<close> is taken to return in the ways of reaching a running
  guest (\<open>sshDial\<close>); only the readiness probe is modelled with a peer that stays silent. The device tree
  of a microVM leaves out the descriptors of its console ports and the identifiers of its disks, which
  follow from their order.
\<close>

lemma get_request:
  assumes "cl_baseURL c = base" and "ok (url_Parse (base @ path))" and "Clean (sep # path) = path"
    and "(case url_Parse (base @ path) of Inl _ \<Rightarrow> [] | Inr u \<Rightarrow> u_Path u) = path"
  shows "buildURL (NewRequest c meth path) = base @ path"
    and "received (wireRequest (NewRequest c meth path)) = \<lparr>hi_method = meth, hi_path = path, hi_body = Inr []\<rparr>"
  using assms by (simp_all add: buildURL_def wireRequest_def received_def NewRequest_def)

text \<open>What the guest's client asks of the ignition server arrives there.\<close>

lemma vsock_base: "cl_baseURL NewVSockService = ''http://vsock''"
  by (simp add: NewVSockService_def NewVSockClient_def)

lemma vsock_paths:
  "path \<in> set (''/vmconfig'' # map ((@) ''/ready/'') reportedServices) \<Longrightarrow>
   ok (url_Parse (''http://vsock'' @ path)) \<and> Clean (sep # path) = path \<and>
   (case url_Parse (''http://vsock'' @ path) of Inl _ \<Rightarrow> [] | Inr u \<Rightarrow> u_Path u) = path"
proof -
  have "list_all (\<lambda>path. ok (url_Parse (''http://vsock'' @ path)) \<and> Clean (sep # path) = path \<and>
      (case url_Parse (''http://vsock'' @ path) of Inl _ \<Rightarrow> [] | Inr u \<Rightarrow> u_Path u) = path)
    (''/vmconfig'' # map ((@) ''/ready/'') reportedServices)"
    by code_simp
  then show "path \<in> set (''/vmconfig'' # map ((@) ''/ready/'') reportedServices) \<Longrightarrow> ?thesis"
    unfolding list_all_iff by blast
qed

lemma config_answer:
  "DoAndRead (ignPeer mp s) (HttpGet NewVSockService RestAPIVMConfigURL) = Inr (json_Encode (encMachine (ig_spec s)), 200)"
proof -
  note p = vsock_paths [of "''/vmconfig''"]
  have path: "RestAPIVMConfigURL = ''/vmconfig''" by (simp add: RestAPIVMConfigURL_def)
  note r = get_request [OF vsock_base conjunct1 [OF p] conjunct1 [OF conjunct2 [OF p]] conjunct2 [OF conjunct2 [OF p]]]
  show ?thesis
    using p r [where meth = "''GET''"] get_config [of "\<lparr>hi_method = ''GET'', hi_path = ''/vmconfig'', hi_body = Inr []\<rparr>" mp s]
    by (auto simp: DoAndRead_def httpDo_def HttpGet_def path ignPeer_def ok_iff)
qed

lemma described_by_server:
  assumes "distinct (map fst (UnixSocketForwards (ig_spec s)))" and "asciiMachine (ig_spec s)"
  shows "describedBy (ignPeer mp s) m \<longleftrightarrow> m = readBack (ig_spec s)"
  using served_text(1) [OF assms] by (auto simp: describedBy_def config_answer)

lemma route_host:
  assumes "BuildUnixSocketForwardRoutes m = Inr routes" and "distinct (keys m)" and "r \<in> set routes"
  shows "map_of m (GuestPath r) = Some (HostPath r)"
proof -
  have "length m \<le> maxRoutes"
  proof (rule ccontr)
    assume "\<not> length m \<le> maxRoutes"
    then show False
      using assms(1) routesLoop_overflow [of 0 "sort (keys m)" "[]" m]
      by (cases "m = []") (auto simp: BuildUnixSocketForwardRoutes_def keys_def)
  qed
  then show ?thesis using built_routes [OF assms(2)] assms(1,3) by auto
qed

lemma guestTable_readBack: "guestTable base (readBack m) t = guestTable base m t"
  by (simp add: guestTable_def withDisks_def readBack_def)

text \<open>C1. Host and guest meet. Let the host create a microVM for a machine description and serve the
  description on its ignition socket, with forwarding rules that were accepted. If a guest boots from
  what this server answers, then it has the host's description (with the rules in key order); its
  mount table is the one specified for it; and every socket it forwards leads, through the very
  vsock port the guest dials, to the host path the rules give for it, in the device tree of that
  microVM.\<close>

theorem guest_matches_host:
  assumes "krunCreate kenv (newKrun hm os pipes) = (Inr (), vm)"
    and "goodRules (UnixSocketForwards hm)" and "asciiMachine hm"
    and "\<forall>k. \<exists>s. ig_spec s = hm \<and> we_host wenv k = ignPeer mp s"
    and "mountpointTells env base"
    and "guestBoot env wenv levels envLevel i a = Some (Inr m, j, b)" and "ag_forwarders a = []"
  shows "m = readBack hm \<and>
    mountTable (g_ran (ag_guest b)) = guestTable base hm (mountTable (g_ran (ag_guest a))) \<and>
    (\<forall>f \<in> set (ag_forwarders b). \<exists>hostPath.
       map_of (UnixSocketForwards hm) (uf_guestPath f) = Some hostPath \<and>
       VSockMap (uf_vsockPort f) (cstr hostPath) False \<in> set (devices (kv_calls vm)))"
proof -
  have dist: "distinct (map fst (UnixSocketForwards hm))" using assms(2) by (simp add: goodRules_def keys_def)
  obtain l a1 g where init: "andThen (setupLogger levels envLevel)
      (\<lambda>_. wrapping ''init bin dir'' (onGuest (InitBinDir env))) a = (Inr l, a1)"
    and cfg: "GetVMConfig wenv i (ag_guest a1) = Some (Inr m, j, g)"
    and prep: "prepareMachine env m (a1\<lparr>ag_guest := g\<rparr>) = (Inr (), b)"
    using assms(6) by (auto simp: guestBoot_def split: prod.splits sum.splits option.splits)
  have a1: "g_ran (ag_guest a1) = g_ran (ag_guest a)" "ag_forwarders a1 = ag_forwarders a"
    using init InitBinDir_ran
    by (auto simp: setupLogger_def Let_def andThen_Inr_iff onGuest_Inr split: if_splits)
  obtain k where "describedBy (we_host wenv k) m" and g: "g_ran g = g_ran (ag_guest a1)"
    using GetVMConfig_found [OF cfg] by blast
  then have m: "m = readBack hm"
    using described_by_server [of _ mp m] dist assms(3,4) by metis
  note prepared = prepareMachine_ok [OF assms(5) prep]
  obtain ign routes where routes: "BuildUnixSocketForwardRoutes (UnixSocketForwards hm) = Inr routes"
    and dev: "devices (kv_calls vm) = deviceTree (ke_linux kenv) (kv_os vm) hm ign routes"
    using krunCreate_adds [OF assms(1)] by (auto simp: adds_def newKrun_def)
  have "BuildUnixSocketForwardRoutes (UnixSocketForwards m) = Inr routes"
    using routes_by_map [of "UnixSocketForwards m" "UnixSocketForwards hm"] dist routes
    by (simp add: m readBack_def keys_def sortedMap_keys sortedMap_map_of)
  then have rules: "machineRules m = buildUnixForwardRules routes" by (simp add: machineRules_def)
  have "\<exists>hostPath. map_of (UnixSocketForwards hm) (uf_guestPath f) = Some hostPath \<and>
      VSockMap (uf_vsockPort f) (cstr hostPath) False \<in> set (devices (kv_calls vm))"
    if "f \<in> set (ag_forwarders b)" for f
  proof -
    have "f \<in> set (machineRules m)"
      using that prepared a1(2) assms(7) by (auto elim: list_emb_set)
    then obtain r where r: "r \<in> set routes" "uf_guestPath f = GuestPath r" "uf_vsockPort f = VSockPort r"
      by (auto simp: rules buildUnixForwardRules_def)
    moreover have "map_of (UnixSocketForwards hm) (GuestPath r) = Some (HostPath r)"
      using route_host [OF routes _ r(1)] dist by (simp add: keys_def)
    ultimately show ?thesis
      by (auto simp: dev deviceTree_def vsockDevices_def)
  qed
  moreover have "mountTable (g_ran (ag_guest b)) = guestTable base hm (mountTable (g_ran (ag_guest a)))"
    using prepared a1(1) g by (simp add: m guestTable_readBack)
  ultimately show ?thesis using m by blast
qed

definition meetMachine :: MachineSpec where
  "meetMachine = sampleKrunMachine\<lparr>BlkDevs := BlkDevs bootMachine\<rparr>"

definition meetOS :: OS where
  "meetOS = sampleKrunOS\<lparr>os_fs := [(''/s'', Directory), (''/s/var.img'', File [] [])]\<rparr>"

lemma meet_create_ok:
  "ok (fst (krunCreate sampleKrunEnv (newKrun meetMachine meetOS [(7, 8)])))"
proof (rule krunCreate_succeeds [of _ meetMachine "\<lambda>s. s = meetOS"])
  have "(case os_OpenAppend ''/l'' meetOS of
      (Inl _, _) \<Rightarrow> False
    | (Inr _, s) \<Rightarrow> (case fst (os_Stat ''/s/var.img'' s) of Inr (File _ _) \<Rightarrow> True | _ \<Rightarrow> False))"
    by code_simp
  then show "yields (os_OpenAppend (LogFile meetMachine) s) (attachable meetMachine)" if "s = meetOS" for s
    using that by (auto simp: yields_def attachable_def meetMachine_def sampleKrunMachine_def emptyMachine_def bootMachine_def
        split: prod.splits sum.splits node.splits)
  show "ok (ParseUnixAddr (IgnitionListenSockAddr meetMachine))"
    "ok (BuildUnixSocketForwardRoutes (UnixSocketForwards meetMachine))"
    by code_simp+
qed (simp_all add: sampleKrunEnv_def meetMachine_def sampleKrunMachine_def stage_def newKrun_def)

lemma meet_ascii: "asciiMachine meetMachine"
  by (simp add: asciiMachine_def meetMachine_def sampleKrunMachine_def bootMachine_def emptyMachine_def encMachine_def
      machineFields_def encBlkDev_def blkDevFields_def encSSHInfo_def sSHInfoFields_def
      emptySSHInfo_def encPodmanInfo_def podmanInfoFields_def encGuestAgentCfg_def
      guestAgentCfgFields_def encCmdline_def cmdlineFields_def encProxySetting_def
      proxySettingFields_def VarDataDiskUUID_def TSI_def jsonMap_def sortedMap_def ascii_def plain_obj)

theorem guest_matches_host_witness:
  "\<exists>vm b. krunCreate sampleKrunEnv (newKrun meetMachine meetOS [(7, 8)]) = (Inr (), vm) \<and>
     guestBoot bootEnv (sampleWaitEnv (\<lambda>_. Ticked) (ignPeer (\<lambda>_ b. Inr b) (NewServer meetMachine NewReadiness)) sampleSshEnv)
       (\<lambda>_. True) [] 0 bootAgent = Some (Inr meetMachine, 0, b) \<and>
     mountTable (g_ran (ag_guest b)) = guestTable bootBase meetMachine []"
proof -
  let ?s = "NewServer meetMachine NewReadiness" and ?mp = "\<lambda>_ b :: string. Inr b :: string res"
  let ?w = "sampleWaitEnv (\<lambda>_. Ticked) (ignPeer ?mp ?s) sampleSshEnv"
  obtain vm where create: "krunCreate sampleKrunEnv (newKrun meetMachine meetOS [(7, 8)]) = (Inr (), vm)"
    using meet_create_ok by (auto simp: ok_iff) (metis prod.collapse)
  have rules: "UnixSocketForwards meetMachine = [(''/g'', ''/h'')]"
    by (simp add: meetMachine_def sampleKrunMachine_def)
  then have read: "readBack meetMachine = meetMachine"
    by (simp add: readBack_def sortedMap_def meetMachine_def sampleKrunMachine_def)
  have good: "goodRules (UnixSocketForwards meetMachine)"
    by (simp add: rules goodRules_def keys_def IsAbs_def)
  have "describedBy (we_host ?w 0) meetMachine"
    using described_by_server [of ?s ?mp] meet_ascii rules read by (simp add: NewServer_def sampleWaitEnv_def)
  then obtain b where boot: "guestBoot bootEnv ?w (\<lambda>_. True) [] 0 bootAgent = Some (Inr meetMachine, 0, b)"
    using boot_runs [of meetMachine ?w] by (auto simp: meetMachine_def sampleKrunMachine_def emptyMachine_def)
  have "\<forall>k. \<exists>s. ig_spec s = meetMachine \<and> we_host ?w k = ignPeer ?mp s"
    by (auto simp: sampleWaitEnv_def NewServer_def intro: exI [of _ ?s])
  from guest_matches_host [OF create good meet_ascii this bootEnv_tells boot] create boot show ?thesis
    by (simp add: bootAgent_def sampleGuest_def)
qed

subsection \<open>The guest's reports\<close>

text \<open>A report of the guest arrives at the ignition server as the POST it expects, and is accepted.\<close>

lemma report_received:
  assumes "name \<in> set reportedServices"
  shows "received (readyRequest name) = \<lparr>hi_method = ''POST'', hi_path = ''/ready/'' @ name, hi_body = Inr []\<rparr>"
proof -
  have "''/ready/'' @ name \<in> set (''/vmconfig'' # map ((@) ''/ready/'') reportedServices)"
    using assms by simp
  note p = vsock_paths [OF this]
  show ?thesis
    using get_request(2) [OF vsock_base conjunct1 [OF p] conjunct1 [OF conjunct2 [OF p]] conjunct2 [OF conjunct2 [OF p]]]
    by (simp add: readyRequest_def HttpPost_def)
qed

lemma report_served:
  assumes "name \<in> set reportedServices"
  shows "ign_serve mp (received (readyRequest name)) s = ign_handleReady name (received (readyRequest name)) s"
proof -
  have "muxEarly (received (readyRequest name)) = None"
    using assms by (intro known_paths_served(3) [of name]) (auto simp: report_received reportedServices_def)
  then show ?thesis
    using assms unfolding report_received [OF assms]
    by (auto simp: ign_serve_def reportedServices_def ServiceNameSSH_def ServiceNamePodman_def
        ServiceNameGuestNetwork_def HasPrefix_def)
qed

lemma report_accepted:
  assumes "name \<in> set reportedServices" and "readiness_ok (ig_ready s)"
  shows "answers200 (ignPeer mp s) (readyRequest name)"
proof -
  have "hi_method (received (readyRequest name)) = ''POST''" by (simp add: report_received [OF assms(1)])
  from ready_effect [OF assms(2) this, of name] obtain out s' where
    "ign_serve mp (received (readyRequest name)) s = Some (out, s')" "ho_code out = 200"
    using assms(1) unfolding report_served [OF assms(1)] by (auto simp: reportedServices_def)
  then show ?thesis by (simp add: answers200_def ignPeer_def)
qed

text \<open>C3. Readiness travels from the guest to the events of the host. Let the host answer the guest
  by its ignition server, and let SSH, podman and the guest's address come up in time. Then
  \<open>WaitGuestServiceReady\<close> succeeds at most three turns later; the requests it made leave the
  server with the signals for SSH, podman and the guest network given, with the machine
  description and the host-network signal as they were; and a session with these signals can
  announce SSH and podman next, if it has not done so before.\<close>

theorem guest_readiness_reaches_host:
  assumes "\<forall>j \<le> max i up + 3. we_wake env j = Ticked"
    and "\<forall>j \<ge> up. sshUp (we_ssh env j) \<and> hasAddress env j ifName \<and>
      answers200 (we_podman env j) (wireRequest (pingRequest m))"
    and "\<forall>j. \<exists>s'. readiness_ok (ig_ready s') \<and> we_host env j = ignPeer mp s'"
    and "VirtualNetworkMode m = GVISOR \<and> ifName = ''eth0'' \<or> VirtualNetworkMode m = TSI \<and> ifName = ''lo''"
    and "listensAt (GuestPodmanAPIListenAddr (PodmanInfo m))"
    and "ok (fst (os_WriteFile tmpKey (HostSSHPrivateKey (SSHInfo m)) (g_os g)))"
    and "readiness_ok (ig_ready s)"
  shows "\<exists>j g' t. WaitGuestServiceReady env m i g = Some (Inr (), j, g') \<and> j \<le> max i up + 3 \<and>
    ignAfter mp (map received (drop (length (hostSent g)) (hostSent g'))) s = Some t \<and>
    ig_spec t = ig_spec s \<and> VNetHostReady (ig_ready t) = VNetHostReady (ig_ready s) \<and>
    chan_closed (VNetGuestReady (ig_ready t)) \<and>
    (\<forall>r. rd_ready r = ig_ready t \<and> mo_running (rd_mon r) \<and> \<not> mo_ssh (rd_mon r) \<longrightarrow>
       (\<exists>u. monitor_step r u \<and> rd_emitted u = rd_emitted r @ [(EventSSHReady, ''ssh ready'')])) \<and>
    (\<forall>r. rd_ready r = ig_ready t \<and> mo_running (rd_mon r) \<and> \<not> mo_podman (rd_mon r) \<longrightarrow>
       (\<exists>u. monitor_step r u \<and> rd_emitted u = rd_emitted r @ [(EventPodmanReady, podmanMsg r)]))"
proof -
  let ?rs = "map (received \<circ> readyRequest) reportedServices"
  have "\<forall>j. list_all (\<lambda>n. answers200 (we_host env j) (readyRequest n)) reportedServices"
    using report_accepted assms(3) unfolding list_all_iff by metis
  from reports_sent [OF assms(1,2) this assms(4-6)] obtain j g' where
    sent: "WaitGuestServiceReady env m i g = Some (Inr (), j, g')" "j \<le> max i up + 3"
    "hostSent g' = hostSent g @ map readyRequest reportedServices" by blast
  have rs: "?rs = map (\<lambda>n. \<lparr>hi_method = ''POST'', hi_path = ''/ready/'' @ n, hi_body = Inr []\<rparr>) reportedServices"
    by (simp add: report_received)
  have given: "list_ex (reportOf n) ?rs" if "n \<in> set reportedServices" for n
    using that unfolding rs by (force simp: list_ex_iff reportOf_def)
  have "list_all (\<lambda>r. \<not> isPatch r) ?rs" unfolding rs by (simp add: list_all_iff isPatch_def)
  with after_effect [OF assms(7), of mp ?rs] given obtain t where
    t: "ignAfter mp ?rs s = Some t" "ig_spec t = ig_spec s" "VNetHostReady (ig_ready t) = VNetHostReady (ig_ready s)"
    "chan_closed (SSHReady (ig_ready t))" "chan_closed (PodmanReady (ig_ready t))" "chan_closed (VNetGuestReady (ig_ready t))"
    by (auto simp: reportedServices_def)
  have ssh: "\<exists>u. monitor_step r u \<and> rd_emitted u = rd_emitted r @ [(EventSSHReady, ''ssh ready'')]"
    if "rd_ready r = ig_ready t" "mo_running (rd_mon r)" "\<not> mo_ssh (rd_mon r)" for r
    using monitor_ssh [of r] that t(4) by (auto simp: monitorDone_def runEmit_def)
  have podman: "\<exists>u. monitor_step r u \<and> rd_emitted u = rd_emitted r @ [(EventPodmanReady, podmanMsg r)]"
    if "rd_ready r = ig_ready t" "mo_running (rd_mon r)" "\<not> mo_podman (rd_mon r)" for r
    using monitor_podman [of r] that t(5) by (auto simp: monitorDone_def runEmit_def)
  show ?thesis using sent t ssh podman by (intro exI [of _ j] exI [of _ g'] exI [of _ t]) simp
qed

text \<open>An environment whose host answers by the ignition server.\<close>

definition toldServer :: ignServer where
  "toldServer = NewServer readyMachine NewReadiness"

definition toldEnv :: wait_env where
  "toldEnv = readyEnv\<lparr>we_host := \<lambda>_. ignPeer (\<lambda>_ b. Inr b) toldServer, we_podman := \<lambda>_ _. Inr \<lparr>StatusCode = 200, resp_body = Inr []\<rparr>\<rparr>"

theorem guest_readiness_reaches_host_witness:
  "\<exists>j g' t. WaitGuestServiceReady toldEnv readyMachine 0 sampleGuest = Some (Inr (), j, g') \<and> j \<le> 5 \<and>
     ignAfter (\<lambda>_ b. Inr b) (map received (hostSent g')) toldServer = Some t \<and>
     ig_spec t = readyMachine \<and> chan_closed (VNetGuestReady (ig_ready t)) \<and> \<not> chan_closed (VNetHostReady (ig_ready t))"
proof -
  have good: "readiness_ok (ig_ready toldServer)" by (simp add: toldServer_def NewServer_def)
  have "\<forall>j \<le> max 0 2 + 3. we_wake toldEnv j = Ticked"
    by (simp add: toldEnv_def readyEnv_def sampleWaitEnv_def)
  moreover have "\<forall>j \<ge> 2. sshUp (we_ssh toldEnv j) \<and> hasAddress toldEnv j ''lo'' \<and>
      answers200 (we_podman toldEnv j) (wireRequest (pingRequest readyMachine))"
    by (simp add: toldEnv_def readyEnv_def sampleWaitEnv_def readySsh_def sampleSshEnv_def sshUp_def
        answers200_def hasAddress_def)
  moreover have "\<forall>j. \<exists>s'. readiness_ok (ig_ready s') \<and> we_host toldEnv j = ignPeer (\<lambda>_ b. Inr b) s'"
    using good by (auto simp: toldEnv_def)
  moreover have "listensAt (GuestPodmanAPIListenAddr (PodmanInfo readyMachine))"
    unfolding listensAt_def by (rule exI [of _ "''0.0.0.0''"], rule exI [of _ 80], code_simp)
  moreover have "ok (fst (os_WriteFile tmpKey (HostSSHPrivateKey (SSHInfo readyMachine)) (g_os sampleGuest)))"
    by code_simp
  moreover have "VirtualNetworkMode readyMachine = TSI" by (simp add: readyMachine_def)
  moreover have "hostSent sampleGuest = []" by (simp add: hostSent_def sampleGuest_def)
  moreover have "\<not> chan_closed (VNetHostReady (ig_ready toldServer))" "ig_spec toldServer = readyMachine"
    by (simp_all add: toldServer_def NewServer_def NewReadiness_def newLatch_def)
  ultimately show ?thesis
    using guest_readiness_reaches_host [of 0 2 toldEnv "''lo''" readyMachine "\<lambda>_ b. Inr b" sampleGuest toldServer] good
    by fastforce
qed

subsection \<open>Stop requests\<close>

text \<open>C4. A stop request takes the guest down in order once its agent is ready, and nothing else does. Let
  the host create a microVM and meet any requests to its management API, signals and the end of its
  parent. Each stop request (by either path, with either method), signal and end of the parent writes
  one line into the pipe. Let the first \<open>d\<close> of the lines reach the guest (the log port may be gone
  before the rest), and let the agent register for signals after it got \<open>e\<close> of them. If no line
  came, it goes on as it was; if it was registered before the first, it runs \<open>sync\<close> and only then
  \<open>poweroff -f\<close>; and a stop that came before it was registered ends the agent itself, with nothing
  synced.\<close>

theorem stop_request_powers_off:
  assumes "krunCreate kenv (newKrun hm os pipes) = (Inr (), v)" and "0 < self"
    and "lines = take d (map signalWire (kv_signals (managed exec legacyExec es v)))"
    and "WaitAndShutdown genv False (agentEvents e (signalsOf self (signalPort self (concat lines)))) g = (fate, g')"
  shows "if d = 0 \<or> \<not> list_ex asksStop es then fate = WaitsOn \<and> g' = g
    else if e = 0 then fate = CutsPower \<and>
      (\<exists>b c. g_ran g' = g_ran g @ [([''sync''], b), ([''poweroff'', ''-f''], c)])
    else fate = KilledBy SIGTERM \<and> g' = g"
proof -
  let ?n = "length (filter asksStop es)"
  have pipe: "kv_signalPipeW v \<noteq> None" and none: "kv_signals v = []"
    using created_pipe [OF assms(1)] by (simp_all add: newKrun_def)
  have "lines = map signalWire (replicate (min ?n d) ''terminated'')"
    unfolding assms(3) managed_signals [OF pipe] none by (simp add: min.commute)
  then have "signalsOf self (signalPort self (concat lines)) = replicate (min ?n d) SIGTERM"
    using stops_read [of self "min ?n d"] assms(2) by simp
  then have end_: "(fate, g') = (if min ?n d = 0 then (WaitsOn, g)
      else if e = 0 then (CutsPower, PowerOff genv (SyncDisk genv g)) else (KilledBy SIGTERM, g))"
    using assms(4) shutdown_on_stop [of genv e "min ?n d" g] by metis
  have "min ?n d = 0 \<longleftrightarrow> d = 0 \<or> \<not> list_ex asksStop es"
    by (cases d; cases "filter asksStop es") (auto simp: list_ex_iff filter_empty_conv filter_eq_Cons_iff)
  then show ?thesis using end_ power_off_order [of genv g] by (auto split: if_splits)
qed

theorem stop_request_powers_off_witness:
  "\<exists>v. krunCreate sampleKrunEnv (newKrun sampleKrunMachine sampleKrunOS [(7, 8)]) = (Inr (), v) \<and>
     (let lines = take 1 (map signalWire (kv_signals (managed (\<lambda>_. Inl ErrCanceled) (\<lambda>_. Inl ErrCanceled)
          [Request [] \<lparr>hi_method = ''GET'', hi_path = ''/v2/healthz'', hi_body = Inr []\<rparr>,
           Request [] \<lparr>hi_method = ''POST'', hi_path = ''/stop'', hi_body = Inr []\<rparr>, HostSignal] v)));
          out = WaitAndShutdown sampleGuestEnv False (agentEvents 0 (signalsOf 1 (signalPort 1 (concat lines)))) sampleGuest
      in fst out = CutsPower \<and> (\<exists>b c. g_ran (snd out) = [([''sync''], b), ([''poweroff'', ''-f''], c)]))"
proof -
  obtain v where r: "krunCreate sampleKrunEnv (newKrun sampleKrunMachine sampleKrunOS [(7, 8)]) = (Inr (), v)"
    using sample_create_ok by (auto simp: ok_iff) (metis prod.collapse)
  moreover have "g_ran sampleGuest = []" by (simp add: sampleGuest_def)
  moreover note stop_request_powers_off [OF r zero_less_one refl surjective_pairing, where genv = sampleGuestEnv
        and exec = "\<lambda>_. Inl ErrCanceled" and legacyExec = "\<lambda>_. Inl ErrCanceled" and g = sampleGuest and d = 1 and e = 0
        and es = "[Request [] \<lparr>hi_method = ''GET'', hi_path = ''/v2/healthz'', hi_body = Inr []\<rparr>,
          Request [] \<lparr>hi_method = ''POST'', hi_path = ''/stop'', hi_body = Inr []\<rparr>, HostSignal]"]
  ultimately show ?thesis by (simp add: Let_def)
qed

subsection \<open>The Podman API\<close>

lemma ParseUint_Itoa_Inr: "ParseUint bits (Itoa n) = Inr k \<Longrightarrow> k = n \<and> n < 2 ^ bits"
  by (auto simp: ParseUint_def split: if_splits)

text \<open>C8. The Podman proxy of the host leads to Podman in the guest. For a machine that was built from
  a configuration, whenever the proxy comes to serve, it connects every connection it accepts to the
  very address that the guest, reading the description from the host, tells Podman to listen on:
  through gvproxy to that port of the guest's address, or from the workspace's socket straight to
  that port of the loopback interface the guest shares, by network mode.\<close>

theorem podman_proxy_target:
  assumes "env_keeps env" and "buildMachine env cfg ws s = (Inr cb, b)"
    and "StartPodmanProxy (b_spec b) as s1 = (Inr (target, conns, ended), s2)"
  shows "list_all (\<lambda>(c, t). t = target) conns \<and>
    (\<exists>port. last (sv_Args (sp_cfg (podmanSupervisor level (readBack (b_spec b))))) =
      ''tcp://'' @ (if Network cfg = TSI then LocalHost else UnspecifiedAddress) @ '':'' @ Itoa port \<and>
    (case target of
       ViaGvproxy ip p \<Rightarrow> Network cfg = GVISOR \<and> ip = GuestIP \<and> unat p = port
     | ViaForwarder f \<Rightarrow> Network cfg = TSI \<and> lf_Target f = LocalHost @ '':'' @ Itoa port \<and>
         lf_UnixSockAddr f = unixURL (GetPodmanSocketFile (newMachinePathManager (Abs (os_cwd s) (Clean ws))))))"
proof (rule conjI [OF proxied_connections [OF assms(3)]])
  let ?m = "b_spec b"
  let ?host = "if Network cfg = TSI then LocalHost else UnspecifiedAddress"
  note d = conjunct1 [OF buildMachine_describes [OF assms(1,2)], unfolded describes_def]
  from d have mode: "VirtualNetworkMode ?m = Network cfg" "Network cfg = GVISOR \<or> Network cfg = TSI"
    and proxy: "HostPodmanProxyAddr (PodmanInfo ?m) =
      unixURL (GetPodmanSocketFile (newMachinePathManager (Abs (os_cwd s) (Clean ws))))" by blast+
  from d obtain port :: u64 where listen: "GuestPodmanAPIListenAddr (PodmanInfo ?m) = JoinHostPort ?host (Itoa (unat port))"
    by blast
  have plain: "plainHost ?host" by (cases "Network cfg = TSI"; simp; code_simp)
  note addr = host_port_round_trip [OF plain, of "unat port"]
  have args: "last (sv_Args (sp_cfg (podmanSupervisor level (readBack ?m)))) = ''tcp://'' @ ?host @ '':'' @ Itoa (unat port)"
    by (simp add: podmanSupervisor_def newSupervisor_def readBack_def listen addr(1))
  show "\<exists>port. last (sv_Args (sp_cfg (podmanSupervisor level (readBack ?m)))) = ''tcp://'' @ ?host @ '':'' @ Itoa port \<and>
      (case target of
         ViaGvproxy ip p \<Rightarrow> Network cfg = GVISOR \<and> ip = GuestIP \<and> unat p = port
       | ViaForwarder f \<Rightarrow> Network cfg = TSI \<and> lf_Target f = LocalHost @ '':'' @ Itoa port \<and>
           lf_UnixSockAddr f = unixURL (GetPodmanSocketFile (newMachinePathManager (Abs (os_cwd s) (Clean ws)))))"
  proof (cases "Network cfg = TSI")
    case True
    moreover have "(GVISOR :: VNetMode) \<noteq> TSI" by (simp add: GVISOR_def TSI_def)
    ultimately obtain f where "target = ViaForwarder f" "lf_Target f = LocalHost @ '':'' @ Itoa (unat port)"
      "lf_UnixSockAddr f = HostPodmanProxyAddr (PodmanInfo ?m)"
      using assms(3) mode(1) listen addr(1)
      by (auto simp: StartPodmanProxy_def andThen_Inr_iff succeed_def Let_def split: prod.splits)
    with args proxy True show ?thesis by (intro exI [of _ "unat port"]) simp
  next
    case False
    with mode have m: "Network cfg = GVISOR" "VirtualNetworkMode ?m = GVISOR" by auto
    have start: "andThen (wrapping ''invalid port in guest podman address'' (lift (ParseUint 16 (Itoa (unat port))))) (\<lambda>p.
        andThen (TunnelHostUnixToGuest (GVPCtlAddr ?m) (HostPodmanProxyAddr (PodmanInfo ?m)) GuestIP (of_nat p) as) (\<lambda>(conns, ended).
          succeed (ViaGvproxy GuestIP (of_nat p), map (\<lambda>(c, _, ip, p). (c, ViaGvproxy ip p)) conns, ended))) s1 =
        (Inr (target, conns, ended), s2)"
      using assms(3) m(2) addr(2) by (simp add: StartPodmanProxy_def listen proc_defs)
    then obtain k where k: "ParseUint 16 (Itoa (unat port)) = Inr k" and t: "target = ViaGvproxy GuestIP (of_nat k)"
      by (cases "ParseUint 16 (Itoa (unat port))") (auto simp: proc_defs split: prod.splits sum.splits)
    from ParseUint_Itoa_Inr [OF k] have p: "k = unat port" "k < 2 ^ 16" by auto
    from p(2) have "unat (of_nat k :: u16) = k" by (simp add: unat_of_nat take_bit_eq_mod)
    then have "unat (of_nat k :: u16) = unat port" unfolding p(1) .
    with args m t show ?thesis by (intro exI [of _ "unat port"]) simp
  qed
qed

definition proxyOS :: OS where
  "proxyOS = sampleOS\<lparr>os_fs := [(''/tmp'', Directory), (''/tmp/s'', Directory), (''/tmp/s/socks'', Directory)]\<rparr>"

theorem podman_proxy_target_witness:
  "\<exists>cb b f s2 port. buildMachine sampleBuildEnv sampleBuildConfig ''/tmp/s'' sampleBuildOS = (Inr cb, b) \<and>
     StartPodmanProxy (b_spec b) [] proxyOS = (Inr (ViaForwarder f, [], None), s2) \<and>
     last (sv_Args (sp_cfg (podmanSupervisor ''info'' (readBack (b_spec b))))) = ''tcp://127.0.0.1:'' @ Itoa port \<and>
     lf_Target f = ''127.0.0.1:'' @ Itoa port"
proof -
  obtain cb b where b: "buildMachine sampleBuildEnv sampleBuildConfig ''/tmp/s'' sampleBuildOS = (Inr cb, b)"
    using sample_build_ok by (auto simp: ok_iff) (metis prod.collapse)
  have tsi: "Network sampleBuildConfig = TSI" by (simp add: sampleBuildConfig_def)
  have dir: "Abs (os_cwd sampleBuildOS) (Clean ''/tmp/s'') = ''/tmp/s''" by code_simp
  let ?addr = "unixURL (GetPodmanSocketFile (newMachinePathManager ''/tmp/s''))"
  have m: "VirtualNetworkMode (b_spec b) = TSI" "HostPodmanProxyAddr (PodmanInfo (b_spec b)) = ?addr"
    using conjunct1 [OF buildMachine_describes [OF sample_env_keeps b], unfolded describes_def dir tsi] by blast+
  let ?f = "\<lparr>lf_UnixSockAddr = ?addr, lf_Target = GuestPodmanAPIListenAddr (PodmanInfo (b_spec b)), lf_Timeout = 1000\<rparr>"
  have "ok (fst (LocalForwarder_Run \<lparr>lf_UnixSockAddr = ?addr, lf_Target = [], lf_Timeout = 1000\<rparr> [] proxyOS))"
    by code_simp
  then have "ok (fst (LocalForwarder_Run ?f [] proxyOS))"
    by (simp add: LocalForwarder_Run_def)
  then obtain r s2 where r: "LocalForwarder_Run ?f [] proxyOS = (Inr r, s2)"
    by (auto simp: ok_iff) (metis prod.collapse)
  then have "r = ([], False)"
    by (auto simp: LocalForwarder_Run_def andThen_Inr_iff succeed_def)
  with r m have run: "StartPodmanProxy (b_spec b) [] proxyOS = (Inr (ViaForwarder ?f, [], None), s2)"
    by (simp add: StartPodmanProxy_def GVISOR_def TSI_def andThen_def succeed_def Let_def)
  from podman_proxy_target [OF sample_env_keeps b run, of "''info''"] obtain port where p:
    "last (sv_Args (sp_cfg (podmanSupervisor ''info'' (readBack (b_spec b))))) = ''tcp://'' @ LocalHost @ '':'' @ Itoa port"
    "lf_Target ?f = LocalHost @ '':'' @ Itoa port"
    by (auto simp: tsi)
  show ?thesis
    by (intro exI [of _ cb] exI [of _ b] exI [of _ ?f] exI [of _ s2] exI [of _ port])
      (use b run p in \<open>simp add: LocalHost_def\<close>)
qed

end
